(* ===== verification/Prelude.thy ===== *)
theory Prelude
  imports Main "HOL-Library.Word"
begin

text \<open>
  Shared vocabulary of the development: the error sentinels of the Go packages and
  error chains, the outcome type of an effectful operation, the environment a request
  observes (context, entropy, clock, locks, host state), and the generic lemmas the
  component theories use.

  \<^bold>\<open>Errors.\<close> A Go error is modelled by the list of sentinels in its chain, in the
  order in which \<open>fmt.Errorf\<close> wraps them with \<open>%w\<close>; message text is dropped.
  \<open>errors.Is(err, s)\<close> is membership.

  \<^bold>\<open>Effects.\<close> An operation of type \<open>('w, 'a) eff\<close> takes a world and either does
  not return (\<open>None\<close>) or returns a result (\<open>Inl\<close> of an error chain or \<open>Inr\<close> of
  a value) with the next world.

  \<^bold>\<open>Values.\<close> Go strings and byte slices are \<open>string\<close> (a \<open>char\<close> is a byte);
  \<open>json.RawMessage\<close> is \<open>string option\<close>, \<open>None\<close> being the nil slice. Slices are
  lists and pointers to aggregates are values: every boundary of the source clones, so
  a HOL value stands for a detached copy.
\<close>

named_theorems eff_simps \<open>unfolding rules of the effect combinators\<close>
named_theorems wp_simps \<open>weakest preconditions of effects\<close>
named_theorems inst_simps \<open>effect of a fact operation on the fields of an instance\<close>

subsection \<open>Error sentinels\<close>

datatype sentinel =
    ErrInvalidDefinition | ErrAmbiguousRoute | ErrRouteNotFound | ErrInvalidNodeConfig
  | ErrInvalidHandler | ErrHandlerNotFound | ErrHandlerExists
  | ErrInvalidEngine | ErrInvalidStartRequest | ErrInvalidCommand | ErrInvalidWithdrawRequest
  | ErrInstanceNotRunning | ErrInvalidReturnRequest | ErrInvalidReturnTarget
  | ErrInvalidTransferRequest | ErrTaskNotTransferable | ErrInvalidNodeResult
  | ErrInvalidActivationTaskDraft | ErrInvalidCommandTaskSet
  | ErrInvalidStoreInput | ErrInstanceNotFound | ErrInstanceExists | ErrVersionConflict
  | ErrVersionOverflow
  | ErrDefinitionNotFound | ErrInvalidPublisher | ErrInvalidDefinitionStore
  | JsonErrInvalid
  | ApprovalErrInvalidCommand | ApprovalErrTaskNotActive | ApprovalErrInvalidConfig
  | ApprovalErrNoAssignees | ApprovalErrInvalidAssignee | ApprovalErrDuplicateAssignee
  | ApprovalErrAssignmentResolution | ApprovalErrOrganizationAdapterRequired
  | ConditionErrInvalidConfig | ConditionErrFieldNotFound | ConditionErrInvalidData
  | ConditionErrTypeMismatch | ConditionErrNoMatch | ConditionErrMultipleMatches
  | ConditionErrInvalidJSON | ConditionErrInvalidPointer
  | SqlErrNoRows | SqlErrTxDone | MySQLErrRollbackTimeout
  | PgxErrNoRows | PgxErrTxClosed | PgError string string | ErrInvalidProjectionQuery
  | ContextCanceled | ContextDeadlineExceeded
  | OtherError string

type_synonym err = "sentinel list"
type_synonym 'a result = "err + 'a"

definition errors_Is :: "err \<Rightarrow> sentinel \<Rightarrow> bool" where
  "errors_Is e s \<longleftrightarrow> s \<in> set e"

lemma errors_Is_simps [simp]:
  "errors_Is [] s = False"
  "errors_Is (x # e) s = (x = s \<or> errors_Is e s)"
  "errors_Is (e @ e') s = (errors_Is e s \<or> errors_Is e' s)"
  by (auto simp: errors_Is_def)

subsection \<open>Machine types and raw JSON\<close>

type_synonym u64 = "64 word"
type_synonym u16 = "16 word"

type_synonym raw = "string option"

definition raw_bytes :: "raw \<Rightarrow> string" where
  "raw_bytes r = (case r of None \<Rightarrow> [] | Some b \<Rightarrow> b)"

lemma raw_bytes_simps [simp]: "raw_bytes None = []" "raw_bytes (Some b) = b"
  by (simp_all add: raw_bytes_def)

subsection \<open>Results\<close>

definition isOk :: "'a result \<Rightarrow> bool" where
  "isOk r \<longleftrightarrow> (case r of Inl _ \<Rightarrow> False | Inr _ \<Rightarrow> True)"

definition bindR :: "'a result \<Rightarrow> ('a \<Rightarrow> 'b result) \<Rightarrow> 'b result" where
  "bindR r k = (case r of Inl e \<Rightarrow> Inl e | Inr x \<Rightarrow> k x)"

definition wrapR :: "err \<Rightarrow> 'a result \<Rightarrow> 'a result" where
  \<comment> \<open>\<open>fmt.Errorf("%w: %w", s, err)\<close> on the error branch\<close>
  "wrapR s r = (case r of Inl e \<Rightarrow> Inl (s @ e) | Inr x \<Rightarrow> Inr x)"

definition failIf :: "bool \<Rightarrow> err \<Rightarrow> unit result" where
  "failIf c e = (if c then Inl e else Inr ())"

lemma isOk_simps [simp]: "isOk (Inl e) = False" "isOk (Inr x) = True"
  by (simp_all add: isOk_def)

lemma isOk_iff: "isOk r \<longleftrightarrow> (\<exists>x. r = Inr x)"
  by (cases r) auto

lemma bindR_simps [simp]: "bindR (Inl e) k = Inl e" "bindR (Inr x) k = k x"
  by (simp_all add: bindR_def)

lemma bindR_Inr_iff: "bindR r k = Inr y \<longleftrightarrow> (\<exists>x. r = Inr x \<and> k x = Inr y)"
  by (cases r) auto

lemma bindR_Inl_iff:
  "bindR r k = Inl e \<longleftrightarrow> r = Inl e \<or> (\<exists>x. r = Inr x \<and> k x = Inl e)"
  by (cases r) auto

lemma wrapR_simps [simp]: "wrapR s (Inl e) = Inl (s @ e)" "wrapR s (Inr x) = Inr x"
  by (simp_all add: wrapR_def)

lemma wrapR_Inr_iff [simp]: "wrapR s r = Inr x \<longleftrightarrow> r = Inr x"
  by (cases r) auto

lemma failIf_Inr_iff [simp]: "failIf c e = Inr u \<longleftrightarrow> \<not> c"
  by (simp add: failIf_def)

lemma failIf_simps [simp]: "failIf True e = Inl e" "failIf False e = Inr ()"
  by (simp_all add: failIf_def)

subsection \<open>Effects\<close>

type_synonym ('w, 'a) eff = "'w \<Rightarrow> ('a result \<times> 'w) option"

definition ret :: "'a \<Rightarrow> ('w, 'a) eff" where
  "ret x = (\<lambda>w. Some (Inr x, w))"

definition raise :: "err \<Rightarrow> ('w, 'a) eff" where
  "raise e = (\<lambda>w. Some (Inl e, w))"

definition bindE :: "('w, 'a) eff \<Rightarrow> ('a \<Rightarrow> ('w, 'b) eff) \<Rightarrow> ('w, 'b) eff" where
  "bindE m k = (\<lambda>w. Option.bind (m w)
     (\<lambda>(r, w'). case r of Inl e \<Rightarrow> Some (Inl e, w') | Inr x \<Rightarrow> k x w'))"

definition liftR :: "'a result \<Rightarrow> ('w, 'a) eff" where
  "liftR r = (\<lambda>w. Some (r, w))"

definition wrapE :: "err \<Rightarrow> ('w, 'a) eff \<Rightarrow> ('w, 'a) eff" where
  "wrapE s m = (\<lambda>w. map_option (\<lambda>(r, w'). (wrapR s r, w')) (m w))"

definition onFst :: "('e, 'a) eff \<Rightarrow> ('e \<times> 's, 'a) eff" where
  \<comment> \<open>run an operation of the request environment inside a world that also has a store\<close>
  "onFst m = (\<lambda>(e, s). map_option (\<lambda>(r, e'). (r, (e', s))) (m e))"

lemmas eff_defs = ret_def raise_def bindE_def liftR_def wrapE_def onFst_def

lemma ret_run [eff_simps]: "ret x w = Some (Inr x, w)"
  by (simp add: ret_def)

lemma raise_run [eff_simps]: "raise e w = Some (Inl e, w)"
  by (simp add: raise_def)

lemma liftR_run [eff_simps]: "liftR r w = Some (r, w)"
  by (simp add: liftR_def)

lemma bindE_run [eff_simps]:
  "m w = Some (Inl e, w') \<Longrightarrow> bindE m k w = Some (Inl e, w')"
  "m w = Some (Inr x, w') \<Longrightarrow> bindE m k w = k x w'"
  "m w = None \<Longrightarrow> bindE m k w = None"
  by (simp_all add: bindE_def)

lemma bindE_ret_run [eff_simps]:
  "bindE (ret x) k w = k x w" "bindE (raise e) k w = Some (Inl e, w)"
  "bindE (liftR (Inr x)) k w = k x w" "bindE (liftR (Inl e)) k w = Some (Inl e, w)"
  by (simp_all add: bindE_def eff_simps)

lemma bindE_Inr_iff:
  "bindE m k w = Some (Inr y, w'') \<longleftrightarrow>
     (\<exists>x w'. m w = Some (Inr x, w') \<and> k x w' = Some (Inr y, w''))"
proof (cases "m w")
  case (Some p)
  obtain r w1 where "p = (r, w1)" by force
  with Some show ?thesis by (cases r) (auto simp: bindE_def)
qed (simp add: bindE_def)

lemma bindE_Inl_iff:
  "bindE m k w = Some (Inl e, w'') \<longleftrightarrow>
     m w = Some (Inl e, w'') \<or>
     (\<exists>x w'. m w = Some (Inr x, w') \<and> k x w' = Some (Inl e, w''))"
proof (cases "m w")
  case (Some p)
  obtain r w1 where "p = (r, w1)" by force
  with Some show ?thesis by (cases r) (auto simp: bindE_def)
qed (simp add: bindE_def)

lemma bindE_None_iff:
  "bindE m k w = None \<longleftrightarrow>
     m w = None \<or> (\<exists>x w'. m w = Some (Inr x, w') \<and> k x w' = None)"
proof (cases "m w")
  case (Some p)
  obtain r w1 where "p = (r, w1)" by force
  with Some show ?thesis by (cases r) (auto simp: bindE_def)
qed (simp add: bindE_def)

lemma bindE_cases [consumes 1, case_names diverge fail ok]:
  assumes "bindE m k w = out"
    and "m w = None \<Longrightarrow> out = None \<Longrightarrow> P"
    and "\<And>e w'. m w = Some (Inl e, w') \<Longrightarrow> out = Some (Inl e, w') \<Longrightarrow> P"
    and "\<And>x w'. m w = Some (Inr x, w') \<Longrightarrow> k x w' = out \<Longrightarrow> P"
  shows P
proof (cases "m w")
  case None
  then show ?thesis using assms by (simp add: eff_simps)
next
  case (Some p)
  obtain r w' where p: "p = (r, w')" by force
  show ?thesis using Some p assms by (cases r) (auto simp: eff_simps)
qed

lemma wrapE_Inr_iff [simp]: "wrapE s m w = Some (Inr x, w') \<longleftrightarrow> m w = Some (Inr x, w')"
  by (auto simp: wrapE_def)

lemma wrapE_None_iff [simp]: "wrapE s m w = None \<longleftrightarrow> m w = None"
  by (simp add: wrapE_def)

lemma wrapE_Inl_iff:
  "wrapE s m w = Some (Inl e, w') \<longleftrightarrow> (\<exists>e'. e = s @ e' \<and> m w = Some (Inl e', w'))"
proof
  assume "wrapE s m w = Some (Inl e, w')"
  then obtain r where "m w = Some (r, w')" "wrapR s r = Inl e"
    by (auto simp: wrapE_def)
  then show "\<exists>e'. e = s @ e' \<and> m w = Some (Inl e', w')" by (cases r) auto
qed (auto simp: wrapE_def)

lemma onFst_run [eff_simps]:
  "m e = Some (r, e') \<Longrightarrow> onFst m (e, s) = Some (r, (e', s))"
  "m e = None \<Longrightarrow> onFst m (e, s) = None"
  by (simp_all add: onFst_def)

lemma onFst_Some_iff:
  "onFst m w = Some (r, w') \<longleftrightarrow> m (fst w) = Some (r, fst w') \<and> snd w' = snd w"
  by (cases w; cases w') (auto simp: onFst_def)

lemma onFst_None_iff: "onFst m w = None \<longleftrightarrow> m (fst w) = None"
  by (cases w) (auto simp: onFst_def)

subsection \<open>Weakest preconditions of effects\<close>

text \<open>
  \<open>wpE D Q E m w\<close>: running \<open>m\<close> in \<open>w\<close> ends in a value satisfying \<open>Q\<close> or in an error
  satisfying \<open>E\<close>; \<open>D\<close> says whether not returning is acceptable. The equations in \<open>wp_simps\<close>
  compute it over the combinators.
\<close>

definition wpE ::
  "bool \<Rightarrow> ('a \<Rightarrow> 'w \<Rightarrow> bool) \<Rightarrow> (err \<Rightarrow> 'w \<Rightarrow> bool) \<Rightarrow> ('w, 'a) eff \<Rightarrow> 'w \<Rightarrow> bool" where
  "wpE D Q E m w \<longleftrightarrow> (case m w of
      None \<Rightarrow> D
    | Some (r, w') \<Rightarrow> (case r of Inl e \<Rightarrow> E e w' | Inr x \<Rightarrow> Q x w'))"

definition wpR :: "('a \<Rightarrow> bool) \<Rightarrow> (err \<Rightarrow> bool) \<Rightarrow> 'a result \<Rightarrow> bool" where
  "wpR Q E r \<longleftrightarrow> (case r of Inl e \<Rightarrow> E e | Inr x \<Rightarrow> Q x)"

lemma wpR_simps [simp]: "wpR Q E (Inr x) = Q x" "wpR Q E (Inl e) = E e"
  by (simp_all add: wpR_def)

lemma wpE_ret [wp_simps]: "wpE D Q E (ret x) = Q x"
  by (simp add: wpE_def eff_simps fun_eq_iff)

lemma wpE_raise [wp_simps]: "wpE D Q E (raise e) = E e"
  by (simp add: wpE_def eff_simps fun_eq_iff)

lemma wpE_liftR [wp_simps]: "wpE D Q E (liftR r) w = wpR (\<lambda>x. Q x w) (\<lambda>e. E e w) r"
  by (simp add: wpE_def wpR_def eff_simps)

lemma wpE_bindE [wp_simps]: "wpE D Q E (bindE m k) w = wpE D (\<lambda>x. wpE D Q E (k x)) E m w"
  by (auto simp: wpE_def bindE_def split: option.split sum.split)

lemma wpE_wrapE [wp_simps]: "wpE D Q E (wrapE s m) w = wpE D Q (\<lambda>e. E (s @ e)) m w"
  by (auto simp: wpE_def wrapE_def wrapR_def split: option.split sum.split)

lemma wpE_onFst [wp_simps]:
  "wpE D Q E (onFst m) w = wpE D (\<lambda>x e. Q x (e, snd w)) (\<lambda>x e. E x (e, snd w)) m (fst w)"
  by (cases w) (auto simp: wpE_def onFst_def split: option.split sum.split)

definition getSnd :: "('e \<times> 's, 's) eff" where
  "getSnd = (\<lambda>w. Some (Inr (snd w), w))"

definition putSnd :: "'s \<Rightarrow> ('e \<times> 's, unit) eff" where
  "putSnd s = (\<lambda>w. Some (Inr (), (fst w, s)))"

lemma wpE_getSnd [wp_simps]: "wpE D Q E getSnd w = Q (snd w) w"
  by (simp add: wpE_def getSnd_def)

lemma wpE_putSnd [wp_simps]: "wpE D Q E (putSnd s) w = Q () (fst w, s)"
  by (simp add: wpE_def putSnd_def)

lemma wpE_if [wp_simps]:
  "wpE D Q E (if c then m else m') w = (if c then wpE D Q E m w else wpE D Q E m' w)"
  by simp

lemma wpE_if_run [wp_simps]:
  "wpE D Q E (\<lambda>w. if c then m w else m' w) w = (if c then wpE D Q E m w else wpE D Q E m' w)"
  by simp

lemma wpE_mono:
  "wpE D Q E m w \<Longrightarrow> (\<And>x w'. Q x w' \<Longrightarrow> Q' x w') \<Longrightarrow> (\<And>e w'. E e w' \<Longrightarrow> E' e w') \<Longrightarrow>
   wpE D Q' E' m w"
  by (auto simp: wpE_def split: option.splits sum.splits)

lemma wpE_weaken:
  "wpE False Q E m w \<Longrightarrow> (\<And>x w'. Q x w' \<Longrightarrow> Q' x w') \<Longrightarrow> (\<And>e w'. E e w' \<Longrightarrow> E' e w') \<Longrightarrow>
   wpE D Q' E' m w"
  by (auto simp: wpE_def split: option.splits sum.splits)

lemma wpE_True: "wpE True (\<lambda>_ _. True) (\<lambda>_ _. True) m w"
  by (auto simp: wpE_def split: option.split sum.split)

lemma wpE_InrD: "wpE D Q E m w \<Longrightarrow> m w = Some (Inr x, w') \<Longrightarrow> Q x w'"
  by (simp add: wpE_def)

lemma wpE_InlD: "wpE D Q E m w \<Longrightarrow> m w = Some (Inl e, w') \<Longrightarrow> E e w'"
  by (simp add: wpE_def)

lemma wpE_returns: "wpE False Q E m w \<Longrightarrow> \<exists>r w'. m w = Some (r, w')"
  by (auto simp: wpE_def split: option.splits)

lemma wpE_ok_iff:
  "wpE True Q (\<lambda>_ _. True) m w \<longleftrightarrow> (\<forall>x w'. m w = Some (Inr x, w') \<longrightarrow> Q x w')"
  by (auto simp: wpE_def split: option.split sum.split)

lemma wpE_returns_iff:
  "wpE False (\<lambda>_ _. True) (\<lambda>_ _. True) m w \<longleftrightarrow> (\<exists>r w'. m w = Some (r, w'))"
  by (auto simp: wpE_def split: option.split sum.split)

lemma wpR_iff:
  "wpR Q E r \<longleftrightarrow> (\<forall>x. r = Inr x \<longrightarrow> Q x) \<and> (\<forall>e. r = Inl e \<longrightarrow> E e)"
  by (cases r) auto

lemma wpE_I:
  assumes "\<And>x w'. m w = Some (Inr x, w') \<Longrightarrow> Q x w'"
    and "\<And>e w'. m w = Some (Inl e, w') \<Longrightarrow> E e w'" and "m w = None \<Longrightarrow> D"
  shows "wpE D Q E m w"
  using assms by (auto simp: wpE_def split: option.split sum.split)

lemma wpE_any:
  "(\<And>x w'. Q x w') \<Longrightarrow> (\<And>e w'. E e w') \<Longrightarrow> wpE True Q E m w"
  by (rule wpE_mono[OF wpE_True])

lemma onFst_any:
  \<comment> \<open>a step of the request environment leaves the store as it is\<close>
  "(\<And>x e. Q x (e, snd w)) \<Longrightarrow> (\<And>x e. E x (e, snd w)) \<Longrightarrow> wpE True Q E (onFst m) w"
  unfolding wp_simps by (rule wpE_any) auto

text \<open>Recursive effects are least fixed points: \<open>bindE\<close> is monotone.\<close>

lemma bindE_mono [partial_function_mono]:
  assumes "monotone option.le_fun option_ord (\<lambda>f. B f w)"
    and "\<And>x w'. monotone option.le_fun option_ord (\<lambda>f. C x f w')"
  shows "monotone option.le_fun option_ord (\<lambda>f. bindE (B f) (\<lambda>x. C x f) w)"
  unfolding bindE_def
proof (intro bind_mono assms(1), goal_cases)
  case (1 p)
  then show ?case by (cases p; cases "fst p") (auto intro: assms(2) option.const_mono)
qed

subsection \<open>The environment of a request\<close>

type_synonym time = int

record 'h env =
  ctx_obs :: "nat \<Rightarrow> err option"     \<comment> \<open>what the k-th \<open>ctx.Err()\<close> of the request returns\<close>
  ctx_pos :: nat
  entropy :: "nat \<Rightarrow> string result"  \<comment> \<open>what the k-th \<open>rand.Read\<close> delivers\<close>
  entropy_pos :: nat
  clock :: "nat \<Rightarrow> time"             \<comment> \<open>what the k-th \<open>time.Now().UTC()\<close> returns\<close>
  clock_pos :: nat
  try_lock :: "nat \<Rightarrow> bool"          \<comment> \<open>what the k-th \<open>TryLock\<close>/\<open>TryRLock\<close> returns\<close>
  lock_pos :: nat
  host :: 'h                        \<comment> \<open>state of host-supplied collaborators\<close>

definition ctxErr :: "('h env, unit) eff" where
  "ctxErr w = Some (case ctx_obs w (ctx_pos w) of None \<Rightarrow> Inr () | Some e \<Rightarrow> Inl e,
                    w\<lparr>ctx_pos := Suc (ctx_pos w)\<rparr>)"

definition timeNow :: "('h env, time) eff" where
  "timeNow w = Some (Inr (clock w (clock_pos w)), w\<lparr>clock_pos := Suc (clock_pos w)\<rparr>)"

definition randRead :: "('h env, string) eff" where
  "randRead w = Some (entropy w (entropy_pos w), w\<lparr>entropy_pos := Suc (entropy_pos w)\<rparr>)"

definition tryLock :: "('h env, bool) eff" where
  "tryLock w = Some (Inr (try_lock w (lock_pos w)), w\<lparr>lock_pos := Suc (lock_pos w)\<rparr>)"

definition quietEnv :: "'h \<Rightarrow> 'h env" where
  \<comment> \<open>a request that is never cancelled, never waits for a lock and draws distinct bytes\<close>
  "quietEnv h = \<lparr>ctx_obs = (\<lambda>_. None), ctx_pos = 0,
     entropy = (\<lambda>k. Inr (replicate 15 (CHR 0x00) @ [char_of k])), entropy_pos = 0,
     clock = (\<lambda>k. int k + 1), clock_pos = 0, try_lock = (\<lambda>_. True), lock_pos = 0, host = h\<rparr>"

lemma env_wp [wp_simps]:
  "wpE D Q E timeNow w = Q (clock w (clock_pos w)) (w\<lparr>clock_pos := Suc (clock_pos w)\<rparr>)"
  "wpE D P E randRead w = wpR (\<lambda>b. P b (w\<lparr>entropy_pos := Suc (entropy_pos w)\<rparr>))
     (\<lambda>e. E e (w\<lparr>entropy_pos := Suc (entropy_pos w)\<rparr>)) (entropy w (entropy_pos w))"
  "wpE D R E tryLock w = R (try_lock w (lock_pos w)) (w\<lparr>lock_pos := Suc (lock_pos w)\<rparr>)"
  "wpE D S E ctxErr w = (case ctx_obs w (ctx_pos w) of
     None \<Rightarrow> S () (w\<lparr>ctx_pos := Suc (ctx_pos w)\<rparr>)
   | Some e \<Rightarrow> E e (w\<lparr>ctx_pos := Suc (ctx_pos w)\<rparr>))"
  by (auto simp: wpE_def timeNow_def randRead_def tryLock_def ctxErr_def wpR_def split: option.split)

lemma ctxErr_returns [simp]: "ctxErr w \<noteq> None"
  by (simp add: ctxErr_def)

lemma timeNow_returns [simp]: "timeNow w \<noteq> None" "timeNow w \<noteq> Some (Inl e, w')"
  by (simp_all add: timeNow_def)

lemma randRead_returns [simp]: "randRead w \<noteq> None"
  by (simp add: randRead_def)

lemma tryLock_returns [simp]: "tryLock w \<noteq> None"
  by (simp add: tryLock_def)

subsection \<open>Lists\<close>

lemma find_Some_in: "List.find P xs = Some x \<Longrightarrow> x \<in> set xs \<and> P x"
  by (induction xs) (auto split: if_splits)

lemma find_None_all: "List.find P xs = None \<Longrightarrow> x \<in> set xs \<Longrightarrow> \<not> P x"
  by (induction xs) (auto split: if_splits)

lemma map_of_Some_in: "map_of m k = Some v \<Longrightarrow> k \<in> fst ` set m"
  by (metis image_iff fst_conv map_of_SomeD)

lemma notin_image_iff: "x \<notin> f ` A \<longleftrightarrow> (\<forall>m\<in>A. f m \<noteq> x)"
  by auto

end
