(* ===== verification/Model.thy ===== *)
theory Model
  imports Prelude
begin

text \<open>
  The data of the workflow core: the canonical definition graph (\<open>definition.go\<close>), the
  runtime aggregate with its tasks and audit records, commands and lifecycle requests
  (\<open>runtime.go\<close>), and the protocol values of node handlers (\<open>handler.go\<close>). Go string
  types with declared constants are datatypes whose last constructor holds any other
  text. Times are instants (nanoseconds), 0 being Go's zero time.
\<close>

subsection \<open>Canonical definitions (definition.go)\<close>

definition KindStart :: string where "KindStart = ''start''"
definition KindEnd :: string where "KindEnd = ''end''"

record NodeDefinition =
  nd_ID :: string
  nd_Kind :: string
  nd_Config :: raw

record Edge =
  e_From :: string
  e_To :: string
  e_Outcome :: string

record Definition =
  d_ID :: string
  d_Version :: u64
  d_Nodes :: "NodeDefinition list"
  d_Edges :: "Edge list"

type_synonym edgeSelector = "string \<times> string"

lemma KindStart_neq_End [simp]: "KindStart \<noteq> KindEnd" "KindEnd \<noteq> KindStart"
  by (simp_all add: KindStart_def KindEnd_def)

subsection \<open>Builder (definition.go)\<close>

record Builder =
  b_definition :: Definition
  b_err :: "err option"

definition NewBuilder :: "string \<Rightarrow> Builder" where
  "NewBuilder ident = \<lparr>b_definition = \<lparr>d_ID = ident, d_Version = 1, d_Nodes = [], d_Edges = []\<rparr>,
                    b_err = None\<rparr>"

definition Builder_Node :: "Builder \<Rightarrow> string \<Rightarrow> string \<Rightarrow> string result option \<Rightarrow> Builder" where
  \<comment> \<open>\<open>config\<close>: \<open>None\<close> for nil, otherwise what \<open>json.Marshal(config)\<close> returns\<close>
  "Builder_Node b ident kind config =
     (if b_err b \<noteq> None then b
      else case config of
        Some (Inl e) \<Rightarrow> b\<lparr>b_err := Some e\<rparr>
      | _ \<Rightarrow>
        let cfg = (case config of Some (Inr data) \<Rightarrow> Some data | _ \<Rightarrow> None);
            d = b_definition b
        in b\<lparr>b_definition := d\<lparr>d_Nodes := d_Nodes d @
               [\<lparr>nd_ID = ident, nd_Kind = kind, nd_Config = cfg\<rparr>]\<rparr>\<rparr>)"

definition Builder_Start :: "Builder \<Rightarrow> string \<Rightarrow> Builder" where
  "Builder_Start b ident = Builder_Node b ident KindStart None"

definition Builder_End :: "Builder \<Rightarrow> string \<Rightarrow> Builder" where
  "Builder_End b ident = Builder_Node b ident KindEnd None"

definition Builder_Connect :: "Builder \<Rightarrow> string \<Rightarrow> string \<Rightarrow> string \<Rightarrow> Builder" where
  "Builder_Connect b source to outcome =
     (if b_err b \<noteq> None then b
      else let d = b_definition b in
        b\<lparr>b_definition := d\<lparr>d_Edges := d_Edges d @
            [\<lparr>e_From = source, e_To = to, e_Outcome = outcome\<rparr>]\<rparr>\<rparr>)"

subsection \<open>Runtime aggregate (runtime.go)\<close>

type_synonym ActorID = string
type_synonym InstanceID = string
type_synonym TaskID = string

datatype InstanceStatus =
    InstanceStatusUnknown | InstanceStatusRunning | InstanceStatusCompleted
  | InstanceStatusRejected | InstanceStatusWithdrawn | InstanceStatusOther string

datatype TaskStatus =
    TaskStatusUnknown | TaskStatusActive | TaskStatusCompleted | TaskStatusClosed
  | TaskStatusOther string

record Task =
  t_ID :: TaskID
  t_NodeID :: string
  t_Assignee :: ActorID
  t_Status :: TaskStatus
  t_Outcome :: string

record AuditRecord =
  a_Action :: string
  a_InstanceID :: InstanceID
  a_NodeID :: string
  a_TargetNodeID :: string
  a_TaskID :: TaskID
  a_ActorID :: ActorID
  a_PreviousAssignee :: ActorID
  a_NewAssignee :: ActorID
  a_Reason :: string
  a_NodeState :: string
  a_At :: time

definition emptyAudit :: AuditRecord where
  \<comment> \<open>the zero value of the struct\<close>
  "emptyAudit = \<lparr>a_Action = [], a_InstanceID = [], a_NodeID = [], a_TargetNodeID = [],
     a_TaskID = [], a_ActorID = [], a_PreviousAssignee = [], a_NewAssignee = [],
     a_Reason = [], a_NodeState = [], a_At = 0\<rparr>"

record Instance =
  i_ID :: InstanceID
  i_Definition :: Definition
  i_Status :: InstanceStatus
  i_Initiator :: ActorID
  i_CurrentNodeID :: string
  i_Data :: raw
  i_NodeState :: raw
  i_Tasks :: "Task list"
  i_Audit :: "AuditRecord list"
  i_Version :: u64

record StartRequest =
  sr_ID :: InstanceID
  sr_Initiator :: ActorID
  sr_Data :: raw

record WithdrawRequest =
  wr_InstanceID :: InstanceID
  wr_ActorID :: ActorID

record ReturnRequest =
  rr_InstanceID :: InstanceID
  rr_ActorID :: ActorID
  rr_TargetNodeID :: string
  rr_Reason :: string

record TransferRequest =
  tr_InstanceID :: InstanceID
  tr_TaskID :: TaskID
  tr_ActorID :: ActorID
  tr_NewAssignee :: ActorID
  tr_Reason :: string

record Command =
  c_InstanceID :: InstanceID
  c_TaskID :: TaskID
  c_ActorID :: ActorID
  c_Name :: string
  c_Payload :: raw

subsection \<open>Lifecycle policies (runtime.go)\<close>

text \<open>Host code: a policy answers nil (\<open>Inr ()\<close>) or an error.\<close>

type_synonym 'h WithdrawalPolicy = "ActorID \<Rightarrow> Instance \<Rightarrow> ('h env, unit) eff"
type_synonym 'h ReturnPolicy = "ReturnRequest \<Rightarrow> Instance \<Rightarrow> ('h env, unit) eff"
type_synonym 'h TransferPolicy = "TransferRequest \<Rightarrow> Task \<Rightarrow> Instance \<Rightarrow> ('h env, unit) eff"

subsection \<open>Handler protocol (handler.go)\<close>

datatype Disposition =
    DispositionUnknown | DispositionWaiting | DispositionContinue | DispositionReject
  | DispositionOther string

record NodeResult =
  nr_Disposition :: Disposition
  nr_Outcome :: string
  nr_State :: raw
  nr_Tasks :: "Task list"

record ActivationInput =
  ai_Config :: raw
  ai_Data :: raw

record CommandInput =
  ci_Command :: Command
  ci_Config :: raw
  ci_Data :: raw
  ci_State :: raw
  ci_Tasks :: "Task list"

record PreparedActivationInput =
  pai_Data :: raw

record PreparedCommandInput =
  pci_Command :: Command
  pci_Data :: raw
  pci_State :: raw
  pci_Tasks :: "Task list"

record 'h PreparedNodeHandler =
  ActivatePrepared :: "PreparedActivationInput \<Rightarrow> ('h env, NodeResult) eff"
  HandlePrepared :: "PreparedCommandInput \<Rightarrow> ('h env, NodeResult) eff"

record 'h NodeHandler =
  nh_Validate :: "raw \<Rightarrow> unit result"
  nh_Activate :: "ActivationInput \<Rightarrow> ('h env, NodeResult) eff"
  nh_Handle :: "CommandInput \<Rightarrow> ('h env, NodeResult) eff"
  nh_PrepareConfig :: "(raw \<Rightarrow> 'h PreparedNodeHandler option result) option"
    \<comment> \<open>\<open>None\<close>: \<open>NodeHandlerConfigPreparer\<close> is not implemented; an \<open>Inr None\<close> result
        is a nil executor\<close>

subsection \<open>Shared observations\<close>

abbreviation active :: "Task \<Rightarrow> bool" where
  "active t \<equiv> t_Status t = TaskStatusActive"

definition activeTasks :: "Instance \<Rightarrow> Task list" where
  "activeTasks i = filter active (i_Tasks i)"

lemma activeTasks_eq_Nil: "activeTasks i = [] \<longleftrightarrow> (\<forall>t\<in>set (i_Tasks i). \<not> active t)"
  by (simp add: activeTasks_def filter_empty_conv)

fun isBlank :: "string \<Rightarrow> bool" where
  \<comment> \<open>\<open>strings.TrimSpace(s) == ""\<close>: only Unicode white space, in its UTF-8 encoding\<close>
  "isBlank [] = True"
| "isBlank (c # cs) =
     (let n = (of_char c :: nat) in
      if n \<in> {9, 10, 11, 12, 13, 32} then isBlank cs
      else (case cs of
          [] \<Rightarrow> False
        | d # ds \<Rightarrow>
            let m = (of_char d :: nat) in
            if n = 0xC2 \<and> (m = 0x85 \<or> m = 0xA0) then isBlank ds
            else (case ds of
                [] \<Rightarrow> False
              | e # es \<Rightarrow>
                  let k = (of_char e :: nat) in
                  if (n = 0xE1 \<and> m = 0x9A \<and> k = 0x80) \<or>
                     (n = 0xE2 \<and> m = 0x80 \<and> (0x80 \<le> k \<and> k \<le> 0x8A \<or> k = 0xA8 \<or> k = 0xA9 \<or> k = 0xAF)) \<or>
                     (n = 0xE2 \<and> m = 0x81 \<and> k = 0x9F) \<or>
                     (n = 0xE3 \<and> m = 0x80 \<and> k = 0x80)
                  then isBlank es else False)))"

end
