(* ===== verification/Handler.thy ===== *)
theory Handler
  imports Model
begin

text \<open>
  The handler registry (\<open>handler.go\<close>) and the adaptation of a registered handler into a
  request-local executor (\<open>handler_preparation.go\<close>). A registry is a map from kinds to
  handlers; nil pointers and nil interface values (package \<open>nilguard\<close>) are \<open>None\<close>.
  The mutex serialises registrations, so each operation is one step.

  Main facts: \<open>Register_insert_only\<close> (a registered kind is never replaced) and
  \<open>prepare_legacy\<close>/\<open>prepare_preparer\<close> (which executor a handler gets).
\<close>

type_synonym 'h Registry = "string \<rightharpoonup> 'h NodeHandler"

definition NewRegistry :: "'h Registry" where
  "NewRegistry = Map.empty"

definition Register ::
  "'h Registry option \<Rightarrow> string \<Rightarrow> 'h NodeHandler option \<Rightarrow> unit result \<times> 'h Registry option" where
  "Register r kind handler =
     (case (r, handler) of
        (Some reg, Some h) \<Rightarrow>
          if kind = [] then (Inl [ErrInvalidHandler], r)
          else if reg kind \<noteq> None then (Inl [ErrHandlerExists], r)
          else (Inr (), Some (reg(kind \<mapsto> h)))
      | _ \<Rightarrow> (Inl [ErrInvalidHandler], r))"

definition Registry_handler :: "'h Registry option \<Rightarrow> string \<Rightarrow> 'h NodeHandler result" where
  "Registry_handler r kind =
     (case r of
        None \<Rightarrow> Inl [ErrHandlerNotFound]
      | Some reg \<Rightarrow> (case reg kind of
            None \<Rightarrow> Inl [ErrHandlerNotFound]
          | Some h \<Rightarrow> Inr h))"

definition legacyActivatePrepared ::
  "'h NodeHandler \<Rightarrow> raw \<Rightarrow> PreparedActivationInput \<Rightarrow> ('h env, NodeResult) eff" where
  "legacyActivatePrepared h config input =
     nh_Activate h \<lparr>ai_Config = config, ai_Data = pai_Data input\<rparr>"

definition legacyHandlePrepared ::
  "'h NodeHandler \<Rightarrow> raw \<Rightarrow> PreparedCommandInput \<Rightarrow> ('h env, NodeResult) eff" where
  "legacyHandlePrepared h config input =
     nh_Handle h \<lparr>ci_Command = pci_Command input, ci_Config = config, ci_Data = pci_Data input,
                   ci_State = pci_State input, ci_Tasks = pci_Tasks input\<rparr>"

definition legacyPrepared :: "'h NodeHandler \<Rightarrow> raw \<Rightarrow> 'h PreparedNodeHandler" where
  "legacyPrepared h config =
     \<lparr>ActivatePrepared = legacyActivatePrepared h config,
      HandlePrepared = legacyHandlePrepared h config\<rparr>"

definition prepareRegisteredNodeHandler ::
  "'h NodeHandler option \<Rightarrow> raw \<Rightarrow> 'h PreparedNodeHandler result" where
  "prepareRegisteredNodeHandler handler config =
     (case handler of
        None \<Rightarrow> Inl [ErrInvalidHandler]
      | Some h \<Rightarrow>
          (case nh_PrepareConfig h of
             Some prepare \<Rightarrow>
               bindR (prepare config) (\<lambda>prepared.
               case prepared of
                 None \<Rightarrow> Inl [ErrInvalidHandler]
               | Some p \<Rightarrow> Inr p)
           | None \<Rightarrow>
               bindR (nh_Validate h config) (\<lambda>_. Inr (legacyPrepared h config))))"

lemma prepare_preparer:
  "nh_PrepareConfig h = Some prepare \<Longrightarrow>
   prepareRegisteredNodeHandler (Some h) config = Inr p \<longleftrightarrow> prepare config = Inr (Some p)"
  by (auto simp: prepareRegisteredNodeHandler_def bindR_Inr_iff split: option.splits)

lemma prepare_legacy:
  "nh_PrepareConfig h = None \<Longrightarrow>
   prepareRegisteredNodeHandler (Some h) config = Inr p \<longleftrightarrow>
     nh_Validate h config = Inr () \<and> p = legacyPrepared h config"
  by (auto simp: prepareRegisteredNodeHandler_def bindR_Inr_iff)

lemma Register_insert_only:
  assumes "Register (Some reg) kind h = (res, Some reg')" and "reg k = Some g"
  shows "reg' k = Some g"
  using assms by (auto simp: Register_def split: option.splits if_splits)

lemma Register_handler:
  assumes "Register r kind h = (Inr (), r')"
  shows "Registry_handler r' kind = Inr (the h)" "Registry_handler r kind = Inl [ErrHandlerNotFound]"
    "k \<noteq> kind \<Longrightarrow> Registry_handler r' k = Registry_handler r k"
  using assms by (auto simp: Register_def Registry_handler_def split: option.splits if_splits)

lemma Register_error_unchanged: "Register r kind h = (Inl e, r') \<Longrightarrow> r' = r"
  by (auto simp: Register_def split: option.splits if_splits)

end
