(* ===== verification/Graph.thy ===== *)
theory Graph
  imports Prelude "HOL-Library.AList"
begin

text \<open>
  The two worklist algorithms of the definition compiler, over association lists that
  stand for Go maps: \<open>kahn\<close> (the counting loop of \<open>validateAcyclic\<close>) and \<open>bfs\<close> (the scans
  of \<open>validateReachable\<close> and \<open>validateCanReachEnd\<close>). Reading an absent key yields the zero
  value, as in Go.

  Main facts: \<open>kahn_complete_iff_acyclic\<close> (the count reaches the number of nodes exactly
  when the graph is acyclic, for every order in which the roots are seeded) and
  \<open>bfs_reach\<close> (the visited set is the set of reachable nodes).
\<close>

type_synonym 'n adj = "('n \<times> 'n list) list"

definition adjOf :: "'n adj \<Rightarrow> 'n \<Rightarrow> 'n list" where
  "adjOf adj n = (case map_of adj n of None \<Rightarrow> [] | Some ts \<Rightarrow> ts)"

definition adjAppend :: "'n adj \<Rightarrow> 'n \<Rightarrow> 'n \<Rightarrow> 'n adj" where
  \<comment> \<open>\<open>m[n] = append(m[n], t)\<close>\<close>
  "adjAppend adj n t = AList.update n (adjOf adj n @ [t]) adj"

definition cnt :: "('n \<times> int) list \<Rightarrow> 'n \<Rightarrow> int" where
  "cnt m k = (case map_of m k of None \<Rightarrow> 0 | Some v \<Rightarrow> v)"

definition cntAdd :: "('n \<times> int) list \<Rightarrow> 'n \<Rightarrow> int \<Rightarrow> ('n \<times> int) list" where
  \<comment> \<open>\<open>m[k] += d\<close>\<close>
  "cntAdd m k d = AList.update k (cnt m k + d) m"

definition adjRel :: "'n adj \<Rightarrow> ('n \<times> 'n) set" where
  "adjRel adj = {(n, t). t \<in> set (adjOf adj n)}"

definition targets :: "'n adj \<Rightarrow> 'n list" where
  "targets adj = concat (map snd adj)"

lemma adjOf_append [simp]:
  "adjOf (adjAppend adj n t) m = (if m = n then adjOf adj n @ [t] else adjOf adj m)"
  by (simp add: adjOf_def adjAppend_def update_conv')

lemma cnt_cntAdd [simp]: "cnt (cntAdd m k d) j = (if j = k then cnt m k + d else cnt m j)"
  by (simp add: cnt_def cntAdd_def update_conv')

lemma adjOf_targets: "set (adjOf adj n) \<subseteq> set (targets adj)"
proof (cases "map_of adj n")
  case (Some ts)
  then have "ts \<in> set (map snd adj)" by (force dest: map_of_SomeD)
  with Some show ?thesis by (auto simp: adjOf_def targets_def)
qed (simp add: adjOf_def)

subsection \<open>Breadth-first scan\<close>

fun expand :: "'n list \<Rightarrow> 'n list \<Rightarrow> 'n list \<Rightarrow> 'n list \<times> 'n list" where
  "expand visited queue [] = (visited, queue)"
| "expand visited queue (t # ts) =
     (if t \<in> set visited then expand visited queue ts
      else expand (t # visited) (queue @ [t]) ts)"

lemma expand_spec:
  "expand visited queue ts = (visited', queue') \<Longrightarrow>
     \<exists>new. queue' = queue @ new \<and> set visited' = set visited \<union> set ts \<and>
       set new = set ts - set visited \<and> (distinct visited \<longrightarrow> distinct visited') \<and>
       (set visited' = set visited \<longrightarrow> visited' = visited \<and> queue' = queue)"
proof (induction visited queue ts rule: expand.induct)
  case (2 visited queue t ts)
  show ?case
  proof (cases "t \<in> set visited")
    case True
    with 2 show ?thesis by auto
  next
    case False
    with 2 obtain new where "queue' = (queue @ [t]) @ new"
      "set visited' = insert t (set visited) \<union> set ts"
      "set new = set ts - insert t (set visited)"
      "distinct (t # visited) \<longrightarrow> distinct visited'"
      by auto
    with False show ?thesis by (intro exI[of _ "t # new"]) auto
  qed
qed auto

function bfs :: "'n adj \<Rightarrow> 'n list \<Rightarrow> 'n list \<Rightarrow> 'n list" where
  "bfs adj visited [] = visited"
| "bfs adj visited (x # queue) =
     (let (visited', queue') = expand visited queue (adjOf adj x) in bfs adj visited' queue')"
  by pat_completeness auto
termination
proof (relation "measures [\<lambda>(adj, v, q). card (set (targets adj) - set v), \<lambda>(adj, v, q). length q]",
    goal_cases)
  case (2 adj visited x queue p visited' queue')
  from 2 obtain new where spec: "set visited' = set visited \<union> set (adjOf adj x)"
    "set visited' = set visited \<longrightarrow> visited' = visited \<and> queue' = queue"
    using expand_spec[of visited queue "adjOf adj x" visited' queue'] by auto
  show ?case
  proof (cases "set (adjOf adj x) \<subseteq> set visited")
    case True
    with spec show ?thesis by (auto simp: sup_absorb1)
  next
    case False
    with spec adjOf_targets[of adj x]
    have "set (targets adj) - set visited' \<subset> set (targets adj) - set visited" by auto
    then show ?thesis by (simp add: psubset_card_mono)
  qed
qed simp

declare bfs.simps(2) [simp del]

definition closedUnder :: "'n adj \<Rightarrow> 'n set \<Rightarrow> 'n set \<Rightarrow> bool" where
  \<comment> \<open>every successor of a node of \<open>A\<close> lies in \<open>B\<close>\<close>
  "closedUnder adj A B \<longleftrightarrow> (\<forall>n\<in>A. set (adjOf adj n) \<subseteq> B)"

lemma bfs_spec:
  assumes "set queue \<subseteq> set visited" "closedUnder adj (set visited - set queue) (set visited)"
  shows "set visited \<subseteq> set (bfs adj visited queue)
    \<and> closedUnder adj (set (bfs adj visited queue)) (set (bfs adj visited queue))
    \<and> set (bfs adj visited queue) \<subseteq> (adjRel adj)\<^sup>* `` set visited
    \<and> (distinct visited \<longrightarrow> distinct (bfs adj visited queue))"
  using assms
proof (induction adj visited queue rule: bfs.induct)
  case (1 adj visited)
  then show ?case by auto
next
  case (2 adj visited x queue)
  obtain visited' queue' where ex: "expand visited queue (adjOf adj x) = (visited', queue')"
    by force
  from expand_spec[OF ex] obtain new where s:
    "queue' = queue @ new" "set visited' = set visited \<union> set (adjOf adj x)"
    "set new = set (adjOf adj x) - set visited" "distinct visited \<longrightarrow> distinct visited'"
    by blast
  have q: "set queue' \<subseteq> set visited'" using 2 s by auto
  have c: "closedUnder adj (set visited' - set queue') (set visited')"
    using "2.prems" s unfolding closedUnder_def by auto
  have "set visited' \<subseteq> (adjRel adj)\<^sup>* `` set visited"
    using "2.prems"(1) s(2) by (auto simp: adjRel_def)
  then have "(adjRel adj)\<^sup>* `` set visited' \<subseteq> (adjRel adj)\<^sup>* `` set visited"
    by (auto simp: subset_iff Image_iff intro: rtrancl_trans)
  with "2.IH"[OF ex[symmetric] refl q c] s ex show ?case
    by (auto simp: bfs.simps(2))
qed

lemma closed_rtrancl:
  "closedUnder adj S S \<Longrightarrow> (a, b) \<in> (adjRel adj)\<^sup>* \<Longrightarrow> a \<in> S \<Longrightarrow> b \<in> S"
  by (rotate_tac 1, induction rule: rtrancl_induct) (auto simp: closedUnder_def adjRel_def)

lemma bfs_reach: "set (bfs adj seeds seeds) = (adjRel adj)\<^sup>* `` set seeds"
proof -
  have *: "set seeds \<subseteq> set (bfs adj seeds seeds)"
    "closedUnder adj (set (bfs adj seeds seeds)) (set (bfs adj seeds seeds))"
    "set (bfs adj seeds seeds) \<subseteq> (adjRel adj)\<^sup>* `` set seeds"
    using bfs_spec[of seeds seeds adj] by (auto simp: closedUnder_def)
  then show ?thesis by (auto dest: closed_rtrancl)
qed

lemma bfs_distinct: "distinct seeds \<Longrightarrow> distinct (bfs adj seeds seeds)"
  using bfs_spec[of seeds seeds adj] by (auto simp: closedUnder_def)

subsection \<open>Counting topological scan\<close>

fun relax :: "('n \<times> int) list \<Rightarrow> 'n list \<Rightarrow> 'n list \<Rightarrow> ('n \<times> int) list \<times> 'n list" where
  "relax remaining queue [] = (remaining, queue)"
| "relax remaining queue (t # ts) =
     (let remaining' = cntAdd remaining t (-1) in
      relax remaining' (if cnt remaining' t = 0 then queue @ [t] else queue) ts)"

lemma relax_cnt: "cnt (fst (relax remaining queue ts)) t = cnt remaining t - int (count_list ts t)"
  by (induction remaining queue ts rule: relax.induct) (auto simp: Let_def)

lemma relax_queue:
  "\<exists>new. snd (relax remaining queue ts) = queue @ new \<and> distinct new \<and>
     set new = {t. 0 < cnt remaining t \<and> cnt remaining t \<le> int (count_list ts t)}"
proof (induction remaining queue ts rule: relax.induct)
  case (2 remaining queue t ts)
  let ?r = "cntAdd remaining t (-1)"
  let ?q = "if cnt ?r t = 0 then queue @ [t] else queue"
  obtain new where n: "snd (relax ?r ?q ts) = ?q @ new" "distinct new"
    "set new = {u. 0 < cnt ?r u \<and> cnt ?r u \<le> int (count_list ts u)}"
    using 2[OF refl] by blast
  show ?case
  proof (cases "cnt ?r t = 0")
    case True
    with n show ?thesis by (intro exI[of _ "t # new"]) (auto simp: Let_def)
  next
    case False
    with n show ?thesis by (intro exI[of _ new]) (auto simp: Let_def)
  qed
qed auto

definition pending :: "'n adj \<Rightarrow> ('n \<times> int) list \<Rightarrow> 'n set" where
  "pending adj remaining = {t \<in> set (targets adj). 0 < cnt remaining t}"

lemma relax_measure:
  assumes "relax remaining queue (adjOf adj x) = (remaining', queue')"
  shows "card (pending adj remaining') + length queue' \<le> card (pending adj remaining) + length queue"
proof -
  let ?ts = "adjOf adj x"
  obtain new where n: "queue' = queue @ new" "distinct new"
    "set new = {t. 0 < cnt remaining t \<and> cnt remaining t \<le> int (count_list ?ts t)}"
    using relax_queue[of remaining queue ?ts] assms by auto
  have c: "cnt remaining' t = cnt remaining t - int (count_list ?ts t)" for t
    using relax_cnt[of remaining queue ?ts t] assms by simp
  have "t \<in> set ?ts" if "t \<in> set new" for t
    using that n(3) by (cases "t \<in> set ?ts") (auto simp: count_notin)
  then have sub: "set new \<subseteq> pending adj remaining"
    using n(3) adjOf_targets[of adj x] by (auto simp: pending_def)
  have "pending adj remaining' \<subseteq> pending adj remaining - set new"
    using c n(3) by (auto simp: pending_def)
  then have "card (pending adj remaining') \<le> card (pending adj remaining - set new)"
    by (intro card_mono) (auto simp: pending_def)
  also have "\<dots> = card (pending adj remaining) - length new"
    using sub n(2) by (simp add: card_Diff_subset distinct_card)
  finally show ?thesis
    using sub n(1,2) card_mono[OF _ sub] by (auto simp: distinct_card pending_def)
qed

function kahn :: "'n adj \<Rightarrow> ('n \<times> int) list \<Rightarrow> 'n list \<Rightarrow> nat \<Rightarrow> nat" where
  "kahn adj remaining [] visited = visited"
| "kahn adj remaining (x # queue) visited =
     (let (remaining', queue') = relax remaining queue (adjOf adj x)
      in kahn adj remaining' queue' (Suc visited))"
  by pat_completeness auto
termination
proof (relation "measure (\<lambda>(adj, r, q, v). card (pending adj r) + length q)", goal_cases)
  case (2 adj remaining x queue visited p remaining' queue')
  then show ?case using relax_measure[of remaining queue adj x remaining' queue'] by simp
qed simp

declare kahn.simps(2) [simp del]

text \<open>
  The invariant of the loop: \<open>P\<close> is the set of processed nodes, the counter of a node is
  the number of its edges from unprocessed nodes, the queue holds exactly the unprocessed
  nodes whose counter is zero, and the graph is acyclic on \<open>P\<close>.
\<close>

definition edgesFrom :: "'n adj \<Rightarrow> 'n set \<Rightarrow> 'n \<Rightarrow> nat" where
  "edgesFrom adj A t = (\<Sum>n\<in>A. count_list (adjOf adj n) t)"

definition kahnInv :: "'n adj \<Rightarrow> 'n set \<Rightarrow> 'n set \<Rightarrow> ('n \<times> int) list \<Rightarrow> 'n list \<Rightarrow> nat \<Rightarrow> bool" where
  "kahnInv adj N P remaining queue visited \<longleftrightarrow>
     finite N \<and> P \<subseteq> N \<and> distinct queue \<and> set queue \<subseteq> N - P \<and> visited = card P \<and>
     (\<forall>t\<in>N. cnt remaining t = int (edgesFrom adj (N - P) t)) \<and>
     (\<forall>t\<in>N - P. cnt remaining t = 0 \<longleftrightarrow> t \<in> set queue) \<and>
     (\<forall>t\<in>P. edgesFrom adj (N - P) t = 0) \<and>
     acyclic (adjRel adj \<inter> P \<times> P)"

lemma edgesFrom_zero:
  "finite A \<Longrightarrow> edgesFrom adj A t = 0 \<longleftrightarrow> (\<forall>n\<in>A. (n, t) \<notin> adjRel adj)"
  by (auto simp: edgesFrom_def adjRel_def count_list_0_iff)

lemma acyclic_add_sink:
  assumes "acyclic R" "R' \<subseteq> R \<union> A \<times> {x}" "x \<notin> Domain R'"
  shows "acyclic R'"
proof -
  have *: "(a, b) \<in> R\<^sup>+ \<or> b = x" if "(a, b) \<in> R'\<^sup>+" for a b
    using that
  proof (induction rule: trancl_induct)
    case (base b)
    then show ?case using assms(2) by auto
  next
    case (step b c)
    then have "b \<noteq> x" using assms(3) by auto
    with step assms(2) show ?case by (auto intro: trancl_into_trancl)
  qed
  show ?thesis
  proof (rule acyclicI, intro allI notI)
    fix a assume a: "(a, a) \<in> R'\<^sup>+"
    from *[OF a] show False
    proof
      assume "(a, a) \<in> R\<^sup>+"
      with assms(1) show False by (auto simp: acyclic_def)
    next
      assume "a = x"
      with a assms(3) show False by (metis Domain.DomainI trancl_domain)
    qed
  qed
qed

lemma kahnInv_step:
  assumes inv: "kahnInv adj N P remaining (x # queue) visited"
    and closed: "\<And>n. n \<in> N \<Longrightarrow> set (adjOf adj n) \<subseteq> N"
    and relax: "relax remaining queue (adjOf adj x) = (remaining', queue')"
  shows "kahnInv adj N (insert x P) remaining' queue' (Suc visited)"
proof -
  let ?ts = "adjOf adj x" and ?Q = "N - P" and ?Q' = "N - insert x P"
  have fin: "finite N" "finite P" and x: "x \<in> N" "x \<notin> P" "x \<notin> set queue"
    and q: "distinct queue" "set queue \<subseteq> N - P" and v: "visited = card P"
    and c: "\<And>t. t \<in> N \<Longrightarrow> cnt remaining t = int (edgesFrom adj ?Q t)"
    and z: "\<And>t. t \<in> N - P \<Longrightarrow> cnt remaining t = 0 \<longleftrightarrow> t \<in> set (x # queue)"
    and cleared: "\<And>t. t \<in> P \<Longrightarrow> edgesFrom adj ?Q t = 0"
    and ac: "acyclic (adjRel adj \<inter> P \<times> P)" and PN: "P \<subseteq> N"
    using inv by (auto simp: kahnInv_def intro: finite_subset)
  have Q: "?Q = insert x ?Q'" using x by auto
  have split: "edgesFrom adj ?Q t = count_list ?ts t + edgesFrom adj ?Q' t" for t
    unfolding edgesFrom_def by (subst Q, subst sum.insert) (use fin in auto)
  obtain new where n: "queue' = queue @ new" "distinct new"
    "set new = {t. 0 < cnt remaining t \<and> cnt remaining t \<le> int (count_list ?ts t)}"
    using relax_queue[of remaining queue ?ts] relax by auto
  have c': "cnt remaining' t = cnt remaining t - int (count_list ?ts t)" for t
    using relax_cnt[of remaining queue ?ts t] relax by simp
  have c'': "cnt remaining' t = int (edgesFrom adj ?Q' t)" if "t \<in> N" for t
    using c[OF that] c'[of t] split[of t] by simp
  have new: "t \<in> set new \<longleftrightarrow> edgesFrom adj ?Q t \<noteq> 0 \<and> edgesFrom adj ?Q' t = 0" if "t \<in> N" for t
  proof -
    have "t \<in> set new \<longleftrightarrow> 0 < cnt remaining t \<and> cnt remaining t \<le> int (count_list ?ts t)"
      using n(3) by simp
    then show ?thesis unfolding c[OF that] using split[of t] by linarith
  qed
  have newN: "set new \<subseteq> N"
  proof
    fix t assume "t \<in> set new"
    then have "count_list ?ts t \<noteq> 0" using n(3) by auto
    then show "t \<in> N" using closed[OF x(1)] by (auto simp: count_list_0_iff)
  qed
  have x0: "edgesFrom adj ?Q x = 0" using z[of x] c[of x] x by simp
  have cleared': "edgesFrom adj ?Q' t = 0" if "t \<in> insert x P" for t
    using that cleared x0 split[of t] by auto
  have notP: "set new \<inter> insert x P = {}"
    using new x0 cleared PN x(1) by fastforce
  have notq: "set new \<inter> set queue = {}"
    using new z q c by fastforce
  have z': "cnt remaining' t = 0 \<longleftrightarrow> t \<in> set queue'" if "t \<in> ?Q'" for t
  proof -
    have t: "t \<in> N" "t \<in> N - P" "t \<noteq> x" using that by auto
    have "t \<in> set queue \<longleftrightarrow> edgesFrom adj ?Q t = 0"
      using z[OF t(2)] c[OF t(1)] t(3) by simp
    moreover have "t \<in> set queue' \<longleftrightarrow> t \<in> set queue \<or> t \<in> set new" using n(1) by simp
    ultimately show ?thesis
      unfolding new[OF t(1)] c''[OF t(1)] using split[of t] by linarith
  qed
  have sink: "x \<notin> Domain (adjRel adj \<inter> insert x P \<times> insert x P)"
  proof
    assume "x \<in> Domain (adjRel adj \<inter> insert x P \<times> insert x P)"
    then obtain p where p: "p \<in> insert x P" "(x, p) \<in> adjRel adj" by auto
    have "edgesFrom adj ?Q p = 0" using p(1) cleared x0 by auto
    then show False using p(2) x fin by (auto simp: edgesFrom_zero)
  qed
  have "acyclic (adjRel adj \<inter> insert x P \<times> insert x P)"
    by (rule acyclic_add_sink[OF ac _ sink, of P]) (use sink in auto)
  then show ?thesis
    unfolding kahnInv_def
    using fin x q v n(1,2) c'' z' cleared' notP notq newN PN by auto
qed

lemma kahn_run:
  assumes "kahnInv adj N P remaining queue visited"
    and "\<And>n. n \<in> N \<Longrightarrow> set (adjOf adj n) \<subseteq> N"
  shows "\<exists>P' remaining'. kahnInv adj N P' remaining' [] (kahn adj remaining queue visited)"
  using assms
proof (induction adj remaining queue visited arbitrary: P rule: kahn.induct)
  case (1 adj remaining visited)
  then show ?case by auto
next
  case (2 adj remaining x queue visited)
  obtain remaining' queue' where r: "relax remaining queue (adjOf adj x) = (remaining', queue')"
    by force
  from "2.IH"[OF r[symmetric] refl kahnInv_step[OF "2.prems" r] "2.prems"(2)] r
  show ?case by (simp add: kahn.simps(2))
qed

lemma kahnInv_final:
  assumes inv: "kahnInv adj N P remaining [] visited"
    and sub: "adjRel adj \<subseteq> N \<times> N"
  shows "visited = card N \<longleftrightarrow> acyclic (adjRel adj)"
proof -
  have fin: "finite N" and PN: "P \<subseteq> N" and v: "visited = card P"
    using inv by (auto simp: kahnInv_def)
  have whole: "adjRel adj \<inter> N \<times> N = adjRel adj" using sub by auto
  show ?thesis
  proof
    assume "visited = card N"
    then have "P = N" using fin PN v by (simp add: card_subset_eq)
    with inv whole show "acyclic (adjRel adj)" by (simp add: kahnInv_def)
  next
    assume ac: "acyclic (adjRel adj)"
    have "finite (adjRel adj)" using fin sub by (meson finite_SigmaI finite_subset)
    then have wf: "wf (adjRel adj)" using ac by (rule finite_acyclic_wf)
    have "N - P = {}"
    proof (rule ccontr)
      assume "N - P \<noteq> {}"
      then obtain m where m: "m \<in> N - P" "\<And>y. (y, m) \<in> adjRel adj \<Longrightarrow> y \<notin> N - P"
        using wf by (metis wfE_min ex_in_conv)
      then have "edgesFrom adj (N - P) m = 0" using fin by (auto simp: edgesFrom_zero)
      with inv m(1) show False by (auto simp: kahnInv_def)
    qed
    then show "visited = card N" using PN v by auto
  qed
qed

lemma kahn_complete_iff_acyclic:
  assumes "distinct order"
    and sub: "adjRel adj \<subseteq> set order \<times> set order"
    and indeg: "\<And>t. t \<in> set order \<Longrightarrow> cnt remaining t = int (edgesFrom adj (set order) t)"
    and seeds: "distinct seeds" "set seeds = {t \<in> set order. cnt remaining t = 0}"
  shows "kahn adj remaining seeds 0 = length order \<longleftrightarrow> acyclic (adjRel adj)"
proof -
  have "kahnInv adj (set order) {} remaining seeds 0"
    using seeds indeg by (auto simp: kahnInv_def acyclic_def)
  moreover have "\<And>n. n \<in> set order \<Longrightarrow> set (adjOf adj n) \<subseteq> set order"
    using sub by (auto simp: adjRel_def)
  ultimately obtain P r where "kahnInv adj (set order) P r [] (kahn adj remaining seeds 0)"
    using kahn_run by blast
  from kahnInv_final[OF this sub] assms(1) show ?thesis by (simp add: distinct_card)
qed

end
