(* ===== verification/Json.thy ===== *)
theory Json
  imports Prelude "HOL-Library.Char_ord"
begin

text \<open>
  The part of Go's standard library that the strict JSON boundary rests on: UTF-8
  validity (\<open>unicode/utf8\<close>), the lexical grammar and the decoder of \<open>encoding/json\<close>
  with \<open>UseNumber\<close> (numbers keep their text). A document is lexed into tokens and the
  tokens are parsed into a \<open>jvalue\<close>, whose objects keep every member in order,
  duplicates included. The decoder's limit of 10000 nesting levels is not modelled.

  Main facts: \<open>parse_value_toks\<close> and \<open>parse_value_sound\<close>, which together say that the
  parser accepts exactly the token sequence of a value and returns that value, so the
  fuel \<open>2 * length ts + 2\<close> is always enough.
\<close>

subsection \<open>UTF-8\<close>

abbreviation byte :: "char \<Rightarrow> nat" where
  "byte c \<equiv> of_char c"

definition is_cont :: "nat \<Rightarrow> nat \<Rightarrow> char \<Rightarrow> bool" where
  "is_cont lo hi c \<longleftrightarrow> lo \<le> byte c \<and> byte c \<le> hi"

definition utf8_lead :: "nat \<Rightarrow> (nat \<times> nat \<times> nat) option" where
  \<comment> \<open>number of continuation bytes and the range of the first of them\<close>
  "utf8_lead b =
     (if b < 128 then Some (0, 0, 0)
      else if 194 \<le> b \<and> b \<le> 223 then Some (1, 128, 191)
      else if b = 224 then Some (2, 160, 191)
      else if b = 237 then Some (2, 128, 159)
      else if 225 \<le> b \<and> b \<le> 239 then Some (2, 128, 191)
      else if b = 240 then Some (3, 144, 191)
      else if 241 \<le> b \<and> b \<le> 243 then Some (3, 128, 191)
      else if b = 244 then Some (3, 128, 143)
      else None)"

fun utf8_Valid :: "string \<Rightarrow> bool" where
  "utf8_Valid [] = True"
| "utf8_Valid (c # cs) =
     (case utf8_lead (byte c) of
        None \<Rightarrow> False
      | Some (n, lo, hi) \<Rightarrow>
          (if n = 0 then utf8_Valid cs
           else (case cs of
              [] \<Rightarrow> False
            | d # ds \<Rightarrow>
                is_cont lo hi d \<and>
                (if n = 1 then utf8_Valid ds
                 else (case ds of
                    [] \<Rightarrow> False
                  | f # fs \<Rightarrow>
                      is_cont 128 191 f \<and>
                      (if n = 2 then utf8_Valid fs
                       else (case fs of
                          [] \<Rightarrow> False
                        | g # gs \<Rightarrow> is_cont 128 191 g \<and> utf8_Valid gs)))))))"

definition utf8_encode :: "nat \<Rightarrow> string" where
  "utf8_encode r =
     (if r < 128 then [char_of r]
      else if r < 2048 then [char_of (192 + r div 64), char_of (128 + r mod 64)]
      else if r < 65536 then
        [char_of (224 + r div 4096), char_of (128 + r div 64 mod 64), char_of (128 + r mod 64)]
      else [char_of (240 + r div 262144), char_of (128 + r div 4096 mod 64),
            char_of (128 + r div 64 mod 64), char_of (128 + r mod 64)])"

subsection \<open>Lexical grammar\<close>

datatype jtoken =
  TLBrace | TRBrace | TLBrack | TRBrack | TComma | TColon
  | TStr string | TNum string | TTrue | TFalse | TNull

definition is_ws :: "char \<Rightarrow> bool" where
  "is_ws c \<longleftrightarrow> byte c \<in> {32, 9, 10, 13}"

definition is_digit :: "char \<Rightarrow> bool" where
  "is_digit c \<longleftrightarrow> 48 \<le> byte c \<and> byte c \<le> 57"

definition hex_val :: "char \<Rightarrow> nat option" where
  "hex_val c =
     (if 48 \<le> byte c \<and> byte c \<le> 57 then Some (byte c - 48)
      else if 97 \<le> byte c \<and> byte c \<le> 102 then Some (byte c - 87)
      else if 65 \<le> byte c \<and> byte c \<le> 70 then Some (byte c - 55)
      else None)"

definition hex4 :: "char \<Rightarrow> char \<Rightarrow> char \<Rightarrow> char \<Rightarrow> nat option" where
  "hex4 a b c d =
     (case (hex_val a, hex_val b, hex_val c, hex_val d) of
        (Some x, Some y, Some z, Some w) \<Rightarrow> Some (((x * 16 + y) * 16 + z) * 16 + w)
      | _ \<Rightarrow> None)"

definition simple_escape :: "char \<Rightarrow> char option" where
  "simple_escape c =
     map_of [(CHR 0x22, CHR 0x22), (CHR 0x5C, CHR 0x5C), (CHR ''/'', CHR ''/''),
             (CHR ''b'', CHR 0x08), (CHR ''f'', CHR 0x0C), (CHR ''n'', CHR 0x0A),
             (CHR ''r'', CHR 0x0D), (CHR ''t'', CHR 0x09)] c"

definition replacement :: string where
  "replacement = utf8_encode 65533"

definition low_pair :: "string \<Rightarrow> (nat \<times> string) option" where
  \<comment> \<open>a low-surrogate escape at the head of the input\<close>
  "low_pair s = (case s of
     p # u # a # b # c # d # r \<Rightarrow>
       if p = CHR 0x5C \<and> u = CHR ''u'' then
         (case hex4 a b c d of
            None \<Rightarrow> None
          | Some v \<Rightarrow> if 56320 \<le> v \<and> v \<le> 57343 then Some (v, r) else None)
       else None
   | _ \<Rightarrow> None)"

lemma low_pair_length: "low_pair s = Some (v, r) \<Longrightarrow> length r < length s"
  by (auto simp: low_pair_def split: list.splits if_splits option.splits)

definition push :: "string \<Rightarrow> (string \<times> string) option \<Rightarrow> (string \<times> string) option" where
  "push p m = map_option (\<lambda>(s, r). (p @ s, r)) m"

function lex_str :: "string \<Rightarrow> (string \<times> string) option" where
  "lex_str [] = None"
| "lex_str (c # cs) =
     (if c = CHR 0x22 then Some ([], cs)
      else if c = CHR 0x5C then
        (case cs of
           [] \<Rightarrow> None
         | e # es \<Rightarrow>
             if e = CHR ''u'' then
               (case es of
                  h1 # h2 # h3 # h4 # r \<Rightarrow>
                    (case hex4 h1 h2 h3 h4 of
                       None \<Rightarrow> None
                     | Some v \<Rightarrow>
                         if 55296 \<le> v \<and> v \<le> 56319 then
                           (case low_pair r of
                              Some (l, r') \<Rightarrow>
                                push (utf8_encode ((v - 55296) * 1024 + (l - 56320) + 65536)) (lex_str r')
                            | None \<Rightarrow> push replacement (lex_str r))
                         else if 56320 \<le> v \<and> v \<le> 57343 then push replacement (lex_str r)
                         else push (utf8_encode v) (lex_str r))
                | _ \<Rightarrow> None)
             else (case simple_escape e of
                     None \<Rightarrow> None
                   | Some x \<Rightarrow> push [x] (lex_str es)))
      else if byte c < 32 then None
      else push [c] (lex_str cs))"
  by pat_completeness auto
termination
  by (relation "measure length") (auto dest: low_pair_length)

lemma push_Some_iff: "push p m = Some (s, r) \<longleftrightarrow> (\<exists>t. m = Some (t, r) \<and> s = p @ t)"
  by (auto simp: push_def)

lemma lex_str_length: "lex_str s = Some (t, r) \<Longrightarrow> length r < length s"
proof (induction s arbitrary: t r rule: length_induct)
  case (1 s)
  have IH: "length r' < length u" if "lex_str u = Some (t', r')" "length u < length s" for u t' r'
    using 1 that by blast
  show ?case
  proof (cases s)
    case (Cons c cs)
    with "1.prems" show ?thesis
      by (auto simp: push_Some_iff split: if_splits list.splits option.splits
          dest!: low_pair_length IH)
  qed (use "1.prems" in simp)
qed

definition lex_frac :: "string \<Rightarrow> (string \<times> string) option" where
  "lex_frac s = (case s of
     c # cs \<Rightarrow>
       if c = CHR ''.'' then
         (if takeWhile is_digit cs = [] then None
          else Some (c # takeWhile is_digit cs, dropWhile is_digit cs))
       else Some ([], s)
   | [] \<Rightarrow> Some ([], s))"

definition lex_exp :: "string \<Rightarrow> (string \<times> string) option" where
  "lex_exp s = (case s of
     c # cs \<Rightarrow>
       if c = CHR ''e'' \<or> c = CHR ''E'' then
         (let (sg, ds) = (case cs of
              d # ds \<Rightarrow> if d = CHR ''+'' \<or> d = CHR ''-'' then ([d], ds) else ([], cs)
            | [] \<Rightarrow> ([], cs))
          in if takeWhile is_digit ds = [] then None
             else Some (c # sg @ takeWhile is_digit ds, dropWhile is_digit ds))
       else Some ([], s)
   | [] \<Rightarrow> Some ([], s))"

definition lex_int :: "string \<Rightarrow> (string \<times> string) option" where
  "lex_int s = (case s of
     [] \<Rightarrow> None
   | c # cs \<Rightarrow>
       if \<not> is_digit c then None
       else if c = CHR ''0'' then Some ([c], cs)
       else Some (c # takeWhile is_digit cs, dropWhile is_digit cs))"

definition lex_num :: "string \<Rightarrow> (string \<times> string) option" where
  "lex_num s =
     (let (sg, s1) = (case s of c # cs \<Rightarrow> if c = CHR ''-'' then ([c], cs) else ([], s)
                      | [] \<Rightarrow> ([], s))
      in case lex_int s1 of None \<Rightarrow> None | Some (ip, s2) \<Rightarrow>
         (case lex_frac s2 of None \<Rightarrow> None | Some (fp, s3) \<Rightarrow>
         (case lex_exp s3 of None \<Rightarrow> None | Some (ep, s4) \<Rightarrow> Some (sg @ ip @ fp @ ep, s4))))"

lemma lex_num_parts_length:
  "lex_int s = Some (a, r) \<Longrightarrow> length r < length s"
  "lex_frac s = Some (a, r) \<Longrightarrow> length r \<le> length s"
  "lex_exp s = Some (a, r) \<Longrightarrow> length r \<le> length s"
  using length_dropWhile_le[of is_digit]
  by (auto simp: lex_int_def lex_frac_def lex_exp_def Let_def le_Suc_eq less_Suc_eq_le
      split: list.splits if_splits prod.splits intro: le_SucI order_trans)

lemma lex_num_length: "lex_num s = Some (t, r) \<Longrightarrow> length r < length s"
  by (auto simp: lex_num_def Let_def split: list.splits if_splits option.splits prod.splits
      dest!: lex_num_parts_length)

definition punct :: "char \<Rightarrow> jtoken option" where
  "punct c = map_of [(CHR 0x7B, TLBrace), (CHR 0x7D, TRBrace), (CHR 0x5B, TLBrack),
     (CHR 0x5D, TRBrack), (CHR 0x2C, TComma), (CHR 0x3A, TColon)] c"

definition lex_word :: "string \<Rightarrow> (jtoken \<times> string) option" where
  "lex_word s =
     (if take 4 s = ''true'' then Some (TTrue, drop 4 s)
      else if take 5 s = ''false'' then Some (TFalse, drop 5 s)
      else if take 4 s = ''null'' then Some (TNull, drop 4 s)
      else None)"

lemma lex_word_length: "lex_word s = Some (t, r) \<Longrightarrow> length r < length s"
  by (cases s) (auto simp: lex_word_def split: if_splits)

function lex :: "string \<Rightarrow> jtoken list option" where
  "lex [] = Some []"
| "lex (c # cs) =
     (if is_ws c then lex cs
      else case punct c of
        Some t \<Rightarrow> map_option ((#) t) (lex cs)
      | None \<Rightarrow>
          (if c = CHR 0x22 then
             (case lex_str cs of
                None \<Rightarrow> None
              | Some (s, r) \<Rightarrow> map_option ((#) (TStr s)) (lex r))
           else if c = CHR ''-'' \<or> is_digit c then
             (case lex_num (c # cs) of
                None \<Rightarrow> None
              | Some (n, r) \<Rightarrow> map_option ((#) (TNum n)) (lex r))
           else
             (case lex_word (c # cs) of
                None \<Rightarrow> None
              | Some (t, r) \<Rightarrow> map_option ((#) t) (lex r))))"
  by pat_completeness auto
termination
  by (relation "measure length")
     (auto dest!: lex_str_length lex_num_length lex_word_length)

subsection \<open>Values and the parser\<close>

datatype jvalue =
  JNull | JBool bool | JNumber string | JString string
  | JArray "jvalue list" | JObject "(string \<times> jvalue) list"

fun parse_value :: "nat \<Rightarrow> jtoken list \<Rightarrow> (jvalue \<times> jtoken list) option"
  and parse_elems :: "nat \<Rightarrow> jtoken list \<Rightarrow> (jvalue list \<times> jtoken list) option"
  and parse_members :: "nat \<Rightarrow> jtoken list \<Rightarrow> ((string \<times> jvalue) list \<times> jtoken list) option"
where
  "parse_value 0 ts = None"
| "parse_value (Suc n) ts = (case ts of
     [] \<Rightarrow> None
   | t # ts \<Rightarrow>
     (case t of
        TNull \<Rightarrow> Some (JNull, ts)
      | TTrue \<Rightarrow> Some (JBool True, ts)
      | TFalse \<Rightarrow> Some (JBool False, ts)
      | TNum s \<Rightarrow> Some (JNumber s, ts)
      | TStr s \<Rightarrow> Some (JString s, ts)
      | TLBrack \<Rightarrow>
          (if ts \<noteq> [] \<and> hd ts = TRBrack then Some (JArray [], tl ts)
           else map_option (\<lambda>(vs, r). (JArray vs, r)) (parse_elems n ts))
      | TLBrace \<Rightarrow>
          (if ts \<noteq> [] \<and> hd ts = TRBrace then Some (JObject [], tl ts)
           else map_option (\<lambda>(ms, r). (JObject ms, r)) (parse_members n ts))
      | _ \<Rightarrow> None))"
| "parse_elems 0 ts = None"
| "parse_elems (Suc n) ts =
     (case parse_value n ts of
        Some (v, TComma # r) \<Rightarrow> map_option (\<lambda>(vs, r'). (v # vs, r')) (parse_elems n r)
      | Some (v, TRBrack # r) \<Rightarrow> Some ([v], r)
      | _ \<Rightarrow> None)"
| "parse_members 0 ts = None"
| "parse_members (Suc n) ts =
     (case ts of
        TStr k # TColon # r \<Rightarrow>
          (case parse_value n r of
             Some (v, TComma # r') \<Rightarrow>
               map_option (\<lambda>(ms, r''). ((k, v) # ms, r'')) (parse_members n r')
           | Some (v, TRBrace # r') \<Rightarrow> Some ([(k, v)], r')
           | _ \<Rightarrow> None)
      | _ \<Rightarrow> None)"

definition json_parse :: "string \<Rightarrow> jvalue option" where
  \<comment> \<open>exactly one JSON value, surrounded by white space only\<close>
  "json_parse s = (case lex s of
     None \<Rightarrow> None
   | Some ts \<Rightarrow> (case parse_value (2 * length ts + 2) ts of
       Some (v, []) \<Rightarrow> Some v
     | _ \<Rightarrow> None))"

definition json_Valid :: "string \<Rightarrow> bool" where
  "json_Valid s \<longleftrightarrow> json_parse s \<noteq> None"

subsection \<open>The parser accepts exactly the token sequences of values\<close>

fun toks :: "jvalue \<Rightarrow> jtoken list"
  and toks_elems :: "jvalue list \<Rightarrow> jtoken list"
  and toks_members :: "(string \<times> jvalue) list \<Rightarrow> jtoken list"
where
  "toks JNull = [TNull]"
| "toks (JBool b) = [if b then TTrue else TFalse]"
| "toks (JNumber s) = [TNum s]"
| "toks (JString s) = [TStr s]"
| "toks (JArray vs) = TLBrack # (if vs = [] then [TRBrack] else toks_elems vs)"
| "toks (JObject ms) = TLBrace # (if ms = [] then [TRBrace] else toks_members ms)"
| "toks_elems [] = []"
| "toks_elems (v # vs) = toks v @ (if vs = [] then [TRBrack] else TComma # toks_elems vs)"
| "toks_members [] = []"
| "toks_members ((k, v) # ms) =
     TStr k # TColon # toks v @ (if ms = [] then [TRBrace] else TComma # toks_members ms)"

lemma toks_hd: "\<exists>t ts. toks v = t # ts \<and> t \<noteq> TRBrack \<and> t \<noteq> TRBrace"
  by (cases v) auto

lemma toks_elems_hd: "vs \<noteq> [] \<Longrightarrow> \<exists>t ts. toks_elems vs = t # ts \<and> t \<noteq> TRBrack"
  by (cases vs; use toks_hd[of "hd vs"] in auto)

lemma toks_members_hd: "ms \<noteq> [] \<Longrightarrow> \<exists>t ts. toks_members ms = t # ts \<and> t \<noteq> TRBrace"
  by (cases ms) auto

lemma parse_elems_SucE:
  assumes "parse_elems (Suc n) ts = Some (vs, r)"
  obtains v r1 ws where "parse_value n ts = Some (v, TComma # r1)"
      "parse_elems n r1 = Some (ws, r)" "vs = v # ws"
    | v where "parse_value n ts = Some (v, TRBrack # r)" "vs = [v]"
  using assms by (auto split: option.splits prod.splits list.splits jtoken.splits)

lemma parse_members_SucE:
  assumes "parse_members (Suc n) ts = Some (ms, r)"
  obtains k v r0 r1 ns where "ts = TStr k # TColon # r0" "parse_value n r0 = Some (v, TComma # r1)"
      "parse_members n r1 = Some (ns, r)" "ms = (k, v) # ns"
    | k v r0 where "ts = TStr k # TColon # r0" "parse_value n r0 = Some (v, TRBrace # r)"
      "ms = [(k, v)]"
  using assms
  by (auto split: option.splits prod.splits list.splits jtoken.splits)

lemma parse_value_sound:
  "parse_value n ts = Some (v, r) \<Longrightarrow> ts = toks v @ r"
  "parse_elems n ts = Some (vs, r) \<Longrightarrow> vs \<noteq> [] \<and> ts = toks_elems vs @ r"
  "parse_members n ts = Some (ms, r) \<Longrightarrow> ms \<noteq> [] \<and> ts = toks_members ms @ r"
proof (induction n ts and n ts and n ts arbitrary: v r and vs r and ms r
    rule: parse_value_parse_elems_parse_members.induct)
  case (2 n ts0)
  then obtain t ts where ts0: "ts0 = t # ts" by (cases ts0) auto
  note IH = "2.IH"[OF ts0] and prems = "2.prems"[unfolded ts0]
  show ?case
  proof (cases t)
    case TLBrace
    show ?thesis
    proof (cases "ts \<noteq> [] \<and> hd ts = TRBrace")
      case True
      with prems TLBrace show ?thesis by (cases ts) (auto simp: ts0)
    next
      case False
      with prems TLBrace obtain ms where "v = JObject ms" "parse_members n ts = Some (ms, r)"
        by auto
      with IH(1)[OF TLBrace False] TLBrace show ?thesis by (simp add: ts0)
    qed
  next
    case TLBrack
    show ?thesis
    proof (cases "ts \<noteq> [] \<and> hd ts = TRBrack")
      case True
      with prems TLBrack show ?thesis by (cases ts) (auto simp: ts0)
    next
      case False
      with prems TLBrack obtain vs where "v = JArray vs" "parse_elems n ts = Some (vs, r)"
        by auto
      with IH(2)[OF TLBrack False] TLBrack show ?thesis by (simp add: ts0)
    qed
  qed (use prems in \<open>auto simp: ts0\<close>)
next
  case (4 n ts)
  from "4.prems" show ?case
    by (cases rule: parse_elems_SucE) (auto dest: "4.IH")
next
  case (6 n ts)
  from "6.prems" show ?case
  proof (cases rule: parse_members_SucE)
    case (1 k v r0 r1 ns)
    note v = "6.IH"(1)[OF 1(1) refl refl refl 1(2)]
    have "ns \<noteq> [] \<and> r1 = toks_members ns @ r"
      by (rule "6.IH"(2)[OF 1(1) refl refl refl 1(2) refl refl refl 1(3)])
    with v 1 show ?thesis by simp
  next
    case (2 k v r0)
    with "6.IH"(1)[OF 2(1) refl refl refl 2(2)] show ?thesis by simp
  qed
qed auto

lemma parse_value_toks:
  "2 * length (toks v) \<le> n \<Longrightarrow> parse_value n (toks v @ r) = Some (v, r)"
  "vs \<noteq> [] \<Longrightarrow> 2 * length (toks_elems vs) < n \<Longrightarrow>
     parse_elems n (toks_elems vs @ r) = Some (vs, r)"
  "ms \<noteq> [] \<Longrightarrow> 2 * length (toks_members ms) \<le> n \<Longrightarrow>
     parse_members n (toks_members ms @ r) = Some (ms, r)"
proof (induction v and vs and ms arbitrary: n r and n r and n r
    rule: toks_toks_elems_toks_members.induct)
  case (5 vs)
  then show ?case
  proof (cases "vs = []")
    case False
    then obtain t ts where "toks_elems vs = t # ts" "t \<noteq> TRBrack" using toks_elems_hd by blast
    with 5 False show ?thesis by (cases n) auto
  qed (cases n; auto)
next
  case (6 ms)
  then show ?case
  proof (cases "ms = []")
    case False
    then obtain t ts where "toks_members ms = t # ts" "t \<noteq> TRBrace"
      using toks_members_hd by blast
    with 6 False show ?thesis by (cases n) auto
  qed (cases n; auto)
next
  case (8 v vs)
  then show ?case by (cases n) (auto split: if_splits)
next
  case (10 k v ms)
  then show ?case by (cases n) (auto split: if_splits)
next
  case (1 n r)
  then show ?case by (cases n) auto
next
  case (2 b n r)
  then show ?case by (cases n) auto
next
  case (3 s n r)
  then show ?case by (cases n) auto
next
  case (4 s n r)
  then show ?case by (cases n) auto
qed auto

lemma json_parse_iff: "json_parse s = Some v \<longleftrightarrow> lex s = Some (toks v)"
proof
  assume "json_parse s = Some v"
  then show "lex s = Some (toks v)"
    by (auto simp: json_parse_def simp del: parse_value.simps split: option.splits prod.splits list.splits
        dest!: parse_value_sound(1))
next
  assume "lex s = Some (toks v)"
  moreover have "parse_value (2 * length (toks v) + 2) (toks v) = Some (v, [])"
    using parse_value_toks(1)[of v "2 * length (toks v) + 2" "[]"] by simp
  ultimately show "json_parse s = Some v" by (simp add: json_parse_def)
qed

end
