(* ===== verification/JsonStrict.thy ===== *)
theory JsonStrict
  imports Json
begin

unbundle bit_operations_syntax

text \<open>
  Package \<open>internal/jsonstrict\<close>: one closed, unambiguous interpretation of external
  JSON. \<open>Validate\<close> checks UTF-8, the pairing of escaped surrogates and the uniqueness of
  object members at every depth; \<open>Decode\<close> additionally compares member names with the
  exact field names of the target type. Go types are described by \<open>gotype\<close>, the part
  of \<open>reflect.Type\<close> the source inspects.

  Main facts: \<open>scanValue_iff\<close> (the member scan accepts exactly the values without
  duplicate members), \<open>validateUniqueValue_iff\<close>, \<open>decodeHexEscape_value\<close> (the 16-bit
  accumulator computes the base-16 value and never overflows), \<open>Validate_iff\<close> and
  \<open>Decode_Inr_iff\<close> (what an accepted document satisfies).
\<close>

subsection \<open>Escaped surrogates\<close>

definition isHighSurrogate :: "u16 \<Rightarrow> bool" where
  "isHighSurrogate v \<longleftrightarrow> v \<ge> 0xD800 \<and> v \<le> 0xDBFF"

definition isLowSurrogate :: "u16 \<Rightarrow> bool" where
  "isLowSurrogate v \<longleftrightarrow> v \<ge> 0xDC00 \<and> v \<le> 0xDFFF"

fun hexLoop :: "u16 \<Rightarrow> string \<Rightarrow> u16 option" where
  "hexLoop v [] = Some v"
| "hexLoop v (digit # ds) =
     (let v = push_bit 4 v in
      if byte digit \<ge> byte (CHR ''0'') \<and> byte digit \<le> byte (CHR ''9'') then
        hexLoop (v OR word_of_nat (byte digit - byte (CHR ''0''))) ds
      else if byte digit \<ge> byte (CHR ''a'') \<and> byte digit \<le> byte (CHR ''f'') then
        hexLoop (v OR (word_of_nat (byte digit - byte (CHR ''a'')) + 10)) ds
      else if byte digit \<ge> byte (CHR ''A'') \<and> byte digit \<le> byte (CHR ''F'') then
        hexLoop (v OR (word_of_nat (byte digit - byte (CHR ''A'')) + 10)) ds
      else None)"

definition decodeHexEscape :: "string \<Rightarrow> u16 option" where
  "decodeHexEscape data = (if length data \<noteq> 4 then None else hexLoop 0 data)"

function surrogateScan :: "bool \<Rightarrow> string \<Rightarrow> unit result" where
  "surrogateScan inside [] = Inr ()"
| "surrogateScan inside (c # cs) =
     (if \<not> inside then surrogateScan (c = CHR 0x22) cs
      else if c = CHR 0x22 then surrogateScan False cs
      else if c \<noteq> CHR 0x5C then surrogateScan True cs
      else if cs = [] then Inr ()
      else if hd cs \<noteq> CHR ''u'' then surrogateScan True (tl cs)
      else if length cs < 5 then Inl [JsonErrInvalid]
      else (case decodeHexEscape (take 4 (drop 1 cs)) of
              None \<Rightarrow> Inl [JsonErrInvalid]
            | Some v \<Rightarrow>
                if isHighSurrogate v then
                  (if length cs < 11 \<or> cs ! 5 \<noteq> CHR 0x5C \<or> cs ! 6 \<noteq> CHR ''u'' then
                     Inl [JsonErrInvalid]
                   else (case decodeHexEscape (take 4 (drop 7 cs)) of
                           None \<Rightarrow> Inl [JsonErrInvalid]
                         | Some low \<Rightarrow>
                             if \<not> isLowSurrogate low then Inl [JsonErrInvalid]
                             else surrogateScan True (drop 11 cs)))
                else if isLowSurrogate v then Inl [JsonErrInvalid]
                else surrogateScan True (drop 5 cs)))"
  by pat_completeness auto
termination
  by (relation "measure (\<lambda>(i, s). length s)") auto

definition validateEscapedSurrogates :: "string \<Rightarrow> unit result" where
  "validateEscapedSurrogates data = surrogateScan False data"

subsection \<open>Unique members\<close>

fun scanValue :: "jvalue \<Rightarrow> unit result"
  and scanArray :: "jvalue list \<Rightarrow> unit result"
  and scanObject :: "string list \<Rightarrow> (string \<times> jvalue) list \<Rightarrow> unit result"
where
  "scanValue (JArray vs) = scanArray vs"
| "scanValue (JObject ms) = scanObject [] ms"
| "scanValue JNull = Inr ()"
| "scanValue (JBool _) = Inr ()"
| "scanValue (JNumber _) = Inr ()"
| "scanValue (JString _) = Inr ()"
| "scanArray [] = Inr ()"
| "scanArray (v # vs) = bindR (scanValue v) (\<lambda>_. scanArray vs)"
| "scanObject seen [] = Inr ()"
| "scanObject seen ((name, v) # ms) =
     (if name \<in> set seen then Inl [JsonErrInvalid]
      else bindR (scanValue v) (\<lambda>_. scanObject (name # seen) ms))"

definition validateUniqueValue :: "string \<Rightarrow> unit result" where
  "validateUniqueValue data = (case json_parse data of
     None \<Rightarrow> Inl [JsonErrInvalid]
   | Some v \<Rightarrow> scanValue v)"

definition Validate :: "string \<Rightarrow> unit result" where
  "Validate data =
     (if \<not> utf8_Valid data then Inl [JsonErrInvalid]
      else bindR (validateEscapedSurrogates data) (\<lambda>_. validateUniqueValue data))"

fun unique_members :: "jvalue \<Rightarrow> bool" where
  "unique_members (JArray vs) = (\<forall>v\<in>set vs. unique_members v)"
| "unique_members (JObject ms) =
     (distinct (map fst ms) \<and> (\<forall>p\<in>set ms. unique_members (snd p)))"
| "unique_members _ = True"

lemma scan_iff:
  "scanValue v = Inr () \<longleftrightarrow> unique_members v"
  "scanArray vs = Inr () \<longleftrightarrow> (\<forall>v\<in>set vs. unique_members v)"
  "scanObject seen ms = Inr () \<longleftrightarrow>
     distinct (map fst ms) \<and> set (map fst ms) \<inter> set seen = {} \<and>
     (\<forall>p\<in>set ms. unique_members (snd p))"
proof (induction v and vs and seen ms rule: scanValue_scanArray_scanObject.induct)
  case (8 v vs)
  then show ?case by (cases "scanValue v") auto
next
  case (10 seen name v ms)
  show ?case
  proof (cases "name \<in> set seen")
    case False
    with 10 show ?thesis by (cases "scanValue v") auto
  qed auto
qed auto

lemmas scanValue_iff = scan_iff(1)

lemma scan_error:
  "scanValue v = Inl e \<Longrightarrow> e = [JsonErrInvalid]"
  "scanArray vs = Inl e \<Longrightarrow> e = [JsonErrInvalid]"
  "scanObject seen ms = Inl e \<Longrightarrow> e = [JsonErrInvalid]"
  by (induction v and vs and seen ms rule: scanValue_scanArray_scanObject.induct)
     (auto simp: bindR_Inl_iff split: if_splits)

lemma validateUniqueValue_iff:
  "validateUniqueValue data = Inr () \<longleftrightarrow> (\<exists>v. json_parse data = Some v \<and> unique_members v)"
  by (auto simp: validateUniqueValue_def scan_iff split: option.splits)

lemma validateUniqueValue_error: "validateUniqueValue data = Inl e \<Longrightarrow> e = [JsonErrInvalid]"
  by (auto simp: validateUniqueValue_def scan_error split: option.splits)

lemma surrogateScan_error: "surrogateScan i s = Inl e \<Longrightarrow> e = [JsonErrInvalid]"
proof (induction s arbitrary: i rule: length_induct)
  case (1 s)
  have IH: "e = [JsonErrInvalid]" if "surrogateScan j u = Inl e" "length u < length s" for j u
    using 1 that by blast
  show ?case
  proof (cases s)
    case (Cons c cs)
    from "1.prems" show ?thesis
      unfolding Cons surrogateScan.simps
      by (auto simp: Cons split: if_splits option.splits dest!: IH)
  qed (use "1.prems" in simp)
qed

lemma Validate_iff:
  "Validate data = Inr () \<longleftrightarrow>
     utf8_Valid data \<and> validateEscapedSurrogates data = Inr () \<and>
     (\<exists>v. json_parse data = Some v \<and> unique_members v)"
  by (auto simp: Validate_def bindR_Inr_iff validateUniqueValue_iff)

lemma Validate_error: "Validate data = Inl e \<Longrightarrow> e = [JsonErrInvalid]"
  by (auto simp: Validate_def bindR_Inl_iff validateEscapedSurrogates_def
      dest: surrogateScan_error validateUniqueValue_error split: if_splits)

subsection \<open>Hexadecimal escapes\<close>

lemma of_char_digits:
  "byte (CHR ''0'') = 48" "byte (CHR ''9'') = 57" "byte (CHR ''a'') = 97"
  "byte (CHR ''f'') = 102" "byte (CHR ''A'') = 65" "byte (CHR ''F'') = 70"
  by simp_all

lemma or_push_nibble:
  fixes x y :: nat
  assumes "x < 16"
  shows "push_bit 4 y OR x = push_bit 4 y + x"
proof (rule disjunctive_add[symmetric])
  fix n
  have "x = take_bit 4 x" using assms by (simp add: take_bit_eq_mod)
  then have "bit x n \<Longrightarrow> n < 4" by (metis bit_take_bit_iff)
  then show "\<not> bit (push_bit 4 y) n \<or> \<not> bit x n"
    by (auto simp: bit_push_bit_iff)
qed

lemma hex_step:
  fixes v d :: u16
  assumes "unat v < 16 ^ k" "k \<le> 3" "unat d < 16"
  shows "unat (push_bit 4 v OR d) = 16 * unat v + unat d"
proof -
  have "unat v < 4096"
    using assms(1,2) power_increasing[of k 3 "16::nat"] by simp
  then have p: "unat (push_bit 4 v) = 16 * unat v"
    by (simp add: push_bit_eq_mult unat_word_ariths)
  have "unat (push_bit 4 v OR d) = (unat (push_bit 4 v)) OR (unat d)"
    by (simp add: unsigned_or_eq)
  also have "\<dots> = push_bit 4 (unat v) OR unat d"
    unfolding p by (simp add: push_bit_eq_mult mult.commute)
  also have "\<dots> = push_bit 4 (unat v) + unat d"
    by (rule or_push_nibble) (rule assms(3))
  finally show ?thesis by (simp add: push_bit_eq_mult)
qed

definition hexAcc :: "nat option \<Rightarrow> char \<Rightarrow> nat option" where
  "hexAcc acc c = (case (acc, hex_val c) of (Some a, Some d) \<Rightarrow> Some (16 * a + d) | _ \<Rightarrow> None)"

definition hex_digits_value :: "string \<Rightarrow> nat option" where
  \<comment> \<open>reference: the base-16 value of a string of hexadecimal digits\<close>
  "hex_digits_value s = foldl hexAcc (Some 0) s"

lemma hexAcc_simps:
  "hexAcc None c = None"
  "hex_val c = None \<Longrightarrow> hexAcc (Some a) c = None"
  "hex_val c = Some d \<Longrightarrow> hexAcc (Some a) c = Some (16 * a + d)"
  by (simp_all add: hexAcc_def)

lemma foldl_hex_None: "foldl hexAcc None s = None"
  by (induction s) (auto simp: hexAcc_simps)

lemma hex_val_less: "hex_val c = Some d \<Longrightarrow> d < 16"
  by (auto simp: hex_val_def split: if_splits)

lemma hexLoop_Cons:
  "hexLoop v (c # cs) = (case hex_val c of
     None \<Rightarrow> None | Some d \<Rightarrow> hexLoop (push_bit 4 v OR word_of_nat d) cs)"
proof -
  have w: "word_of_nat (n - k) + 10 = (word_of_nat (n - (k - 10)) :: u16)"
    if "k \<le> n" "10 \<le> k" for n k :: nat
  proof -
    have "n - (k - 10) = (n - k) + 10" using that by arith
    then show ?thesis by (simp only: of_nat_add) simp
  qed
  show ?thesis
    using w[of 97] w[of 65] by (auto simp: hex_val_def Let_def)
qed

lemma hexLoop_value:
  assumes "unat v < 16 ^ k" "k + length s \<le> 4"
  shows "map_option unat (hexLoop v s) = foldl hexAcc (Some (unat v)) s"
  using assms
proof (induction s arbitrary: v k)
  case (Cons c cs)
  show ?case
  proof (cases "hex_val c")
    case None
    then show ?thesis by (simp add: hexLoop_Cons foldl_hex_None hexAcc_simps del: hexLoop.simps)
  next
    case (Some d)
    let ?d = "word_of_nat d :: u16"
    have d: "unat ?d = d" "d < 16"
      using hex_val_less[OF Some] by (simp_all add: unsigned_of_nat take_bit_nat_eq_self_iff)
    have step: "unat (push_bit 4 v OR ?d) = 16 * unat v + d"
      using hex_step[of v k ?d] Cons.prems d by simp
    have "unat (push_bit 4 v OR ?d) < 16 ^ Suc k"
      using Cons.prems(1) d unfolding step by simp
    then show ?thesis
      using Cons.IH[of "push_bit 4 v OR ?d" "Suc k"] Cons.prems(2) Some step
      by (simp add: hexLoop_Cons hexAcc_simps del: hexLoop.simps)
  qed
qed simp

lemma decodeHexEscape_value:
  "length data = 4 \<Longrightarrow> map_option unat (decodeHexEscape data) = hex_digits_value data"
  using hexLoop_value[of 0 0 data] by (simp add: decodeHexEscape_def hex_digits_value_def)

subsection \<open>Exact schemas\<close>

datatype gotype =
    GScalar                   \<comment> \<open>strings, numbers, booleans and kinds JSON cannot fill\<close>
  | GOpen                     \<comment> \<open>interfaces, \<open>json.RawMessage\<close> and custom unmarshallers\<close>
  | GPointer gotype | GMap gotype | GSlice gotype | GStruct "gofield list"
and gofield =
  GField (gf_exported: bool) (gf_anonymous: bool) (gf_name: string) (gf_tag: string)
         (gf_type: gotype)

fun elemType :: "gotype \<Rightarrow> gotype" where
  \<comment> \<open>\<open>for t.Kind() == reflect.Pointer { t = t.Elem() }\<close>\<close>
  "elemType (GPointer t) = elemType t"
| "elemType t = t"

lemma size_elemType: "size (elemType t) \<le> size t"
  by (induction t rule: elemType.induct) auto

lemma size_promoted:
  assumes "GStruct gs = elemType (gf_type f)"
  shows "size_list size gs < size f"
proof -
  have "size (GStruct gs) \<le> size (gf_type f)"
    using size_elemType[of "gf_type f"] assms by simp
  moreover have "size (gf_type f) < size f" by (cases f) simp
  ultimately show ?thesis by simp
qed

definition tagNameOf :: "string \<Rightarrow> string" where
  \<comment> \<open>\<open>strings.Cut(tag, ",")\<close>\<close>
  "tagNameOf tag = takeWhile (\<lambda>c. c \<noteq> CHR '','') tag"

function exactJSONFields :: "(string \<times> gotype) list \<Rightarrow> gofield list \<Rightarrow> (string \<times> gotype) list" where
  "exactJSONFields known [] = known"
| "exactJSONFields known (f # fs) =
     (if \<not> gf_exported f then exactJSONFields known fs
      else let tagName = tagNameOf (gf_tag f) in
      if tagName = ''-'' then exactJSONFields known fs
      else case (gf_anonymous f \<and> tagName = [], elemType (gf_type f)) of
          (True, GStruct gs) \<Rightarrow> exactJSONFields (exactJSONFields [] gs @ known) fs
        | _ \<Rightarrow> exactJSONFields
                 ((if tagName = [] then gf_name f else tagName, gf_type f) # known) fs)"
  by pat_completeness auto
termination
  by (relation "measure (\<lambda>(m, fs). size_list size fs)")
     (auto dest!: size_promoted simp: less_Suc_eq)

fun validateExactValue :: "jvalue \<Rightarrow> gotype \<Rightarrow> unit result"
  and validateExactArray :: "jvalue list \<Rightarrow> gotype \<Rightarrow> unit result"
  and validateExactMap :: "(string \<times> jvalue) list \<Rightarrow> gotype \<Rightarrow> unit result"
  and validateExactStruct :: "(string \<times> jvalue) list \<Rightarrow> (string \<times> gotype) list \<Rightarrow> unit result"
where
  "validateExactValue (JObject ms) t = (case elemType t of
      GMap e \<Rightarrow> validateExactMap ms e
    | GStruct fs \<Rightarrow> validateExactStruct ms (exactJSONFields [] fs)
    | _ \<Rightarrow> Inr ())"
| "validateExactValue (JArray vs) t = (case elemType t of
      GSlice e \<Rightarrow> validateExactArray vs e
    | _ \<Rightarrow> Inr ())"
| "validateExactValue JNull t = Inr ()"
| "validateExactValue (JBool _) t = Inr ()"
| "validateExactValue (JNumber _) t = Inr ()"
| "validateExactValue (JString _) t = Inr ()"
| "validateExactArray [] e = Inr ()"
| "validateExactArray (v # vs) e =
     bindR (validateExactValue v e) (\<lambda>_. validateExactArray vs e)"
| "validateExactMap [] e = Inr ()"
| "validateExactMap ((k, v) # ms) e =
     bindR (validateExactValue v e) (\<lambda>_. validateExactMap ms e)"
| "validateExactStruct [] known = Inr ()"
| "validateExactStruct ((name, v) # ms) known = (case map_of known name of
      None \<Rightarrow> Inl [JsonErrInvalid]
    | Some ft \<Rightarrow> bindR (validateExactValue v ft) (\<lambda>_. validateExactStruct ms known))"

lemma validateExactArray_iff:
  "validateExactArray vs e = Inr () \<longleftrightarrow> (\<forall>v\<in>set vs. validateExactValue v e = Inr ())"
  by (induction vs) (auto simp: bindR_Inr_iff)

lemma validateExactStruct_iff:
  "validateExactStruct ms known = Inr () \<longleftrightarrow>
     (\<forall>(name, v)\<in>set ms. \<exists>t. map_of known name = Some t \<and> validateExactValue v t = Inr ())"
proof (induction ms)
  case (Cons m ms)
  obtain k v where "m = (k, v)" by force
  with Cons show ?case by (auto simp: bindR_Inr_iff split: option.splits)
qed simp

subsection \<open>Decode\<close>

definition Decode :: "string \<Rightarrow> gotype \<Rightarrow> (jvalue \<Rightarrow> 'a result) \<Rightarrow> 'a result" where
  \<comment> \<open>\<open>T\<close> is the type the target points to, \<open>typed\<close> the typed decoder of
      \<open>encoding/json\<close> for it (an error chain without sentinels on a type mismatch)\<close>
  "Decode data T typed =
     bindR (Validate data) (\<lambda>_.
     case json_parse data of
       None \<Rightarrow> Inl [JsonErrInvalid]
     | Some v \<Rightarrow> bindR (validateExactValue v T) (\<lambda>_. wrapR [JsonErrInvalid] (typed v)))"

lemma Decode_Inr_iff:
  "Decode data T typed = Inr x \<longleftrightarrow>
     Validate data = Inr () \<and>
     (\<exists>v. json_parse data = Some v \<and> unique_members v \<and>
          validateExactValue v T = Inr () \<and> typed v = Inr x)"
  by (auto simp: Decode_def bindR_Inr_iff Validate_iff split: option.splits)

definition jsonMember :: "string \<Rightarrow> jvalue \<Rightarrow> jvalue option" where
  "jsonMember name v = (case v of JObject ms \<Rightarrow> map_of ms name | _ \<Rightarrow> None)"

definition decodeStringField :: "string \<Rightarrow> jvalue \<Rightarrow> string result" where
  \<comment> \<open>a string field of a struct target: absent and null leave the zero value\<close>
  "decodeStringField name v = (case jsonMember name v of
      None \<Rightarrow> Inr []
    | Some JNull \<Rightarrow> Inr []
    | Some (JString s) \<Rightarrow> Inr s
    | Some _ \<Rightarrow> Inl [])"

fun decodeStrings :: "jvalue list \<Rightarrow> string list result" where
  \<comment> \<open>the elements of a string slice: null leaves the zero string\<close>
  "decodeStrings [] = Inr []"
| "decodeStrings (JString s # vs) = bindR (decodeStrings vs) (\<lambda>ss. Inr (s # ss))"
| "decodeStrings (JNull # vs) = bindR (decodeStrings vs) (\<lambda>ss. Inr ([] # ss))"
| "decodeStrings (_ # vs) = Inl []"

definition decodeStringSliceField :: "string \<Rightarrow> jvalue \<Rightarrow> string list result" where
  "decodeStringSliceField name v = (case jsonMember name v of
      None \<Rightarrow> Inr []
    | Some JNull \<Rightarrow> Inr []
    | Some (JArray vs) \<Rightarrow> decodeStrings vs
    | Some _ \<Rightarrow> Inl [])"

subsection \<open>Optional raw JSON (store.go)\<close>

definition validJSON :: "raw \<Rightarrow> bool" where
  "validJSON data \<longleftrightarrow> raw_bytes data = [] \<or> Validate (raw_bytes data) = Inr ()"

lemma validJSON_None [simp]: "validJSON None"
  by (simp add: validJSON_def)

end
