(* ===== verification/Compiler.thy ===== *)
theory Compiler
  imports Handler Graph JsonStrict
begin

text \<open>
  The definition compiler (\<open>compiler.go\<close>) and the graph checks that \<open>Definition.Validate\<close>
  and \<open>Builder.Build\<close> (\<open>definition.go\<close>) delegate to it. Go maps are association lists
  where the code iterates or counts them. \<open>range\<close> over a Go map has no fixed order, so
  the counting scan takes the order as an argument.

  The specification these operations meet is in \<open>CompilerSpec\<close>.
\<close>

record definitionAnalysis =
  an_startID :: string
  an_endIDs :: "string list"
  an_nodes :: "(string \<times> nat) list"
  an_routes :: "(edgeSelector \<times> string) list"
  an_adjacency :: "string adj"
  an_predecessors :: "string adj"
  an_indegree :: "(string \<times> int) list"

record 'h compiledNode =
  cn_index :: nat
  cn_handler :: "'h PreparedNodeHandler option"

record 'h compiledDefinition =
  cd_definition :: Definition
  cd_startID :: string
  cd_nodes :: "string \<rightharpoonup> 'h compiledNode"
  cd_routes :: "(edgeSelector \<times> string) list"

subsection \<open>Structural analysis\<close>

definition emptyAnalysis :: definitionAnalysis where
  "emptyAnalysis = \<lparr>an_startID = [], an_endIDs = [], an_nodes = [], an_routes = [],
     an_adjacency = [], an_predecessors = [], an_indegree = []\<rparr>"

fun indexNodesLoop ::
  "nat \<Rightarrow> nat \<Rightarrow> definitionAnalysis \<Rightarrow> NodeDefinition list \<Rightarrow> (nat \<times> definitionAnalysis) result" where
  "indexNodesLoop index startCount a [] = Inr (startCount, a)"
| "indexNodesLoop index startCount a (node # rest) =
     (if nd_ID node = [] \<or> nd_Kind node = [] then Inl [ErrInvalidDefinition]
      else if map_of (an_nodes a) (nd_ID node) \<noteq> None then Inl [ErrInvalidDefinition]
      else
        let a1 = a\<lparr>an_nodes := an_nodes a @ [(nd_ID node, index)],
                   an_indegree := an_indegree a @ [(nd_ID node, 0)]\<rparr>
        in if nd_Kind node = KindStart then
             indexNodesLoop (Suc index) (Suc startCount) (a1\<lparr>an_startID := nd_ID node\<rparr>) rest
           else if nd_Kind node = KindEnd then
             indexNodesLoop (Suc index) startCount
               (a1\<lparr>an_endIDs := an_endIDs a1 @ [nd_ID node]\<rparr>) rest
           else indexNodesLoop (Suc index) startCount a1 rest)"

definition indexNodes :: "definitionAnalysis \<Rightarrow> Definition \<Rightarrow> definitionAnalysis result" where
  "indexNodes a d =
     bindR (indexNodesLoop 0 0 a (d_Nodes d)) (\<lambda>(startCount, a).
       if startCount \<noteq> 1 then Inl [ErrInvalidDefinition]
       else if an_endIDs a = [] then Inl [ErrInvalidDefinition]
       else Inr a)"

fun indexEdgesLoop ::
  "Definition \<Rightarrow> definitionAnalysis \<Rightarrow> Edge list \<Rightarrow> definitionAnalysis result" where
  "indexEdgesLoop d a [] = Inr a"
| "indexEdgesLoop d a (edge # rest) =
     (case map_of (an_nodes a) (e_From edge) of
        None \<Rightarrow> Inl [ErrInvalidDefinition]
      | Some sourceIndex \<Rightarrow>
          if map_of (an_nodes a) (e_To edge) = None then Inl [ErrInvalidDefinition]
          else if nd_Kind (d_Nodes d ! sourceIndex) = KindEnd then Inl [ErrInvalidDefinition]
          else
            let selector = (e_From edge, e_Outcome edge)
            in if map_of (an_routes a) selector \<noteq> None
               then Inl [ErrInvalidDefinition, ErrAmbiguousRoute]
               else indexEdgesLoop d
                 (a\<lparr>an_routes := (selector, e_To edge) # an_routes a,
                    an_adjacency := adjAppend (an_adjacency a) (e_From edge) (e_To edge),
                    an_predecessors := adjAppend (an_predecessors a) (e_To edge) (e_From edge),
                    an_indegree := cntAdd (an_indegree a) (e_To edge) 1\<rparr>) rest)"

definition indexEdges :: "definitionAnalysis \<Rightarrow> Definition \<Rightarrow> definitionAnalysis result" where
  "indexEdges a d = indexEdgesLoop d a (d_Edges d)"

definition validateAcyclicIn :: "string list \<Rightarrow> definitionAnalysis \<Rightarrow> unit result" where
  \<comment> \<open>\<open>order\<close>: the order in which \<open>range remaining\<close> visits the counters\<close>
  "validateAcyclicIn order a =
     (let remaining = an_indegree a;
          queue = filter (\<lambda>n. cnt remaining n = 0) order
      in failIf (kahn (an_adjacency a) remaining queue 0 \<noteq> length (an_nodes a))
           [ErrInvalidDefinition])"

definition validateAcyclic :: "definitionAnalysis \<Rightarrow> unit result" where
  "validateAcyclic a = validateAcyclicIn (map fst (an_indegree a)) a"

definition validateReachable :: "definitionAnalysis \<Rightarrow> unit result" where
  "validateReachable a =
     failIf (length (bfs (an_adjacency a) [an_startID a] [an_startID a]) \<noteq> length (an_nodes a))
       [ErrInvalidDefinition]"

definition validateCanReachEnd :: "definitionAnalysis \<Rightarrow> unit result" where
  "validateCanReachEnd a =
     failIf (length (bfs (an_predecessors a) (an_endIDs a) (an_endIDs a)) \<noteq> length (an_nodes a))
       [ErrInvalidDefinition]"

definition analyzeDefinition :: "Definition option \<Rightarrow> definitionAnalysis result" where
  "analyzeDefinition definition = (case definition of
      None \<Rightarrow> Inl [ErrInvalidDefinition]
    | Some d \<Rightarrow>
        if d_ID d = [] then Inl [ErrInvalidDefinition]
        else bindR (indexNodes emptyAnalysis d) (\<lambda>a.
             bindR (indexEdges a d) (\<lambda>a.
             bindR (validateAcyclic a) (\<lambda>_.
             bindR (validateReachable a) (\<lambda>_.
             bindR (validateCanReachEnd a) (\<lambda>_. Inr a))))))"

definition Definition_Validate :: "Definition \<Rightarrow> unit result" where
  "Definition_Validate d = bindR (analyzeDefinition (Some d)) (\<lambda>_. Inr ())"

definition Builder_Build :: "Builder \<Rightarrow> Definition result" where
  "Builder_Build b = (case b_err b of
      Some e \<Rightarrow> Inl e
    | None \<Rightarrow> bindR (Definition_Validate (b_definition b)) (\<lambda>_. Inr (b_definition b)))"

subsection \<open>Compilation\<close>

fun prepareNodes ::
  "'h Registry option \<Rightarrow> (string \<rightharpoonup> 'h compiledNode) \<Rightarrow> NodeDefinition list \<Rightarrow>
   (string \<rightharpoonup> 'h compiledNode) result" where
  "prepareNodes registry nodes [] = Inr nodes"
| "prepareNodes registry nodes (node # rest) =
     (if nd_Kind node = KindStart then prepareNodes registry nodes rest
      else if nd_Kind node = KindEnd then prepareNodes registry nodes rest
      else
        bindR (wrapR [ErrInvalidDefinition] (Registry_handler registry (nd_Kind node))) (\<lambda>handler.
        bindR (wrapR [ErrInvalidDefinition, ErrInvalidNodeConfig]
                 (prepareRegisteredNodeHandler (Some handler) (nd_Config node))) (\<lambda>prepared.
        let compiled = (case nodes (nd_ID node) of
              Some c \<Rightarrow> c\<lparr>cn_handler := Some prepared\<rparr>
            | None \<Rightarrow> \<lparr>cn_index = 0, cn_handler = Some prepared\<rparr>)
        in prepareNodes registry (nodes(nd_ID node \<mapsto> compiled)) rest)))"

definition initialNodes :: "(string \<times> nat) list \<Rightarrow> (string \<rightharpoonup> 'h compiledNode)" where
  "initialNodes nodes = map_of (map (\<lambda>(n, index). (n, \<lparr>cn_index = index, cn_handler = None\<rparr>)) nodes)"

definition compileDefinition ::
  "Definition option \<Rightarrow> 'h Registry option \<Rightarrow> 'h compiledDefinition result" where
  "compileDefinition definition registry =
     bindR (analyzeDefinition definition) (\<lambda>analysis.
     let d = the definition;
         plan = \<lparr>cd_definition = d, cd_startID = an_startID analysis,
                 cd_nodes = initialNodes (an_nodes analysis), cd_routes = an_routes analysis\<rparr>
     in if list_ex (\<lambda>node. raw_bytes (nd_Config node) \<noteq> [] \<and>
                            \<not> json_Valid (raw_bytes (nd_Config node))) (d_Nodes d)
        then Inl [ErrInvalidDefinition, ErrInvalidNodeConfig]
        else if map_of (cd_routes plan) (cd_startID plan, []) = None
        then Inl [ErrInvalidDefinition, ErrRouteNotFound]
        else if length (adjOf (an_adjacency analysis) (cd_startID plan)) \<noteq> 1
        then Inl [ErrInvalidDefinition]
        else bindR (prepareNodes registry (cd_nodes plan) (d_Nodes d)) (\<lambda>nodes.
             Inr (plan\<lparr>cd_nodes := nodes\<rparr>)))"

definition CompileDefinition :: "Definition option \<Rightarrow> 'h Registry option \<Rightarrow> unit result" where
  "CompileDefinition definition registry =
     bindR (compileDefinition definition registry) (\<lambda>_. Inr ())"

definition plan_node :: "'h compiledDefinition \<Rightarrow> string \<Rightarrow> NodeDefinition result" where
  "plan_node p nid = (case cd_nodes p nid of
      None \<Rightarrow> Inl [ErrInvalidDefinition]
    | Some compiled \<Rightarrow> Inr (d_Nodes (cd_definition p) ! cn_index compiled))"

definition plan_startNode :: "'h compiledDefinition \<Rightarrow> NodeDefinition result" where
  "plan_startNode p = plan_node p (cd_startID p)"

definition plan_preparedHandler :: "'h compiledDefinition \<Rightarrow> string \<Rightarrow> 'h PreparedNodeHandler result" where
  "plan_preparedHandler p nid = (case cd_nodes p nid of
      None \<Rightarrow> Inl [ErrHandlerNotFound]
    | Some compiled \<Rightarrow> (case cn_handler compiled of
          None \<Rightarrow> Inl [ErrHandlerNotFound]
        | Some h \<Rightarrow> Inr h))"

definition plan_nextNode :: "'h compiledDefinition \<Rightarrow> string \<Rightarrow> string \<Rightarrow> NodeDefinition result" where
  "plan_nextNode p source outcome = (case map_of (cd_routes p) (source, outcome) of
      None \<Rightarrow> Inl [ErrRouteNotFound]
    | Some target \<Rightarrow> plan_node p target)"

end
