(* ===== verification/CompilerSpec.thy ===== *)
theory CompilerSpec
  imports Compiler
begin

text \<open>
  The contract of the definition compiler: the specification \<open>wfGraph\<close> of a well-formed
  graph, stated with relations and closures, and the proof that the worklist analysis of
  \<open>Compiler\<close> decides it (\<open>analyzeDefinition_Inr_iff\<close>). \<open>planWf\<close> collects what the engine relies on in a
  compiled plan, with \<open>compile_planWf\<close> discharging it.
\<close>

subsection \<open>Specification of a well-formed graph\<close>

definition nodeIDs :: "Definition \<Rightarrow> string list" where
  "nodeIDs d = map nd_ID (d_Nodes d)"

definition edgeRel :: "Definition \<Rightarrow> (string \<times> string) set" where
  "edgeRel d = (\<lambda>e. (e_From e, e_To e)) ` set (d_Edges d)"

definition startNodes :: "Definition \<Rightarrow> NodeDefinition list" where
  "startNodes d = filter (\<lambda>n. nd_Kind n = KindStart) (d_Nodes d)"

definition endIDs :: "Definition \<Rightarrow> string list" where
  "endIDs d = map nd_ID (filter (\<lambda>n. nd_Kind n = KindEnd) (d_Nodes d))"

definition wfNodes :: "Definition \<Rightarrow> bool" where
  "wfNodes d \<longleftrightarrow> (\<forall>n\<in>set (d_Nodes d). nd_ID n \<noteq> [] \<and> nd_Kind n \<noteq> []) \<and> distinct (nodeIDs d)
     \<and> length (startNodes d) = 1 \<and> endIDs d \<noteq> []"

definition wfEdges :: "Definition \<Rightarrow> bool" where
  "wfEdges d \<longleftrightarrow>
     (\<forall>e\<in>set (d_Edges d). e_From e \<in> set (nodeIDs d) \<and> e_To e \<in> set (nodeIDs d) \<and>
        e_From e \<notin> set (endIDs d)) \<and>
     distinct (map (\<lambda>e. (e_From e, e_Outcome e)) (d_Edges d))"

definition wfGraph :: "Definition \<Rightarrow> bool" where
  "wfGraph d \<longleftrightarrow> d_ID d \<noteq> [] \<and> wfNodes d \<and> wfEdges d \<and> acyclic (edgeRel d) \<and>
     (\<forall>n\<in>set (nodeIDs d). (nd_ID (hd (startNodes d)), n) \<in> (edgeRel d)\<^sup>*) \<and>
     (\<forall>n\<in>set (nodeIDs d). \<exists>e\<in>set (endIDs d). (n, e) \<in> (edgeRel d)\<^sup>*)"

subsection \<open>Indexing the nodes\<close>

definition nodesIndexed :: "nat \<Rightarrow> definitionAnalysis \<Rightarrow> NodeDefinition list \<Rightarrow> definitionAnalysis" where
  "nodesIndexed index a ns =
     a\<lparr>an_startID := (case filter (\<lambda>n. nd_Kind n = KindStart) ns of
          [] \<Rightarrow> an_startID a | ss \<Rightarrow> nd_ID (last ss)),
       an_endIDs := an_endIDs a @ map nd_ID (filter (\<lambda>n. nd_Kind n = KindEnd) ns),
       an_nodes := an_nodes a @ zip (map nd_ID ns) [index..<index + length ns],
       an_indegree := an_indegree a @ map (\<lambda>n. (nd_ID n, 0)) ns\<rparr>"

lemma zip_upt_Cons:
  "zip (x # xs) [i..<i + Suc k] = (x, i) # zip xs [Suc i..<Suc i + k]"
  by (subst upt_conv_Cons) simp_all

lemma nodesIndexed_Cons:
  "nodesIndexed index a (n # ns) =
     nodesIndexed (Suc index)
       (a\<lparr>an_nodes := an_nodes a @ [(nd_ID n, index)],
          an_indegree := an_indegree a @ [(nd_ID n, 0)],
          an_startID := (if nd_Kind n = KindStart then nd_ID n else an_startID a),
          an_endIDs := (if nd_Kind n = KindEnd then an_endIDs a @ [nd_ID n] else an_endIDs a)\<rparr>) ns"
  using zip_upt_Cons[of "nd_ID n" "map nd_ID ns" index "length ns"]
  by (simp add: nodesIndexed_def del: upt_Suc split: list.split)

lemma indexNodesLoop_iff:
  "indexNodesLoop index k a ns = Inr (k', a') \<longleftrightarrow>
     (\<forall>n\<in>set ns. nd_ID n \<noteq> [] \<and> nd_Kind n \<noteq> [] \<and> nd_ID n \<notin> fst ` set (an_nodes a)) \<and>
     distinct (map nd_ID ns) \<and>
     k' = k + length (filter (\<lambda>n. nd_Kind n = KindStart) ns) \<and>
     a' = nodesIndexed index a ns"
proof (induction ns arbitrary: index k a)
  case Nil
  then show ?case by (auto simp: nodesIndexed_def)
next
  case (Cons n ns)
  have fresh: "map_of (an_nodes a) (nd_ID n) = None \<longleftrightarrow> nd_ID n \<notin> fst ` set (an_nodes a)"
    by (simp add: map_of_eq_None_iff)
  show ?case
    by (auto simp: nodesIndexed_Cons Cons.IH fresh Let_def notin_image_iff)
qed

lemma indexNodes_iff:
  "indexNodes emptyAnalysis d = Inr a \<longleftrightarrow> wfNodes d \<and> a = nodesIndexed 0 emptyAnalysis (d_Nodes d)"
proof -
  have "an_endIDs (nodesIndexed 0 emptyAnalysis (d_Nodes d)) = endIDs d"
    by (simp add: nodesIndexed_def endIDs_def emptyAnalysis_def)
  moreover have "fst ` set (an_nodes emptyAnalysis) = {}" by (simp add: emptyAnalysis_def)
  ultimately show ?thesis
    unfolding indexNodes_def bindR_Inr_iff split_paired_Ex indexNodesLoop_iff
    by (auto simp: wfNodes_def nodeIDs_def startNodes_def)
qed

subsection \<open>Indexing the edges\<close>

definition edgeIndexed :: "definitionAnalysis \<Rightarrow> Edge \<Rightarrow> definitionAnalysis" where
  "edgeIndexed a edge =
     a\<lparr>an_routes := ((e_From edge, e_Outcome edge), e_To edge) # an_routes a,
       an_adjacency := adjAppend (an_adjacency a) (e_From edge) (e_To edge),
       an_predecessors := adjAppend (an_predecessors a) (e_To edge) (e_From edge),
       an_indegree := cntAdd (an_indegree a) (e_To edge) 1\<rparr>"

definition edgeOk :: "Definition \<Rightarrow> (string \<times> nat) list \<Rightarrow> Edge \<Rightarrow> bool" where
  "edgeOk d nodes e \<longleftrightarrow> (\<exists>i. map_of nodes (e_From e) = Some i \<and> nd_Kind (d_Nodes d ! i) \<noteq> KindEnd) \<and>
     map_of nodes (e_To e) \<noteq> None"

abbreviation selectorOf :: "Edge \<Rightarrow> edgeSelector" where
  "selectorOf e \<equiv> (e_From e, e_Outcome e)"

lemma indexEdgesLoop_iff:
  "indexEdgesLoop d a es = Inr a' \<longleftrightarrow>
     (\<forall>e\<in>set es. edgeOk d (an_nodes a) e \<and> map_of (an_routes a) (selectorOf e) = None) \<and>
     distinct (map selectorOf es) \<and> a' = foldl edgeIndexed a es"
proof (induction es arbitrary: a)
  case (Cons e es)
  let ?a = "edgeIndexed a e"
  have step: "indexEdgesLoop d a (e # es) = Inr a' \<longleftrightarrow>
      edgeOk d (an_nodes a) e \<and> map_of (an_routes a) (selectorOf e) = None \<and>
      indexEdgesLoop d ?a es = Inr a'"
    by (auto simp: edgeOk_def edgeIndexed_def Let_def split: option.split)
  have fields: "an_nodes ?a = an_nodes a"
    "map_of (an_routes ?a) s = (if s = selectorOf e then Some (e_To e) else map_of (an_routes a) s)" for s
    by (simp_all add: edgeIndexed_def)
  have if_none: "(if c then Some x else y) = None \<longleftrightarrow> \<not> c \<and> y = None" for c x and y :: "string option"
    by simp
  show ?case
    unfolding step Cons.IH fields if_none list.map distinct.simps set_map notin_image_iff list.set
      ball_simps foldl_Cons
    by blast
qed auto

lemma foldl_edgeIndexed:
  fixes a defines "b es \<equiv> foldl edgeIndexed a es"
  shows "an_startID (b es) = an_startID a" "an_endIDs (b es) = an_endIDs a"
    "an_nodes (b es) = an_nodes a"
    "an_routes (b es) = rev (map (\<lambda>e. (selectorOf e, e_To e)) es) @ an_routes a"
    "adjOf (an_adjacency (b es)) n = adjOf (an_adjacency a) n @ map e_To (filter (\<lambda>e. e_From e = n) es)"
    "adjOf (an_predecessors (b es)) n = adjOf (an_predecessors a) n @ map e_From (filter (\<lambda>e. e_To e = n) es)"
    "cnt (an_indegree (b es)) n = cnt (an_indegree a) n + int (count_list (map e_To es) n)"
    "\<forall>e\<in>set es. e_To e \<in> fst ` set (an_indegree a) \<Longrightarrow> map fst (an_indegree (b es)) = map fst (an_indegree a)"
proof -
  have keys: "t \<in> fst ` set m \<Longrightarrow> map fst (cntAdd m t v) = map fst m" for t m v
    by (simp add: cntAdd_def update_keys)
  show "an_startID (b es) = an_startID a" "an_endIDs (b es) = an_endIDs a"
    "an_nodes (b es) = an_nodes a"
    "an_routes (b es) = rev (map (\<lambda>e. (selectorOf e, e_To e)) es) @ an_routes a"
    "adjOf (an_adjacency (b es)) n = adjOf (an_adjacency a) n @ map e_To (filter (\<lambda>e. e_From e = n) es)"
    "adjOf (an_predecessors (b es)) n = adjOf (an_predecessors a) n @ map e_From (filter (\<lambda>e. e_To e = n) es)"
    "cnt (an_indegree (b es)) n = cnt (an_indegree a) n + int (count_list (map e_To es) n)"
    unfolding b_def by (induction es arbitrary: a) (auto simp: edgeIndexed_def)
  show "\<forall>e\<in>set es. e_To e \<in> fst ` set (an_indegree a) \<Longrightarrow>
      map fst (an_indegree (b es)) = map fst (an_indegree a)"
    unfolding b_def
  proof (induction es arbitrary: a)
    case (Cons e es)
    have k: "map fst (an_indegree (edgeIndexed a e)) = map fst (an_indegree a)"
      using Cons.prems by (simp add: edgeIndexed_def keys)
    then have "fst ` set (an_indegree (edgeIndexed a e)) = fst ` set (an_indegree a)"
      by (metis list.set_map)
    with Cons.IH[of "edgeIndexed a e"] Cons.prems k show ?case by simp
  qed simp
qed

subsection \<open>The analysis decides well-formedness\<close>

definition indexed :: "Definition \<Rightarrow> definitionAnalysis" where
  "indexed d = foldl edgeIndexed (nodesIndexed 0 emptyAnalysis (d_Nodes d)) (d_Edges d)"

lemma startNodes_single:
  assumes "wfNodes d" shows "startNodes d = [hd (startNodes d)]"
  using assms by (cases "startNodes d") (auto simp: wfNodes_def)

lemma nodesIndexed_fields:
  fixes d defines "a \<equiv> nodesIndexed 0 emptyAnalysis (d_Nodes d)"
  shows "an_nodes a = zip (nodeIDs d) [0..<length (d_Nodes d)]"
    "an_endIDs a = endIDs d" "an_routes a = []" "an_adjacency a = []" "an_predecessors a = []"
    "map fst (an_indegree a) = nodeIDs d" "cnt (an_indegree a) n = 0"
    "wfNodes d \<Longrightarrow> an_startID a = nd_ID (hd (startNodes d))"
proof -
  have "map_of (map (\<lambda>n. (nd_ID n, 0::int)) ns) m = Some v \<Longrightarrow> v = 0" for ns m v
    by (induction ns) (auto split: if_splits)
  then show "cnt (an_indegree a) n = 0"
    by (auto simp: a_def nodesIndexed_def emptyAnalysis_def cnt_def split: option.split)
  show "an_startID a = nd_ID (hd (startNodes d))" if "wfNodes d"
    using startNodes_single[OF that]
    by (auto simp: a_def nodesIndexed_def startNodes_def split: list.split)
qed (simp_all add: a_def nodesIndexed_def emptyAnalysis_def nodeIDs_def endIDs_def comp_def)

lemma nodeIndex_iff:
  assumes "wfNodes d"
  shows "map_of (zip (nodeIDs d) [0..<length (d_Nodes d)]) n = Some i \<longleftrightarrow>
    i < length (d_Nodes d) \<and> nd_ID (d_Nodes d ! i) = n"
proof -
  have dist: "distinct (map fst (zip (nodeIDs d) [0..<length (d_Nodes d)]))"
    using assms by (simp add: wfNodes_def nodeIDs_def)
  show ?thesis
    unfolding map_of_eq_Some_iff[OF dist]
    by (auto simp: in_set_zip nodeIDs_def intro!: exI[of _ i])
qed

lemma node_in: "n \<in> set (d_Nodes d) \<Longrightarrow> nd_ID n \<in> set (nodeIDs d)"
  by (simp add: nodeIDs_def)

lemma node_unique:
  "wfNodes d \<Longrightarrow> n \<in> set (d_Nodes d) \<Longrightarrow> m \<in> set (d_Nodes d) \<Longrightarrow> nd_ID n = nd_ID m \<Longrightarrow> n = m"
  by (auto simp: wfNodes_def nodeIDs_def distinct_map dest: inj_onD)

lemma endIDs_iff:
  assumes "wfNodes d" "n \<in> set (d_Nodes d)"
  shows "nd_ID n \<in> set (endIDs d) \<longleftrightarrow> nd_Kind n = KindEnd"
  using node_unique[OF assms] assms(2) by (auto simp: endIDs_def)

lemma edgeOk_iff:
  assumes "wfNodes d"
  shows "edgeOk d (zip (nodeIDs d) [0..<length (d_Nodes d)]) e \<longleftrightarrow>
    e_From e \<in> set (nodeIDs d) \<and> e_To e \<in> set (nodeIDs d) \<and> e_From e \<notin> set (endIDs d)"
proof -
  let ?m = "map_of (zip (nodeIDs d) [0..<length (d_Nodes d)])"
  have dom: "?m n \<noteq> None \<longleftrightarrow> n \<in> set (nodeIDs d)" for n
    by (simp add: map_of_zip_is_None nodeIDs_def)
  have "(\<exists>i. ?m n = Some i \<and> nd_Kind (d_Nodes d ! i) \<noteq> KindEnd) \<longleftrightarrow>
      n \<in> set (nodeIDs d) \<and> n \<notin> set (endIDs d)" for n
  proof -
    have "(\<exists>i. ?m n = Some i \<and> nd_Kind (d_Nodes d ! i) \<noteq> KindEnd) \<longleftrightarrow>
        (\<exists>x\<in>set (d_Nodes d). nd_ID x = n \<and> nd_Kind x \<noteq> KindEnd)"
      unfolding nodeIndex_iff[OF assms] by (metis in_set_conv_nth)
    then show ?thesis using endIDs_iff[OF assms] by (auto simp: nodeIDs_def)
  qed
  then show ?thesis unfolding edgeOk_def dom by blast
qed

lemma indexEdges_iff:
  assumes "wfNodes d"
  shows "indexEdges (nodesIndexed 0 emptyAnalysis (d_Nodes d)) d = Inr a \<longleftrightarrow> wfEdges d \<and> a = indexed d"
  unfolding indexEdges_def indexEdgesLoop_iff nodesIndexed_fields edgeOk_iff[OF assms]
  by (auto simp: wfEdges_def indexed_def)

lemma adjOf_Nil [simp]: "adjOf [] n = []"
  by (simp add: adjOf_def)

lemma indexed_fields:
  assumes "wfNodes d" and "wfEdges d"
  shows "an_startID (indexed d) = nd_ID (hd (startNodes d))" "an_endIDs (indexed d) = endIDs d"
    "an_nodes (indexed d) = zip (nodeIDs d) [0..<length (d_Nodes d)]"
    "an_routes (indexed d) = rev (map (\<lambda>e. (selectorOf e, e_To e)) (d_Edges d))"
    "adjRel (an_adjacency (indexed d)) = edgeRel d"
    "adjRel (an_predecessors (indexed d)) = (edgeRel d)\<inverse>"
    "map fst (an_indegree (indexed d)) = nodeIDs d"
    "cnt (an_indegree (indexed d)) n = int (count_list (map e_To (d_Edges d)) n)"
proof -
  note f = foldl_edgeIndexed[where es = "d_Edges d" and a = "nodesIndexed 0 emptyAnalysis (d_Nodes d)",
      folded indexed_def, unfolded nodesIndexed_fields adjOf_Nil append_Nil append_Nil2]
  show "an_startID (indexed d) = nd_ID (hd (startNodes d))"
    using f(1) nodesIndexed_fields(8)[OF assms(1)] by simp
  have "fst ` set (an_indegree (nodesIndexed 0 emptyAnalysis (d_Nodes d))) = set (nodeIDs d)"
    by (metis nodesIndexed_fields(6) list.set_map)
  then show "map fst (an_indegree (indexed d)) = nodeIDs d"
    using f(8) assms(2) by (simp add: wfEdges_def)
  show "adjRel (an_adjacency (indexed d)) = edgeRel d"
    "adjRel (an_predecessors (indexed d)) = (edgeRel d)\<inverse>"
    unfolding adjRel_def f(5,6) by (auto simp: edgeRel_def image_iff)
qed (use foldl_edgeIndexed[where es = "d_Edges d" and a = "nodesIndexed 0 emptyAnalysis (d_Nodes d)",
      folded indexed_def] in \<open>simp_all add: nodesIndexed_fields\<close>)

lemma edgeRel_nodes: "wfEdges d \<Longrightarrow> edgeRel d \<subseteq> set (nodeIDs d) \<times> set (nodeIDs d)"
  by (auto simp: wfEdges_def edgeRel_def)

lemma indexed_indegree:
  assumes "wfNodes d" and "wfEdges d"
  shows "cnt (an_indegree (indexed d)) t =
    int (edgesFrom (an_adjacency (indexed d)) (set (nodeIDs d)) t)"
proof -
  have adj: "adjOf (an_adjacency (indexed d)) n = map e_To (filter (\<lambda>e. e_From e = n) (d_Edges d))" for n
    by (simp add: indexed_def foldl_edgeIndexed nodesIndexed_fields)
  have "(\<Sum>n\<in>N. count_list (map e_To (filter (\<lambda>e. e_From e = n) es)) t) = count_list (map e_To es) t"
    if "finite N" "\<forall>e\<in>set es. e_From e \<in> N" for N es
    using that
  proof (induction es)
    case (Cons e es)
    have "(\<Sum>n\<in>N. count_list (map e_To (filter (\<lambda>e. e_From e = n) (e # es))) t) =
        (\<Sum>n\<in>N. (if n = e_From e then if e_To e = t then 1 else 0 else 0) +
          count_list (map e_To (filter (\<lambda>e. e_From e = n) es)) t)"
      by (intro sum.cong) auto
    also have "\<dots> = (if e_To e = t then 1 else 0) + count_list (map e_To es) t"
      using Cons by (simp add: sum.distrib sum.delta')
    finally show ?case by simp
  qed simp
  from this[of "set (nodeIDs d)" "d_Edges d"] assms(2) show ?thesis
    unfolding indexed_fields(8)[OF assms] edgesFrom_def adj
    by (simp add: wfEdges_def del: of_nat_sum)
qed

lemma validateAcyclicIn_iff:
  assumes "wfNodes d" and "wfEdges d"
    and order: "distinct order" "set order = set (nodeIDs d)"
  shows "validateAcyclicIn order (indexed d) = Inr () \<longleftrightarrow> acyclic (edgeRel d)"
proof -
  have "distinct (nodeIDs d)" using assms(1) by (simp add: wfNodes_def)
  then have "length order = length (nodeIDs d)"
    using distinct_card[OF order(1)] distinct_card[of "nodeIDs d"] order(2) by simp
  then have len: "length order = length (an_nodes (indexed d))"
    unfolding indexed_fields(3)[OF assms(1,2)] by (simp add: nodeIDs_def)
  have sub: "adjRel (an_adjacency (indexed d)) \<subseteq> set order \<times> set order"
    unfolding indexed_fields(5)[OF assms(1,2)] order(2) by (rule edgeRel_nodes[OF assms(2)])
  have "kahn (an_adjacency (indexed d)) (an_indegree (indexed d))
      (filter (\<lambda>n. cnt (an_indegree (indexed d)) n = 0) order) 0 = length order \<longleftrightarrow>
    acyclic (adjRel (an_adjacency (indexed d)))"
  proof (rule kahn_complete_iff_acyclic[OF order(1) sub])
    show "cnt (an_indegree (indexed d)) t = int (edgesFrom (an_adjacency (indexed d)) (set order) t)" for t
      unfolding order(2) by (rule indexed_indegree[OF assms(1,2)])
  qed (use order(1) in \<open>auto intro: distinct_filter\<close>)
  then show ?thesis
    unfolding validateAcyclicIn_def Let_def len[symmetric] indexed_fields(5)[OF assms(1,2)] by simp
qed

lemma scan_complete:
  assumes "distinct seeds" and "adjRel adj \<subseteq> set ns \<times> set ns" and "set seeds \<subseteq> set ns" and "distinct ns"
  shows "length (bfs adj seeds seeds) = length ns \<longleftrightarrow> (\<forall>n\<in>set ns. n \<in> (adjRel adj)\<^sup>* `` set seeds)"
proof -
  have "(adjRel adj)\<^sup>* `` set seeds \<subseteq> set ns"
    using assms(2,3) by (auto elim: rtranclE)
  then have sub: "set (bfs adj seeds seeds) \<subseteq> set ns" by (simp add: bfs_reach)
  have "length (bfs adj seeds seeds) = length ns \<longleftrightarrow> set (bfs adj seeds seeds) = set ns"
    using bfs_distinct[OF assms(1), of adj] assms(4) sub card_subset_eq[OF _ sub]
    by (metis List.finite_set distinct_card)
  then show ?thesis using sub by (auto simp: bfs_reach)
qed

lemma analyzeDefinition_Inr_iff:
  "analyzeDefinition (Some d) = Inr a \<longleftrightarrow> wfGraph d \<and> a = indexed d"
proof (cases "wfNodes d \<and> wfEdges d")
  case True
  then have wf: "wfNodes d" "wfEdges d" by auto
  note f = indexed_fields[OF wf]
  have nodes: "distinct (nodeIDs d)" "length (an_nodes (indexed d)) = length (nodeIDs d)"
    using wf by (auto simp: wfNodes_def f nodeIDs_def)
  have ends: "distinct (endIDs d)" "set (endIDs d) \<subseteq> set (nodeIDs d)"
    using nodes(1) by (auto simp: endIDs_def nodeIDs_def distinct_map_filter)
  have start: "nd_ID (hd (startNodes d)) \<in> set (nodeIDs d)"
    using startNodes_single[OF wf(1)] unfolding startNodes_def
    by (metis filter_is_subset list.set_intros(1) node_in subsetD)
  have ac: "validateAcyclic (indexed d) = Inr () \<longleftrightarrow> acyclic (edgeRel d)"
    unfolding validateAcyclic_def f by (rule validateAcyclicIn_iff[OF wf nodes(1) refl])
  have re: "validateReachable (indexed d) = Inr () \<longleftrightarrow>
      (\<forall>n\<in>set (nodeIDs d). (nd_ID (hd (startNodes d)), n) \<in> (edgeRel d)\<^sup>*)"
    using scan_complete[of "[nd_ID (hd (startNodes d))]" "an_adjacency (indexed d)" "nodeIDs d"]
      edgeRel_nodes[OF wf(2)] start nodes
    by (simp add: validateReachable_def f(1,2,4,5) nodes(2))
  have ce: "validateCanReachEnd (indexed d) = Inr () \<longleftrightarrow>
      (\<forall>n\<in>set (nodeIDs d). \<exists>e\<in>set (endIDs d). (n, e) \<in> (edgeRel d)\<^sup>*)"
    using scan_complete[of "endIDs d" "an_predecessors (indexed d)" "nodeIDs d"]
      edgeRel_nodes[OF wf(2)] ends nodes
    by (auto simp: validateCanReachEnd_def f(1,2,4,6) nodes(2) rtrancl_converse Image_iff)
  show ?thesis
    using wf ac re ce by (auto simp: analyzeDefinition_def bindR_Inr_iff indexNodes_iff
        indexEdges_iff wfGraph_def)
next
  case False
  then show ?thesis
    by (auto simp: analyzeDefinition_def bindR_Inr_iff indexNodes_iff indexEdges_iff wfGraph_def
        split: if_splits)
qed

lemma analyzeDefinition_error:
  assumes "analyzeDefinition d = Inl e" shows "errors_Is e ErrInvalidDefinition"
proof -
  have n: "errors_Is e ErrInvalidDefinition" if "indexNodesLoop i k a ns = Inl e" for i k a ns
    using that
  proof (induction ns arbitrary: i k a)
    case (Cons n ns)
    then show ?case by (auto simp: Let_def split: if_splits)
  qed simp
  have g: "errors_Is e ErrInvalidDefinition" if "indexEdgesLoop d a es = Inl e" for d a es
    using that
  proof (induction es arbitrary: a)
    case (Cons e es)
    then show ?case by (auto simp: Let_def split: if_splits option.splits)
  qed simp
  show ?thesis
    using assms unfolding analyzeDefinition_def
    by (auto simp: bindR_Inl_iff indexNodes_def indexEdges_def validateAcyclic_def failIf_def
        validateAcyclicIn_def validateReachable_def validateCanReachEnd_def Let_def
        dest: n g split: option.splits if_splits)
qed

subsection \<open>Compiled plans\<close>

abbreviation business :: "NodeDefinition \<Rightarrow> bool" where
  "business n \<equiv> nd_Kind n \<noteq> KindStart \<and> nd_Kind n \<noteq> KindEnd"

definition nodeExecutor :: "'h Registry option \<Rightarrow> NodeDefinition \<Rightarrow> 'h PreparedNodeHandler result" where
  "nodeExecutor registry n = bindR (Registry_handler registry (nd_Kind n))
     (\<lambda>h. prepareRegisteredNodeHandler (Some h) (nd_Config n))"

definition startEdges :: "Definition \<Rightarrow> Edge list" where
  "startEdges d = filter (\<lambda>e. e_From e = nd_ID (hd (startNodes d))) (d_Edges d)"

definition compilable :: "'h Registry option \<Rightarrow> Definition \<Rightarrow> bool" where
  "compilable registry d \<longleftrightarrow> wfGraph d \<and>
     (\<forall>n\<in>set (d_Nodes d). raw_bytes (nd_Config n) = [] \<or> json_Valid (raw_bytes (nd_Config n))) \<and>
     map e_Outcome (startEdges d) = [[]] \<and>
     (\<forall>n\<in>set (d_Nodes d). business n \<longrightarrow> isOk (nodeExecutor registry n))"

definition planWf :: "'h Registry option \<Rightarrow> 'h compiledDefinition \<Rightarrow> bool" where
  "planWf registry p \<longleftrightarrow>
     compilable registry (cd_definition p) \<and>
     cd_startID p = nd_ID (hd (startNodes (cd_definition p))) \<and>
     (\<forall>s t. map_of (cd_routes p) s = Some t \<longleftrightarrow>
        (\<exists>e\<in>set (d_Edges (cd_definition p)). selectorOf e = s \<and> e_To e = t)) \<and>
     dom (cd_nodes p) = set (nodeIDs (cd_definition p)) \<and>
     (\<forall>n\<in>set (d_Nodes (cd_definition p)). \<exists>c. cd_nodes p (nd_ID n) = Some c \<and>
        d_Nodes (cd_definition p) ! cn_index c = n \<and>
        (if business n then \<exists>h. nodeExecutor registry n = Inr h \<and> cn_handler c = Some h
         else cn_handler c = None))"

lemma prepareNodes_step:
  "prepareNodes registry nodes (n # ns) =
     (if business n
      then bindR (wrapR [ErrInvalidDefinition] (Registry_handler registry (nd_Kind n))) (\<lambda>h.
           bindR (wrapR [ErrInvalidDefinition, ErrInvalidNodeConfig]
                   (prepareRegisteredNodeHandler (Some h) (nd_Config n))) (\<lambda>p.
           prepareNodes registry (nodes(nd_ID n \<mapsto> (case nodes (nd_ID n) of
              Some c \<Rightarrow> c\<lparr>cn_handler := Some p\<rparr>
            | None \<Rightarrow> \<lparr>cn_index = 0, cn_handler = Some p\<rparr>))) ns))
      else prepareNodes registry nodes ns)"
  by simp

lemma prepareNodes_Cons_Inr:
  "prepareNodes registry nodes (n # ns) = Inr nodes' \<longleftrightarrow>
     (if business n
      then \<exists>p. nodeExecutor registry n = Inr p \<and>
        prepareNodes registry (nodes(nd_ID n \<mapsto> (case nodes (nd_ID n) of
          Some c \<Rightarrow> c\<lparr>cn_handler := Some p\<rparr>
        | None \<Rightarrow> \<lparr>cn_index = 0, cn_handler = Some p\<rparr>))) ns = Inr nodes'
      else prepareNodes registry nodes ns = Inr nodes')"
  unfolding prepareNodes_step by (auto simp: bindR_Inr_iff nodeExecutor_def)

declare prepareNodes.simps(2) [simp del]

lemma prepareNodes_ok:
  "(\<exists>nodes'. prepareNodes registry nodes ns = Inr nodes') \<longleftrightarrow>
     (\<forall>n\<in>set ns. business n \<longrightarrow> isOk (nodeExecutor registry n))"
proof (induction ns arbitrary: nodes)
  case (Cons n ns)
  show ?case
  proof (cases "business n \<and> isOk (nodeExecutor registry n)")
    case True
    then obtain p where "nodeExecutor registry n = Inr p" by (auto simp: isOk_iff)
    with True Cons show ?thesis by (simp add: prepareNodes_Cons_Inr)
  next
    case False
    with Cons show ?thesis by (auto simp: prepareNodes_Cons_Inr)
  qed
qed simp

lemma prepareNodes_lookup:
  assumes "prepareNodes registry nodes ns = Inr nodes'" and "distinct (map nd_ID ns)"
    and "\<forall>n\<in>set ns. nodes (nd_ID n) \<noteq> None"
  shows "dom nodes' = dom nodes"
    and "k \<notin> nd_ID ` set ns \<Longrightarrow> nodes' k = nodes k"
    and "n \<in> set ns \<Longrightarrow> \<not> business n \<Longrightarrow> nodes' (nd_ID n) = nodes (nd_ID n)"
    and "n \<in> set ns \<Longrightarrow> business n \<Longrightarrow> \<exists>p. nodeExecutor registry n = Inr p \<and>
      nodes' (nd_ID n) = Some ((the (nodes (nd_ID n)))\<lparr>cn_handler := Some p\<rparr>)"
proof -
  have "dom nodes' = dom nodes \<and> (\<forall>k. k \<notin> nd_ID ` set ns \<longrightarrow> nodes' k = nodes k) \<and>
    (\<forall>n\<in>set ns. if business n then \<exists>p. nodeExecutor registry n = Inr p \<and>
      nodes' (nd_ID n) = Some ((the (nodes (nd_ID n)))\<lparr>cn_handler := Some p\<rparr>)
     else nodes' (nd_ID n) = nodes (nd_ID n))"
    using assms
  proof (induction ns arbitrary: nodes)
    case (Cons n ns)
    have fresh: "nd_ID n \<notin> nd_ID ` set ns" using Cons.prems by simp
    show ?case
    proof (cases "business n")
      case True
      obtain c where c: "nodes (nd_ID n) = Some c" using Cons.prems by auto
      obtain p where p: "nodeExecutor registry n = Inr p"
        "prepareNodes registry (nodes(nd_ID n \<mapsto> c\<lparr>cn_handler := Some p\<rparr>)) ns = Inr nodes'"
        using Cons.prems(1) True c by (auto simp: prepareNodes_Cons_Inr)
      have other: "m \<in> set ns \<Longrightarrow> nd_ID m \<noteq> nd_ID n" for m
        using fresh unfolding notin_image_iff by blast
      from Cons.IH[OF p(2)] Cons.prems(2,3) have IH:
        "dom nodes' = insert (nd_ID n) (dom nodes)"
        "\<And>k. k \<notin> nd_ID ` set ns \<Longrightarrow> nodes' k = (nodes(nd_ID n \<mapsto> c\<lparr>cn_handler := Some p\<rparr>)) k"
        "\<forall>m\<in>set ns. if business m then \<exists>q. nodeExecutor registry m = Inr q \<and>
          nodes' (nd_ID m) = Some ((the (nodes (nd_ID m)))\<lparr>cn_handler := Some q\<rparr>)
         else nodes' (nd_ID m) = nodes (nd_ID m)"
        by (auto simp: other)
      from IH(2)[OF fresh] p(1) True c have "nodes' (nd_ID n) = Some (c\<lparr>cn_handler := Some p\<rparr>)"
        by simp
      with IH p(1) True c show ?thesis by auto
    next
      case False
      then have "prepareNodes registry nodes ns = Inr nodes'"
        using Cons.prems(1) by (auto simp: prepareNodes_Cons_Inr)
      from Cons.IH[OF this] Cons.prems(2,3) False show ?thesis
        by (auto simp: fresh)
    qed
  qed simp
  then show "dom nodes' = dom nodes"
    and "k \<notin> nd_ID ` set ns \<Longrightarrow> nodes' k = nodes k"
    and "n \<in> set ns \<Longrightarrow> \<not> business n \<Longrightarrow> nodes' (nd_ID n) = nodes (nd_ID n)"
    and "n \<in> set ns \<Longrightarrow> business n \<Longrightarrow> \<exists>p. nodeExecutor registry n = Inr p \<and>
      nodes' (nd_ID n) = Some ((the (nodes (nd_ID n)))\<lparr>cn_handler := Some p\<rparr>)"
    by auto
qed

lemma routes_iff:
  assumes "wfNodes d" and "wfEdges d"
  shows "map_of (an_routes (indexed d)) s = Some t \<longleftrightarrow>
    (\<exists>e\<in>set (d_Edges d). selectorOf e = s \<and> e_To e = t)"
proof -
  have "distinct (map fst (an_routes (indexed d)))"
    using assms(2) by (simp add: indexed_fields(4)[OF assms] wfEdges_def rev_map[symmetric] comp_def)
  from map_of_eq_Some_iff[OF this] show ?thesis
    by (auto simp: indexed_fields(4)[OF assms] image_iff)
qed

lemma start_checks:
  assumes "wfNodes d" and "wfEdges d"
  shows "map_of (an_routes (indexed d)) (an_startID (indexed d), []) \<noteq> None \<and>
      length (adjOf (an_adjacency (indexed d)) (an_startID (indexed d))) = 1 \<longleftrightarrow>
    map e_Outcome (startEdges d) = [[]]"
proof -
  let ?s = "nd_ID (hd (startNodes d))"
  have adj: "adjOf (an_adjacency (indexed d)) ?s = map e_To (startEdges d)"
    by (simp add: indexed_def foldl_edgeIndexed nodesIndexed_fields startEdges_def)
  have "map_of (an_routes (indexed d)) (?s, []) \<noteq> None \<longleftrightarrow>
      (\<exists>e\<in>set (startEdges d). e_Outcome e = [])"
    by (auto simp: routes_iff[OF assms] startEdges_def)
  then show ?thesis
    unfolding indexed_fields(1)[OF assms] adj
    by (cases "startEdges d") (auto simp: length_Suc_conv)
qed

definition compiledNodes :: "'h Registry option \<Rightarrow> Definition \<Rightarrow> (string \<rightharpoonup> 'h compiledNode) result" where
  "compiledNodes registry d =
     prepareNodes registry (initialNodes (an_nodes (indexed d))) (d_Nodes d)"

lemma compileDefinition_Inr_iff:
  "compileDefinition (Some d) registry = Inr p \<longleftrightarrow>
     wfGraph d \<and>
     (\<forall>n\<in>set (d_Nodes d). raw_bytes (nd_Config n) = [] \<or> json_Valid (raw_bytes (nd_Config n))) \<and>
     map e_Outcome (startEdges d) = [[]] \<and>
     (\<exists>nodes. compiledNodes registry d = Inr nodes \<and>
        p = \<lparr>cd_definition = d, cd_startID = nd_ID (hd (startNodes d)),
             cd_nodes = nodes, cd_routes = an_routes (indexed d)\<rparr>)"
proof (cases "wfGraph d")
  case True
  then have wf: "wfNodes d" "wfEdges d" by (auto simp: wfGraph_def)
  have "analyzeDefinition (Some d) = Inr (indexed d)"
    using True by (simp add: analyzeDefinition_Inr_iff)
  then show ?thesis
    using True start_checks[OF wf]
    by (auto simp: compileDefinition_def Let_def bindR_Inr_iff compiledNodes_def list_ex_iff
        indexed_fields(1)[OF wf])
next
  case False
  then show ?thesis
    by (auto simp: compileDefinition_def bindR_Inr_iff analyzeDefinition_Inr_iff)
qed

lemma initialNodes_lookup:
  assumes "wfNodes d" and "wfEdges d"
  shows "initialNodes (an_nodes (indexed d)) n = Some c \<longleftrightarrow>
    (\<exists>i < length (d_Nodes d). nd_ID (d_Nodes d ! i) = n \<and> c = \<lparr>cn_index = i, cn_handler = None\<rparr>)"
proof -
  have "map_of (map (\<lambda>(n, i). (n, f i)) xs) m = map_option f (map_of xs m)" for f :: "nat \<Rightarrow> 'a compiledNode"
    and xs :: "(string \<times> nat) list" and m
    by (induction xs) auto
  then show ?thesis
    unfolding initialNodes_def indexed_fields(3)[OF assms]
    by (auto simp: nodeIndex_iff[OF assms(1)])
qed

lemma compile_planWf:
  assumes "compileDefinition (Some d) registry = Inr p"
  shows "planWf registry p" and "cd_definition p = d"
proof -
  from assms have wf: "wfGraph d" and c: "compiledNodes registry d = Inr (cd_nodes p)"
    and valid: "\<forall>n\<in>set (d_Nodes d). raw_bytes (nd_Config n) = [] \<or> json_Valid (raw_bytes (nd_Config n))"
    and start: "map e_Outcome (startEdges d) = [[]]"
    and p: "cd_definition p = d" "cd_startID p = nd_ID (hd (startNodes d))"
      "cd_routes p = an_routes (indexed d)"
    by (auto simp: compileDefinition_Inr_iff)
  have wfd: "wfNodes d" "wfEdges d" using wf by (auto simp: wfGraph_def)
  have dist: "distinct (map nd_ID (d_Nodes d))" using wfd by (simp add: wfNodes_def nodeIDs_def)
  have init: "\<exists>k. initialNodes (an_nodes (indexed d)) (nd_ID n) = Some \<lparr>cn_index = k, cn_handler = None\<rparr> \<and>
      d_Nodes d ! k = n" if n: "n \<in> set (d_Nodes d)" for n
    using n by (auto simp: in_set_conv_nth initialNodes_lookup[OF wfd])
  have defd: "\<forall>n\<in>set (d_Nodes d). initialNodes (an_nodes (indexed d)) (nd_ID n) \<noteq> None"
    using init by fastforce
  note look = prepareNodes_lookup[OF c[unfolded compiledNodes_def] dist defd]
  have "dom (initialNodes (an_nodes (indexed d)) :: string \<rightharpoonup> 'a compiledNode) = set (nodeIDs d)"
    by (force simp: dom_def initialNodes_lookup[OF wfd] nodeIDs_def in_set_conv_nth)
  with look(1) have doms: "dom (cd_nodes p) = set (nodeIDs d)" by simp
  have nodes: "\<exists>c. cd_nodes p (nd_ID n) = Some c \<and> d_Nodes d ! cn_index c = n \<and>
      (if business n then \<exists>h. nodeExecutor registry n = Inr h \<and> cn_handler c = Some h
       else cn_handler c = None)" if n: "n \<in> set (d_Nodes d)" for n
    using init[OF n] look(3)[OF n] look(4)[OF n] by (cases "business n") auto
  have "\<forall>n\<in>set (d_Nodes d). business n \<longrightarrow> isOk (nodeExecutor registry n)"
    using c prepareNodes_ok unfolding compiledNodes_def by blast
  then show "planWf registry p" unfolding planWf_def compilable_def p
    using wf valid start routes_iff[OF wfd] doms nodes by blast
  show "cd_definition p = d" by (rule p(1))
qed

lemma compileDefinition_total:
  "(\<exists>p. compileDefinition (Some d) registry = Inr p) \<longleftrightarrow> compilable registry d"
  unfolding compileDefinition_Inr_iff compilable_def compiledNodes_def
    prepareNodes_ok[symmetric, of "d_Nodes d" registry "initialNodes (an_nodes (indexed d))"]
  by auto

lemma compileDefinition_error:
  assumes "compileDefinition d registry = Inl e" shows "errors_Is e ErrInvalidDefinition"
proof -
  have p: "errors_Is e ErrInvalidDefinition" if "prepareNodes registry nodes ns = Inl e" for nodes ns
    using that
  proof (induction ns arbitrary: nodes)
    case (Cons n ns)
    then show ?case
      by (cases "Registry_handler registry (nd_Kind n)")
        (auto simp: prepareNodes_step bindR_Inl_iff wrapR_def split: if_splits sum.splits)
  qed simp
  show ?thesis
    using assms unfolding compileDefinition_def
    by (auto simp: bindR_Inl_iff Let_def dest: p analyzeDefinition_error split: if_splits)
qed

subsection \<open>Reading a compiled plan\<close>

lemma plan_node_iff:
  assumes "planWf registry p"
  shows "plan_node p k = Inr n \<longleftrightarrow> n \<in> set (d_Nodes (cd_definition p)) \<and> nd_ID n = k"
proof -
  let ?d = "cd_definition p"
  have wf: "wfNodes ?d" and dom: "dom (cd_nodes p) = set (nodeIDs ?d)"
    and nodes: "\<And>n. n \<in> set (d_Nodes ?d) \<Longrightarrow> \<exists>c. cd_nodes p (nd_ID n) = Some c \<and> d_Nodes ?d ! cn_index c = n"
    using assms by (auto simp: planWf_def compilable_def wfGraph_def)
  show ?thesis
  proof
    assume l: "plan_node p k = Inr n"
    then obtain c where c: "cd_nodes p k = Some c" "n = d_Nodes ?d ! cn_index c"
      by (auto simp: plan_node_def split: option.splits)
    then have "k \<in> set (nodeIDs ?d)" using dom by auto
    then obtain m where m: "m \<in> set (d_Nodes ?d)" "nd_ID m = k" by (auto simp: nodeIDs_def)
    with nodes[OF m(1)] c show "n \<in> set (d_Nodes ?d) \<and> nd_ID n = k" by auto
  next
    assume "n \<in> set (d_Nodes ?d) \<and> nd_ID n = k"
    with nodes[of n] show "plan_node p k = Inr n" by (auto simp: plan_node_def)
  qed
qed

lemma plan_nextNode_iff:
  assumes "planWf registry p"
  shows "plan_nextNode p k outcome = Inr n \<longleftrightarrow> n \<in> set (d_Nodes (cd_definition p)) \<and>
    (\<exists>e\<in>set (d_Edges (cd_definition p)). e_From e = k \<and> e_Outcome e = outcome \<and> e_To e = nd_ID n)"
proof -
  have routes: "map_of (cd_routes p) s = Some t \<longleftrightarrow>
      (\<exists>e\<in>set (d_Edges (cd_definition p)). selectorOf e = s \<and> e_To e = t)" for s t
    using assms unfolding planWf_def by blast
  have "plan_nextNode p k outcome = Inr n \<longleftrightarrow>
      (\<exists>t. map_of (cd_routes p) (k, outcome) = Some t \<and> plan_node p t = Inr n)"
    by (simp add: plan_nextNode_def split: option.split)
  then show ?thesis unfolding routes plan_node_iff[OF assms] by auto
qed

lemma plan_nextNode_edge:
  assumes "planWf registry p" and "plan_nextNode p k outcome = Inr n"
  shows "(k, nd_ID n) \<in> edgeRel (cd_definition p)"
proof -
  obtain e where "e \<in> set (d_Edges (cd_definition p))" "e_From e = k" "e_To e = nd_ID n"
    using assms(2) unfolding plan_nextNode_iff[OF assms(1)] by auto
  then show ?thesis unfolding edgeRel_def by (metis (mono_tags, lifting) image_eqI)
qed

lemma plan_preparedHandler_business:
  assumes "planWf registry p" and "plan_node p k = Inr n" and "business n"
  shows "\<exists>h. plan_preparedHandler p k = Inr h \<and> nodeExecutor registry n = Inr h"
proof -
  have n: "n \<in> set (d_Nodes (cd_definition p))" "nd_ID n = k"
    using assms(2) plan_node_iff[OF assms(1)] by auto
  then show ?thesis
    using assms(1,3) unfolding planWf_def plan_preparedHandler_def by (auto dest!: bspec)
qed

lemma plan_handler_executor:
  assumes "planWf registry p" and "plan_preparedHandler p k = Inr h"
  shows "\<exists>n\<in>set (d_Nodes (cd_definition p)). nd_ID n = k \<and> business n \<and> nodeExecutor registry n = Inr h"
proof -
  let ?d = "cd_definition p"
  obtain c where c: "cd_nodes p k = Some c" "cn_handler c = Some h"
    using assms(2) by (auto simp: plan_preparedHandler_def split: option.splits)
  have "dom (cd_nodes p) = set (nodeIDs ?d)" using assms(1) unfolding planWf_def by blast
  with c(1) have "k \<in> set (nodeIDs ?d)" by blast
  then obtain n where n: "n \<in> set (d_Nodes ?d)" "nd_ID n = k" by (auto simp: nodeIDs_def)
  have "\<exists>c. cd_nodes p (nd_ID n) = Some c \<and>
        (if business n then \<exists>h. nodeExecutor registry n = Inr h \<and> cn_handler c = Some h
         else cn_handler c = None)"
    using assms(1) n(1) unfolding planWf_def by blast
  with n c show ?thesis by (auto split: if_splits)
qed

lemma plan_acyclic:
  assumes "planWf registry p"
  shows "acyclic (edgeRel (cd_definition p))" and "finite (edgeRel (cd_definition p))"
  using assms by (auto simp: planWf_def compilable_def wfGraph_def edgeRel_def)

lemma plan_startNode_ok:
  assumes "planWf registry p"
  shows "\<exists>n. plan_startNode p = Inr n \<and> nd_Kind n = KindStart \<and> nd_ID n = cd_startID p"
proof -
  let ?d = "cd_definition p"
  have wf: "wfNodes ?d" and s: "cd_startID p = nd_ID (hd (startNodes ?d))"
    using assms by (auto simp: planWf_def compilable_def wfGraph_def)
  have "hd (startNodes ?d) \<in> set (startNodes ?d)"
    using wf by (intro list.set_sel) (auto simp: wfNodes_def)
  then have "hd (startNodes ?d) \<in> set (d_Nodes ?d)" "nd_Kind (hd (startNodes ?d)) = KindStart"
    by (auto simp: startNodes_def)
  then show ?thesis unfolding plan_startNode_def plan_node_iff[OF assms] s by blast
qed

end
