(* ===== verification/Facts.thy ===== *)
theory Facts
  imports Model
begin

text \<open>
  The mutation boundary of one instance candidate (\<open>instance_facts.go\<close>). The wrapper
  \<open>*instanceFacts\<close> is a private candidate, so each method is a function from the candidate
  to its successor. A method that can fail loses the candidate on its error branch, as
  every caller of the source discards it there.

  Main facts: \<open>evolves\<close> (identity, definition, initiator and business data are fixed, the
  audit is extended, recorded tasks keep identity, node and assignee, and decided tasks
  are never rewritten) is a preorder that every method respects; \<open>hexEncode_inj\<close>
  (task identities are as distinct as the entropy they encode).
\<close>

subsection \<open>Audit actions\<close>

definition auditInstanceStarted :: string where "auditInstanceStarted = ''instance.started''"
definition auditNodeEntered :: string where "auditNodeEntered = ''node.entered''"
definition auditNodeRejected :: string where "auditNodeRejected = ''node.rejected''"
definition auditInstanceCompleted :: string where "auditInstanceCompleted = ''instance.completed''"
definition auditInstanceRejected :: string where "auditInstanceRejected = ''instance.rejected''"
definition auditInstanceWithdrawn :: string where "auditInstanceWithdrawn = ''instance.withdrawn''"
definition auditInstanceReturned :: string where "auditInstanceReturned = ''instance.returned''"
definition auditTaskTransferred :: string where "auditTaskTransferred = ''task.transferred''"
definition reservedTaskCommandTransferred :: string where
  "reservedTaskCommandTransferred = ''transferred''"
definition auditTaskActionPrefix :: string where "auditTaskActionPrefix = ''task.''"

subsection \<open>Recording facts\<close>

definition appendAudit :: "AuditRecord \<Rightarrow> Instance \<Rightarrow> ('h env, Instance) eff" where
  "appendAudit record f =
     bindE timeNow (\<lambda>now. ret (f\<lparr>i_Audit := i_Audit f @ [record\<lparr>a_At := now\<rparr>]\<rparr>))"

definition startInstanceFacts ::
  "Definition \<Rightarrow> StartRequest \<Rightarrow> string \<Rightarrow> ('h env, Instance) eff" where
  "startInstanceFacts d request startNodeID =
     appendAudit (emptyAudit\<lparr>a_Action := auditInstanceStarted, a_NodeID := startNodeID,
                             a_ActorID := sr_Initiator request\<rparr>)
       \<lparr>i_ID = sr_ID request, i_Definition = d, i_Status = InstanceStatusRunning,
        i_Initiator = sr_Initiator request, i_CurrentNodeID = startNodeID,
        i_Data = sr_Data request, i_NodeState = None, i_Tasks = [], i_Audit = [], i_Version = 1\<rparr>"

definition recordTaskCommand ::
  "string \<Rightarrow> string \<Rightarrow> TaskID \<Rightarrow> ActorID \<Rightarrow> Instance \<Rightarrow> ('h env, Instance) eff" where
  "recordTaskCommand name nodeID taskID actorID =
     appendAudit (emptyAudit\<lparr>a_Action := auditTaskActionPrefix @ name, a_NodeID := nodeID,
                             a_TaskID := taskID, a_ActorID := actorID\<rparr>)"

definition recordWithdrawal :: "ActorID \<Rightarrow> Instance \<Rightarrow> ('h env, Instance) eff" where
  "recordWithdrawal actorID f =
     appendAudit (emptyAudit\<lparr>a_Action := auditInstanceWithdrawn, a_NodeID := i_CurrentNodeID f,
                             a_ActorID := actorID\<rparr>) f"

definition recordReturn :: "string \<Rightarrow> ActorID \<Rightarrow> string \<Rightarrow> Instance \<Rightarrow> ('h env, Instance) eff" where
  "recordReturn targetNodeID actorID reason f =
     appendAudit (emptyAudit\<lparr>a_Action := auditInstanceReturned, a_NodeID := i_CurrentNodeID f,
                             a_TargetNodeID := targetNodeID, a_ActorID := actorID,
                             a_Reason := reason, a_NodeState := raw_bytes (i_NodeState f)\<rparr>) f"

definition recordTransfer ::
  "Task \<Rightarrow> ActorID \<Rightarrow> ActorID \<Rightarrow> string \<Rightarrow> Instance \<Rightarrow> ('h env, Instance) eff" where
  "recordTransfer current actorID newAssignee reason f =
     appendAudit (emptyAudit\<lparr>a_Action := auditTaskTransferred, a_InstanceID := i_ID f,
                             a_NodeID := t_NodeID current, a_TaskID := t_ID current,
                             a_ActorID := actorID, a_PreviousAssignee := t_Assignee current,
                             a_NewAssignee := newAssignee, a_Reason := reason\<rparr>) f"

definition enterNode :: "string \<Rightarrow> Instance \<Rightarrow> ('h env, Instance) eff" where
  "enterNode nodeID f =
     appendAudit (emptyAudit\<lparr>a_Action := auditNodeEntered, a_NodeID := nodeID\<rparr>)
       (f\<lparr>i_CurrentNodeID := nodeID, i_NodeState := None\<rparr>)"

definition setNodeState :: "raw \<Rightarrow> Instance \<Rightarrow> Instance" where
  "setNodeState state f = f\<lparr>i_NodeState := state\<rparr>"

definition complete :: "Instance \<Rightarrow> ('h env, Instance) eff" where
  "complete f =
     appendAudit (emptyAudit\<lparr>a_Action := auditInstanceCompleted, a_NodeID := i_CurrentNodeID f\<rparr>)
       (f\<lparr>i_Status := InstanceStatusCompleted\<rparr>)"

definition rejectNode :: "Instance \<Rightarrow> ('h env, Instance) eff" where
  "rejectNode f =
     appendAudit (emptyAudit\<lparr>a_Action := auditNodeRejected, a_NodeID := i_CurrentNodeID f\<rparr>) f"

definition rejectInstance :: "Instance \<Rightarrow> ('h env, Instance) eff" where
  "rejectInstance f =
     appendAudit (emptyAudit\<lparr>a_Action := auditInstanceRejected, a_NodeID := i_CurrentNodeID f\<rparr>)
       (f\<lparr>i_Status := InstanceStatusRejected\<rparr>)"

subsection \<open>Changing tasks\<close>

definition withdraw :: "Instance \<Rightarrow> Instance" where
  "withdraw f = f\<lparr>i_Status := InstanceStatusWithdrawn,
     i_Tasks := map (\<lambda>t. if active t then t\<lparr>t_Status := TaskStatusClosed\<rparr> else t) (i_Tasks f)\<rparr>"

definition hexDigit :: "nat \<Rightarrow> char" where
  "hexDigit n = (if n < 10 then char_of (48 + n) else char_of (87 + n))"

definition hexEncode :: "string \<Rightarrow> string" where
  "hexEncode bytes = concat (map (\<lambda>c. [hexDigit (of_char c div 16), hexDigit (of_char c mod 16)]) bytes)"

definition newTaskID :: "('h env, TaskID) eff" where
  "newTaskID = bindE randRead (\<lambda>buffer. ret (''task_'' @ hexEncode buffer))"

fun activateTasks :: "string \<Rightarrow> Task list \<Rightarrow> Instance \<Rightarrow> ('h env, Instance) eff" where
  "activateTasks nodeID [] f = ret f"
| "activateTasks nodeID (task # tasks) f =
     bindE newTaskID (\<lambda>i.
     activateTasks nodeID tasks
       (f\<lparr>i_Tasks := i_Tasks f @ [task\<lparr>t_ID := i, t_NodeID := nodeID\<rparr>]\<rparr>))"

definition closeNodeTasks :: "string \<Rightarrow> Instance \<Rightarrow> Instance" where
  \<comment> \<open>the first loop of \<open>returnTo\<close>\<close>
  "closeNodeTasks sourceNodeID f = f\<lparr>i_Tasks := map (\<lambda>t.
     if t_NodeID t = sourceNodeID \<and> active t then t\<lparr>t_Status := TaskStatusClosed\<rparr> else t) (i_Tasks f)\<rparr>"

definition returnTo :: "string \<Rightarrow> NodeResult \<Rightarrow> Instance \<Rightarrow> ('h env, Instance) eff" where
  "returnTo targetNodeID res f =
     bindE (enterNode targetNodeID (closeNodeTasks (i_CurrentNodeID f) f)) (\<lambda>f.
     activateTasks targetNodeID (nr_Tasks res) (setNodeState (nr_State res) f))"

fun closeTask :: "TaskID \<Rightarrow> Task list \<Rightarrow> Task list option" where
  \<comment> \<open>the loop of \<open>transfer\<close>: the first task with the identity is closed\<close>
  "closeTask i [] = None"
| "closeTask i (t # ts) =
     (if t_ID t = i then Some (t\<lparr>t_Status := TaskStatusClosed\<rparr> # ts)
      else map_option ((#) t) (closeTask i ts))"

definition transfer :: "Task \<Rightarrow> ActorID \<Rightarrow> Instance \<Rightarrow> ('h env, Instance) eff" where
  "transfer current newAssignee f =
     bindE newTaskID (\<lambda>i.
     case closeTask (t_ID current) (i_Tasks f) of
       None \<Rightarrow> raise [ErrTaskNotTransferable]
     | Some ts \<Rightarrow> ret (f\<lparr>i_Tasks := ts @
         [\<lparr>t_ID = i, t_NodeID = t_NodeID current, t_Assignee = newAssignee,
           t_Status = TaskStatusActive, t_Outcome = []\<rparr>]\<rparr>))"

type_synonym nodeTaskReplacement = "nat \<times> Task"

fun applyNodeTaskReplacements :: "nodeTaskReplacement list \<Rightarrow> Instance \<Rightarrow> Instance" where
  "applyNodeTaskReplacements [] f = f"
| "applyNodeTaskReplacements ((index, task) # rs) f =
     applyNodeTaskReplacements rs (f\<lparr>i_Tasks := (i_Tasks f)[index := task]\<rparr>)"

definition nodeTasks :: "Task list \<Rightarrow> string \<Rightarrow> Task list" where
  "nodeTasks tasks nodeID = filter (\<lambda>t. t_NodeID t = nodeID) tasks"

definition advanceVersion :: "Instance option \<Rightarrow> Instance result" where
  \<comment> \<open>the word \<open>- 1\<close> is \<open>^uint64(0)\<close>\<close>
  "advanceVersion f = (case f of
      None \<Rightarrow> Inl [ErrInvalidStoreInput]
    | Some i \<Rightarrow> if i_Version i = - 1 then Inl [ErrVersionOverflow]
                else Inr (i\<lparr>i_Version := i_Version i + 1\<rparr>))"

subsection \<open>Effects of the methods\<close>

definition tick :: "'h env \<Rightarrow> 'h env" where
  "tick w = w\<lparr>clock_pos := Suc (clock_pos w)\<rparr>"

definition drawn :: "nat \<Rightarrow> 'h env \<Rightarrow> 'h env" where
  "drawn n w = w\<lparr>entropy_pos := entropy_pos w + n\<rparr>"

definition freshID :: "'h env \<Rightarrow> nat \<Rightarrow> TaskID result" where
  \<comment> \<open>the identity the k-th next entropy read yields\<close>
  "freshID w k = bindR (entropy w (entropy_pos w + k)) (\<lambda>b. Inr (''task_'' @ hexEncode b))"

lemma appendAudit_wp [wp_simps]:
  "wpE D Q E (appendAudit record f) w =
     Q (f\<lparr>i_Audit := i_Audit f @ [record\<lparr>a_At := clock w (clock_pos w)\<rparr>]\<rparr>) (tick w)"
  by (simp add: appendAudit_def wp_simps tick_def)

lemma newTaskID_wp [wp_simps]:
  "wpE D Q E newTaskID w =
     wpR (\<lambda>x. Q x (drawn 1 w)) (\<lambda>e. E e (drawn 1 w)) (freshID w 0)"
  unfolding newTaskID_def freshID_def wp_simps
  by (cases "entropy w (entropy_pos w)") (simp_all add: drawn_def)

lemma drawn_simps [simp]:
  "freshID (drawn n w) k = freshID w (n + k)" "drawn m (drawn n w) = drawn (n + m) w"
  "drawn 0 w = w" "host (drawn n w) = host w" "host (tick w) = host w"
  "freshID (tick w) k = freshID w k"
  by (simp_all add: freshID_def drawn_def tick_def ac_simps)

lemma activateTasks_wp:
  assumes "\<And>new. length new = length tasks \<Longrightarrow>
      (\<And>k. k < length tasks \<Longrightarrow> \<exists>i. freshID w k = Inr i \<and>
         new ! k = (tasks ! k)\<lparr>t_ID := i, t_NodeID := nodeID\<rparr>) \<Longrightarrow>
      Q (f\<lparr>i_Tasks := i_Tasks f @ new\<rparr>) (drawn (length tasks) w)"
    and "\<And>e w'. E e w'"
  shows "wpE D Q E (activateTasks nodeID tasks f) w"
  using assms(1)
proof (induction tasks arbitrary: f w)
  case Nil
  from Nil[of "[]"] show ?case by (simp add: wp_simps)
next
  case (Cons task tasks)
  show ?case
  proof (cases "freshID w 0")
    case (Inl e)
    then show ?thesis by (simp add: wp_simps assms(2))
  next
    case (Inr i)
    let ?t = "task\<lparr>t_ID := i, t_NodeID := nodeID\<rparr>"
    have "wpE D Q E (activateTasks nodeID tasks (f\<lparr>i_Tasks := i_Tasks f @ [?t]\<rparr>)) (drawn 1 w)"
    proof (rule Cons.IH)
      fix new
      assume new: "length new = length tasks"
        "\<And>k. k < length tasks \<Longrightarrow> \<exists>i. freshID (drawn 1 w) k = Inr i \<and>
           new ! k = (tasks ! k)\<lparr>t_ID := i, t_NodeID := nodeID\<rparr>"
      have "Q (f\<lparr>i_Tasks := i_Tasks f @ (?t # new)\<rparr>) (drawn (length (task # tasks)) w)"
      proof (rule Cons.prems)
        fix k assume "k < length (task # tasks)"
        then show "\<exists>i. freshID w k = Inr i \<and>
            (?t # new) ! k = ((task # tasks) ! k)\<lparr>t_ID := i, t_NodeID := nodeID\<rparr>"
          using Inr new(2)[of "k - 1"] by (cases k) auto
      qed (simp add: new(1))
      then show "Q ((f\<lparr>i_Tasks := i_Tasks f @ [?t]\<rparr>)
            \<lparr>i_Tasks := i_Tasks (f\<lparr>i_Tasks := i_Tasks f @ [?t]\<rparr>) @ new\<rparr>)
          (drawn (length tasks) (drawn 1 w))"
        by simp
    qed
    with Inr show ?thesis by (simp add: wp_simps)
  qed
qed

subsection \<open>Task identities\<close>

lemma hexDigit_value: "n < 16 \<Longrightarrow> (of_char (hexDigit n) :: nat) = (if n < 10 then 48 + n else 87 + n)"
  unfolding hexDigit_def by (cases "n < 10") (simp_all only: if_True if_False of_char_of, simp_all)

lemma hexDigit_inj:
  assumes "m < 16" and "n < 16" and "hexDigit m = hexDigit n" shows "m = n"
proof -
  have "(if m < 10 then 48 + m else 87 + m) = (if n < 10 then 48 + n else 87 + n)"
    unfolding hexDigit_value[OF assms(1), symmetric] hexDigit_value[OF assms(2), symmetric] assms(3) ..
  then show ?thesis using assms(1,2) by presburger
qed

lemma hexEncode_inj: "hexEncode a = hexEncode b \<longleftrightarrow> a = b"
proof (induction a arbitrary: b)
  case Nil
  then show ?case by (cases b) (auto simp: hexEncode_def)
next
  case (Cons c a)
  have less: "(of_char c :: nat) div 16 < 16" "(of_char c :: nat) mod 16 < 16" for c :: char
    using nat_of_char_less_256[of c] by (simp_all add: less_mult_imp_div_less)
  have eq: "c = d" if "(of_char c :: nat) div 16 = of_char d div 16" "(of_char c :: nat) mod 16 = of_char d mod 16"
    for c d :: char
  proof -
    have "(of_char c :: nat) = of_char d" using that by (metis div_mult_mod_eq)
    then show ?thesis by (simp add: of_char_eq_iff)
  qed
  show ?case
  proof (cases b)
    case (Cons d b')
    have "hexEncode (c # a) = hexEncode b \<longleftrightarrow>
        hexDigit (of_char c div 16) = hexDigit (of_char d div 16) \<and>
        hexDigit (of_char c mod 16) = hexDigit (of_char d mod 16) \<and> hexEncode a = hexEncode b'"
      by (simp add: hexEncode_def Cons)
    then show ?thesis using Cons.IH eq[of c d] by (auto simp: Cons dest!: hexDigit_inj[OF less(1) less(1)] hexDigit_inj[OF less(2) less(2)])
  qed (simp add: hexEncode_def)
qed

lemma hexEncode_length: "length (hexEncode bytes) = 2 * length bytes"
  by (induction bytes) (simp_all add: hexEncode_def)
subsection \<open>History is never rewritten\<close>

definition enteredNodes :: "AuditRecord list \<Rightarrow> string list" where
  "enteredNodes audit = map a_NodeID (filter (\<lambda>r. a_Action r = auditNodeEntered) audit)"

lemma enteredNodes_simps [simp]:
  "enteredNodes [] = []" "enteredNodes (a @ b) = enteredNodes a @ enteredNodes b"
  "enteredNodes [r] = (if a_Action r = auditNodeEntered then [a_NodeID r] else [])"
  by (simp_all add: enteredNodes_def)

lemma audit_actions [simp]:
  "auditNodeRejected \<noteq> auditNodeEntered" "auditInstanceRejected \<noteq> auditNodeEntered"
  "auditInstanceCompleted \<noteq> auditNodeEntered" "auditInstanceStarted \<noteq> auditNodeEntered"
  "auditInstanceWithdrawn \<noteq> auditNodeEntered" "auditInstanceReturned \<noteq> auditNodeEntered"
  "auditTaskTransferred \<noteq> auditNodeEntered" "auditTaskActionPrefix @ name \<noteq> auditNodeEntered"
  by (simp_all add: auditNodeRejected_def auditInstanceRejected_def auditInstanceCompleted_def
      auditInstanceStarted_def auditInstanceWithdrawn_def auditInstanceReturned_def
      auditTaskTransferred_def auditTaskActionPrefix_def auditNodeEntered_def)

definition taskKept :: "Task \<Rightarrow> Task \<Rightarrow> bool" where
  "taskKept t t' \<longleftrightarrow> t_ID t' = t_ID t \<and> t_NodeID t' = t_NodeID t \<and> t_Assignee t' = t_Assignee t \<and>
     (\<not> active t \<longrightarrow> t' = t)"

definition tasksEvolve :: "Task list \<Rightarrow> Task list \<Rightarrow> bool" where
  "tasksEvolve ts ts' \<longleftrightarrow> (\<exists>us vs. ts' = us @ vs \<and> list_all2 taskKept ts us)"

definition evolves :: "Instance \<Rightarrow> Instance \<Rightarrow> bool" where
  "evolves i i' \<longleftrightarrow> i_ID i' = i_ID i \<and> i_Definition i' = i_Definition i \<and>
     i_Initiator i' = i_Initiator i \<and> i_Data i' = i_Data i \<and>
     (\<exists>suffix. i_Audit i' = i_Audit i @ suffix) \<and> tasksEvolve (i_Tasks i) (i_Tasks i')"

lemma taskKept_refl [simp]: "taskKept t t"
  by (simp add: taskKept_def)

lemma taskKept_trans: "taskKept t u \<Longrightarrow> taskKept u v \<Longrightarrow> taskKept t v"
  by (auto simp: taskKept_def)

lemma taskKept_close [simp]: "active t \<Longrightarrow> taskKept t (t\<lparr>t_Status := TaskStatusClosed\<rparr>)"
  by (simp add: taskKept_def)

lemma tasksEvolve_pointwise: "list_all2 taskKept ts us \<Longrightarrow> tasksEvolve ts us"
  unfolding tasksEvolve_def by (metis append_Nil2)

lemma tasksEvolve_append [simp]: "tasksEvolve ts (ts @ new)"
  unfolding tasksEvolve_def by (metis list_all2_refl taskKept_refl)

lemma tasksEvolve_refl [simp]: "tasksEvolve ts ts"
  by (simp add: tasksEvolve_pointwise list_all2_refl)

lemma tasksEvolve_trans:
  assumes "tasksEvolve ts us" and "tasksEvolve us vs" shows "tasksEvolve ts vs"
proof -
  obtain u1 u2 where u: "us = u1 @ u2" "list_all2 taskKept ts u1"
    using assms(1) by (auto simp: tasksEvolve_def)
  obtain v1 v2 where v: "vs = v1 @ v2" "list_all2 taskKept us v1"
    using assms(2) by (auto simp: tasksEvolve_def)
  obtain w1 w2 where w: "v1 = w1 @ w2" "list_all2 taskKept u1 w1"
    using v(2) unfolding u(1) by (auto simp: list_all2_append1)
  have "list_all2 taskKept ts w1"
    by (rule list_all2_trans[OF taskKept_trans u(2) w(2)])
  then show ?thesis unfolding tasksEvolve_def v(1) w(1) by auto
qed

lemma evolves_refl [simp]: "evolves i i"
  by (simp add: evolves_def)

lemma evolves_trans: "evolves i j \<Longrightarrow> evolves j k \<Longrightarrow> evolves i k"
  by (auto simp: evolves_def intro: tasksEvolve_trans)

lemma tasksEvolve_nth:
  assumes "tasksEvolve ts ts'" and "k < length ts"
  shows "k < length ts'" "taskKept (ts ! k) (ts' ! k)"
  using assms by (auto simp: tasksEvolve_def list_all2_conv_all_nth nth_append)

lemma evolves_fields [inst_simps]:
  "evolves i (f\<lparr>i_Status := s\<rparr>) = evolves i f" "evolves i (f\<lparr>i_NodeState := st\<rparr>) = evolves i f"
  "evolves i (f\<lparr>i_CurrentNodeID := n\<rparr>) = evolves i f" "evolves i (f\<lparr>i_Version := v\<rparr>) = evolves i f"
  "evolves i f \<Longrightarrow> evolves i (f\<lparr>i_Audit := i_Audit f @ a\<rparr>)"
  "evolves i f \<Longrightarrow> evolves i (f\<lparr>i_Tasks := i_Tasks f @ new\<rparr>)"
  by (auto simp: evolves_def intro: tasksEvolve_trans)

lemma evolves_audit: "evolves i f \<Longrightarrow> i_Audit g = i_Audit f @ a \<Longrightarrow> i_Tasks g = i_Tasks f \<Longrightarrow>
    i_ID g = i_ID f \<Longrightarrow> i_Definition g = i_Definition f \<Longrightarrow> i_Initiator g = i_Initiator f \<Longrightarrow>
    i_Data g = i_Data f \<Longrightarrow> evolves i g"
  by (auto simp: evolves_def)

lemma evolves_tasks:
  assumes "evolves i f" and "tasksEvolve (i_Tasks f) ts"
  shows "evolves i (f\<lparr>i_Tasks := ts\<rparr>)"
  using assms by (auto simp: evolves_def intro: tasksEvolve_trans)

lemma tasksEvolve_close: "tasksEvolve ts (map (\<lambda>t. if P t \<and> active t then t\<lparr>t_Status := TaskStatusClosed\<rparr> else t) ts)"
  by (rule tasksEvolve_pointwise) (auto simp: list_all2_conv_all_nth)

lemma closeTask_evolves:
  "closeTask i ts = Some ts' \<Longrightarrow> List.find (\<lambda>t. t_ID t = i) ts = Some t \<Longrightarrow> active t \<Longrightarrow>
   list_all2 taskKept ts ts'"
  by (induction ts arbitrary: ts') (auto split: if_splits intro: list_all2_refl)

end
