(* ===== verification/NodeResult.thy ===== *)
theory NodeResult
  imports Facts JsonStrict "HOL-Library.AList"
begin

text \<open>
  Validation and application of handler results (\<open>node_result_application.go\<close>). A
  \<open>nodeResultApplication\<close> is prepared before any fact is recorded; \<open>applyResult\<close> hands it to
  the operations of \<open>Facts\<close> and answers what the engine does next.

  Main facts: \<open>prepareActivation_iff\<close>, \<open>prepareCommand_iff\<close> and \<open>prepareReturn_iff\<close>
  (which proposals are accepted at each stage),
  \<open>replacements_ok_iff\<close> (which task views a command may propose),
  \<open>replacements_apply\<close> (an accepted command view rewrites exactly the tasks of its node, each
  by a legal transition), \<open>activation_wp\<close>, \<open>command_wp\<close> and \<open>return_wp\<close>
  (application keeps history and reaches the liveness state that its decision announces).
\<close>

datatype nodeResultStage =
    nodeResultActivation | nodeResultCommand | nodeResultReturn | nodeResultStageOther nat

datatype nodeResultAction =
    nodeResultWait | nodeResultAdvance | nodeResultStop | nodeResultActionOther nat

record nodeResultDecision =
  dec_action :: nodeResultAction
  dec_outcome :: string

record nodeResultApplication =
  ra_stage :: nodeResultStage
  ra_nodeID :: string
  ra_result :: NodeResult
  ra_replacements :: "nodeTaskReplacement list"

definition navigation :: "nodeResultDecision \<Rightarrow> (string \<times> bool) result" where
  "navigation d = (case dec_action d of
      nodeResultWait \<Rightarrow> Inr ([], False)
    | nodeResultStop \<Rightarrow> Inr ([], False)
    | nodeResultAdvance \<Rightarrow> Inr (dec_outcome d, True)
    | nodeResultActionOther _ \<Rightarrow> Inl [ErrInvalidNodeResult])"

definition invalidNodeResult :: "nodeResultStage \<Rightarrow> err" where
  "invalidNodeResult stage =
     (if stage = nodeResultReturn then [ErrInvalidReturnTarget, ErrInvalidNodeResult]
      else [ErrInvalidNodeResult])"

subsection \<open>Validation\<close>

definition validateNodeResultFields :: "nodeResultApplication \<Rightarrow> unit result" where
  "validateNodeResultFields a =
     (let invalid = Inl (invalidNodeResult (ra_stage a)); res = ra_result a in
      if ra_nodeID a = [] then invalid
      else if \<not> validJSON (nr_State res) then invalid
      else case nr_Disposition res of
          DispositionUnknown \<Rightarrow> invalid
        | DispositionOther _ \<Rightarrow> invalid
        | _ \<Rightarrow> if nr_Disposition res = DispositionWaiting \<and> nr_Outcome res \<noteq> [] then invalid
               else Inr ())"

fun validateActivationTaskDrafts :: "Task list \<Rightarrow> unit result" where
  "validateActivationTaskDrafts [] = Inr ()"
| "validateActivationTaskDrafts (task # tasks) =
     (if t_ID task \<noteq> [] \<or> t_Assignee task = [] \<or> \<not> active task \<or> t_Outcome task \<noteq> []
      then Inl [ErrInvalidActivationTaskDraft]
      else validateActivationTaskDrafts tasks)"

definition validateCommandTaskReplacement :: "Task \<Rightarrow> Task \<Rightarrow> unit result" where
  "validateCommandTaskReplacement current updated =
     (if t_ID updated \<noteq> t_ID current \<or> t_NodeID updated \<noteq> t_NodeID current \<or>
         t_Assignee updated \<noteq> t_Assignee current
      then Inl [ErrInvalidCommandTaskSet]
      else if t_Status current \<noteq> TaskStatusActive
      then (if updated \<noteq> current then Inl [ErrInvalidCommandTaskSet] else Inr ())
      else (case t_Status updated of
          TaskStatusActive \<Rightarrow>
            if t_Outcome updated \<noteq> t_Outcome current then Inl [ErrInvalidCommandTaskSet] else Inr ()
        | TaskStatusCompleted \<Rightarrow>
            if t_Outcome updated = [] then Inl [ErrInvalidCommandTaskSet] else Inr ()
        | TaskStatusClosed \<Rightarrow>
            if t_Outcome updated \<noteq> t_Outcome current then Inl [ErrInvalidCommandTaskSet] else Inr ()
        | _ \<Rightarrow> Inl [ErrInvalidCommandTaskSet]))"

fun indexUpdates ::
  "string \<Rightarrow> (TaskID \<times> Task) list \<Rightarrow> Task list \<Rightarrow> (TaskID \<times> Task) list result" where
  "indexUpdates nodeID updates [] = Inr updates"
| "indexUpdates nodeID updates (task # tasks) =
     (if t_ID task = [] \<or> t_NodeID task \<noteq> nodeID then Inl [ErrInvalidCommandTaskSet]
      else indexUpdates nodeID (AList.update (t_ID task) task updates) tasks)"

fun resolveReplacements ::
  "string \<Rightarrow> nat \<Rightarrow> (TaskID \<times> Task) list \<Rightarrow> nodeTaskReplacement list \<Rightarrow> Task list \<Rightarrow>
   (nodeTaskReplacement list \<times> (TaskID \<times> Task) list) result" where
  "resolveReplacements nodeID index updates replacements [] = Inr (replacements, updates)"
| "resolveReplacements nodeID index updates replacements (current # rest) =
     (if t_NodeID current \<noteq> nodeID
      then resolveReplacements nodeID (Suc index) updates replacements rest
      else case map_of updates (t_ID current) of
          None \<Rightarrow> Inl [ErrInvalidCommandTaskSet]
        | Some updated \<Rightarrow>
            bindR (validateCommandTaskReplacement current updated) (\<lambda>_.
            resolveReplacements nodeID (Suc index) (AList.delete (t_ID updated) updates)
              (replacements @ [(index, updated)]) rest))"

definition prepareNodeTaskReplacements ::
  "Instance option \<Rightarrow> string \<Rightarrow> Task list \<Rightarrow> nodeTaskReplacement list result" where
  "prepareNodeTaskReplacements instance0 nodeID tasks = (case instance0 of
      None \<Rightarrow> Inl [ErrInvalidCommandTaskSet]
    | Some i \<Rightarrow>
        bindR (indexUpdates nodeID [] tasks) (\<lambda>updates.
        bindR (resolveReplacements nodeID 0 updates [] (i_Tasks i)) (\<lambda>(replacements, updates).
        if updates \<noteq> [] then Inl [ErrInvalidCommandTaskSet] else Inr replacements)))"

definition validateCommandTaskDisposition ::
  "Disposition \<Rightarrow> nodeTaskReplacement list \<Rightarrow> unit result" where
  "validateCommandTaskDisposition disposition replacements =
     (let hasActiveTask = list_ex (\<lambda>r. active (snd r)) replacements in
      if disposition = DispositionWaiting \<and> \<not> hasActiveTask then Inl [ErrInvalidCommandTaskSet]
      else if disposition \<noteq> DispositionWaiting \<and> hasActiveTask then Inl [ErrInvalidCommandTaskSet]
      else Inr ())"

definition prepareTasks ::
  "nodeResultApplication \<Rightarrow> Instance option \<Rightarrow> nodeResultApplication result" where
  "prepareTasks a instance0 =
     (let invalid = Inl (invalidNodeResult (ra_stage a));
          res = ra_result a;
          orInvalid = (\<lambda>r. case r of Inl _ \<Rightarrow> invalid | Inr _ \<Rightarrow> Inr a)
      in case ra_stage a of
          nodeResultActivation \<Rightarrow>
            if nr_Disposition res = DispositionWaiting \<and> nr_Tasks res = [] then invalid
            else if nr_Disposition res \<noteq> DispositionWaiting \<and> nr_Tasks res \<noteq> [] then invalid
            else orInvalid (validateActivationTaskDrafts (nr_Tasks res))
        | nodeResultCommand \<Rightarrow>
            (case prepareNodeTaskReplacements instance0 (ra_nodeID a) (nr_Tasks res) of
               Inl _ \<Rightarrow> invalid
             | Inr replacements \<Rightarrow>
                 (case validateCommandTaskDisposition (nr_Disposition res) replacements of
                    Inl _ \<Rightarrow> invalid
                  | Inr _ \<Rightarrow> Inr (a\<lparr>ra_replacements := replacements\<rparr>)))
        | nodeResultReturn \<Rightarrow>
            if nr_Disposition res \<noteq> DispositionWaiting \<or> nr_Tasks res = [] then invalid
            else orInvalid (validateActivationTaskDrafts (nr_Tasks res))
        | nodeResultStageOther _ \<Rightarrow> invalid)"

definition prepareNodeResultApplication ::
  "nodeResultStage \<Rightarrow> Instance option \<Rightarrow> string \<Rightarrow> NodeResult \<Rightarrow> nodeResultApplication result" where
  "prepareNodeResultApplication stage instance0 nodeID res =
     (let application = \<lparr>ra_stage = stage, ra_nodeID = nodeID, ra_result = res, ra_replacements = []\<rparr>
      in bindR (validateNodeResultFields application) (\<lambda>_. prepareTasks application instance0))"

definition prepareActivationNodeResult :: "string \<Rightarrow> NodeResult \<Rightarrow> nodeResultApplication result" where
  "prepareActivationNodeResult = prepareNodeResultApplication nodeResultActivation None"

definition prepareCommandNodeResult ::
  "Instance option \<Rightarrow> string \<Rightarrow> NodeResult \<Rightarrow> nodeResultApplication result" where
  "prepareCommandNodeResult = prepareNodeResultApplication nodeResultCommand"

definition prepareReturnNodeResult :: "string \<Rightarrow> NodeResult \<Rightarrow> nodeResultApplication result" where
  "prepareReturnNodeResult = prepareNodeResultApplication nodeResultReturn None"

subsection \<open>Application\<close>

definition decideResult :: "NodeResult \<Rightarrow> Instance \<Rightarrow> ('h env, nodeResultDecision \<times> Instance) eff" where
  \<comment> \<open>the second switch of \<open>apply\<close>\<close>
  "decideResult res facts = (case nr_Disposition res of
      DispositionUnknown \<Rightarrow> raise [ErrInvalidNodeResult]
    | DispositionWaiting \<Rightarrow> ret (\<lparr>dec_action = nodeResultWait, dec_outcome = []\<rparr>, facts)
    | DispositionContinue \<Rightarrow>
        ret (\<lparr>dec_action = nodeResultAdvance, dec_outcome = nr_Outcome res\<rparr>, facts)
    | DispositionReject \<Rightarrow>
        if nr_Outcome res \<noteq> [] then
          bindE (rejectNode facts) (\<lambda>facts.
          ret (\<lparr>dec_action = nodeResultAdvance, dec_outcome = nr_Outcome res\<rparr>, facts))
        else
          bindE (rejectInstance facts) (\<lambda>facts.
          ret (\<lparr>dec_action = nodeResultStop, dec_outcome = []\<rparr>, facts))
    | DispositionOther _ \<Rightarrow> raise [ErrInvalidNodeResult])"

definition applyResult ::
  "nodeResultApplication option \<Rightarrow> Instance option \<Rightarrow> ('h env, nodeResultDecision \<times> Instance) eff" where
  "applyResult a0 facts0 = (case (a0, facts0) of
      (Some a, Some facts) \<Rightarrow>
        (let res = ra_result a in
         case ra_stage a of
           nodeResultActivation \<Rightarrow>
             bindE (activateTasks (ra_nodeID a) (nr_Tasks res) facts) (\<lambda>facts.
             decideResult res (setNodeState (nr_State res) facts))
         | nodeResultCommand \<Rightarrow>
             decideResult res (setNodeState (nr_State res)
               (applyNodeTaskReplacements (ra_replacements a) facts))
         | nodeResultReturn \<Rightarrow>
             bindE (returnTo (ra_nodeID a) res facts) (\<lambda>facts.
             ret (\<lparr>dec_action = nodeResultWait, dec_outcome = []\<rparr>, facts))
         | nodeResultStageOther _ \<Rightarrow> raise [ErrInvalidNodeResult])
    | _ \<Rightarrow> raise [ErrInvalidNodeResult])"

subsection \<open>What an accepted proposal satisfies\<close>

definition draftOk :: "Task \<Rightarrow> bool" where
  "draftOk t \<longleftrightarrow> t_ID t = [] \<and> t_Assignee t \<noteq> [] \<and> active t \<and> t_Outcome t = []"

definition forwardStep :: "Task \<Rightarrow> Task \<Rightarrow> bool" where
  \<comment> \<open>the legal transitions of one assignment\<close>
  "forwardStep t t' \<longleftrightarrow> t_ID t' = t_ID t \<and> t_NodeID t' = t_NodeID t \<and> t_Assignee t' = t_Assignee t \<and>
     (t' = t \<or> active t \<and> (t_Status t' = TaskStatusCompleted \<and> t_Outcome t' \<noteq> [] \<or>
                           t_Status t' = TaskStatusClosed \<and> t_Outcome t' = t_Outcome t))"

lemma drafts_iff: "validateActivationTaskDrafts ts = Inr () \<longleftrightarrow> (\<forall>t\<in>set ts. draftOk t)"
  by (induction ts) (auto simp: draftOk_def)

lemma replacement_iff:
  "validateCommandTaskReplacement t t' = Inr () \<longleftrightarrow> forwardStep t t'"
proof -
  have eq: "t' = t" if "t_ID t' = t_ID t" "t_NodeID t' = t_NodeID t" "t_Assignee t' = t_Assignee t"
    "t_Status t' = t_Status t" "t_Outcome t' = t_Outcome t"
    using that by (cases t; cases t') simp
  show ?thesis
    by (cases "t_Status t'")
      (auto simp: validateCommandTaskReplacement_def forwardStep_def intro: eq)
qed

lemma forwardStep_kept: "forwardStep t t' \<Longrightarrow> taskKept t t'"
  by (auto simp: forwardStep_def taskKept_def)

definition tasksStep :: "string \<Rightarrow> Task list \<Rightarrow> Task list \<Rightarrow> bool" where
  \<comment> \<open>exactly the tasks of one node move, each by a legal transition\<close>
  "tasksStep nodeID ts ts' \<longleftrightarrow>
     list_all2 (\<lambda>t t'. if t_NodeID t = nodeID then forwardStep t t' else t' = t) ts ts'"

lemma tasksStep_evolve: "tasksStep nodeID ts ts' \<Longrightarrow> tasksEvolve ts ts'"
  unfolding tasksStep_def
  by (rule tasksEvolve_pointwise, erule list_all2_mono) (auto split: if_splits intro: forwardStep_kept)

lemma applyNodeTaskReplacements_eq:
  "applyNodeTaskReplacements rs f =
     f\<lparr>i_Tasks := foldl (\<lambda>ts (i, t). ts[i := t]) (i_Tasks f) rs\<rparr>"
  by (induction rs arbitrary: f) auto

lemma resolve_spec:
  assumes "resolveReplacements nodeID index updates rs ts = Inr (rs', updates')"
  shows "\<exists>new ts'. rs' = rs @ new \<and> tasksStep nodeID ts ts' \<and>
     (\<forall>pre. length pre = index \<longrightarrow> foldl (\<lambda>ts (i, t). ts[i := t]) (pre @ ts) new = pre @ ts') \<and>
     map snd new = filter (\<lambda>t. t_NodeID t = nodeID) ts'"
  using assms
proof (induction ts arbitrary: index updates rs)
  case Nil
  then show ?case by (auto simp: tasksStep_def)
next
  case (Cons t ts)
  show ?case
  proof (cases "t_NodeID t = nodeID")
    case False
    with Cons.prems have "resolveReplacements nodeID (Suc index) updates rs ts = Inr (rs', updates')"
      by simp
    from Cons.IH[OF this] obtain new ts' where n: "rs' = rs @ new" "tasksStep nodeID ts ts'"
      "\<And>pre. length pre = Suc index \<Longrightarrow> foldl (\<lambda>ts (i, t). ts[i := t]) (pre @ ts) new = pre @ ts'"
      "map snd new = filter (\<lambda>t. t_NodeID t = nodeID) ts'"
      by blast
    have "foldl (\<lambda>ts (i, t). ts[i := t]) (pre @ t # ts) new = pre @ t # ts'" if "length pre = index" for pre
      using n(3)[of "pre @ [t]"] that by simp
    with n False show ?thesis
      by (intro exI[of _ new] exI[of _ "t # ts'"]) (auto simp: tasksStep_def)
  next
    case True
    then obtain u where u: "map_of updates (t_ID t) = Some u" "forwardStep t u"
      "resolveReplacements nodeID (Suc index) (AList.delete (t_ID u) updates)
         (rs @ [(index, u)]) ts = Inr (rs', updates')"
      using Cons.prems by (auto simp: bindR_Inr_iff replacement_iff split: option.splits)
    from Cons.IH[OF u(3)] obtain new ts' where n: "rs' = (rs @ [(index, u)]) @ new"
      "tasksStep nodeID ts ts'"
      "\<And>pre. length pre = Suc index \<Longrightarrow> foldl (\<lambda>ts (i, t). ts[i := t]) (pre @ ts) new = pre @ ts'"
      "map snd new = filter (\<lambda>t. t_NodeID t = nodeID) ts'"
      by blast
    have "foldl (\<lambda>ts (i, t). ts[i := t]) (pre @ t # ts) ((index, u) # new) = pre @ u # ts'"
      if "length pre = index" for pre
      using n(3)[of "pre @ [u]"] that by (simp add: list_update_append)
    moreover have "t_NodeID u = nodeID" using u(2) True by (simp add: forwardStep_def)
    ultimately show ?thesis using n u(2) True
      by (intro exI[of _ "(index, u) # new"] exI[of _ "u # ts'"]) (auto simp: tasksStep_def)
  qed
qed

lemma replacements_apply:
  assumes "prepareNodeTaskReplacements (Some f) nodeID tasks = Inr rs"
  shows "\<exists>ts'. applyNodeTaskReplacements rs f = f\<lparr>i_Tasks := ts'\<rparr> \<and>
     tasksStep nodeID (i_Tasks f) ts' \<and> map snd rs = filter (\<lambda>t. t_NodeID t = nodeID) ts'"
proof -
  obtain updates updates' where
    "resolveReplacements nodeID 0 updates [] (i_Tasks f) = Inr (rs, updates')"
    using assms by (auto simp: prepareNodeTaskReplacements_def bindR_Inr_iff split: if_splits)
  from resolve_spec[OF this] show ?thesis
    by (auto simp: applyNodeTaskReplacements_eq)
qed

text \<open>Conversely, a complete view of legal transitions is accepted.\<close>

abbreviation byID :: "Task list \<Rightarrow> TaskID \<rightharpoonup> Task" where
  "byID ts \<equiv> map_of (map (\<lambda>t. (t_ID t, t)) ts)"

lemma indexUpdates_complete:
  assumes "\<forall>t\<in>set us. t_ID t \<noteq> [] \<and> t_NodeID t = nodeID" and "distinct (map t_ID us)"
  shows "\<exists>updates'. indexUpdates nodeID updates us = Inr updates' \<and>
    map_of updates' = map_of updates ++ byID us"
  using assms
proof (induction us arbitrary: updates)
  case (Cons u us)
  have "\<forall>t\<in>set us. t_ID t \<noteq> [] \<and> t_NodeID t = nodeID" "distinct (map t_ID us)"
    using Cons.prems by auto
  from Cons.IH[OF this, of "AList.update (t_ID u) u updates"]
  obtain updates' where u: "indexUpdates nodeID (AList.update (t_ID u) u updates) us = Inr updates'"
    "map_of updates' = map_of (AList.update (t_ID u) u updates) ++ byID us"
    by blast
  have "byID us (t_ID u) = None" using Cons.prems(2) by (auto simp: map_of_eq_None_iff)
  then have "(map_of updates)(t_ID u \<mapsto> u) ++ byID us = map_of updates ++ byID (u # us)"
    by (auto simp: map_add_def fun_eq_iff split: option.split)
  then have "map_of updates' = map_of updates ++ byID (u # us)" using u(2) by (simp add: update_conv')
  moreover have "indexUpdates nodeID updates (u # us) = Inr updates'" using u(1) Cons.prems(1) by simp
  ultimately show ?case by blast
qed auto

lemma resolve_complete:
  assumes "list_all2 forwardStep (nodeTasks ts nodeID) us" and "distinct (map t_ID us)"
    and "map_of updates = byID us"
  shows "\<exists>new updates'. resolveReplacements nodeID index updates rs ts = Inr (rs @ new, updates') \<and>
    map snd new = us \<and> map_of updates' = Map.empty"
  using assms
proof (induction ts arbitrary: index updates rs us)
  case Nil
  then show ?case by (simp add: nodeTasks_def)
next
  case (Cons t ts)
  show ?case
  proof (cases "t_NodeID t = nodeID")
    case False
    then show ?thesis using Cons.IH[of us updates "Suc index" rs] Cons.prems
      by (simp add: nodeTasks_def)
  next
    case True
    then obtain u us' where u: "us = u # us'" "forwardStep t u"
      "list_all2 forwardStep (nodeTasks ts nodeID) us'"
      using Cons.prems(1) by (auto simp: nodeTasks_def list_all2_Cons1)
    have ident: "t_ID u = t_ID t" using u(2) by (simp add: forwardStep_def)
    have "byID us' (t_ID u) = None" using Cons.prems(2) u(1) by (auto simp: map_of_eq_None_iff)
    then have del: "map_of (AList.delete (t_ID u) updates) = byID us'"
      using Cons.prems(3) u(1) by (auto simp: delete_conv' fun_eq_iff)
    have "distinct (map t_ID us')" using Cons.prems(2) u(1) by simp
    from Cons.IH[OF u(3) this del, of "Suc index" "rs @ [(index, u)]"]
    obtain new updates' where n: "resolveReplacements nodeID (Suc index) (AList.delete (t_ID u) updates)
        (rs @ [(index, u)]) ts = Inr ((rs @ [(index, u)]) @ new, updates')"
      "map snd new = us'" "map_of updates' = Map.empty" by blast
    have "map_of updates (t_ID t) = Some u" using Cons.prems(3) u(1) ident by simp
    then have "resolveReplacements nodeID index updates rs (t # ts) = Inr (rs @ ((index, u) # new), updates')"
      using True n(1) u(2)[folded replacement_iff] by simp
    then show ?thesis using n(2,3) u(1) by (intro exI[of _ "(index, u) # new"]) auto
  qed
qed

lemma replacements_complete:
  assumes "list_all2 forwardStep (nodeTasks (i_Tasks f) nodeID) us"
    and "distinct (map t_ID us)" and "\<forall>u\<in>set us. t_ID u \<noteq> []"
  shows "\<exists>rs. prepareNodeTaskReplacements (Some f) nodeID us = Inr rs \<and> map snd rs = us"
proof -
  have "t_NodeID u = nodeID" if u: "u \<in> set us" for u
  proof -
    obtain k where "k < length us" "u = us ! k" using u by (metis in_set_conv_nth)
    then have "forwardStep (nodeTasks (i_Tasks f) nodeID ! k) u" "k < length (nodeTasks (i_Tasks f) nodeID)"
      using assms(1) by (auto simp: list_all2_conv_all_nth)
    then show ?thesis
      using nth_mem[of k "nodeTasks (i_Tasks f) nodeID"] by (auto simp: forwardStep_def nodeTasks_def)
  qed
  then obtain updates where up: "indexUpdates nodeID [] us = Inr updates" "map_of updates = byID us"
    using indexUpdates_complete[of us nodeID "[]"] assms by auto
  obtain rs updates' where r: "resolveReplacements nodeID 0 updates [] (i_Tasks f) = Inr (rs, updates')"
    "map snd rs = us" "map_of updates' = Map.empty"
    using resolve_complete[OF assms(1,2) up(2), of 0 "[]"] by auto
  then have "updates' = []" by (cases updates') (auto simp: fun_eq_iff split: if_splits)
  then show ?thesis using up r by (simp add: prepareNodeTaskReplacements_def)
qed

abbreviation lastByID :: "Task list \<Rightarrow> TaskID \<rightharpoonup> Task" where
  \<comment> \<open>of proposals with one identity the last wins\<close>
  "lastByID us \<equiv> map_of (rev (map (\<lambda>t. (t_ID t, t)) us))"

lemma indexUpdates_iff:
  "(\<exists>updates'. indexUpdates nodeID updates us = Inr updates') \<longleftrightarrow>
     (\<forall>u\<in>set us. t_ID u \<noteq> [] \<and> t_NodeID u = nodeID)"
  by (induction us arbitrary: updates) auto

lemma indexUpdates_last:
  "indexUpdates nodeID updates us = Inr updates' \<Longrightarrow> map_of updates' = map_of updates ++ lastByID us"
proof (induction us arbitrary: updates)
  case (Cons u us)
  then have "map_of updates' = map_of (AList.update (t_ID u) u updates) ++ lastByID us"
    by (auto split: if_splits)
  then show ?case by (simp add: update_conv' map_add_def fun_eq_iff split: option.split)
qed simp

lemma resolve_view:
  assumes "resolveReplacements nodeID index updates rs ts = Inr (rs', updates')"
  shows "distinct (map t_ID (nodeTasks ts nodeID))"
    "map snd rs' = map snd rs @ map (\<lambda>t. the (map_of updates (t_ID t))) (nodeTasks ts nodeID)"
    "t \<in> set (nodeTasks ts nodeID) \<Longrightarrow> map_of updates (t_ID t) \<noteq> None"
    "map_of updates' k = (if k \<in> t_ID ` set (nodeTasks ts nodeID) then None else map_of updates k)"
proof -
  have "distinct (map t_ID (nodeTasks ts nodeID)) \<and>
    map snd rs' = map snd rs @ map (\<lambda>t. the (map_of updates (t_ID t))) (nodeTasks ts nodeID) \<and>
    (\<forall>t\<in>set (nodeTasks ts nodeID). map_of updates (t_ID t) \<noteq> None) \<and>
    (\<forall>k. map_of updates' k = (if k \<in> t_ID ` set (nodeTasks ts nodeID) then None else map_of updates k))"
    using assms
  proof (induction ts arbitrary: index updates rs)
    case (Cons t ts)
    show ?case
    proof (cases "t_NodeID t = nodeID")
      case False
      with Cons show ?thesis by (simp add: nodeTasks_def)
    next
      case True
      then obtain u where u: "map_of updates (t_ID t) = Some u" "forwardStep t u"
        "resolveReplacements nodeID (Suc index) (AList.delete (t_ID u) updates)
           (rs @ [(index, u)]) ts = Inr (rs', updates')"
        using Cons.prems by (auto simp: bindR_Inr_iff replacement_iff split: option.splits)
      have ident: "t_ID u = t_ID t" using u(2) by (simp add: forwardStep_def)
      let ?N = "nodeTasks ts nodeID"
      have del: "map_of (AList.delete (t_ID u) updates) k = (if k = t_ID t then None else map_of updates k)" for k
        by (simp add: delete_conv' ident)
      note IH = Cons.IH[OF u(3), unfolded del]
      have fresh: "t_ID t \<notin> t_ID ` set ?N" using IH by (metis (mono_tags, lifting) imageE)
      then have "map (\<lambda>t'. the (if t_ID t' = t_ID t then None else map_of updates (t_ID t'))) ?N =
          map (\<lambda>t'. the (map_of updates (t_ID t'))) ?N"
        unfolding notin_image_iff by (intro map_cong) auto
      with IH fresh u(1) True show ?thesis
        by (auto simp: nodeTasks_def split: if_splits)
    qed
  qed (simp add: nodeTasks_def)
  then show "distinct (map t_ID (nodeTasks ts nodeID))"
    "map snd rs' = map snd rs @ map (\<lambda>t. the (map_of updates (t_ID t))) (nodeTasks ts nodeID)"
    "t \<in> set (nodeTasks ts nodeID) \<Longrightarrow> map_of updates (t_ID t) \<noteq> None"
    "map_of updates' k = (if k \<in> t_ID ` set (nodeTasks ts nodeID) then None else map_of updates k)"
    by blast+
qed

lemma replacements_view:
  assumes "prepareNodeTaskReplacements (Some f) nodeID us = Inr rs"
  shows "distinct (map t_ID (nodeTasks (i_Tasks f) nodeID))"
    "t_ID ` set us = t_ID ` set (nodeTasks (i_Tasks f) nodeID)"
    "map snd rs = map (\<lambda>t. the (lastByID us (t_ID t))) (nodeTasks (i_Tasks f) nodeID)"
proof -
  obtain updates where up: "indexUpdates nodeID [] us = Inr updates"
    and res: "resolveReplacements nodeID 0 updates [] (i_Tasks f) = Inr (rs, [])"
    using assms by (auto simp: prepareNodeTaskReplacements_def bindR_Inr_iff split: if_splits)
  note view = resolve_view[OF res, unfolded indexUpdates_last[OF up]]
  show "distinct (map t_ID (nodeTasks (i_Tasks f) nodeID))" by (rule view(1))
  show "map snd rs = map (\<lambda>t. the (lastByID us (t_ID t))) (nodeTasks (i_Tasks f) nodeID)"
    using view(2) by simp
  have dom: "lastByID us k = None \<longleftrightarrow> k \<notin> t_ID ` set us" for k
    by (auto simp: map_of_eq_None_iff image_iff)
  show "t_ID ` set us = t_ID ` set (nodeTasks (i_Tasks f) nodeID)"
  proof (intro equalityI subsetI)
    fix k assume "k \<in> t_ID ` set us"
    then have "lastByID us k \<noteq> None" using dom by blast
    then show "k \<in> t_ID ` set (nodeTasks (i_Tasks f) nodeID)" using view(4)[of k]
      by (auto split: if_splits)
  next
    fix k assume "k \<in> t_ID ` set (nodeTasks (i_Tasks f) nodeID)"
    then obtain t where "t \<in> set (nodeTasks (i_Tasks f) nodeID)" "k = t_ID t" by blast
    with view(3)[of t] show "k \<in> t_ID ` set us" using dom[of k] by (cases "k \<in> t_ID ` set us") simp_all
  qed
qed

lemma resolve_ok:
  assumes "distinct (map t_ID (nodeTasks ts nodeID))"
    and "\<forall>t\<in>set (nodeTasks ts nodeID). \<exists>u. map_of updates (t_ID t) = Some u \<and> forwardStep t u"
  shows "\<exists>r. resolveReplacements nodeID index updates rs ts = Inr r"
  using assms
proof (induction ts arbitrary: index updates rs)
  case (Cons t ts)
  show ?case
  proof (cases "t_NodeID t = nodeID")
    case False
    with Cons show ?thesis by (simp add: nodeTasks_def)
  next
    case True
    then obtain u where u: "map_of updates (t_ID t) = Some u" "forwardStep t u"
      using Cons.prems(2) by (auto simp: nodeTasks_def)
    have ident: "t_ID u = t_ID t" using u(2) by (simp add: forwardStep_def)
    have "\<forall>s\<in>set (nodeTasks ts nodeID). \<exists>v. map_of (AList.delete (t_ID u) updates) (t_ID s) = Some v \<and> forwardStep s v"
      using Cons.prems True by (auto simp: nodeTasks_def delete_conv' ident notin_image_iff)
    moreover have "distinct (map t_ID (nodeTasks ts nodeID))" using Cons.prems(1) True by (simp add: nodeTasks_def)
    ultimately show ?thesis
      using Cons.IH[of "AList.delete (t_ID u) updates"] True u(1) u(2)[folded replacement_iff] by simp
  qed
qed simp

lemma replacements_ok_iff:
  "isOk (prepareNodeTaskReplacements (Some f) nodeID us) \<longleftrightarrow>
     (\<forall>u\<in>set us. t_ID u \<noteq> [] \<and> t_NodeID u = nodeID) \<and>
     distinct (map t_ID (nodeTasks (i_Tasks f) nodeID)) \<and>
     t_ID ` set us = t_ID ` set (nodeTasks (i_Tasks f) nodeID) \<and>
     (\<forall>t\<in>set (nodeTasks (i_Tasks f) nodeID). forwardStep t (the (lastByID us (t_ID t))))"
  (is "?ok \<longleftrightarrow> ?own \<and> ?dist \<and> ?ids \<and> ?steps")
proof
  assume ?ok
  then obtain rs where rs: "prepareNodeTaskReplacements (Some f) nodeID us = Inr rs" by (auto simp: isOk_iff)
  then obtain updates where "indexUpdates nodeID [] us = Inr updates"
    by (auto simp: prepareNodeTaskReplacements_def bindR_Inr_iff)
  then have own: ?own using indexUpdates_iff[of nodeID "[]" us] by blast
  note view = replacements_view[OF rs]
  obtain ts where ts: "tasksStep nodeID (i_Tasks f) ts" "map snd rs = filter (\<lambda>t. t_NodeID t = nodeID) ts"
    using replacements_apply[OF rs] by blast
  have "list_all2 forwardStep (filter (\<lambda>t. t_NodeID t = nodeID) xs) (filter (\<lambda>t. t_NodeID t = nodeID) ys)"
    if "tasksStep nodeID xs ys" for xs ys
    using that unfolding tasksStep_def
    by (induction rule: list_all2_induct) (auto simp: forwardStep_def split: if_splits)
  from this[OF ts(1)] have "list_all2 forwardStep (nodeTasks (i_Tasks f) nodeID) (map snd rs)"
    by (simp add: nodeTasks_def ts(2))
  then have ?steps unfolding view(3) by (auto simp: list_all2_conv_all_nth in_set_conv_nth)
  then show "?own \<and> ?dist \<and> ?ids \<and> ?steps" using own view(1,2) by blast
next
  assume r: "?own \<and> ?dist \<and> ?ids \<and> ?steps"
  then obtain updates where up: "indexUpdates nodeID [] us = Inr updates"
    using indexUpdates_iff[of nodeID "[]" us] by blast
  have upd: "map_of updates = lastByID us" using indexUpdates_last[OF up] by simp
  have dom: "lastByID us k \<noteq> None \<longleftrightarrow> k \<in> t_ID ` set us" for k
    by (auto simp: map_of_eq_None_iff image_iff)
  have "\<exists>u. map_of updates (t_ID t) = Some u \<and> forwardStep t u" if t: "t \<in> set (nodeTasks (i_Tasks f) nodeID)" for t
  proof -
    have "t_ID t \<in> t_ID ` set us" using r t by blast
    then obtain u where "lastByID us (t_ID t) = Some u" using dom by blast
    then show ?thesis using r t unfolding upd by (metis option.sel)
  qed
  with resolve_ok[of "i_Tasks f" nodeID updates 0 "[]"] r obtain rs updates' where
    res: "resolveReplacements nodeID 0 updates [] (i_Tasks f) = Inr (rs, updates')" by auto
  have "map_of updates' k = None" for k
    using resolve_view(4)[OF res, of k] r dom[of k] upd by (cases "k \<in> t_ID ` set us") auto
  then have "map_of updates' = Map.empty" by blast
  then have "updates' = []" by simp
  with up res show ?ok by (simp add: prepareNodeTaskReplacements_def)
qed

definition acceptable :: "NodeResult \<Rightarrow> bool" where
  "acceptable res \<longleftrightarrow> validJSON (nr_State res) \<and>
     nr_Disposition res \<in> {DispositionWaiting, DispositionContinue, DispositionReject} \<and>
     (nr_Disposition res = DispositionWaiting \<longrightarrow> nr_Outcome res = [])"

lemma fields_iff:
  "validateNodeResultFields a = Inr () \<longleftrightarrow> ra_nodeID a \<noteq> [] \<and> acceptable (ra_result a)"
  by (cases "nr_Disposition (ra_result a)")
    (auto simp: validateNodeResultFields_def acceptable_def Let_def)

lemma orInvalid_iff:
  "(case r of Inl _ \<Rightarrow> Inl e | Inr _ \<Rightarrow> x) = Inr b \<longleftrightarrow> r = Inr () \<and> x = Inr b" for r :: "unit result"
  by (cases r) auto

lemma orInvalid_bind_iff:
  "(case r of Inl _ \<Rightarrow> Inl e | Inr x \<Rightarrow> k x) = Inr b \<longleftrightarrow> (\<exists>x. r = Inr x \<and> k x = Inr b)"
  by (cases r) auto

lemma prepareActivation_iff:
  "prepareActivationNodeResult nodeID res = Inr a \<longleftrightarrow>
     nodeID \<noteq> [] \<and> acceptable res \<and> (\<forall>t\<in>set (nr_Tasks res). draftOk t) \<and>
     (nr_Tasks res \<noteq> [] \<longleftrightarrow> nr_Disposition res = DispositionWaiting) \<and>
     a = \<lparr>ra_stage = nodeResultActivation, ra_nodeID = nodeID, ra_result = res, ra_replacements = []\<rparr>"
  by (auto simp: prepareActivationNodeResult_def prepareNodeResultApplication_def bindR_Inr_iff
      fields_iff prepareTasks_def drafts_iff Let_def orInvalid_iff)

lemma prepareReturn_iff:
  "prepareReturnNodeResult nodeID res = Inr a \<longleftrightarrow>
     nodeID \<noteq> [] \<and> acceptable res \<and> (\<forall>t\<in>set (nr_Tasks res). draftOk t) \<and>
     nr_Tasks res \<noteq> [] \<and> nr_Disposition res = DispositionWaiting \<and>
     a = \<lparr>ra_stage = nodeResultReturn, ra_nodeID = nodeID, ra_result = res, ra_replacements = []\<rparr>"
  by (auto simp: prepareReturnNodeResult_def prepareNodeResultApplication_def bindR_Inr_iff
      fields_iff prepareTasks_def drafts_iff Let_def orInvalid_iff)

lemma disposition_iff:
  "validateCommandTaskDisposition disposition rs = Inr () \<longleftrightarrow>
     (disposition = DispositionWaiting \<longleftrightarrow> (\<exists>t\<in>set (map snd rs). active t))"
  by (auto simp: validateCommandTaskDisposition_def Let_def list_ex_iff)

lemma prepareCommand_iff:
  "prepareCommandNodeResult f nodeID res = Inr a \<longleftrightarrow>
     nodeID \<noteq> [] \<and> acceptable res \<and>
     (\<exists>rs. prepareNodeTaskReplacements f nodeID (nr_Tasks res) = Inr rs \<and>
        (nr_Disposition res = DispositionWaiting \<longleftrightarrow> (\<exists>t\<in>set (map snd rs). active t)) \<and>
        a = \<lparr>ra_stage = nodeResultCommand, ra_nodeID = nodeID, ra_result = res, ra_replacements = rs\<rparr>)"
  by (auto simp: prepareCommandNodeResult_def prepareNodeResultApplication_def bindR_Inr_iff
      Let_def fields_iff prepareTasks_def orInvalid_iff disposition_iff orInvalid_bind_iff)

lemma prepare_error:
  assumes "prepareNodeResultApplication stage f nodeID res = Inl e"
  shows "e = invalidNodeResult stage"
  using assms
  by (auto simp: prepareNodeResultApplication_def bindR_Inl_iff validateNodeResultFields_def
      prepareTasks_def Let_def split: Disposition.splits nodeResultStage.splits if_splits sum.splits)

subsection \<open>Application reaches the announced state\<close>

definition quiet :: "Instance \<Rightarrow> bool" where
  "quiet i \<longleftrightarrow> (\<forall>t\<in>set (i_Tasks i). \<not> active t)"

definition activeHere :: "Instance \<Rightarrow> bool" where
  "activeHere i \<longleftrightarrow> (\<forall>t\<in>set (i_Tasks i). active t \<longrightarrow> t_NodeID t = i_CurrentNodeID i)"

definition waiting :: "Instance \<Rightarrow> bool" where
  "waiting i \<longleftrightarrow> i_Status i = InstanceStatusRunning \<and> (\<exists>t\<in>set (i_Tasks i). active t) \<and> activeHere i"

definition routed :: "Instance \<Rightarrow> bool" where
  "routed i \<longleftrightarrow> i_Status i = InstanceStatusRunning \<and> quiet i"

definition settled :: "Instance \<Rightarrow> bool" where
  "settled i \<longleftrightarrow> waiting i \<or>
     i_Status i \<in> {InstanceStatusCompleted, InstanceStatusRejected, InstanceStatusWithdrawn} \<and> quiet i"

definition decided :: "nodeResultDecision \<Rightarrow> Instance \<Rightarrow> bool" where
  "decided d i \<longleftrightarrow> (case dec_action d of
      nodeResultWait \<Rightarrow> waiting i
    | nodeResultAdvance \<Rightarrow> routed i
    | nodeResultStop \<Rightarrow> i_Status i = InstanceStatusRejected \<and> quiet i
    | nodeResultActionOther _ \<Rightarrow> False)"

definition applied ::
  "Instance \<Rightarrow> string \<Rightarrow> NodeResult \<Rightarrow> string list \<Rightarrow> nodeResultDecision \<times> Instance \<Rightarrow> bool" where
  "applied f nodeID res entered = (\<lambda>(d, f'). evolves f f' \<and> decided d f' \<and> i_CurrentNodeID f' = nodeID \<and>
     i_Version f' = i_Version f \<and>
     enteredNodes (i_Audit f') = enteredNodes (i_Audit f) @ entered \<and>
     (dec_action d = nodeResultAdvance \<longrightarrow> dec_outcome d = nr_Outcome res))"

lemmas live_defs = quiet_def activeHere_def waiting_def routed_def

lemma live_fields [inst_simps]:
  "quiet (f\<lparr>i_Audit := a\<rparr>) = quiet f" "quiet (f\<lparr>i_NodeState := st\<rparr>) = quiet f"
  "quiet (f\<lparr>i_Status := s\<rparr>) = quiet f" "quiet (f\<lparr>i_CurrentNodeID := n\<rparr>) = quiet f"
  "quiet (f\<lparr>i_Version := v\<rparr>) = quiet f"
  "waiting (f\<lparr>i_Audit := a\<rparr>) = waiting f" "waiting (f\<lparr>i_NodeState := st\<rparr>) = waiting f"
  "waiting (f\<lparr>i_Version := v\<rparr>) = waiting f"
  by (simp_all add: live_defs)

lemma fresh_tasks:
  assumes "length new = length tasks" and "\<forall>t\<in>set tasks. draftOk t"
    and "\<And>k. k < length tasks \<Longrightarrow> \<exists>i. freshID w k = Inr i \<and>
      new ! k = (tasks ! k)\<lparr>t_ID := i, t_NodeID := nodeID\<rparr>"
    and "t \<in> set new"
  shows "active t" "t_NodeID t = nodeID"
proof -
  obtain k where k: "k < length tasks" "t = new ! k" using assms(1,4) by (metis in_set_conv_nth)
  then show "active t" "t_NodeID t = nodeID"
    using assms(2) assms(3)[OF k(1)] by (auto simp: draftOk_def)
qed

lemma decideResult_wp:
  assumes "acceptable res" and "evolves g f" and "i_Version f = i_Version g"
    and "if nr_Disposition res = DispositionWaiting then waiting f else routed f"
    and "enteredNodes (i_Audit f) = enteredNodes (i_Audit g)"
  shows "wpE False (\<lambda>x w'. applied g (i_CurrentNodeID f) res [] x) (\<lambda>_ _. True) (decideResult res f) w"
proof -
  have audit: "evolves g (f\<lparr>i_Audit := i_Audit f @ r\<rparr>)"
    "evolves g (f\<lparr>i_Status := st, i_Audit := i_Audit f @ r\<rparr>)" for r st
    using assms(2) by (auto simp: evolves_def)
  consider "nr_Disposition res = DispositionWaiting" | "nr_Disposition res = DispositionContinue"
    | "nr_Disposition res = DispositionReject" using assms(1) by (auto simp: acceptable_def)
  then show ?thesis
  proof cases
    case 3
    then show ?thesis using assms(3,4,5) audit
      by (simp add: decideResult_def wp_simps applied_def decided_def rejectNode_def
          rejectInstance_def inst_simps routed_def)
  qed (use assms in \<open>simp_all add: decideResult_def wp_simps applied_def decided_def\<close>)
qed

lemma activation_wp:
  assumes prep: "prepareActivationNodeResult nodeID res = Inr a"
    and f: "routed f" "i_CurrentNodeID f = nodeID"
  shows "wpE False (\<lambda>x w'. applied f nodeID res [] x) (\<lambda>_ _. True) (applyResult (Some a) (Some f)) w"
proof -
  have a: "ra_stage a = nodeResultActivation" "ra_nodeID a = nodeID" "ra_result a = res"
    and acc: "acceptable res" and drafts: "\<forall>t\<in>set (nr_Tasks res). draftOk t"
    and tasks: "nr_Tasks res \<noteq> [] \<longleftrightarrow> nr_Disposition res = DispositionWaiting"
    using prep by (auto simp: prepareActivation_iff)
  have "wpE False (\<lambda>f'. wpE False (\<lambda>x w'. applied f nodeID res [] x) (\<lambda>_ _. True)
      (decideResult res (setNodeState (nr_State res) f'))) (\<lambda>_ _. True)
      (activateTasks nodeID (nr_Tasks res) f) w"
  proof (rule activateTasks_wp)
    fix new
    assume new: "length new = length (nr_Tasks res)"
      "\<And>k. k < length (nr_Tasks res) \<Longrightarrow> \<exists>i. freshID w k = Inr i \<and>
         new ! k = (nr_Tasks res ! k)\<lparr>t_ID := i, t_NodeID := nodeID\<rparr>"
    note new_task = fresh_tasks[OF new(1) drafts new(2)]
    let ?f = "setNodeState (nr_State res) (f\<lparr>i_Tasks := i_Tasks f @ new\<rparr>)"
    have "if nr_Disposition res = DispositionWaiting then waiting ?f else routed ?f"
    proof (cases "nr_Tasks res = []")
      case True
      then show ?thesis using new(1) tasks f by (auto simp: live_defs setNodeState_def)
    next
      case False
      then obtain t where "t \<in> set new" using new(1) by (cases new) auto
      then show ?thesis using False tasks f new_task by (auto simp: live_defs setNodeState_def)
    qed
    from decideResult_wp[OF acc _ _ this, of f] f
    show "wpE False (\<lambda>x w'. applied f nodeID res [] x) (\<lambda>_ _. True) (decideResult res ?f)
       (drawn (length (nr_Tasks res)) w)"
      by (simp add: setNodeState_def inst_simps)
  qed simp
  then show ?thesis by (simp add: applyResult_def a wp_simps)
qed

lemma command_wp:
  assumes prep: "prepareCommandNodeResult (Some f) nodeID res = Inr a"
    and f: "waiting f" "i_CurrentNodeID f = nodeID"
  shows "wpE False (\<lambda>x w'. applied f nodeID res [] x) (\<lambda>_ _. True) (applyResult (Some a) (Some f)) w"
proof -
  obtain rs where a: "ra_stage a = nodeResultCommand" "ra_result a = res" "ra_replacements a = rs"
    and acc: "acceptable res" and rs: "prepareNodeTaskReplacements (Some f) nodeID (nr_Tasks res) = Inr rs"
    and disp: "nr_Disposition res = DispositionWaiting \<longleftrightarrow> (\<exists>t\<in>set (map snd rs). active t)"
    using prep unfolding prepareCommand_iff by (elim conjE exE, intro that) (assumption | simp)+
  obtain ts where ts: "applyNodeTaskReplacements rs f = f\<lparr>i_Tasks := ts\<rparr>"
    "tasksStep nodeID (i_Tasks f) ts" "map snd rs = filter (\<lambda>t. t_NodeID t = nodeID) ts"
    using replacements_apply[OF rs] by auto
  let ?f = "setNodeState (nr_State res) (f\<lparr>i_Tasks := ts\<rparr>)"
  have here: "t_NodeID t = nodeID" if t: "t \<in> set ts" "active t" for t
  proof -
    obtain k where k: "k < length ts" "t = ts ! k"
      using t(1) by (metis in_set_conv_nth)
    then have "if t_NodeID (i_Tasks f ! k) = nodeID then forwardStep (i_Tasks f ! k) t
        else t = i_Tasks f ! k" "k < length (i_Tasks f)"
      using ts(2) by (auto simp: tasksStep_def list_all2_conv_all_nth)
    then show ?thesis
      using f t(2) by (auto simp: live_defs forwardStep_def split: if_splits)
  qed
  then have "if nr_Disposition res = DispositionWaiting then waiting ?f else routed ?f"
    unfolding disp ts(3) using f by (auto simp: live_defs setNodeState_def)
  moreover have "evolves f ?f"
    using evolves_tasks[OF evolves_refl tasksStep_evolve[OF ts(2)]]
    by (simp add: setNodeState_def inst_simps)
  ultimately show ?thesis
    using decideResult_wp[OF acc, of f ?f w] f
    by (simp add: applyResult_def a ts(1)) (simp add: setNodeState_def)
qed

lemma applied_wait:
  assumes "i_Status g = InstanceStatusRunning" and "tasksEvolve (i_Tasks f) (i_Tasks g)"
    and "\<exists>t\<in>set (i_Tasks g). active t" and "\<forall>t\<in>set (i_Tasks g). active t \<longrightarrow> t_NodeID t = nodeID"
    and "i_CurrentNodeID g = nodeID" and "i_Audit g = i_Audit f @ a" "enteredNodes a = entered"
    and "i_ID g = i_ID f" "i_Definition g = i_Definition f" "i_Initiator g = i_Initiator f"
      "i_Data g = i_Data f" "i_Version g = i_Version f"
  shows "applied f nodeID res entered (\<lparr>dec_action = nodeResultWait, dec_outcome = []\<rparr>, g)"
  using assms by (simp add: applied_def decided_def waiting_def activeHere_def evolves_def)

lemma return_wp:
  assumes prep: "prepareReturnNodeResult nodeID res = Inr a" and f: "waiting f"
  shows "wpE False (\<lambda>x w'. applied f nodeID res [nodeID] x \<and> dec_action (fst x) = nodeResultWait)
    (\<lambda>_ _. True) (applyResult (Some a) (Some f)) w"
proof -
  have a: "ra_stage a = nodeResultReturn" "ra_nodeID a = nodeID" "ra_result a = res"
    and drafts: "\<forall>t\<in>set (nr_Tasks res). draftOk t" and tasks: "nr_Tasks res \<noteq> []"
    using prep by (auto simp: prepareReturn_iff)
  define closed where "closed = i_Tasks (closeNodeTasks (i_CurrentNodeID f) f)"
  have close: "closeNodeTasks (i_CurrentNodeID f) f = f\<lparr>i_Tasks := closed\<rparr>"
    by (simp add: closed_def closeNodeTasks_def)
  have inactive: "\<not> active t" if "t \<in> set closed" for t
    using that f by (auto simp: closed_def closeNodeTasks_def live_defs split: if_splits)
  have keep: "tasksEvolve (i_Tasks f) (closed @ new)" for new
    unfolding closed_def closeNodeTasks_def
    using tasksEvolve_trans[OF tasksEvolve_close tasksEvolve_append] by simp
  show ?thesis
    unfolding applyResult_def a option.case prod.case Let_def nodeResultStage.case wp_simps
      returnTo_def enterNode_def
  proof (rule activateTasks_wp, goal_cases)
    case (1 new)
    note new_task = fresh_tasks[OF 1(1) drafts 1(2)]
    obtain t where "t \<in> set new" using 1(1) tasks by (cases new) auto
    then have live: "\<exists>t\<in>set new. active t" "\<forall>t\<in>set new. active t \<longrightarrow> t_NodeID t = nodeID"
      using new_task by auto
    then have "\<exists>t\<in>set (closed @ new). active t"
      "\<forall>t\<in>set (closed @ new). active t \<longrightarrow> t_NodeID t = nodeID"
      using inactive unfolding set_append by blast+
    with f keep[of new] show ?case
      unfolding close
      by (simp add: setNodeState_def waiting_def) (rule applied_wait, simp_all, simp)
  qed simp
qed

end
