(* ===== verification/Store.thy ===== *)
theory Store
  imports Facts
begin

text \<open>
  The persistence port of the engine and its in-memory adapter (\<open>store.go\<close>). A store
  operation runs in a world of the request environment and the store state; the mutex
  makes its critical section one step, and what \<open>TryLock\<close> answers while other clients hold
  it is observed from the environment.

  The locale \<open>store_contract\<close> states what the engine relies on (insert-only creation, exact
  load, compare-and-swap with an append-only audit, no change on failure), and the
  interpretation \<open>mem\<close> discharges it for \<open>MemoryStore\<close>. \<open>store_uncancelled\<close> gives the exact answer of
  every operation for a request that is not cancelled, and \<open>acquire_returns_iff\<close> says when
  waiting for the lock ends.
\<close>

type_synonym MemoryStore = "InstanceID \<rightharpoonup> Instance"

type_synonym receiver = "unit option"  \<comment> \<open>\<open>None\<close>: the nil pointer\<close>

definition NewMemoryStore :: MemoryStore where
  "NewMemoryStore = Map.empty"

partial_function (option) acquireMemoryStoreLock :: "'h env \<Rightarrow> (unit result \<times> 'h env) option" where
  "acquireMemoryStoreLock w =
     bindE ctxErr (\<lambda>_.
     bindE tryLock (\<lambda>locked w.
       if locked then ctxErr w else acquireMemoryStoreLock w)) w"

declare acquireMemoryStoreLock.simps [code]

definition MemoryStore_Create ::
  "receiver \<Rightarrow> Instance option \<Rightarrow> ('h env \<times> MemoryStore, unit) eff" where
  "MemoryStore_Create s instance0 =
     bindE (onFst ctxErr) (\<lambda>_.
     case (s, instance0) of
       (Some _, Some i) \<Rightarrow>
         if i_ID i = [] then raise [ErrInvalidStoreInput]
         else
           bindE (onFst acquireMemoryStoreLock) (\<lambda>_.
           bindE (onFst ctxErr) (\<lambda>_.
           bindE getSnd (\<lambda>instances.
           if instances (i_ID i) \<noteq> None then raise [ErrInstanceExists]
           else
             bindE (onFst ctxErr) (\<lambda>_.
             putSnd (instances(i_ID i \<mapsto> i))))))
     | _ \<Rightarrow> raise [ErrInvalidStoreInput])"

definition MemoryStore_Load ::
  "receiver \<Rightarrow> InstanceID \<Rightarrow> ('h env \<times> MemoryStore, Instance) eff" where
  "MemoryStore_Load s ident =
     bindE (onFst ctxErr) (\<lambda>_.
     case s of
       None \<Rightarrow> raise [ErrInvalidStoreInput]
     | Some _ \<Rightarrow>
         bindE (onFst acquireMemoryStoreLock) (\<lambda>_.
         bindE (onFst ctxErr) (\<lambda>_.
         bindE getSnd (\<lambda>instances.
         case instances ident of
           None \<Rightarrow> raise [ErrInstanceNotFound]
         | Some i \<Rightarrow> bindE (onFst ctxErr) (\<lambda>_. ret i)))))"

definition auditKept :: "AuditRecord list \<Rightarrow> AuditRecord list \<Rightarrow> bool" where
  "auditKept stored candidate \<longleftrightarrow>
     \<not> (length candidate < length stored) \<and> take (length stored) candidate = stored"

definition MemoryStore_Save ::
  "receiver \<Rightarrow> Instance option \<Rightarrow> u64 \<Rightarrow> ('h env \<times> MemoryStore, unit) eff" where
  "MemoryStore_Save s instance0 expectedVersion =
     bindE (onFst ctxErr) (\<lambda>_.
     case (s, instance0) of
       (Some _, Some i) \<Rightarrow>
         bindE (onFst acquireMemoryStoreLock) (\<lambda>_.
         bindE (onFst ctxErr) (\<lambda>_.
         bindE getSnd (\<lambda>instances.
         case instances (i_ID i) of
           None \<Rightarrow> raise [ErrInstanceNotFound]
         | Some stored \<Rightarrow>
             if i_Version stored \<noteq> expectedVersion then raise [ErrVersionConflict]
             else if \<not> auditKept (i_Audit stored) (i_Audit i) then raise [ErrInvalidStoreInput]
             else
               bindE (onFst ctxErr) (\<lambda>_.
               putSnd (instances(i_ID i \<mapsto> i))))))
     | _ \<Rightarrow> raise [ErrInvalidStoreInput])"

subsection \<open>The contract\<close>

record ('h, 's) Store =
  st_Create :: "Instance option \<Rightarrow> ('h env \<times> 's, unit) eff"
  st_Load :: "InstanceID \<Rightarrow> ('h env \<times> 's, Instance) eff"
  st_Save :: "Instance option \<Rightarrow> u64 \<Rightarrow> ('h env \<times> 's, unit) eff"

definition MemoryStore_ops :: "('h, MemoryStore) Store" where
  "MemoryStore_ops = \<lparr>st_Create = MemoryStore_Create (Some ()), st_Load = MemoryStore_Load (Some ()),
     st_Save = MemoryStore_Save (Some ())\<rparr>"

definition filed :: "(Instance \<Rightarrow> bool) \<Rightarrow> (InstanceID \<rightharpoonup> Instance) \<Rightarrow> Instance \<Rightarrow> (InstanceID \<rightharpoonup> Instance) \<Rightarrow> bool" where
  \<comment> \<open>at most the entry of \<open>i\<close> changed, and a storable \<open>i\<close> is stored as it is\<close>
  "filed storable m i m' \<longleftrightarrow> (\<forall>k. k \<noteq> i_ID i \<longrightarrow> m' k = m k) \<and> (storable i \<longrightarrow> m' (i_ID i) = Some i)"

lemma filed_storable: "storable i \<Longrightarrow> filed storable m i m' \<longleftrightarrow> m' = m(i_ID i \<mapsto> i)"
  by (auto simp: filed_def fun_eq_iff)

locale store_contract =
  fixes create :: "Instance option \<Rightarrow> ('h env \<times> 's, unit) eff"
    and load :: "InstanceID \<Rightarrow> ('h env \<times> 's, Instance) eff"
    and save :: "Instance option \<Rightarrow> u64 \<Rightarrow> ('h env \<times> 's, unit) eff"
    and view :: "'s \<Rightarrow> InstanceID \<rightharpoonup> Instance"
    and ok :: "'s \<Rightarrow> bool"               \<comment> \<open>invariant of the store state\<close>
    and storable :: "Instance \<Rightarrow> bool"   \<comment> \<open>what the store can represent exactly\<close>
  assumes create_law: "ok (snd w) \<Longrightarrow> wpE True
      (\<lambda>_ w'. ok (snd w') \<and> i_ID i \<noteq> [] \<and> view (snd w) (i_ID i) = None \<and>
              filed storable (view (snd w)) i (view (snd w')))
      (\<lambda>_ w'. ok (snd w') \<and> view (snd w') = view (snd w)) (create (Some i)) w"
    and load_law: "ok (snd w) \<Longrightarrow> wpE True
      (\<lambda>i w'. ok (snd w') \<and> view (snd w) k = Some i \<and> view (snd w') = view (snd w))
      (\<lambda>_ w'. ok (snd w') \<and> view (snd w') = view (snd w)) (load k) w"
    and save_law: "ok (snd w) \<Longrightarrow> wpE True
      (\<lambda>_ w'. ok (snd w') \<and> (\<exists>old. view (snd w) (i_ID i) = Some old \<and> i_Version old = v \<and>
                auditKept (i_Audit old) (i_Audit i)) \<and>
              filed storable (view (snd w)) i (view (snd w')))
      (\<lambda>_ w'. ok (snd w') \<and> view (snd w') = view (snd w)) (save (Some i) v) w"
begin

lemma save_reads_back:
  assumes "ok (snd w)" and "save (Some i) v w = Some (Inr (), w1)" and "storable i"
    and "view (snd w2) = view (snd w1)" and "ok (snd w2)" and "load (i_ID i) w2 = Some (Inr j, w3)"
  shows "j = i"
  using wpE_InrD[OF save_law assms(2)] wpE_InrD[OF load_law assms(6)] assms(1,3-5)
  by (auto simp: filed_storable)

lemma stale_save_rejected:
  assumes "ok (snd w)" and "save (Some i) v w = Some (Inr (), w1)" and "storable i" and "i_Version i \<noteq> v"
    and "view (snd w2) = view (snd w1)" and "ok (snd w2)" and "i_ID j = i_ID i"
  shows "save (Some j) v w2 \<noteq> Some (Inr u, w3)"
proof
  assume s: "save (Some j) v w2 = Some (Inr u, w3)"
  show False
    using wpE_InrD[OF save_law assms(2)] wpE_InrD[OF save_law s] assms(1,3-7) by (auto simp: filed_storable)
qed

lemma create_exclusive:
  assumes "ok (snd w)" and "create (Some i) w = Some (Inr (), w1)" and "storable i"
    and "view (snd w2) = view (snd w1)" and "ok (snd w2)" and "i_ID j = i_ID i"
  shows "create (Some j) w2 \<noteq> Some (Inr u, w3)"
proof
  assume s: "create (Some j) w2 = Some (Inr u, w3)"
  show False
    using wpE_InrD[OF create_law assms(2)] wpE_InrD[OF create_law s] assms(1,3-6) by (auto simp: filed_storable)
qed

end

subsection \<open>The in-memory adapter honours the contract\<close>

lemma auditKept_iff: "auditKept old new \<longleftrightarrow> (\<exists>suffix. new = old @ suffix)"
  unfolding auditKept_def
  by (metis append_eq_conv_conj append_take_drop_id length_append not_add_less1)

lemma MemoryStore_Create_wp:
  "wpE True
    (\<lambda>_ w'. s \<noteq> None \<and> i_ID i \<noteq> [] \<and> snd w (i_ID i) = None \<and> snd w' = (snd w)(i_ID i \<mapsto> i))
    (\<lambda>_ w'. snd w' = snd w) (MemoryStore_Create s (Some i)) w"
  unfolding MemoryStore_Create_def wpE_bindE
  by (rule onFst_any) (auto simp: wpE_bindE wpE_getSnd wpE_putSnd wpE_raise
      intro!: onFst_any split: option.split)

lemma MemoryStore_Load_wp:
  "wpE True (\<lambda>i w'. s \<noteq> None \<and> snd w k = Some i \<and> snd w' = snd w)
    (\<lambda>_ w'. snd w' = snd w) (MemoryStore_Load s k) w"
  unfolding MemoryStore_Load_def wpE_bindE
  by (rule onFst_any) (auto simp: wpE_bindE wpE_getSnd wpE_ret wpE_raise
      intro!: onFst_any split: option.split)

lemma MemoryStore_Save_wp:
  "wpE True
    (\<lambda>_ w'. s \<noteq> None \<and> (\<exists>old. snd w (i_ID i) = Some old \<and> i_Version old = v \<and>
         auditKept (i_Audit old) (i_Audit i)) \<and> snd w' = (snd w)(i_ID i \<mapsto> i))
    (\<lambda>_ w'. snd w' = snd w) (MemoryStore_Save s (Some i) v) w"
  unfolding MemoryStore_Save_def wpE_bindE
  by (rule onFst_any) (auto simp: wpE_bindE wpE_getSnd wpE_putSnd wpE_raise
      intro!: onFst_any split: option.split)

interpretation mem: store_contract "MemoryStore_Create (Some ())" "MemoryStore_Load (Some ())"
  "MemoryStore_Save (Some ())" "\<lambda>m. m" "\<lambda>_. True" "\<lambda>_. True"
proof (unfold_locales, goal_cases)
  case (1 w i)
  show ?case by (rule wpE_mono[OF MemoryStore_Create_wp]) (auto simp: filed_storable)
next
  case (2 w k)
  show ?case by (rule wpE_mono[OF MemoryStore_Load_wp]) (auto simp: filed_storable)
next
  case (3 w i v)
  show ?case by (rule wpE_mono[OF MemoryStore_Save_wp]) (auto simp: filed_storable)
qed

subsection \<open>Waiting for the lock\<close>

lemma acquire_returns:
  assumes "ctx_obs w (ctx_pos w + k) \<noteq> None \<or> try_lock w (lock_pos w + k)"
  shows "acquireMemoryStoreLock w \<noteq> None"
  using assms
proof (induction k arbitrary: w)
  case 0
  then show ?case
    by (subst acquireMemoryStoreLock.simps)
      (auto simp: bindE_None_iff ctxErr_def tryLock_def split: option.splits)
next
  case (Suc k)
  let ?w = "w\<lparr>ctx_pos := Suc (ctx_pos w), lock_pos := Suc (lock_pos w)\<rparr>"
  have "acquireMemoryStoreLock ?w \<noteq> None" using Suc.prems by (intro Suc.IH) simp
  then show ?case
    by (subst acquireMemoryStoreLock.simps)
      (auto simp: bindE_None_iff ctxErr_def tryLock_def split: option.splits if_splits)
qed

lemma acquire_needs:
  assumes "acquireMemoryStoreLock w = Some r"
  shows "\<exists>k. ctx_obs w (ctx_pos w + k) \<noteq> None \<or> try_lock w (lock_pos w + k)"
proof (rule acquireMemoryStoreLock.raw_induct[OF _ assms, where P =
      "\<lambda>w r. \<exists>k. ctx_obs w (ctx_pos w + k) \<noteq> None \<or> try_lock w (lock_pos w + k)"], goal_cases)
  case loop: (1 acq w r)
  show ?case
  proof (cases "ctx_obs w (ctx_pos w) \<noteq> None \<or> try_lock w (lock_pos w)")
    case True
    then show ?thesis by (intro exI[of _ 0]) simp
  next
    case False
    let ?w = "w\<lparr>ctx_pos := Suc (ctx_pos w), lock_pos := Suc (lock_pos w)\<rparr>"
    have "acq ?w = Some r"
      using loop(2) False by (auto simp: bindE_def ctxErr_def tryLock_def)
    from loop(1)[OF this] obtain k where
      "ctx_obs w (Suc (ctx_pos w) + k) \<noteq> None \<or> try_lock w (Suc (lock_pos w) + k)" by auto
    then show ?thesis by (intro exI[of _ "Suc k"]) simp
  qed
qed

lemma acquire_returns_iff:
  "(\<exists>r. acquireMemoryStoreLock w = Some r) \<longleftrightarrow>
     (\<exists>k. ctx_obs w (ctx_pos w + k) \<noteq> None \<or> try_lock w (lock_pos w + k))"
  using acquire_returns acquire_needs by blast

subsection \<open>An uncancelled request\<close>

definition uncancelled :: "'h env \<Rightarrow> bool" where
  "uncancelled w \<longleftrightarrow> (\<forall>k. ctx_obs w k = None) \<and> (\<forall>j. \<exists>k. try_lock w (j + k))"

lemma ctxErr_uncancelled:
  "uncancelled w \<Longrightarrow> ctxErr w = Some (Inr (), w\<lparr>ctx_pos := Suc (ctx_pos w)\<rparr>)"
  by (simp add: ctxErr_def uncancelled_def)

lemma uncancelled_pos [simp]:
  "uncancelled (w\<lparr>ctx_pos := n\<rparr>) = uncancelled w" "uncancelled (w\<lparr>lock_pos := n\<rparr>) = uncancelled w"
  by (simp_all add: uncancelled_def)

lemma acquire_waits:
  assumes "uncancelled w" and "try_lock w (lock_pos w + k)"
  shows "\<exists>w'. acquireMemoryStoreLock w = Some (Inr (), w') \<and> uncancelled w'"
  using assms
proof (induction k arbitrary: w)
  case 0
  then show ?case
    by (subst acquireMemoryStoreLock.simps)
      (auto simp: bindE_def ctxErr_uncancelled tryLock_def)
next
  case (Suc k)
  let ?w = "w\<lparr>ctx_pos := Suc (ctx_pos w), lock_pos := Suc (lock_pos w)\<rparr>"
  have "\<exists>w'. acquireMemoryStoreLock ?w = Some (Inr (), w') \<and> uncancelled w'"
    using Suc.prems by (intro Suc.IH) simp_all
  then show ?case using Suc.prems(1)
    by (subst acquireMemoryStoreLock.simps)
      (auto simp: bindE_def ctxErr_uncancelled tryLock_def)
qed

lemma acquire_uncancelled:
  assumes "uncancelled w"
  shows "\<exists>w'. acquireMemoryStoreLock w = Some (Inr (), w') \<and> uncancelled w'"
proof -
  obtain k where "try_lock w (lock_pos w + k)" using assms by (auto simp: uncancelled_def)
  from acquire_waits[OF assms this] show ?thesis .
qed

lemma onFst_uncancelled:
  "uncancelled e \<Longrightarrow> bindE (onFst ctxErr) k (e, s) = k () (e\<lparr>ctx_pos := Suc (ctx_pos e)\<rparr>, s)"
  "acquireMemoryStoreLock e = Some (Inr (), e') \<Longrightarrow> bindE (onFst acquireMemoryStoreLock) k (e, s) = k () (e', s)"
  "bindE getSnd l (e, s) = l s (e, s)"
  by (simp_all add: bindE_def onFst_def ctxErr_uncancelled getSnd_def)

lemma store_uncancelled:
  assumes "uncancelled e"
  shows "\<exists>e'. MemoryStore_Create (Some ()) (Some i) (e, m) = Some
      (if i_ID i = [] then (Inl [ErrInvalidStoreInput], (e', m))
       else if m (i_ID i) \<noteq> None then (Inl [ErrInstanceExists], (e', m))
       else (Inr (), (e', m(i_ID i \<mapsto> i))))"
    and "\<exists>e'. MemoryStore_Load (Some ()) k (e, m) = Some
      (case m k of None \<Rightarrow> Inl [ErrInstanceNotFound] | Some i \<Rightarrow> Inr i, (e', m))"
    and "\<exists>e'. MemoryStore_Save (Some ()) (Some i) v (e, m) = Some
      (case m (i_ID i) of
         None \<Rightarrow> (Inl [ErrInstanceNotFound], (e', m))
       | Some old \<Rightarrow>
           if i_Version old \<noteq> v then (Inl [ErrVersionConflict], (e', m))
           else if \<not> auditKept (i_Audit old) (i_Audit i) then (Inl [ErrInvalidStoreInput], (e', m))
           else (Inr (), (e', m(i_ID i \<mapsto> i))))"
proof -
  let ?e = "e\<lparr>ctx_pos := Suc (ctx_pos e)\<rparr>"
  have "uncancelled ?e" using assms by simp
  then obtain e1 where a: "acquireMemoryStoreLock ?e = Some (Inr (), e1)" "uncancelled e1"
    using acquire_uncancelled by blast
  note run = onFst_uncancelled(1)[OF assms] onFst_uncancelled(2)[OF a(1)] a(2) onFst_uncancelled
  show "\<exists>e'. MemoryStore_Create (Some ()) (Some i) (e, m) = Some
      (if i_ID i = [] then (Inl [ErrInvalidStoreInput], (e', m))
       else if m (i_ID i) \<noteq> None then (Inl [ErrInstanceExists], (e', m))
       else (Inr (), (e', m(i_ID i \<mapsto> i))))"
    by (auto simp: MemoryStore_Create_def run raise_def putSnd_def)
  show "\<exists>e'. MemoryStore_Load (Some ()) k (e, m) = Some
      (case m k of None \<Rightarrow> Inl [ErrInstanceNotFound] | Some i \<Rightarrow> Inr i, (e', m))"
    by (auto simp: MemoryStore_Load_def run raise_def ret_def split: option.split)
  show "\<exists>e'. MemoryStore_Save (Some ()) (Some i) v (e, m) = Some
      (case m (i_ID i) of
         None \<Rightarrow> (Inl [ErrInstanceNotFound], (e', m))
       | Some old \<Rightarrow>
           if i_Version old \<noteq> v then (Inl [ErrVersionConflict], (e', m))
           else if \<not> auditKept (i_Audit old) (i_Audit i) then (Inl [ErrInvalidStoreInput], (e', m))
           else (Inr (), (e', m(i_ID i \<mapsto> i))))"
    by (auto simp: MemoryStore_Save_def run raise_def putSnd_def split: option.split)
qed
end
