(* ===== verification/Engine.thy ===== *)
theory Engine
  imports CompilerSpec NodeResult Store
begin

text \<open>
  The engine (\<open>engine.go\<close>): graph navigation, task commands and the lifecycle operations over
  a store, each committing at most one aggregate snapshot by compare-and-swap. Closures of
  the source that share captured variables pass them as the value that \<open>prepare\<close> returns.
  The parts of an operation that run between load and save see only the request
  environment, so they are lifted with \<open>onFst\<close>.

  \<open>advance\<close> is a least fixed point: a run that never ends is \<open>None\<close>.
\<close>

record ('h, 's) Engine =
  e_store :: "('h, 's) Store option"
  e_registry :: "'h Registry option"

definition NewEngine :: "('h, 's) Store option \<Rightarrow> 'h Registry option \<Rightarrow> ('h, 's) Engine" where
  "NewEngine store registry = \<lparr>e_store = store, e_registry = registry\<rparr>"

record ('h, 'p) instanceCommand =
  ic_instanceID :: InstanceID
  ic_nonRunningError :: sentinel
  ic_prepare :: "Instance \<Rightarrow> ('h env, 'p) eff"
  ic_audit :: "'p \<Rightarrow> Instance \<Rightarrow> ('h env, Instance) eff"
  ic_transition :: "'p \<Rightarrow> Instance \<Rightarrow> ('h env, Instance) eff"

subsection \<open>Navigation\<close>

partial_function (option) advance ::
  "'h compiledDefinition \<Rightarrow> string \<Rightarrow> Instance \<Rightarrow> 'h env \<Rightarrow> (Instance result \<times> 'h env) option" where
  "advance plan outcome facts w =
     bindE ctxErr (\<lambda>_.
     bindE (liftR (plan_nextNode plan (i_CurrentNodeID facts) outcome)) (\<lambda>next.
     bindE (enterNode (nd_ID next) facts) (\<lambda>facts w.
     if nd_Kind next = KindEnd then complete facts w
     else
       bindE (liftR (plan_preparedHandler plan (nd_ID next))) (\<lambda>handler.
       bindE (ActivatePrepared handler \<lparr>pai_Data = i_Data facts\<rparr>) (\<lambda>res.
       bindE (liftR (prepareActivationNodeResult (nd_ID next) res)) (\<lambda>application.
       bindE (applyResult (Some application) (Some facts)) (\<lambda>applied.
       bindE (liftR (navigation (fst applied))) (\<lambda>route w.
       if \<not> snd route then ret (snd applied) w
       else advance plan (fst route) (snd applied) w))))) w))) w"

declare advance.simps [code]

subsection \<open>Validation\<close>

definition validateCommand :: "('h, 's) Engine option \<Rightarrow> Command \<Rightarrow> unit result" where
  "validateCommand e command =
     (case e of
        Some eng \<Rightarrow>
          if e_store eng = None \<or> e_registry eng = None then Inl [ErrInvalidEngine]
          else if c_InstanceID command = [] \<or> c_TaskID command = [] \<or> c_ActorID command = [] \<or>
                  c_Name command = []
          then Inl [ErrInvalidCommand]
          else if c_Name command = reservedTaskCommandTransferred then Inl [ErrInvalidCommand]
          else if \<not> validJSON (c_Payload command) then Inl [ErrInvalidCommand]
          else Inr ()
      | None \<Rightarrow> Inl [ErrInvalidEngine])"

fun validateCommandTask :: "Task list \<Rightarrow> Command \<Rightarrow> unit result" where
  "validateCommandTask [] command = Inl [ErrInvalidCommand]"
| "validateCommandTask (task # tasks) command =
     (if t_ID task \<noteq> c_TaskID command then validateCommandTask tasks command
      else if t_Status task \<noteq> TaskStatusActive \<or> t_Assignee task \<noteq> c_ActorID command
      then Inl [ErrInvalidCommand]
      else Inr ())"

definition hasEnteredNode :: "AuditRecord list \<Rightarrow> string \<Rightarrow> bool" where
  "hasEnteredNode audit nodeID =
     list_ex (\<lambda>r. a_Action r = auditNodeEntered \<and> a_NodeID r = nodeID) audit"

subsection \<open>The shared command skeleton\<close>

definition commandCandidate ::
  "('h, 'p) instanceCommand \<Rightarrow> Instance \<Rightarrow> ('h env, Instance) eff" where
  \<comment> \<open>the steps of \<open>executeInstanceCommand\<close> between load and save\<close>
  "commandCandidate command i =
     bindE (ic_prepare command i) (\<lambda>p.
     bindE (ic_audit command p i) (\<lambda>facts.
     bindE (ic_transition command p facts) (\<lambda>facts.
     liftR (advanceVersion (Some facts)))))"

definition executeInstanceCommand ::
  "('h, 's) Engine option \<Rightarrow> ('h, 'p) instanceCommand \<Rightarrow> ('h env \<times> 's, Instance) eff" where
  "executeInstanceCommand e command =
     (case Option.bind e e_store of
        None \<Rightarrow> raise [ErrInvalidEngine]
      | Some store \<Rightarrow>
          if ic_instanceID command = [] then raise [ErrInvalidEngine]
          else
            bindE (st_Load store (ic_instanceID command)) (\<lambda>i.
            if i_Status i \<noteq> InstanceStatusRunning then raise [ic_nonRunningError command]
            else
              bindE (onFst (commandCandidate command i)) (\<lambda>candidate.
              bindE (st_Save store (Some candidate) (i_Version i)) (\<lambda>_. ret candidate))))"

subsection \<open>Starting\<close>

definition Start ::
  "('h, 's) Engine option \<Rightarrow> Definition option \<Rightarrow> StartRequest \<Rightarrow> ('h env \<times> 's, Instance) eff" where
  "Start e definition request =
     (case (Option.bind e e_store, Option.bind e e_registry) of
        (Some store, Some registry) \<Rightarrow>
          if sr_ID request = [] \<or> sr_Initiator request = [] \<or> \<not> validJSON (sr_Data request)
          then raise [ErrInvalidStartRequest]
          else
            bindE (liftR (compileDefinition definition (Some registry))) (\<lambda>plan.
            bindE (liftR (plan_startNode plan)) (\<lambda>start.
            bindE (onFst (startInstanceFacts (cd_definition plan) request (nd_ID start))) (\<lambda>facts.
            bindE (onFst (advance plan [] facts)) (\<lambda>facts.
            bindE (st_Create store (Some facts)) (\<lambda>_. ret facts)))))
      | _ \<Rightarrow> raise [ErrInvalidEngine])"

type_synonym ('h, 's) DefinitionReader =
  "string \<Rightarrow> u64 \<Rightarrow> ('h env \<times> 's, Definition option) eff"

definition StartPublished ::
  "('h, 's) Engine option \<Rightarrow> ('h, 's) DefinitionReader option \<Rightarrow> string \<Rightarrow> u64 \<Rightarrow> StartRequest \<Rightarrow>
   ('h env \<times> 's, Instance) eff" where
  "StartPublished e definitions definitionID version request =
     (case definitions of
        None \<Rightarrow> raise [ErrInvalidStartRequest]
      | Some load \<Rightarrow>
          if definitionID = [] \<or> version = 0 then raise [ErrInvalidStartRequest]
          else bindE (load definitionID version) (\<lambda>definition. Start e definition request))"

subsection \<open>Task commands\<close>

definition prepareHandle ::
  "'h Registry option \<Rightarrow> Command \<Rightarrow> Instance \<Rightarrow>
   ('h env, 'h compiledDefinition \<times> NodeDefinition \<times> nodeResultApplication) eff" where
  \<comment> \<open>the \<open>prepare\<close> closure of \<open>Handle\<close>\<close>
  "prepareHandle registry command snapshot =
     (let tasks = nodeTasks (i_Tasks snapshot) (i_CurrentNodeID snapshot) in
      bindE (liftR (validateCommandTask tasks command)) (\<lambda>_.
      bindE (liftR (compileDefinition (Some (i_Definition snapshot)) registry)) (\<lambda>plan.
      bindE (liftR (plan_node plan (i_CurrentNodeID snapshot))) (\<lambda>node.
      bindE (liftR (plan_preparedHandler plan (nd_ID node))) (\<lambda>handler.
      bindE (HandlePrepared handler
               \<lparr>pci_Command = command, pci_Data = i_Data snapshot, pci_State = i_NodeState snapshot,
                pci_Tasks = tasks\<rparr>) (\<lambda>res.
      bindE (liftR (prepareCommandNodeResult (Some snapshot) (nd_ID node) res)) (\<lambda>application.
      ret (plan, node, application))))))))"

definition transitionHandle ::
  "'h compiledDefinition \<Rightarrow> nodeResultApplication \<Rightarrow> Instance \<Rightarrow> ('h env, Instance) eff" where
  \<comment> \<open>the \<open>transition\<close> closure of \<open>Handle\<close>\<close>
  "transitionHandle plan application facts =
     bindE (applyResult (Some application) (Some facts)) (\<lambda>(decision, facts).
     bindE (liftR (navigation decision)) (\<lambda>(outcome, advancing).
     if \<not> advancing then ret facts else advance plan outcome facts))"

definition handleCommand ::
  "'h Registry option \<Rightarrow> Command \<Rightarrow>
   ('h, 'h compiledDefinition \<times> NodeDefinition \<times> nodeResultApplication) instanceCommand" where
  "handleCommand registry command =
     \<lparr>ic_instanceID = c_InstanceID command, ic_nonRunningError = ErrInvalidCommand,
      ic_prepare = prepareHandle registry command,
      ic_audit = (\<lambda>(plan, node, application).
        recordTaskCommand (c_Name command) (nd_ID node) (c_TaskID command) (c_ActorID command)),
      ic_transition = (\<lambda>(plan, node, application). transitionHandle plan application)\<rparr>"

definition Handle :: "('h, 's) Engine option \<Rightarrow> Command \<Rightarrow> ('h env \<times> 's, Instance) eff" where
  "Handle e command =
     bindE (liftR (validateCommand e command)) (\<lambda>_.
     executeInstanceCommand e (handleCommand (Option.bind e e_registry) command))"

subsection \<open>Lifecycle operations\<close>

definition withdrawCommand ::
  "WithdrawRequest \<Rightarrow> 'h WithdrawalPolicy \<Rightarrow> ('h, unit) instanceCommand" where
  "withdrawCommand request policy =
     \<lparr>ic_instanceID = wr_InstanceID request, ic_nonRunningError = ErrInstanceNotRunning,
      ic_prepare = (\<lambda>snapshot. policy (wr_ActorID request) snapshot),
      ic_audit = (\<lambda>_. recordWithdrawal (wr_ActorID request)),
      ic_transition = (\<lambda>_ facts. ret (withdraw facts))\<rparr>"

definition Withdraw ::
  "('h, 's) Engine option \<Rightarrow> WithdrawRequest \<Rightarrow> 'h WithdrawalPolicy option \<Rightarrow>
   ('h env \<times> 's, Instance) eff" where
  "Withdraw e request policy =
     (if Option.bind e e_store = None then raise [ErrInvalidEngine]
      else case policy of
          None \<Rightarrow> raise [ErrInvalidWithdrawRequest]
        | Some p \<Rightarrow>
            if wr_InstanceID request = [] \<or> wr_ActorID request = []
            then raise [ErrInvalidWithdrawRequest]
            else executeInstanceCommand e (withdrawCommand request p))"

definition prepareReturn ::
  "'h Registry option \<Rightarrow> ReturnRequest \<Rightarrow> 'h ReturnPolicy \<Rightarrow> Instance \<Rightarrow>
   ('h env, NodeDefinition \<times> nodeResultApplication) eff" where
  "prepareReturn registry request policy snapshot =
     bindE (liftR (compileDefinition (Some (i_Definition snapshot)) registry)) (\<lambda>plan.
     bindE (liftR (wrapR [ErrInvalidReturnTarget] (plan_node plan (rr_TargetNodeID request)))) (\<lambda>target.
     if nd_Kind target = KindStart \<or> nd_Kind target = KindEnd \<or>
        nd_ID target = i_CurrentNodeID snapshot \<or>
        \<not> hasEnteredNode (i_Audit snapshot) (nd_ID target)
     then raise [ErrInvalidReturnTarget]
     else
       bindE (policy request snapshot) (\<lambda>_.
       bindE (liftR (plan_preparedHandler plan (nd_ID target))) (\<lambda>handler.
       bindE (ActivatePrepared handler \<lparr>pai_Data = i_Data snapshot\<rparr>) (\<lambda>res.
       bindE (liftR (prepareReturnNodeResult (nd_ID target) res)) (\<lambda>application.
       ret (target, application)))))))"

definition returnCommand ::
  "'h Registry option \<Rightarrow> ReturnRequest \<Rightarrow> 'h ReturnPolicy \<Rightarrow>
   ('h, NodeDefinition \<times> nodeResultApplication) instanceCommand" where
  "returnCommand registry request policy =
     \<lparr>ic_instanceID = rr_InstanceID request, ic_nonRunningError = ErrInstanceNotRunning,
      ic_prepare = prepareReturn registry request policy,
      ic_audit = (\<lambda>(target, application).
        recordReturn (nd_ID target) (rr_ActorID request) (rr_Reason request)),
      ic_transition = (\<lambda>(target, application) facts.
        bindE (applyResult (Some application) (Some facts)) (\<lambda>(_, facts). ret facts))\<rparr>"

definition Return ::
  "('h, 's) Engine option \<Rightarrow> ReturnRequest \<Rightarrow> 'h ReturnPolicy option \<Rightarrow>
   ('h env \<times> 's, Instance) eff" where
  "Return e request policy =
     (if Option.bind e e_store = None \<or> Option.bind e e_registry = None then raise [ErrInvalidEngine]
      else case policy of
          None \<Rightarrow> raise [ErrInvalidReturnRequest]
        | Some p \<Rightarrow>
            if rr_InstanceID request = [] \<or> rr_ActorID request = [] \<or> rr_TargetNodeID request = [] \<or>
               isBlank (rr_Reason request)
            then raise [ErrInvalidReturnRequest]
            else executeInstanceCommand e (returnCommand (Option.bind e e_registry) request p))"

definition prepareTransfer ::
  "TransferRequest \<Rightarrow> 'h TransferPolicy \<Rightarrow> Instance \<Rightarrow> ('h env, Task) eff" where
  "prepareTransfer request policy snapshot =
     (case List.find (\<lambda>t. t_ID t = tr_TaskID request) (i_Tasks snapshot) of
        None \<Rightarrow> raise [ErrTaskNotTransferable]
      | Some currentTask \<Rightarrow>
          if t_NodeID currentTask \<noteq> i_CurrentNodeID snapshot \<or> t_Status currentTask \<noteq> TaskStatusActive
          then raise [ErrTaskNotTransferable]
          else bindE (policy request currentTask snapshot) (\<lambda>_. ret currentTask))"

definition transferCommand ::
  "TransferRequest \<Rightarrow> 'h TransferPolicy \<Rightarrow> ('h, Task) instanceCommand" where
  "transferCommand request policy =
     \<lparr>ic_instanceID = tr_InstanceID request, ic_nonRunningError = ErrInstanceNotRunning,
      ic_prepare = prepareTransfer request policy,
      ic_audit = (\<lambda>currentTask.
        recordTransfer currentTask (tr_ActorID request) (tr_NewAssignee request) (tr_Reason request)),
      ic_transition = (\<lambda>currentTask. transfer currentTask (tr_NewAssignee request))\<rparr>"

definition Transfer ::
  "('h, 's) Engine option \<Rightarrow> TransferRequest \<Rightarrow> 'h TransferPolicy option \<Rightarrow>
   ('h env \<times> 's, Instance) eff" where
  "Transfer e request policy =
     (if Option.bind e e_store = None then raise [ErrInvalidEngine]
      else case policy of
          None \<Rightarrow> raise [ErrInvalidTransferRequest]
        | Some p \<Rightarrow>
            if tr_InstanceID request = [] \<or> tr_TaskID request = [] \<or> tr_ActorID request = [] \<or>
               tr_NewAssignee request = [] \<or> isBlank (tr_Reason request)
            then raise [ErrInvalidTransferRequest]
            else executeInstanceCommand e (transferCommand request p))"

end
