(* ===== verification/EngineSpec.thy ===== *)
theory EngineSpec
  imports Engine
begin

text \<open>
  What the engine guarantees. \<open>advance_wp\<close>: on a compiled plan navigation returns whenever the
  handlers do, follows a path of the definition graph and ends settled. \<open>commits\<close> is the
  transition every accepted command makes on a stored snapshot; the \<open>_candidate\<close> lemmas
  establish it for the commands of the engine, and the lemmas of the context \<open>store_contract\<close>
  carry it through load and save for every store that honours the contract.
\<close>

subsection \<open>Navigation\<close>

definition handlersReturn :: "'h compiledDefinition \<Rightarrow> bool" where
  "handlersReturn plan \<longleftrightarrow> (\<forall>k h input w. plan_preparedHandler plan k = Inr h \<longrightarrow>
     ActivatePrepared h input w \<noteq> None)"

fun walk :: "('n \<times> 'n) set \<Rightarrow> 'n \<Rightarrow> 'n list \<Rightarrow> 'n \<Rightarrow> bool" where
  "walk R x [] z \<longleftrightarrow> x = z"
| "walk R x (y # ys) z \<longleftrightarrow> (x, y) \<in> R \<and> walk R y ys z"

definition advanced :: "'h compiledDefinition \<Rightarrow> Instance \<Rightarrow> Instance \<Rightarrow> bool" where
  "advanced plan f f' \<longleftrightarrow> evolves f f' \<and> settled f' \<and> i_Status f' \<noteq> InstanceStatusWithdrawn \<and>
     i_Version f' = i_Version f \<and>
     (\<exists>path. enteredNodes (i_Audit f') = enteredNodes (i_Audit f) @ path \<and> path \<noteq> [] \<and>
        walk (edgeRel (cd_definition plan)) (i_CurrentNodeID f) path (i_CurrentNodeID f'))"

lemma navigation_simps [simp]:
  "dec_action d = nodeResultWait \<Longrightarrow> navigation d = Inr ([], False)"
  "dec_action d = nodeResultStop \<Longrightarrow> navigation d = Inr ([], False)"
  "dec_action d = nodeResultAdvance \<Longrightarrow> navigation d = Inr (dec_outcome d, True)"
  by (simp_all add: navigation_def)

lemma advance_unfold:
  "advance plan outcome facts =
     bindE ctxErr (\<lambda>_.
     bindE (liftR (plan_nextNode plan (i_CurrentNodeID facts) outcome)) (\<lambda>next.
     bindE (enterNode (nd_ID next) facts) (\<lambda>facts.
     if nd_Kind next = KindEnd then complete facts
     else
       bindE (liftR (plan_preparedHandler plan (nd_ID next))) (\<lambda>handler.
       bindE (ActivatePrepared handler \<lparr>pai_Data = i_Data facts\<rparr>) (\<lambda>res.
       bindE (liftR (prepareActivationNodeResult (nd_ID next) res)) (\<lambda>application.
       bindE (applyResult (Some application) (Some facts)) (\<lambda>applied.
       bindE (liftR (navigation (fst applied))) (\<lambda>route.
       if \<not> snd route then ret (snd applied)
       else advance plan (fst route) (snd applied)))))))))"
proof -
  have if_fun: "(\<lambda>w. if c then m w else m' w) = (if c then m else m')"
    for c and m m' :: "('a env, Instance) eff"
    by simp
  show ?thesis by (rule ext, subst advance.simps) (simp only: if_fun)
qed

lemma advance_wp:
  assumes plan: "planWf registry plan" and start: "routed f"
    and returns: "D \<or> handlersReturn plan"
  shows "wpE D (\<lambda>f' w'. advanced plan f f') (\<lambda>_ _. True) (advance plan outcome f) w"
  using start
proof (induction "i_CurrentNodeID f" arbitrary: f outcome w
    rule: wf_induct_rule[OF finite_acyclic_wf_converse[OF plan_acyclic(2,1)[OF plan]]])
  case (1 f)
  define tail where "tail nxt g = (if nd_Kind nxt = KindEnd then complete g
     else
       bindE (liftR (plan_preparedHandler plan (nd_ID nxt))) (\<lambda>handler.
       bindE (ActivatePrepared handler \<lparr>pai_Data = i_Data g\<rparr>) (\<lambda>res.
       bindE (liftR (prepareActivationNodeResult (nd_ID nxt) res)) (\<lambda>application.
       bindE (applyResult (Some application) (Some g)) (\<lambda>applied.
       bindE (liftR (navigation (fst applied))) (\<lambda>route.
       if \<not> snd route then ret (snd applied)
       else advance plan (fst route) (snd applied)))))))"
    for nxt :: NodeDefinition and g :: Instance
  have step: "wpE D (\<lambda>f' w'. advanced plan f f') (\<lambda>_ _. True) (tail nxt g) w"
    if g: "evolves f g" "routed g" "i_Version g = i_Version f" "i_CurrentNodeID g = nd_ID nxt"
      "enteredNodes (i_Audit g) = enteredNodes (i_Audit f) @ [nd_ID nxt]"
      and edge: "(i_CurrentNodeID f, nd_ID nxt) \<in> edgeRel (cd_definition plan)"
    for g nxt w
  proof (cases "nd_Kind nxt = KindEnd")
    case True
    let ?g = "\<lambda>r. g\<lparr>i_Status := InstanceStatusCompleted, i_Audit := i_Audit g @ [r]\<rparr>"
    have "evolves f (?g r)" for r using g(1) by (auto simp: evolves_def)
    moreover have "settled (?g r)" for r
      using g(2) by (simp add: settled_def routed_def inst_simps)
    ultimately show ?thesis
      using True g edge by (simp add: tail_def complete_def wp_simps advanced_def)
  next
    case False
    have rest: "wpE D (\<lambda>f' w'. advanced plan f f') (\<lambda>_ _. True)
        (bindE (applyResult (Some a) (Some g)) (\<lambda>applied.
         bindE (liftR (navigation (fst applied))) (\<lambda>route.
         if \<not> snd route then ret (snd applied)
         else advance plan (fst route) (snd applied)))) w"
      if a: "prepareActivationNodeResult (nd_ID nxt) res = Inr a" for res a w
    proof (subst wpE_bindE, rule wpE_weaken[OF activation_wp[OF a g(2,4)]])
      fix x w' assume x: "applied g (nd_ID nxt) res [] x"
      obtain d f' where df: "x = (d, f')" by force
      have f': "evolves f f'" "decided d f'" "i_CurrentNodeID f' = nd_ID nxt"
        "i_Version f' = i_Version f"
        "enteredNodes (i_Audit f') = enteredNodes (i_Audit f) @ [nd_ID nxt]"
        using x g evolves_trans[OF g(1)] by (auto simp: applied_def df)
      show "wpE D (\<lambda>f' w'. advanced plan f f') (\<lambda>_ _. True)
          (bindE (liftR (navigation (fst x))) (\<lambda>route.
           if \<not> snd route then ret (snd x) else advance plan (fst route) (snd x))) w'"
      proof (cases "dec_action d")
        case nodeResultAdvance
        have "routed f'" using f'(2) nodeResultAdvance by (simp add: decided_def)
        from "1.hyps"[OF _ this, of "dec_outcome d" w'] edge f'(3)
        have "wpE D (\<lambda>f'' w'. advanced plan f' f'') (\<lambda>_ _. True) (advance plan (dec_outcome d) f') w'"
          by simp
        then have "wpE D (\<lambda>f'' w'. advanced plan f f'') (\<lambda>_ _. True) (advance plan (dec_outcome d) f') w'"
        proof (rule wpE_mono)
          fix f'' w2 assume "advanced plan f' f''"
          then obtain path where "enteredNodes (i_Audit f'') = enteredNodes (i_Audit f') @ path"
            "walk (edgeRel (cd_definition plan)) (i_CurrentNodeID f') path (i_CurrentNodeID f'')"
            "evolves f' f''" "settled f''" "i_Status f'' \<noteq> InstanceStatusWithdrawn"
            "i_Version f'' = i_Version f'"
            by (auto simp: advanced_def)
          then show "advanced plan f f''"
            using edge f' evolves_trans[OF f'(1)] by (auto simp: advanced_def)
        qed simp
        then show ?thesis by (simp add: df wp_simps nodeResultAdvance)
      next
        case nodeResultWait
        then show ?thesis using f' edge
          by (simp add: df wp_simps advanced_def decided_def settled_def waiting_def)
      next
        case nodeResultStop
        then show ?thesis using f' edge
          by (simp add: df wp_simps advanced_def decided_def settled_def)
      next
        case (nodeResultActionOther n)
        then show ?thesis using f'(2) by (simp add: decided_def)
      qed
    qed
    have "wpE D (\<lambda>res. wpE D (\<lambda>f' w'. advanced plan f f') (\<lambda>_ _. True)
        (bindE (liftR (prepareActivationNodeResult (nd_ID nxt) res)) (\<lambda>a.
         bindE (applyResult (Some a) (Some g)) (\<lambda>applied.
         bindE (liftR (navigation (fst applied))) (\<lambda>route.
         if \<not> snd route then ret (snd applied)
         else advance plan (fst route) (snd applied))))))
        (\<lambda>_ _. True) (ActivatePrepared h \<lparr>pai_Data = i_Data g\<rparr>) w"
      if h: "plan_preparedHandler plan (nd_ID nxt) = Inr h" for h
    proof (rule wpE_I)
      show D if "ActivatePrepared h \<lparr>pai_Data = i_Data g\<rparr> w = None"
        using returns h that unfolding handlersReturn_def by blast
    qed (auto simp: wpE_bindE[where m = "liftR _"] wpE_liftR wpR_iff rest)
    then show ?thesis using False by (simp add: tail_def wpE_bindE wpE_liftR wpR_iff)
  qed
  have "advance plan outcome f = bindE ctxErr (\<lambda>_.
      bindE (liftR (plan_nextNode plan (i_CurrentNodeID f) outcome)) (\<lambda>nxt.
      bindE (enterNode (nd_ID nxt) f) (\<lambda>g. tail nxt g)))" for outcome
    unfolding tail_def by (rule advance_unfold)
  with 1(2) show ?case
    by (auto simp: wp_simps enterNode_def wpR_iff inst_simps evolves_def routed_def
        intro!: step dest: plan_nextNode_edge[OF plan] split: option.split)
qed

subsection \<open>Candidates of the commands\<close>

definition commits :: "Instance \<Rightarrow> Instance \<Rightarrow> bool" where
  "commits i c \<longleftrightarrow> evolves i c \<and> settled c \<and> i_Version i \<noteq> - 1 \<and> i_Version c = i_Version i + 1 \<and>
     length (i_Audit i) < length (i_Audit c)"

definition approves :: "('h env, unit) eff \<Rightarrow> bool" where
  \<comment> \<open>host code answered nil\<close>
  "approves m \<longleftrightarrow> (\<exists>w w'. m w = Some (Inr (), w'))"

lemma advanceVersion_wpR:
  "wpR Q E (advanceVersion (Some f)) =
     (if i_Version f = - 1 then E [ErrVersionOverflow] else Q (f\<lparr>i_Version := i_Version f + 1\<rparr>))"
  by (simp add: advanceVersion_def)

lemma host_wp:
  assumes "D \<or> (\<forall>w. m w \<noteq> None)" and "\<And>x w0 w1. m w0 = Some (Inr x, w1) \<Longrightarrow> Q x w1"
  shows "wpE D Q (\<lambda>_ _. True) m w"
  by (rule wpE_I) (use assms in blast)+

lemma waiting_iff: "settled i \<and> i_Status i = InstanceStatusRunning \<longleftrightarrow> waiting i"
  by (auto simp: settled_def waiting_def)

lemma commits_bump:
  assumes "evolves i g" and "settled g" and "i_Version g = i_Version i" and "i_Version g \<noteq> - 1"
    and "length (i_Audit i) < length (i_Audit g)"
  shows "commits i (g\<lparr>i_Version := i_Version g + 1\<rparr>)"
  using assms by (simp add: commits_def inst_simps settled_def)

lemma candidate_wp:
  assumes "wpE D (\<lambda>p w'. P p) (\<lambda>_ _. True) (ic_prepare command i) w"
    and "\<And>p w'. P p \<Longrightarrow> wpE D (\<lambda>f w''. A p f) (\<lambda>_ _. True) (ic_audit command p i) w'"
    and "\<And>p f w'. P p \<Longrightarrow> A p f \<Longrightarrow> wpE D (\<lambda>g w''. G p g) (\<lambda>_ _. True) (ic_transition command p f) w'"
    and "\<And>p f g. P p \<Longrightarrow> A p f \<Longrightarrow> G p g \<Longrightarrow> i_Version g \<noteq> - 1 \<Longrightarrow> Q (g\<lparr>i_Version := i_Version g + 1\<rparr>)"
  shows "wpE D (\<lambda>c w'. Q c) (\<lambda>_ _. True) (commandCandidate command i) w"
  unfolding commandCandidate_def wpE_bindE
proof (rule wpE_mono[OF assms(1)])
  fix p w1 assume p: "P p"
  show "wpE D (\<lambda>f. wpE D (\<lambda>g. wpE D (\<lambda>c w'. Q c) (\<lambda>_ _. True) (liftR (advanceVersion (Some g))))
      (\<lambda>_ _. True) (ic_transition command p f)) (\<lambda>_ _. True) (ic_audit command p i) w1"
  proof (rule wpE_mono[OF assms(2)[OF p]])
    fix f w2 assume f: "A p f"
    show "wpE D (\<lambda>g. wpE D (\<lambda>c w'. Q c) (\<lambda>_ _. True) (liftR (advanceVersion (Some g))))
        (\<lambda>_ _. True) (ic_transition command p f) w2"
      by (rule wpE_mono[OF assms(3)[OF p f]])
        (auto simp: wp_simps advanceVersion_wpR intro: assms(4)[OF p f])
  qed simp
qed simp

abbreviation withdrawnRecord :: "WithdrawRequest \<Rightarrow> Instance \<Rightarrow> time \<Rightarrow> AuditRecord" where
  "withdrawnRecord r i at \<equiv> emptyAudit\<lparr>a_Action := auditInstanceWithdrawn,
     a_NodeID := i_CurrentNodeID i, a_ActorID := wr_ActorID r, a_At := at\<rparr>"

definition withdrawn :: "WithdrawRequest \<Rightarrow> 'h WithdrawalPolicy \<Rightarrow> Instance \<Rightarrow> Instance \<Rightarrow> bool" where
  \<comment> \<open>the record update says that no other field changes\<close>
  "withdrawn r policy i c \<longleftrightarrow> commits i c \<and> approves (policy (wr_ActorID r) i) \<and>
     (\<exists>ts at. length ts = length (i_Tasks i) \<and>
        (\<forall>k<length ts. ts ! k = (if t_Status (i_Tasks i ! k) = TaskStatusActive
           then (i_Tasks i ! k)\<lparr>t_Status := TaskStatusClosed\<rparr> else i_Tasks i ! k)) \<and>
        c = i\<lparr>i_Status := InstanceStatusWithdrawn, i_Tasks := ts,
              i_Audit := i_Audit i @ [withdrawnRecord r i at], i_Version := i_Version i + 1\<rparr>)"

lemma withdraw_candidate:
  assumes returns: "D \<or> (\<forall>w. policy (wr_ActorID r) i w \<noteq> None)"
  shows "wpE D (\<lambda>c w'. withdrawn r policy i c) (\<lambda>_ _. True)
    (commandCandidate (withdrawCommand r policy) i) w"
proof (rule candidate_wp[where P = "\<lambda>_. approves (policy (wr_ActorID r) i)"
      and A = "\<lambda>_ f. \<exists>at. f = i\<lparr>i_Audit := i_Audit i @ [withdrawnRecord r i at]\<rparr>"
      and G = "\<lambda>_ g. \<exists>at. g = withdraw (i\<lparr>i_Audit := i_Audit i @ [withdrawnRecord r i at]\<rparr>)"], goal_cases)
  case 1
  show ?case
    by (simp add: withdrawCommand_def) (rule host_wp[OF returns], auto simp: approves_def)
next
  case (2 p w')
  then show ?case by (auto simp: withdrawCommand_def recordWithdrawal_def wp_simps)
next
  case (3 p f w')
  then show ?case by (auto simp: withdrawCommand_def wp_simps)
next
  case (4 p f g)
  then obtain at where g: "g = withdraw (i\<lparr>i_Audit := i_Audit i @ [withdrawnRecord r i at]\<rparr>)" by auto
  have "tasksEvolve (i_Tasks i) (i_Tasks g)"
    unfolding g withdraw_def using tasksEvolve_close[of "i_Tasks i" "\<lambda>_. True"] by simp
  then have "evolves i g" by (simp add: evolves_def g withdraw_def)
  moreover have "settled g" by (auto simp: g settled_def withdraw_def quiet_def)
  ultimately have "commits i (g\<lparr>i_Version := i_Version g + 1\<rparr>)"
    by (rule commits_bump) (use 4 in \<open>simp_all add: g withdraw_def\<close>)
  moreover have "g\<lparr>i_Version := i_Version g + 1\<rparr> = i\<lparr>i_Status := InstanceStatusWithdrawn, i_Tasks := i_Tasks g,
      i_Audit := i_Audit i @ [withdrawnRecord r i at], i_Version := i_Version i + 1\<rparr>"
    by (simp add: g withdraw_def)
  moreover have "length (i_Tasks g) = length (i_Tasks i)" "\<forall>k<length (i_Tasks g). i_Tasks g ! k =
      (if active (i_Tasks i ! k) then (i_Tasks i ! k)\<lparr>t_Status := TaskStatusClosed\<rparr> else i_Tasks i ! k)"
    by (simp_all add: g withdraw_def)
  ultimately show ?case using 4(1) unfolding withdrawn_def by blast
qed

abbreviation transferredRecord :: "TransferRequest \<Rightarrow> Task \<Rightarrow> Instance \<Rightarrow> time \<Rightarrow> AuditRecord" where
  "transferredRecord r t i at \<equiv> emptyAudit\<lparr>a_Action := auditTaskTransferred, a_InstanceID := i_ID i,
     a_NodeID := t_NodeID t, a_TaskID := t_ID t, a_ActorID := tr_ActorID r,
     a_PreviousAssignee := t_Assignee t, a_NewAssignee := tr_NewAssignee r,
     a_Reason := tr_Reason r, a_At := at\<rparr>"

definition successorOf :: "Task \<Rightarrow> ActorID \<Rightarrow> TaskID \<Rightarrow> Task" where
  "successorOf t assignee ident = \<lparr>t_ID = ident, t_NodeID = t_NodeID t, t_Assignee = assignee,
     t_Status = TaskStatusActive, t_Outcome = []\<rparr>"

definition currentTask :: "Instance \<Rightarrow> TaskID \<Rightarrow> Task \<Rightarrow> bool" where
  "currentTask i ident t \<longleftrightarrow> List.find (\<lambda>t. t_ID t = ident) (i_Tasks i) = Some t \<and>
     t_NodeID t = i_CurrentNodeID i \<and> active t"

definition transferred :: "TransferRequest \<Rightarrow> 'h TransferPolicy \<Rightarrow> Instance \<Rightarrow> Instance \<Rightarrow> bool" where
  \<comment> \<open>the record update says that no other field changes\<close>
  "transferred r policy i c \<longleftrightarrow> commits i c \<and>
     (\<exists>n t ident at. n < length (i_Tasks i) \<and> t = i_Tasks i ! n \<and> t_ID t = tr_TaskID r \<and>
        (\<forall>k<n. t_ID (i_Tasks i ! k) \<noteq> tr_TaskID r) \<and>
        t_NodeID t = i_CurrentNodeID i \<and> t_Status t = TaskStatusActive \<and> approves (policy r t i) \<and>
        c = i\<lparr>i_Tasks := (i_Tasks i)[n := t\<lparr>t_Status := TaskStatusClosed\<rparr>] @ [successorOf t (tr_NewAssignee r) ident],
              i_Audit := i_Audit i @ [transferredRecord r t i at], i_Version := i_Version i + 1\<rparr>)"

lemma find_first: "List.find P xs = Some x \<longleftrightarrow> (\<exists>n<length xs. x = xs ! n \<and> P (xs ! n) \<and> (\<forall>k<n. \<not> P (xs ! k)))"
  by (auto simp: find_Some_iff)

lemma closeTask_first:
  "closeTask ident ts = Some ts' \<longleftrightarrow> (\<exists>n<length ts. t_ID (ts ! n) = ident \<and> (\<forall>k<n. t_ID (ts ! k) \<noteq> ident) \<and>
     ts' = ts[n := (ts ! n)\<lparr>t_Status := TaskStatusClosed\<rparr>])"
proof (induction ts arbitrary: ts')
  case (Cons t ts)
  show ?case
  proof (cases "t_ID t = ident")
    case True
    then show ?thesis by (force simp: less_Suc_eq_0_disj)
  next
    case False
    with Cons show ?thesis by (force simp: Ex_less_Suc2 All_less_Suc2)
  qed
qed simp

lemma closeTask_tasks:
  "closeTask k ts = Some ts' \<Longrightarrow> u \<in> set ts' \<Longrightarrow> active u \<Longrightarrow> u \<in> set ts"
  by (induction ts arbitrary: ts') (auto split: if_splits)

lemma transfer_candidate:
  assumes i: "waiting i" and returns: "D \<or> (\<forall>t w. policy r t i w \<noteq> None)"
  shows "wpE D (\<lambda>c w'. transferred r policy i c) (\<lambda>_ _. True)
    (commandCandidate (transferCommand r policy) i) w"
proof (rule candidate_wp[where P = "\<lambda>t. currentTask i (tr_TaskID r) t \<and> approves (policy r t i)"
      and A = "\<lambda>t f. \<exists>at. f = i\<lparr>i_Audit := i_Audit i @ [transferredRecord r t i at]\<rparr>"
      and G = "\<lambda>t g. \<exists>at ident closed. closeTask (t_ID t) (i_Tasks i) = Some closed \<and>
        g = i\<lparr>i_Audit := i_Audit i @ [transferredRecord r t i at],
              i_Tasks := closed @ [successorOf t (tr_NewAssignee r) ident]\<rparr>"], goal_cases)
  case 1
  have "wpE D (\<lambda>u w'. currentTask i (tr_TaskID r) t \<and> approves (policy r t i)) (\<lambda>_ _. True)
      (policy r t i) w"
    if "currentTask i (tr_TaskID r) t" for t
    by (rule host_wp) (use returns that in \<open>auto simp: approves_def\<close>)
  then show ?case
    by (auto simp: transferCommand_def prepareTransfer_def wp_simps currentTask_def split: option.split)
next
  case (2 t w')
  then show ?case by (auto simp: transferCommand_def recordTransfer_def wp_simps)
next
  case (3 t f w')
  then show ?case
    by (auto simp: transferCommand_def transfer_def wp_simps wpR_iff successorOf_def split: option.split)
      blast
next
  case (4 t f g)
  then obtain at ident closed where c: "closeTask (t_ID t) (i_Tasks i) = Some closed"
    and g: "g = i\<lparr>i_Audit := i_Audit i @ [transferredRecord r t i at],
              i_Tasks := closed @ [successorOf t (tr_NewAssignee r) ident]\<rparr>" by auto
  have "t_ID t = tr_TaskID r" using 4(1) find_Some_in unfolding currentTask_def by fastforce
  then have t: "List.find (\<lambda>u. t_ID u = t_ID t) (i_Tasks i) = Some t" "active t"
    "t_NodeID t = i_CurrentNodeID i"
    using 4(1) by (auto simp: currentTask_def)
  have "tasksEvolve (i_Tasks i) (closed @ [successorOf t (tr_NewAssignee r) ident])"
    using closeTask_evolves[OF c t(1,2)] unfolding tasksEvolve_def by blast
  then have "evolves i g" by (simp add: evolves_def g)
  moreover have "settled g"
    using i closeTask_tasks[OF c] t(3)
    by (auto simp: g settled_def waiting_def activeHere_def successorOf_def)
  ultimately have "commits i (g\<lparr>i_Version := i_Version g + 1\<rparr>)"
    by (rule commits_bump) (use 4 in \<open>simp_all add: g\<close>)
  moreover obtain n where n: "n < length (i_Tasks i)" "t_ID (i_Tasks i ! n) = t_ID t"
    "\<forall>k<n. t_ID (i_Tasks i ! k) \<noteq> t_ID t" "closed = (i_Tasks i)[n := (i_Tasks i ! n)\<lparr>t_Status := TaskStatusClosed\<rparr>]"
    using c unfolding closeTask_first by blast
  moreover have "i_Tasks i ! n = t"
    using t(1) n(1,2,3) unfolding find_first by (metis linorder_neqE_nat)
  ultimately show ?case
    using 4(1) t \<open>t_ID t = tr_TaskID r\<close> unfolding transferred_def g
    by (intro conjI exI[of _ n] exI[of _ t] exI[of _ ident] exI[of _ at]) auto
qed

abbreviation returnedRecord :: "ReturnRequest \<Rightarrow> Instance \<Rightarrow> time \<Rightarrow> AuditRecord" where
  "returnedRecord r i at \<equiv> emptyAudit\<lparr>a_Action := auditInstanceReturned,
     a_NodeID := i_CurrentNodeID i, a_TargetNodeID := rr_TargetNodeID r, a_ActorID := rr_ActorID r,
     a_Reason := rr_Reason r, a_NodeState := raw_bytes (i_NodeState i), a_At := at\<rparr>"

definition returnTarget :: "Instance \<Rightarrow> string \<Rightarrow> NodeDefinition \<Rightarrow> bool" where
  "returnTarget i ident n \<longleftrightarrow> n \<in> set (d_Nodes (i_Definition i)) \<and> nd_ID n = ident \<and> business n \<and>
     ident \<noteq> i_CurrentNodeID i \<and> ident \<in> set (enteredNodes (i_Audit i))"

definition returned :: "ReturnRequest \<Rightarrow> 'h ReturnPolicy \<Rightarrow> Instance \<Rightarrow> Instance \<Rightarrow> bool" where
  "returned r policy i c \<longleftrightarrow> commits i c \<and> waiting c \<and> i_CurrentNodeID c = rr_TargetNodeID r \<and>
     (\<exists>n. returnTarget i (rr_TargetNodeID r) n) \<and> approves (policy r i) \<and>
     enteredNodes (i_Audit c) = enteredNodes (i_Audit i) @ [rr_TargetNodeID r] \<and>
     (\<exists>at rs. i_Audit c = i_Audit i @ returnedRecord r i at # rs)"

lemma hasEnteredNode_iff: "hasEnteredNode audit k \<longleftrightarrow> k \<in> set (enteredNodes audit)"
  by (auto simp: hasEnteredNode_def enteredNodes_def list_ex_iff)

lemma compiled_plan:
  assumes "compileDefinition (Some d) registry = Inr plan"
  shows "planWf registry plan" "cd_definition plan = d"
  using compile_planWf[OF assms] by auto

definition handlersReturnFor :: "'h Registry option \<Rightarrow> Definition \<Rightarrow> bool" where
  \<comment> \<open>every executor the definition compiles to returns\<close>
  "handlersReturnFor registry d \<longleftrightarrow> (\<forall>plan k h. compileDefinition (Some d) registry = Inr plan \<longrightarrow>
     plan_preparedHandler plan k = Inr h \<longrightarrow>
     (\<forall>input w. ActivatePrepared h input w \<noteq> None) \<and> (\<forall>input w. HandlePrepared h input w \<noteq> None))"

definition returnReady :: "ReturnRequest \<Rightarrow> 'h ReturnPolicy \<Rightarrow> Instance \<Rightarrow> NodeDefinition \<times> nodeResultApplication \<Rightarrow> bool" where
  "returnReady r policy i = (\<lambda>(n, a). returnTarget i (rr_TargetNodeID r) n \<and> approves (policy r i) \<and>
     (\<exists>res. prepareReturnNodeResult (nd_ID n) res = Inr a))"

lemma prepareReturn_wp:
  assumes returns: "D \<or> (\<forall>w. policy r i w \<noteq> None) \<and> handlersReturnFor registry (i_Definition i)"
  shows "wpE D (\<lambda>p w'. returnReady r policy i p) (\<lambda>_ _. True) (prepareReturn registry r policy i) w"
proof -
  have pol: "D \<or> (\<forall>w. policy r i w \<noteq> None)" using returns by blast
  have act: "D \<or> (\<forall>w. ActivatePrepared h input w \<noteq> None)"
    if "compileDefinition (Some (i_Definition i)) registry = Inr plan"
      "plan_preparedHandler plan k = Inr h" for plan k h input
    using returns that unfolding handlersReturnFor_def by blast
  have target: "returnTarget i (rr_TargetNodeID r) n"
    if "compileDefinition (Some (i_Definition i)) registry = Inr plan"
      "plan_node plan (rr_TargetNodeID r) = Inr n" "business n" "nd_ID n \<noteq> i_CurrentNodeID i"
      "hasEnteredNode (i_Audit i) (nd_ID n)" for plan n
    using that plan_node_iff[OF compiled_plan(1)[OF that(1)]] compiled_plan(2)[OF that(1)]
    by (auto simp: returnTarget_def hasEnteredNode_iff)
  show ?thesis
    unfolding prepareReturn_def
    by (auto simp: wp_simps wpR_iff returnReady_def approves_def
        intro!: host_wp[OF pol] host_wp[OF act] target) (rule refl | blast)+
qed

lemma return_candidate:
  assumes i: "waiting i" and returns: "D \<or> (\<forall>w. policy r i w \<noteq> None) \<and> handlersReturnFor registry (i_Definition i)"
  shows "wpE D (\<lambda>c w'. returned r policy i c) (\<lambda>_ _. True)
    (commandCandidate (returnCommand registry r policy) i) w"
proof (rule candidate_wp[where P = "returnReady r policy i"
      and A = "\<lambda>_ f. \<exists>at. f = i\<lparr>i_Audit := i_Audit i @ [returnedRecord r i at]\<rparr>"
      and G = "\<lambda>_ g. \<exists>at res x. applied (i\<lparr>i_Audit := i_Audit i @ [returnedRecord r i at]\<rparr>)
             (rr_TargetNodeID r) res [rr_TargetNodeID r] (x, g) \<and> dec_action x = nodeResultWait"],
      goal_cases)
  case 1
  show ?case using prepareReturn_wp[of D policy r i registry w, OF returns] by (simp add: returnCommand_def)
next
  case (2 p w')
  then show ?case
    by (cases p) (auto simp: returnCommand_def recordReturn_def wp_simps returnTarget_def returnReady_def)
next
  case (3 p f w')
  then obtain n a res at where p: "p = (n, a)" "prepareReturnNodeResult (nd_ID n) res = Inr a"
    "nd_ID n = rr_TargetNodeID r"
    and f: "f = i\<lparr>i_Audit := i_Audit i @ [returnedRecord r i at]\<rparr>"
    by (cases p) (auto simp: returnTarget_def returnReady_def)
  have "waiting f" using i by (simp add: f inst_simps)
  from return_wp[OF p(2) this] show ?case
    by (simp add: returnCommand_def p wpE_bindE)
      (rule wpE_weaken, assumption, auto simp: f p wp_simps, blast)
next
  case (4 p f g)
  then obtain at res x where ap: "applied (i\<lparr>i_Audit := i_Audit i @ [returnedRecord r i at]\<rparr>)
       (rr_TargetNodeID r) res [rr_TargetNodeID r] (x, g)" "dec_action x = nodeResultWait" by auto
  obtain rs where g: "evolves (i\<lparr>i_Audit := i_Audit i @ [returnedRecord r i at]\<rparr>) g" "waiting g"
    "i_CurrentNodeID g = rr_TargetNodeID r" "i_Version g = i_Version i"
    "enteredNodes (i_Audit g) = enteredNodes (i_Audit i) @ [rr_TargetNodeID r]"
    "i_Audit g = i_Audit i @ returnedRecord r i at # rs"
    using ap by (auto simp: applied_def decided_def evolves_def)
  have "evolves i g" using g(1) by (auto simp: evolves_def)
  then have "commits i (g\<lparr>i_Version := i_Version g + 1\<rparr>)"
    by (rule commits_bump) (use g 4 in \<open>auto simp: settled_def\<close>)
  with 4(1) g show ?case by (auto simp: returned_def returnReady_def inst_simps)
qed

abbreviation commandRecord :: "Command \<Rightarrow> Instance \<Rightarrow> time \<Rightarrow> AuditRecord" where
  "commandRecord c i at \<equiv> emptyAudit\<lparr>a_Action := auditTaskActionPrefix @ c_Name c,
     a_NodeID := i_CurrentNodeID i, a_TaskID := c_TaskID c, a_ActorID := c_ActorID c, a_At := at\<rparr>"

definition ownsTask :: "Instance \<Rightarrow> Command \<Rightarrow> bool" where
  "ownsTask i c \<longleftrightarrow> (\<exists>t\<in>set (i_Tasks i). t_ID t = c_TaskID c \<and> t_NodeID t = i_CurrentNodeID i \<and>
     active t \<and> t_Assignee t = c_ActorID c)"

definition handled :: "Command \<Rightarrow> Instance \<Rightarrow> Instance \<Rightarrow> bool" where
  "handled cmd i c \<longleftrightarrow> commits i c \<and> ownsTask i cmd \<and> i_Status c \<noteq> InstanceStatusWithdrawn \<and>
     (\<exists>path. enteredNodes (i_Audit c) = enteredNodes (i_Audit i) @ path \<and>
        walk (edgeRel (i_Definition i)) (i_CurrentNodeID i) path (i_CurrentNodeID c)) \<and>
     (\<exists>at rs. i_Audit c = i_Audit i @ commandRecord cmd i at # rs)"

lemma validateCommandTask_ok:
  "validateCommandTask tasks c = Inr () \<Longrightarrow>
   \<exists>t\<in>set tasks. t_ID t = c_TaskID c \<and> active t \<and> t_Assignee t = c_ActorID c"
  by (induction tasks) (auto split: if_splits)

definition handleReady ::
  "'h Registry option \<Rightarrow> Command \<Rightarrow> Instance \<Rightarrow>
   'h compiledDefinition \<times> NodeDefinition \<times> nodeResultApplication \<Rightarrow> bool" where
  "handleReady registry cmd i = (\<lambda>(plan, n, a).
     compileDefinition (Some (i_Definition i)) registry = Inr plan \<and> ownsTask i cmd \<and>
     nd_ID n = i_CurrentNodeID i \<and> (\<exists>res. prepareCommandNodeResult (Some i) (nd_ID n) res = Inr a))"

lemma prepareHandle_wp:
  assumes returns: "D \<or> handlersReturnFor registry (i_Definition i)"
  shows "wpE D (\<lambda>p w'. handleReady registry cmd i p) (\<lambda>_ _. True) (prepareHandle registry cmd i) w"
proof -
  have hdl: "D \<or> (\<forall>w. HandlePrepared h input w \<noteq> None)"
    if "compileDefinition (Some (i_Definition i)) registry = Inr plan"
      "plan_preparedHandler plan k = Inr h" for plan k h input
    using returns that unfolding handlersReturnFor_def by blast
  have owns: "ownsTask i cmd"
    if "validateCommandTask (nodeTasks (i_Tasks i) (i_CurrentNodeID i)) cmd = Inr ()"
    using validateCommandTask_ok[OF that] by (auto simp: ownsTask_def nodeTasks_def)
  have node: "nd_ID n = i_CurrentNodeID i"
    if "compileDefinition (Some (i_Definition i)) registry = Inr plan"
      "plan_node plan (i_CurrentNodeID i) = Inr n" for plan n
    using that(2) plan_node_iff[OF compiled_plan(1)[OF that(1)]] by simp
  show ?thesis
    unfolding prepareHandle_def Let_def
    by (auto simp: wp_simps wpR_iff handleReady_def intro!: host_wp[OF hdl] owns node)
qed

lemma prepareCommand_audit:
  "prepareCommandNodeResult (Some (i\<lparr>i_Audit := a\<rparr>)) k res = prepareCommandNodeResult (Some i) k res"
  by (simp add: prepareCommandNodeResult_def prepareNodeResultApplication_def prepareTasks_def
      prepareNodeTaskReplacements_def)

lemma transitionHandle_wp:
  assumes a: "prepareCommandNodeResult (Some f) (i_CurrentNodeID f) res = Inr a"
    and f: "waiting f" and plan: "planWf registry plan" and returns: "D \<or> handlersReturn plan"
  shows "wpE D (\<lambda>g w'. evolves f g \<and> settled g \<and> i_Status g \<noteq> InstanceStatusWithdrawn \<and>
      i_Version g = i_Version f \<and>
      (\<exists>path. enteredNodes (i_Audit g) = enteredNodes (i_Audit f) @ path \<and>
        walk (edgeRel (cd_definition plan)) (i_CurrentNodeID f) path (i_CurrentNodeID g)))
    (\<lambda>_ _. True) (transitionHandle plan a f) w"
  unfolding transitionHandle_def
proof (subst wpE_bindE, rule wpE_weaken[OF command_wp[OF a f refl]])
  fix x w1 assume x: "applied f (i_CurrentNodeID f) res [] x"
  obtain d g where dg: "x = (d, g)" by force
  have g: "evolves f g" "decided d g" "i_CurrentNodeID g = i_CurrentNodeID f" "i_Version g = i_Version f"
    "enteredNodes (i_Audit g) = enteredNodes (i_Audit f)"
    using x by (auto simp: applied_def dg)
  let ?Q = "\<lambda>g w'. evolves f g \<and> settled g \<and> i_Status g \<noteq> InstanceStatusWithdrawn \<and>
      i_Version g = i_Version f \<and>
      (\<exists>path. enteredNodes (i_Audit g) = enteredNodes (i_Audit f) @ path \<and>
        walk (edgeRel (cd_definition plan)) (i_CurrentNodeID f) path (i_CurrentNodeID g))"
  show "wpE D ?Q (\<lambda>_ _. True) (case x of (decision, facts) \<Rightarrow>
      bindE (liftR (navigation decision)) (\<lambda>(outcome, advancing).
      if \<not> advancing then ret facts else advance plan outcome facts)) w1"
  proof (cases "dec_action d")
    case nodeResultAdvance
    have "routed g" using g(2) nodeResultAdvance by (simp add: decided_def)
    have "wpE D ?Q (\<lambda>_ _. True) (advance plan (dec_outcome d) g) w1"
    proof (rule wpE_mono[OF advance_wp[OF plan \<open>routed g\<close> returns]])
      fix g' w2 assume "advanced plan g g'"
      then show "?Q g' w2" using g evolves_trans[OF g(1)] by (auto simp: advanced_def)
    qed simp
    then show ?thesis by (simp add: dg wp_simps nodeResultAdvance)
  next
    case nodeResultWait
    then show ?thesis using g by (simp add: dg wp_simps decided_def settled_def waiting_def)
  next
    case nodeResultStop
    then show ?thesis using g by (simp add: dg wp_simps decided_def settled_def)
  next
    case (nodeResultActionOther n)
    then show ?thesis using g(2) by (simp add: decided_def)
  qed
qed simp

lemma handle_candidate:
  assumes i: "waiting i" and returns: "D \<or> handlersReturnFor registry (i_Definition i)"
  shows "wpE D (\<lambda>c w'. handled cmd i c) (\<lambda>_ _. True) (commandCandidate (handleCommand registry cmd) i) w"
proof (rule candidate_wp[where P = "handleReady registry cmd i"
      and A = "\<lambda>_ f. \<exists>at. f = i\<lparr>i_Audit := i_Audit i @ [commandRecord cmd i at]\<rparr>"
      and G = "\<lambda>_ g. \<exists>at. evolves (i\<lparr>i_Audit := i_Audit i @ [commandRecord cmd i at]\<rparr>) g \<and> settled g \<and>
        i_Status g \<noteq> InstanceStatusWithdrawn \<and> i_Version g = i_Version i \<and>
        (\<exists>path. enteredNodes (i_Audit g) = enteredNodes (i_Audit i) @ path \<and>
          walk (edgeRel (i_Definition i)) (i_CurrentNodeID i) path (i_CurrentNodeID g))"],
      goal_cases)
  case 1
  show ?case using prepareHandle_wp[of D registry i cmd w, OF returns] by (simp add: handleCommand_def)
next
  case (2 p w')
  then show ?case
    by (cases p) (auto simp: handleCommand_def recordTaskCommand_def wp_simps handleReady_def)
next
  case (3 p f w')
  obtain plan n a res at where p: "p = (plan, n, a)"
    and plan: "compileDefinition (Some (i_Definition i)) registry = Inr plan"
    and a: "prepareCommandNodeResult (Some i) (i_CurrentNodeID i) res = Inr a"
    and f: "f = i\<lparr>i_Audit := i_Audit i @ [commandRecord cmd i at]\<rparr>"
    using 3 by (cases p) (auto simp: handleReady_def)
  have "waiting f" using i by (simp add: f inst_simps)
  moreover have "prepareCommandNodeResult (Some f) (i_CurrentNodeID f) res = Inr a"
    using a by (simp add: f prepareCommand_audit)
  moreover have "D \<or> handlersReturn plan"
    using returns plan unfolding handlersReturnFor_def handlersReturn_def by blast
  ultimately show ?case
    using transitionHandle_wp[where f = f and plan = plan and a = a and D = D and w = w']
      compiled_plan[OF plan]
    by (simp add: handleCommand_def p) (rule wpE_mono, assumption, auto simp: f)
next
  case (4 p f g)
  then obtain at where g: "evolves (i\<lparr>i_Audit := i_Audit i @ [commandRecord cmd i at]\<rparr>) g" "settled g"
    "i_Status g \<noteq> InstanceStatusWithdrawn" "i_Version g = i_Version i"
    "\<exists>path. enteredNodes (i_Audit g) = enteredNodes (i_Audit i) @ path \<and>
       walk (edgeRel (i_Definition i)) (i_CurrentNodeID i) path (i_CurrentNodeID g)" by auto
  obtain rs where rs: "i_Audit g = i_Audit i @ commandRecord cmd i at # rs"
    using g(1) by (auto simp: evolves_def)
  have "evolves i g" using g(1) by (auto simp: evolves_def)
  then have "commits i (g\<lparr>i_Version := i_Version g + 1\<rparr>)"
    by (rule commits_bump) (use g rs 4 in auto)
  with 4(1) g rs show ?case by (cases p) (auto simp: handled_def handleReady_def)
qed

subsection \<open>A started candidate\<close>

abbreviation startedRecord :: "StartRequest \<Rightarrow> string \<Rightarrow> time \<Rightarrow> AuditRecord" where
  "startedRecord r k at \<equiv> emptyAudit\<lparr>a_Action := auditInstanceStarted, a_NodeID := k,
     a_ActorID := sr_Initiator r, a_At := at\<rparr>"

definition started :: "'h Registry option \<Rightarrow> Definition \<Rightarrow> StartRequest \<Rightarrow> Instance \<Rightarrow> bool" where
  "started registry d r c \<longleftrightarrow> compilable registry d \<and> settled c \<and>
     i_ID c = sr_ID r \<and> i_Definition c = d \<and> i_Initiator c = sr_Initiator r \<and> i_Data c = sr_Data r \<and>
     i_Version c = 1 \<and> i_Status c \<noteq> InstanceStatusWithdrawn \<and>
     (\<exists>at rs. i_Audit c = startedRecord r (nd_ID (hd (startNodes d))) at # rs) \<and>
     (\<exists>path. enteredNodes (i_Audit c) = path \<and> path \<noteq> [] \<and>
        walk (edgeRel d) (nd_ID (hd (startNodes d))) path (i_CurrentNodeID c))"

definition startCandidate ::
  "'h Registry option \<Rightarrow> Definition option \<Rightarrow> StartRequest \<Rightarrow> ('h env, Instance) eff" where
  \<comment> \<open>\<open>Start\<close> up to the store call\<close>
  "startCandidate registry definition request =
     bindE (liftR (compileDefinition definition registry)) (\<lambda>plan.
     bindE (liftR (plan_startNode plan)) (\<lambda>start.
     bindE (startInstanceFacts (cd_definition plan) request (nd_ID start)) (\<lambda>facts.
     advance plan [] facts)))"

lemma start_candidate:
  assumes returns: "D \<or> handlersReturnFor registry d"
  shows "wpE D (\<lambda>c w'. started registry d r c) (\<lambda>_ _. True) (startCandidate registry (Some d) r) w"
proof -
  have adv: "wpE D (\<lambda>c w'. started registry d r c) (\<lambda>_ _. True) (advance plan [] f) w"
    if plan: "compileDefinition (Some d) registry = Inr plan" and s: "plan_startNode plan = Inr s"
      and f: "f = \<lparr>i_ID = sr_ID r, i_Definition = cd_definition plan, i_Status = InstanceStatusRunning,
        i_Initiator = sr_Initiator r, i_CurrentNodeID = nd_ID s, i_Data = sr_Data r,
        i_NodeState = None, i_Tasks = [], i_Audit = [startedRecord r (nd_ID s) at], i_Version = 1\<rparr>"
    for plan s f at w
  proof -
    note wf = compiled_plan[OF plan]
    have start: "nd_ID s = nd_ID (hd (startNodes d))"
      using plan_startNode_ok[OF wf(1)] s wf by (auto simp: planWf_def)
    have "routed f" by (simp add: f routed_def quiet_def)
    have "compilable registry d" using wf by (simp add: planWf_def)
    have "D \<or> handlersReturn plan"
      using returns plan unfolding handlersReturnFor_def handlersReturn_def by blast
    from advance_wp[OF wf(1) \<open>routed f\<close> this, of "[]" w] show ?thesis
    proof (rule wpE_mono)
      fix c w' assume "advanced plan f c"
      then show "started registry d r c"
        using \<open>compilable registry d\<close> start
        by (auto simp: advanced_def started_def evolves_def f wf(2))
    qed simp
  qed
  show ?thesis
    unfolding startCandidate_def startInstanceFacts_def
    by (auto simp: wp_simps wpR_iff intro!: adv)
qed

lemma onFst_bind:
  "onFst (bindE m k) = bindE (onFst m) (\<lambda>x. onFst (k x))"
proof (rule ext, goal_cases)
  case (1 w)
  show ?case
  proof (cases "m (fst w)")
    case (Some p)
    then show ?thesis
      by (cases w; cases p; cases "fst p") (auto simp: onFst_def bindE_def)
  qed (cases w, simp add: onFst_def bindE_def)
qed

lemma onFst_liftR: "onFst (liftR r) = liftR r"
  by (auto simp: onFst_def liftR_def fun_eq_iff)

lemma bindE_assoc: "bindE (bindE m k) l = bindE m (\<lambda>x. bindE (k x) l)"
proof
  fix w show "bindE (bindE m k) l w = bindE m (\<lambda>x. bindE (k x) l) w"
  proof (cases "m w")
    case (Some p)
    then show ?thesis by (cases p; cases "fst p") (auto simp: bindE_def)
  qed (simp add: bindE_def)
qed

lemma Start_eq:
  assumes "Option.bind e e_store = Some store" and "Option.bind e e_registry = Some registry"
    and "sr_ID r \<noteq> []" and "sr_Initiator r \<noteq> []" and "validJSON (sr_Data r)"
  shows "Start e d r = bindE (onFst (startCandidate (Some registry) d r)) (\<lambda>facts.
     bindE (st_Create store (Some facts)) (\<lambda>_. ret facts))"
  using assms by (simp add: Start_def startCandidate_def onFst_bind onFst_liftR bindE_assoc)

lemma command_ids [simp]:
  "ic_instanceID (handleCommand registry c) = c_InstanceID c"
  "ic_instanceID (withdrawCommand wr wp) = wr_InstanceID wr"
  "ic_instanceID (returnCommand registry rr rp) = rr_InstanceID rr"
  "ic_instanceID (transferCommand tr tp) = tr_InstanceID tr"
  by (simp_all add: handleCommand_def withdrawCommand_def returnCommand_def transferCommand_def)

lemma outcome_commits:
  "handled cmd i c \<Longrightarrow> commits i c" "withdrawn wr wp i c \<Longrightarrow> commits i c"
  "returned rr rp i c \<Longrightarrow> commits i c" "transferred tr tp i c \<Longrightarrow> commits i c"
  by (simp_all add: handled_def withdrawn_def returned_def transferred_def)

subsection \<open>Through any store that honours the contract\<close>

definition storeOk :: "(InstanceID \<rightharpoonup> Instance) \<Rightarrow> bool" where
  "storeOk m \<longleftrightarrow> (\<forall>k i. m k = Some i \<longrightarrow> i_ID i = k \<and> settled i)"

lemma storeOkD: "storeOk m \<Longrightarrow> m k = Some i \<Longrightarrow> i_ID i = k \<and> settled i"
  unfolding storeOk_def by blast

lemma storeOk_update: "storeOk m \<Longrightarrow> i_ID i = k \<Longrightarrow> settled i \<Longrightarrow> storeOk (m(k \<mapsto> i))"
  by (simp add: storeOk_def)

definition committed ::
  "(Instance \<Rightarrow> Instance \<Rightarrow> bool) \<Rightarrow> (InstanceID \<rightharpoonup> Instance) \<Rightarrow> InstanceID \<Rightarrow> Instance \<Rightarrow>
   (InstanceID \<rightharpoonup> Instance) \<Rightarrow> bool" where
  \<comment> \<open>one stored running instance was replaced by its successor under \<open>R\<close>\<close>
  "committed R m k c m' \<longleftrightarrow> (\<exists>i. m k = Some i \<and> waiting i \<and> R i c) \<and> m' = m(k \<mapsto> c)"

definition storeOps ::
  "(Instance option \<Rightarrow> ('h env \<times> 's, unit) eff) \<Rightarrow> (InstanceID \<Rightarrow> ('h env \<times> 's, Instance) eff) \<Rightarrow>
   (Instance option \<Rightarrow> u64 \<Rightarrow> ('h env \<times> 's, unit) eff) \<Rightarrow> ('h, 's) Store" where
  "storeOps create load save = \<lparr>st_Create = create, st_Load = load, st_Save = save\<rparr>"

definition onlyReads :: "('h, 's) DefinitionReader \<Rightarrow> bool" where
  \<comment> \<open>loading a published definition does not touch the store of the instances\<close>
  "onlyReads load \<longleftrightarrow> (\<forall>definitionID version w x w'. load definitionID version w = Some (x, w') \<longrightarrow> snd w' = snd w)"

definition engineOperations ::
  "('h, 's) Engine option \<Rightarrow> ('h env \<times> 's, Instance) eff set" where
  "engineOperations e = {op. \<exists>d r. op = Start e d r} \<union>
     {op. \<exists>load definitionID version r. onlyReads load \<and> op = StartPublished e (Some load) definitionID version r} \<union>
     {op. \<exists>cmd. op = Handle e cmd} \<union>
     {op. \<exists>r policy. op = Withdraw e r policy} \<union> {op. \<exists>r policy. op = Return e r policy} \<union>
     {op. \<exists>r policy. op = Transfer e r policy}"

definition replacedOne :: "(InstanceID \<rightharpoonup> Instance) \<Rightarrow> Instance \<Rightarrow> (InstanceID \<rightharpoonup> Instance) \<Rightarrow> bool" where
  "replacedOne m c m' \<longleftrightarrow> m' = m(i_ID c \<mapsto> c) \<and> settled c \<and> (\<forall>i. m (i_ID c) = Some i \<longrightarrow> commits i c)"

lemma committed_replacedOne:
  assumes "storeOk m" and "committed R m k c m'" and "\<And>i. R i c \<Longrightarrow> commits i c"
  shows "replacedOne m c m'"
proof -
  obtain i where i: "m k = Some i" "R i c" "m' = m(k \<mapsto> c)" using assms(2) by (auto simp: committed_def)
  from assms(3)[OF i(2)] have "commits i c" .
  moreover have "i_ID c = k" using \<open>commits i c\<close> storeOkD[OF assms(1) i(1)] by (simp add: commits_def evolves_def)
  ultimately show ?thesis using i by (simp add: replacedOne_def commits_def)
qed

lemma committed_at_id:
  assumes "storeOk m" and "committed R m k c (m(k \<mapsto> c))" and "\<And>i. R i c \<Longrightarrow> commits i c"
  shows "replacedOne m c (m(i_ID c \<mapsto> c))"
proof -
  have "replacedOne m c (m(k \<mapsto> c))" using committed_replacedOne[OF assms] .
  then show ?thesis by (metis replacedOne_def)
qed

lemma committed_filed:
  assumes "storeOk m" and "committed R m k c (m(k \<mapsto> c))" and "filed storable m c m'" and "storable c"
    and "\<And>i. R i c \<Longrightarrow> commits i c"
  shows "committed R m k c m'"
proof -
  have "m(k \<mapsto> c) = m(i_ID c \<mapsto> c)"
    using committed_replacedOne[OF assms(1,2,5)] by (simp add: replacedOne_def)
  with assms(2-4) show ?thesis by (simp add: filed_storable)
qed

lemma Start_None: "Start e None r w = Some (x, w') \<Longrightarrow> (\<exists>err. x = Inl err) \<and> w' = w"
  by (auto simp: Start_def raise_def compileDefinition_def analyzeDefinition_def bindE_def liftR_def
      split: option.splits if_splits)

lemma storeOk_replaced: "storeOk m \<Longrightarrow> replacedOne m c m' \<Longrightarrow> storeOk m'"
  by (simp add: replacedOne_def storeOk_update)

context store_contract
begin

abbreviation untouched :: "'h env \<times> 's \<Rightarrow> 'h env \<times> 's \<Rightarrow> bool" where
  "untouched w w' \<equiv> ok (snd w') \<and> view (snd w') = view (snd w)"

abbreviation stored :: "'h env \<times> 's \<Rightarrow> Instance \<Rightarrow> 'h env \<times> 's \<Rightarrow> bool" where
  "stored w c w' \<equiv> ok (snd w') \<and> filed storable (view (snd w)) c (view (snd w'))"

lemma execute_wp:
  assumes inv: "ok (snd w)" and ok: "storeOk (view (snd w))"
    and e: "Option.bind e e_store = Some (storeOps create load save)"
    and cand: "\<And>i w. waiting i \<Longrightarrow> wpE True (\<lambda>c w'. R i c) (\<lambda>_ _. True) (commandCandidate cmd i) w"
    and R: "\<And>i c. R i c \<Longrightarrow> commits i c"
  shows "wpE True
    (\<lambda>c w'. committed R (view (snd w)) (ic_instanceID cmd) c ((view (snd w))(ic_instanceID cmd \<mapsto> c)) \<and> stored w c w')
    (\<lambda>_. untouched w) (executeInstanceCommand e cmd) w"
proof -
  let ?m = "view (snd w)" and ?k = "ic_instanceID cmd"
  let ?Q = "\<lambda>c w'. committed R ?m ?k c (?m(?k \<mapsto> c)) \<and> stored w c w'" and ?E = "\<lambda>_. untouched w"
  have save: "wpE True ?Q ?E (bindE (save (Some c) (i_Version i)) (\<lambda>_. ret c)) w1"
    if i: "?m ?k = Some i" "waiting i" and c: "R i c" and w1: "untouched w w1" for i c w1
  proof -
    have "i_ID c = ?k"
      using storeOkD[OF ok i(1)] R[OF c] by (auto simp: commits_def evolves_def)
    then have "committed R ?m ?k c (?m(?k \<mapsto> c))"
      using i c by (auto simp: committed_def)
    then show ?thesis
      unfolding wpE_bindE wpE_ret
      by (intro wpE_mono[OF save_law]) (use w1 in auto)
  qed
  have body: "wpE True ?Q ?E (bindE (onFst (commandCandidate cmd i))
      (\<lambda>c. bindE (save (Some c) (i_Version i)) (\<lambda>_. ret c))) w1"
    if i: "?m ?k = Some i" and w1: "untouched w w1" and run: "i_Status i = InstanceStatusRunning" for i w1
  proof -
    have "waiting i" using run waiting_iff storeOkD[OF ok i] by blast
    then show ?thesis
      by (simp add: wpE_bindE[where m = "onFst _"] wpE_onFst)
        (rule wpE_mono[OF cand], use w1 in \<open>auto intro!: save[OF i]\<close>)
  qed
  show ?thesis
    unfolding executeInstanceCommand_def e storeOps_def
    by (auto simp: inv wpE_raise wpE_bindE[where m = "load _"] intro!: wpE_mono[OF load_law[OF inv]] body)
qed

lemma Start_wp:
  assumes inv: "ok (snd w)" and ok: "storeOk (view (snd w))" and e: "Option.bind e e_store = Some (storeOps create load save)"
  shows "wpE True
    (\<lambda>c w'. view (snd w) (sr_ID r) = None \<and> i_ID c = sr_ID r \<and> stored w c w' \<and>
       started (Option.bind e e_registry) d r c)
    (\<lambda>_. untouched w) (Start e (Some d) r) w"
proof (cases "\<exists>registry. Option.bind e e_registry = Some registry \<and> sr_ID r \<noteq> [] \<and>
    sr_Initiator r \<noteq> [] \<and> validJSON (sr_Data r)")
  case True
  then obtain registry where reg: "Option.bind e e_registry = Some registry" by auto
  from True have start: "Start e (Some d) r = bindE (onFst (startCandidate (Some registry) (Some d) r))
      (\<lambda>facts. bindE (create (Some facts)) (\<lambda>_. ret facts))"
    using Start_eq[OF e reg] by (simp add: storeOps_def)
  have fin: "wpE True
      (\<lambda>c w'. view (snd w) (sr_ID r) = None \<and> i_ID c = sr_ID r \<and> stored w c w' \<and>
         started (Option.bind e e_registry) d r c)
      (\<lambda>_. untouched w) (bindE (create (Some c)) (\<lambda>_. ret c)) (e', snd w)"
    if "started (Some registry) d r c" for c e'
    unfolding wpE_bindE wpE_ret
    by (rule wpE_mono[OF create_law]) (use that in \<open>auto simp: inv reg started_def\<close>)
  show ?thesis
    unfolding start wpE_bindE[where m = "onFst _"] wpE_onFst
    by (rule wpE_mono[OF start_candidate]) (auto simp: inv simp del: conj_assoc intro!: fin)
next
  case False
  then show ?thesis
    by (auto simp: inv Start_def e wpE_raise split: option.split)
qed

lemma Handle_wp:
  assumes "ok (snd w)" and "storeOk (view (snd w))" and e: "Option.bind e e_store = Some (storeOps create load save)"
  shows "wpE True (\<lambda>c w'. committed (handled cmd) (view (snd w)) (c_InstanceID cmd) c ((view (snd w))(c_InstanceID cmd \<mapsto> c)) \<and> stored w c w')
    (\<lambda>_. untouched w) (Handle e cmd) w"
proof -
  have "wpE True (\<lambda>c w'. committed (handled cmd) (view (snd w)) (c_InstanceID cmd) c ((view (snd w))(c_InstanceID cmd \<mapsto> c)) \<and> stored w c w')
      (\<lambda>_. untouched w)
      (executeInstanceCommand e (handleCommand (Option.bind e e_registry) cmd)) w"
    using execute_wp[OF assms(1,2) e handle_candidate outcome_commits(1)] by simp
  then show ?thesis using assms(1) unfolding Handle_def by (auto simp: wp_simps wpR_iff)
qed

lemma Withdraw_wp:
  assumes "ok (snd w)" and "storeOk (view (snd w))" and e: "Option.bind e e_store = Some (storeOps create load save)"
  shows "wpE True (\<lambda>c w'. \<exists>p. policy = Some p \<and>
      committed (withdrawn r p) (view (snd w)) (wr_InstanceID r) c ((view (snd w))(wr_InstanceID r \<mapsto> c)) \<and> stored w c w')
    (\<lambda>_. untouched w) (Withdraw e r policy) w"
proof -
  have "wpE True (\<lambda>c w'. committed (withdrawn r p) (view (snd w)) (wr_InstanceID r) c ((view (snd w))(wr_InstanceID r \<mapsto> c)) \<and> stored w c w')
      (\<lambda>_. untouched w) (executeInstanceCommand e (withdrawCommand r p)) w" for p
    using execute_wp[OF assms(1,2) e withdraw_candidate outcome_commits(2)] by simp
  then show ?thesis using assms(1) unfolding Withdraw_def by (auto simp: wp_simps split: option.split)
qed

lemma Return_wp:
  assumes "ok (snd w)" and "storeOk (view (snd w))" and e: "Option.bind e e_store = Some (storeOps create load save)"
  shows "wpE True (\<lambda>c w'. \<exists>p. policy = Some p \<and> \<not> isBlank (rr_Reason r) \<and>
      committed (returned r p) (view (snd w)) (rr_InstanceID r) c ((view (snd w))(rr_InstanceID r \<mapsto> c)) \<and> stored w c w')
    (\<lambda>_. untouched w) (Return e r policy) w"
proof -
  have "wpE True (\<lambda>c w'. committed (returned r p) (view (snd w)) (rr_InstanceID r) c ((view (snd w))(rr_InstanceID r \<mapsto> c)) \<and> stored w c w')
      (\<lambda>_. untouched w)
      (executeInstanceCommand e (returnCommand (Option.bind e e_registry) r p)) w" for p
    using execute_wp[OF assms(1,2) e return_candidate outcome_commits(3)] by simp
  then show ?thesis using assms(1) unfolding Return_def by (auto simp: wp_simps split: option.split)
qed

lemma Transfer_wp:
  assumes "ok (snd w)" and "storeOk (view (snd w))" and e: "Option.bind e e_store = Some (storeOps create load save)"
  shows "wpE True (\<lambda>c w'. \<exists>p. policy = Some p \<and> \<not> isBlank (tr_Reason r) \<and>
      committed (transferred r p) (view (snd w)) (tr_InstanceID r) c ((view (snd w))(tr_InstanceID r \<mapsto> c)) \<and> stored w c w')
    (\<lambda>_. untouched w) (Transfer e r policy) w"
proof -
  have "wpE True (\<lambda>c w'. committed (transferred r p) (view (snd w)) (tr_InstanceID r) c ((view (snd w))(tr_InstanceID r \<mapsto> c)) \<and> stored w c w')
      (\<lambda>_. untouched w) (executeInstanceCommand e (transferCommand r p)) w" for p
    using execute_wp[OF assms(1,2) e transfer_candidate outcome_commits(4)] by simp
  then show ?thesis using assms(1) unfolding Transfer_def by (auto simp: wp_simps split: option.split)
qed

lemma operation_wp:
  assumes inv: "ok (snd w)" and ok: "storeOk (view (snd w))" and e: "Option.bind e e_store = Some (storeOps create load save)"
    and op: "op \<in> engineOperations e"
  shows "wpE True (\<lambda>c w'. replacedOne (view (snd w)) c ((view (snd w))(i_ID c \<mapsto> c)) \<and> stored w c w')
    (\<lambda>_. untouched w) op w"
proof -
  let ?goal = "wpE True (\<lambda>c w'. replacedOne (view (snd w)) c ((view (snd w))(i_ID c \<mapsto> c)) \<and> stored w c w')
    (\<lambda>_. untouched w)"
  have start: "?goal (Start e d r) w1" if w1: "snd w1 = snd w" for d r w1
  proof (cases d)
    case None
    then show ?thesis by (intro wpE_I) (use inv w1 in \<open>auto dest: Start_None\<close>)
  next
    case (Some x)
    show ?thesis unfolding Some
      by (rule wpE_mono[OF Start_wp[of w1, unfolded w1, OF inv ok e]]) (auto simp: replacedOne_def started_def)
  qed
  have published: "?goal (StartPublished e (Some load) k v r) w" if "onlyReads load" for load k v r
  proof (cases "k = [] \<or> v = 0")
    case False
    have "snd w1 = snd w" if "load k v w = Some (x, w1)" for x w1
      using \<open>onlyReads load\<close> that unfolding onlyReads_def by blast
    with False show ?thesis
      by (simp add: StartPublished_def wpE_bindE) (rule wpE_I, use inv start in auto)
  qed (use inv in \<open>simp add: StartPublished_def wpE_raise\<close>)
  have handle: "?goal (Handle e cmd) w" for cmd
    by (rule wpE_mono[OF Handle_wp[OF inv ok e]]) (auto intro: committed_at_id[OF ok] outcome_commits)
  have withdraw: "?goal (Withdraw e r policy) w" for r policy
    by (rule wpE_mono[OF Withdraw_wp[OF inv ok e]]) (auto intro: committed_at_id[OF ok] outcome_commits)
  have return: "?goal (Return e r policy) w" for r policy
    by (rule wpE_mono[OF Return_wp[OF inv ok e]]) (auto intro: committed_at_id[OF ok] outcome_commits)
  have transfer: "?goal (Transfer e r policy) w" for r policy
    by (rule wpE_mono[OF Transfer_wp[OF inv ok e]]) (auto intro: committed_at_id[OF ok] outcome_commits)
  show ?thesis using op start[OF refl] published handle withdraw return transfer unfolding engineOperations_def by blast
qed

end

end
