(* ===== verification/Clients.thy ===== *)
theory Clients
  imports EngineSpec
begin

text \<open>
  Concurrent clients of one \<open>MemoryStore\<close>. A command of the engine touches the store twice,
  in its load and in its save, and other clients run in between; starting touches it once.
  The step relation \<open>sysStep\<close> interleaves these store operations of any number of clients,
  each with an environment of its own: \<open>m\<close> is the store, \<open>p\<close> maps a client in flight to the
  snapshot it loaded and the candidate the engine computed from it.

  Main facts: \<open>sysSteps_inv\<close> (along every interleaving stored instances stay settled and
  only ever evolve, with a strictly larger version at every change) and \<open>save_replaces\<close>
  (a successful save replaces exactly the snapshot its client had loaded, so no update
  is lost).
\<close>

definition engineCandidate :: "'h Registry option \<Rightarrow> 'h env \<Rightarrow> Instance \<Rightarrow> Instance \<Rightarrow> bool" where
  "engineCandidate registry w i c \<longleftrightarrow>
     (\<exists>cmd w'. commandCandidate (handleCommand registry cmd) i w = Some (Inr c, w')) \<or>
     (\<exists>r policy w'. commandCandidate (withdrawCommand r policy) i w = Some (Inr c, w')) \<or>
     (\<exists>r policy w'. commandCandidate (returnCommand registry r policy) i w = Some (Inr c, w')) \<or>
     (\<exists>r policy w'. commandCandidate (transferCommand r policy) i w = Some (Inr c, w'))"

type_synonym system = "MemoryStore \<times> (nat \<rightharpoonup> Instance \<times> Instance)"

inductive sysStep :: "'h Registry option \<Rightarrow> system \<Rightarrow> system \<Rightarrow> bool"
  for registry :: "'h Registry option" where
  start: "startCandidate registry (Some d) r w = Some (Inr c, w1) \<Longrightarrow>
    MemoryStore_Create (Some ()) (Some c) (w2 :: 'h env, m) = Some (res, (w3, m')) \<Longrightarrow>
    sysStep registry (m, p) (m', p)"
| load: "MemoryStore_Load (Some ()) k (w :: 'h env, m) = Some (Inr i, (w1, m')) \<Longrightarrow>
    i_Status i = InstanceStatusRunning \<Longrightarrow> engineCandidate registry w2 i c \<Longrightarrow>
    sysStep registry (m, p) (m', p(client \<mapsto> (i, c)))"
| save: "p client = Some (i, c) \<Longrightarrow>
    MemoryStore_Save (Some ()) (Some c) (i_Version i) (w :: 'h env, m) = Some (res, (w1, m')) \<Longrightarrow>
    sysStep registry (m, p) (m', p(client := None))"

definition follows :: "Instance \<Rightarrow> Instance \<Rightarrow> bool" where
  "follows i j \<longleftrightarrow> j = i \<or> evolves i j \<and> i_Version i < i_Version j"

definition sysInv :: "system \<Rightarrow> bool" where
  "sysInv = (\<lambda>(m, p). storeOk m \<and> (\<forall>client i c. p client = Some (i, c) \<longrightarrow>
     commits i c \<and> (\<exists>cur. m (i_ID i) = Some cur \<and> follows i cur)))"

lemma follows_refl [simp]: "follows i i"
  by (simp add: follows_def)

lemma follows_trans: "follows i j \<Longrightarrow> follows j k \<Longrightarrow> follows i k"
  by (auto simp: follows_def intro: evolves_trans less_trans)

lemma follows_same_version: "follows i j \<Longrightarrow> i_Version j = i_Version i \<Longrightarrow> j = i"
  by (auto simp: follows_def)

lemma word_less_succ:
  assumes "(v::u64) \<noteq> - 1" shows "v < v + 1"
proof -
  have "1 + v \<noteq> 0" using assms by (metis add.commute eq_neg_iff_add_eq_0)
  from unatSuc[OF this] show ?thesis by (simp add: word_less_nat_alt add.commute)
qed

lemma commits_follows: "commits i c \<Longrightarrow> follows i c"
  by (auto simp: commits_def follows_def intro: word_less_succ)

lemma engineCandidate_commits:
  assumes "waiting i" and "engineCandidate registry w i c"
  shows "commits i c"
  using assms(2) unfolding engineCandidate_def
proof (elim disjE exE)
  fix cmd w' assume "commandCandidate (handleCommand registry cmd) i w = Some (Inr c, w')"
  from wpE_InrD[OF handle_candidate[OF assms(1), where D = True] this] show ?thesis by (auto dest: outcome_commits)
next
  fix r policy w' assume "commandCandidate (withdrawCommand r policy) i w = Some (Inr c, w')"
  from wpE_InrD[OF withdraw_candidate[where D = True] this] show ?thesis by (auto dest: outcome_commits)
next
  fix r policy w' assume "commandCandidate (returnCommand registry r policy) i w = Some (Inr c, w')"
  from wpE_InrD[OF return_candidate[OF assms(1), where D = True] this] show ?thesis by (auto dest: outcome_commits)
next
  fix r policy w' assume "commandCandidate (transferCommand r policy) i w = Some (Inr c, w')"
  from wpE_InrD[OF transfer_candidate[OF assms(1), where D = True] this] show ?thesis by (auto dest: outcome_commits)
qed

lemma create_step:
  assumes "startCandidate registry (Some d) r w = Some (Inr c, w1)"
    and "MemoryStore_Create (Some ()) (Some c) (w2, m) = Some (res, (w3, m'))"
  shows "settled c \<and> (m' = m \<or> m (i_ID c) = None \<and> m' = m(i_ID c \<mapsto> c))"
proof -
  have "settled c" using wpE_InrD[OF start_candidate[where D = True] assms(1)] by (simp add: started_def)
  moreover have "m' = m \<or> m (i_ID c) = None \<and> m' = m(i_ID c \<mapsto> c)"
    using assms(2) wpE_InrD[OF MemoryStore_Create_wp, of "Some ()" c "(w2, m)"]
      wpE_InlD[OF MemoryStore_Create_wp, of "Some ()" c "(w2, m)"]
    by (cases res) auto
  ultimately show ?thesis by blast
qed

lemma save_step:
  assumes "MemoryStore_Save (Some ()) (Some c) v (w, m) = Some (res, (w1, m'))"
  shows "(\<exists>e. res = Inl e) \<and> m' = m \<or>
    res = Inr () \<and> (\<exists>old. m (i_ID c) = Some old \<and> i_Version old = v) \<and> m' = m(i_ID c \<mapsto> c)"
proof (cases res)
  case (Inl e)
  then show ?thesis using wpE_InlD[OF MemoryStore_Save_wp, of "Some ()" c v "(w, m)"] assms by auto
next
  case (Inr u)
  then show ?thesis using wpE_InrD[OF MemoryStore_Save_wp, of "Some ()" c v "(w, m)"] assms by auto
qed

definition storeGrows :: "MemoryStore \<Rightarrow> MemoryStore \<Rightarrow> bool" where
  "storeGrows m m' \<longleftrightarrow> (\<forall>k i. m k = Some i \<longrightarrow> (\<exists>j. m' k = Some j \<and> follows i j))"

lemma storeGrows_refl [simp]: "storeGrows m m"
  by (auto simp: storeGrows_def)

lemma storeGrows_trans: "storeGrows m1 m2 \<Longrightarrow> storeGrows m2 m3 \<Longrightarrow> storeGrows m1 m3"
  unfolding storeGrows_def by (metis follows_trans)

lemma storeGrows_insert: "m k = None \<Longrightarrow> storeGrows m (m(k \<mapsto> c))"
  by (auto simp: storeGrows_def)

lemma storeGrows_update: "m k = Some i \<Longrightarrow> follows i c \<Longrightarrow> storeGrows m (m(k \<mapsto> c))"
  by (auto simp: storeGrows_def)

lemma sysInvD:
  "sysInv (m, p) \<Longrightarrow> p client = Some (i, c) \<Longrightarrow>
   commits i c \<and> (\<exists>cur. m (i_ID i) = Some cur \<and> follows i cur)"
  unfolding sysInv_def by blast

lemma sysInv_store:
  assumes "sysInv (m, p)" and "storeGrows m m'" and "storeOk m'"
    and "\<And>client i c. p' client = Some (i, c) \<Longrightarrow> p client = Some (i, c) \<or>
      commits i c \<and> m' (i_ID i) = Some i"
  shows "sysInv (m', p')"
  using assms unfolding sysInv_def storeGrows_def prod.case
  by (metis follows_refl follows_trans)

lemma save_replaces:
  assumes inv: "sysInv (m, p)" and p: "p client = Some (i, c)"
    and save: "MemoryStore_Save (Some ()) (Some c) (i_Version i) (w, m) = Some (Inr (), (w1, m'))"
  shows "m (i_ID c) = Some i \<and> commits i c \<and> m' = m(i_ID c \<mapsto> c)"
proof -
  obtain cur where c: "commits i c" "m (i_ID i) = Some cur" "follows i cur"
    using sysInvD[OF inv p] by blast
  have ident: "i_ID c = i_ID i" using c(1) by (simp add: commits_def evolves_def)
  have "i_Version cur = i_Version i" and "m' = m(i_ID c \<mapsto> c)"
    using save_step[OF save] c(2) ident by auto
  then show ?thesis using follows_same_version[OF c(3)] c ident by simp
qed

lemma sysStep_inv:
  assumes inv: "sysInv (m, p)" and step: "sysStep registry (m, p) (m', p')"
  shows "sysInv (m', p') \<and> storeGrows m m'"
  using step
proof cases
  case (start d r w c w1 w2 res w3)
  have ok: "storeOk m" using inv by (simp add: sysInv_def)
  have "storeGrows m m' \<and> storeOk m'"
    using create_step[OF start(2,3)] ok
    by (auto intro: storeGrows_insert storeOk_update)
  then show ?thesis using sysInv_store[OF inv] start(1) by auto
next
  case (load k w i w1 w2 c client)
  have m': "m' = m" "m k = Some i"
    using wpE_InrD[OF MemoryStore_Load_wp load(2)] by auto
  have ok: "storeOk m" using inv by (simp add: sysInv_def)
  have i: "i_ID i = k" "waiting i" using storeOkD[OF ok m'(2)] waiting_iff load(3) by auto
  have "sysInv (m', p')"
    by (rule sysInv_store[OF inv])
      (use i m' ok load(1) engineCandidate_commits[OF i(2) load(4)] in \<open>auto split: if_splits\<close>)
  then show ?thesis by (simp add: m')
next
  case (save client i c w res w1)
  have ok: "storeOk m" using inv by (simp add: sysInv_def)
  have "storeGrows m m' \<and> storeOk m'"
  proof (cases res)
    case (Inl e)
    then show ?thesis using save_step[OF save(3)] ok by auto
  next
    case (Inr u)
    then have "m (i_ID c) = Some i" "commits i c" "m' = m(i_ID c \<mapsto> c)"
      using save_replaces[OF inv save(2)] save(3) by auto
    then show ?thesis using ok
      by (auto intro!: storeGrows_update storeOk_update commits_follows simp: commits_def)
  qed
  moreover from this have "sysInv (m', p')"
    by (intro sysInv_store[OF inv]) (auto simp: save(1) split: if_splits)
  ultimately show ?thesis by blast
qed

lemma sysSteps_inv:
  assumes "(sysStep registry)\<^sup>*\<^sup>* s s'" and "sysInv s"
  shows "sysInv s' \<and> storeGrows (fst s) (fst s')"
  using assms
proof (induction rule: rtranclp_induct)
  case (step s1 s2)
  then show ?case
    using sysStep_inv[of "fst s1" "snd s1" registry "fst s2" "snd s2"] storeGrows_trans by auto
qed simp

definition initSystem :: system where
  "initSystem = (NewMemoryStore, Map.empty)"

lemma initSystem_inv: "sysInv initSystem"
  by (simp add: initSystem_def sysInv_def NewMemoryStore_def storeOk_def)

end
