(* ===== verification/Publication.thy ===== *)
theory Publication
  imports CompilerSpec
begin

text \<open>
  Publication of definitions under store-assigned versions (\<open>publication.go\<close>): the publisher,
  which compiles before it writes, and the process-local store of immutable versions. The
  blocking mutex makes each critical section one step.

  The locale \<open>definition_repository\<close> states the contract of writer and reader (a new
  version is greater than every earlier one, versions are immutable, exact load never falls
  back, latest is the greatest); \<open>memdefs\<close> discharges it for \<open>MemoryDefinitionStore\<close>
  as long as fewer than \<open>2^64 - 1\<close> versions exist.
\<close>

type_synonym MemoryDefinitionStore = "string \<Rightarrow> Definition list"  \<comment> \<open>position 0 is version 1\<close>

type_synonym nilable = "unit option"  \<comment> \<open>the receiver: \<open>None\<close> is the nil pointer\<close>

definition NewMemoryDefinitionStore :: MemoryDefinitionStore where
  "NewMemoryDefinitionStore = (\<lambda>_. [])"

definition MemoryDefinitionStore_CreateVersion ::
  "nilable \<Rightarrow> Definition option \<Rightarrow> ('h env \<times> MemoryDefinitionStore, Definition option) eff" where
  "MemoryDefinitionStore_CreateVersion s definition =
     (case (s, definition) of
        (Some _, Some d) \<Rightarrow>
          if d_ID d = [] then raise [ErrInvalidDefinitionStore]
          else
            bindE (onFst ctxErr) (\<lambda>_.
            bindE (onFst ctxErr) (\<lambda>_.
            bindE getSnd (\<lambda>definitions.
            bindE (onFst ctxErr) (\<lambda>_.
            let versions = definitions (d_ID d);
                snapshot = d\<lparr>d_Version := of_nat (length versions) + 1\<rparr>
            in bindE (putSnd (definitions(d_ID d := versions @ [snapshot]))) (\<lambda>_.
               ret (Some snapshot))))))
      | _ \<Rightarrow> raise [ErrInvalidDefinitionStore])"

definition MemoryDefinitionStore_Load ::
  "nilable \<Rightarrow> string \<Rightarrow> u64 \<Rightarrow> ('h env \<times> MemoryDefinitionStore, Definition option) eff" where
  "MemoryDefinitionStore_Load s ident version =
     (if s = None \<or> ident = [] \<or> version = 0 then raise [ErrDefinitionNotFound]
      else
        bindE (onFst ctxErr) (\<lambda>_.
        bindE (onFst ctxErr) (\<lambda>_.
        bindE getSnd (\<lambda>definitions.
        let versions = definitions ident in
        if version > of_nat (length versions) then raise [ErrDefinitionNotFound]
        else
          let snapshot = versions ! unat (version - 1) in
          bindE (onFst ctxErr) (\<lambda>_. ret (Some snapshot))))))"

definition MemoryDefinitionStore_LoadLatest ::
  "nilable \<Rightarrow> string \<Rightarrow> ('h env \<times> MemoryDefinitionStore, Definition option) eff" where
  "MemoryDefinitionStore_LoadLatest s ident =
     (if s = None \<or> ident = [] then raise [ErrDefinitionNotFound]
      else
        bindE (onFst ctxErr) (\<lambda>_.
        bindE (onFst ctxErr) (\<lambda>_.
        bindE getSnd (\<lambda>definitions.
        let versions = definitions ident in
        if length versions = 0 then raise [ErrDefinitionNotFound]
        else
          let snapshot = versions ! (length versions - 1) in
          bindE (onFst ctxErr) (\<lambda>_. ret (Some snapshot))))))"

subsection \<open>The publisher\<close>

type_synonym ('h, 's) DefinitionVersionWriter =
  "Definition option \<Rightarrow> ('h env \<times> 's, Definition option) eff"

record ('h, 's) DefinitionPublisher =
  dp_writer :: "('h, 's) DefinitionVersionWriter option"
  dp_registry :: "'h Registry option"

definition NewDefinitionPublisher ::
  "('h, 's) DefinitionVersionWriter option \<Rightarrow> 'h Registry option \<Rightarrow> ('h, 's) DefinitionPublisher" where
  "NewDefinitionPublisher writer registry = \<lparr>dp_writer = writer, dp_registry = registry\<rparr>"

definition Publish ::
  "('h, 's) DefinitionPublisher option \<Rightarrow> Definition option \<Rightarrow> ('h env \<times> 's, Definition option) eff" where
  "Publish p definition =
     (case (Option.bind p dp_writer, Option.bind p dp_registry) of
        (Some writer, Some registry) \<Rightarrow>
          bindE (liftR (compileDefinition definition (Some registry))) (\<lambda>plan.
          let candidate = (cd_definition plan)\<lparr>d_Version := 0\<rparr> in
          bindE (writer (Some candidate)) (\<lambda>published.
          if published = None then raise [ErrInvalidPublisher] else ret published))
      | _ \<Rightarrow> raise [ErrInvalidPublisher])"

subsection \<open>The contract of a repository\<close>

locale definition_repository =
  fixes create :: "('h, 's) DefinitionVersionWriter"
    and load :: "string \<Rightarrow> u64 \<Rightarrow> ('h env \<times> 's, Definition option) eff"
    and latest :: "string \<Rightarrow> ('h env \<times> 's, Definition option) eff"
    and room :: "'s \<Rightarrow> bool"
    and versions :: "'s \<Rightarrow> string \<Rightarrow> u64 \<rightharpoonup> Definition"
  assumes create_law: "room (snd w) \<Longrightarrow> wpE True
      (\<lambda>p w'. \<exists>v. p = Some (d\<lparr>d_Version := v\<rparr>) \<and> v \<noteq> 0 \<and>
         (\<forall>u. versions (snd w) (d_ID d) u \<noteq> None \<longrightarrow> u < v) \<and>
         versions (snd w') = (versions (snd w))(d_ID d :=
           (versions (snd w) (d_ID d))(v \<mapsto> d\<lparr>d_Version := v\<rparr>)))
      (\<lambda>_ w'. versions (snd w') = versions (snd w)) (create (Some d)) w"
    and load_law: "room (snd w) \<Longrightarrow> wpE True
      (\<lambda>p w'. p \<noteq> None \<and> versions (snd w) k v = p \<and> versions (snd w') = versions (snd w))
      (\<lambda>_ w'. versions (snd w') = versions (snd w)) (load k v) w"
    and latest_law: "room (snd w) \<Longrightarrow> wpE True
      (\<lambda>p w'. (\<exists>v. p \<noteq> None \<and> versions (snd w) k v = p \<and>
         (\<forall>u. versions (snd w) k u \<noteq> None \<longrightarrow> u \<le> v)) \<and> versions (snd w') = versions (snd w))
      (\<lambda>_ w'. versions (snd w') = versions (snd w)) (latest k) w"
begin

lemma create_immutable:
  assumes "create (Some d) w = Some (r, w')" and "room (snd w)"
    and "versions (snd w) k v = Some x"
  shows "versions (snd w') k v = Some x"
proof (cases r)
  case (Inl e)
  then show ?thesis using wpE_InlD[OF create_law[OF assms(2)] assms(1)[unfolded Inl]] assms(3) by simp
next
  case (Inr p)
  from wpE_InrD[OF create_law[OF assms(2)] assms(1)[unfolded Inr]] assms(3)
  show ?thesis by (auto simp: fun_upd_def) (metis less_irrefl option.distinct(1))+
qed

lemma publish_wp:
  assumes "room (snd w)" and "Option.bind p dp_writer = Some create"
  shows "wpE True
    (\<lambda>q w'. \<exists>registry v. Option.bind p dp_registry = Some registry \<and> compilable (Some registry) d \<and>
       q = Some (d\<lparr>d_Version := v\<rparr>) \<and> v \<noteq> 0 \<and>
       (\<forall>u. versions (snd w) (d_ID d) u \<noteq> None \<longrightarrow> u < v) \<and>
       versions (snd w') = (versions (snd w))(d_ID d :=
         (versions (snd w) (d_ID d))(v \<mapsto> d\<lparr>d_Version := v\<rparr>)))
    (\<lambda>_ w'. versions (snd w') = versions (snd w)) (Publish p (Some d)) w"
proof (cases "Option.bind p dp_registry")
  case (Some registry)
  show ?thesis
    unfolding Publish_def assms(2) Some prod.case option.case wpE_bindE[where m = "liftR _"] wpE_liftR wpR_iff
  proof (intro conjI allI impI refl)
    fix plan assume plan: "compileDefinition (Some d) (Some registry) = Inr plan"
    have d: "cd_definition plan = d" "compilable (Some registry) d"
      using compile_planWf[OF plan] by (auto simp: planWf_def)
    show "wpE True
      (\<lambda>q w'. \<exists>registry' v. Some registry = Some registry' \<and> compilable (Some registry') d \<and>
         q = Some (d\<lparr>d_Version := v\<rparr>) \<and> v \<noteq> 0 \<and>
         (\<forall>u. versions (snd w) (d_ID d) u \<noteq> None \<longrightarrow> u < v) \<and>
         versions (snd w') = (versions (snd w))(d_ID d :=
           (versions (snd w) (d_ID d))(v \<mapsto> d\<lparr>d_Version := v\<rparr>)))
      (\<lambda>_ w'. versions (snd w') = versions (snd w))
      (let candidate = (cd_definition plan)\<lparr>d_Version := 0\<rparr> in
       bindE (create (Some candidate)) (\<lambda>published.
       if published = None then raise [ErrInvalidPublisher] else ret published)) w"
      unfolding d(1) Let_def wpE_bindE
      by (rule wpE_mono[OF create_law[OF assms(1)]]) (auto simp: wp_simps d(2))
  qed
next
  case None
  then show ?thesis by (auto simp: Publish_def wp_simps split: option.split)
qed

end

subsection \<open>The in-memory repository honours the contract\<close>

definition defsRoom :: "MemoryDefinitionStore \<Rightarrow> bool" where
  "defsRoom m \<longleftrightarrow> (\<forall>k. length (m k) < 2 ^ 64 - 1)"

definition versionsOf :: "MemoryDefinitionStore \<Rightarrow> string \<Rightarrow> u64 \<rightharpoonup> Definition" where
  "versionsOf m k v = (if v \<noteq> 0 \<and> unat v \<le> length (m k) then Some (m k ! (unat v - 1)) else None)"

lemma unat_length:
  assumes "defsRoom m"
  shows "unat (of_nat (length (m k)) :: u64) = length (m k)"
    "unat (of_nat (length (m k)) + 1 :: u64) = Suc (length (m k))"
proof -
  have n: "length (m k) < 2 ^ 64 - 1" using assms by (simp add: defsRoom_def)
  then show "unat (of_nat (length (m k)) :: u64) = length (m k)"
    by (simp add: unat_of_nat take_bit_nat_eq_self_iff)
  have "unat (of_nat (Suc (length (m k))) :: u64) = Suc (length (m k))"
    using n by (simp only: unat_of_nat take_bit_nat_eq_self_iff) simp
  then show "unat (of_nat (length (m k)) + 1 :: u64) = Suc (length (m k))"
    by (simp add: add.commute)
qed

lemma next_version:
  assumes "defsRoom m" and "v = of_nat (length (m k)) + 1"
  shows "v \<noteq> 0" "versionsOf m k u \<noteq> None \<Longrightarrow> u < v"
    "versionsOf (m(k := m k @ [d])) = (versionsOf m)(k := (versionsOf m k)(v \<mapsto> d))"
proof -
  have v: "unat v = Suc (length (m k))" using unat_length(2)[OF assms(1)] assms(2) by simp
  then show "v \<noteq> 0" by auto
  show "versionsOf m k u \<noteq> None \<Longrightarrow> u < v"
    using v by (auto simp: versionsOf_def word_less_nat_alt split: if_splits)
  show "versionsOf (m(k := m k @ [d])) = (versionsOf m)(k := (versionsOf m k)(v \<mapsto> d))"
  proof (intro ext)
    fix j :: string and u :: u64
    have u0: "u \<noteq> 0 \<Longrightarrow> 0 < unat u" by (simp add: unat_gt_0)
    show "versionsOf (m(k := m k @ [d])) j u = ((versionsOf m)(k := (versionsOf m k)(v \<mapsto> d))) j u"
    proof (cases "u = v")
      case True
      then show ?thesis using v by (auto simp: versionsOf_def nth_append)
    next
      case False
      then have "unat u \<noteq> unat v" by (metis word_unat_eq_iff)
      then show ?thesis using v u0 by (auto simp: versionsOf_def nth_append)
    qed
  qed
qed

lemma CreateVersion_wp:
  assumes "defsRoom (snd w)"
  shows "wpE True
    (\<lambda>p w'. \<exists>v. p = Some (d\<lparr>d_Version := v\<rparr>) \<and> v = of_nat (length (snd w (d_ID d))) + 1 \<and>
       snd w' = (snd w)(d_ID d := snd w (d_ID d) @ [d\<lparr>d_Version := v\<rparr>]))
    (\<lambda>_ w'. snd w' = snd w) (MemoryDefinitionStore_CreateVersion s (Some d)) w"
  unfolding MemoryDefinitionStore_CreateVersion_def
  by (auto simp: wpE_bindE wpE_getSnd wpE_putSnd wpE_raise wpE_ret Let_def
      intro!: onFst_any split: option.split)

lemma Version_Load_wp:
  assumes "defsRoom (snd w)"
  shows "wpE True
    (\<lambda>p w'. p \<noteq> None \<and> versionsOf (snd w) k v = p \<and> snd w' = snd w)
    (\<lambda>_ w'. snd w' = snd w) (MemoryDefinitionStore_Load s k v) w"
proof -
  have "versionsOf (snd w) k v = Some (snd w k ! unat (v - 1))"
    if "v \<noteq> 0" "\<not> v > of_nat (length (snd w k))"
    using that unat_length(1)[OF assms, of k]
    by (simp add: versionsOf_def word_less_nat_alt not_less unat_minus_one)
  then show ?thesis
    unfolding MemoryDefinitionStore_Load_def
    by (auto simp: wpE_bindE wpE_getSnd wpE_raise wpE_ret Let_def intro!: onFst_any)
qed

lemma LoadLatest_wp:
  assumes "defsRoom (snd w)"
  shows "wpE True
    (\<lambda>p w'. (\<exists>v. p \<noteq> None \<and> versionsOf (snd w) k v = p \<and>
       (\<forall>u. versionsOf (snd w) k u \<noteq> None \<longrightarrow> u \<le> v)) \<and> snd w' = snd w)
    (\<lambda>_ w'. snd w' = snd w) (MemoryDefinitionStore_LoadLatest s k) w"
proof -
  let ?n = "length (snd w k)" let ?v = "of_nat ?n :: u64"
  have v: "unat ?v = ?n" by (rule unat_length(1)[OF assms])
  have last: "versionsOf (snd w) k ?v = Some (snd w k ! (?n - 1)) \<and>
      (\<forall>u. versionsOf (snd w) k u \<noteq> None \<longrightarrow> u \<le> ?v)" if "?n \<noteq> 0"
  proof -
    have "?v \<noteq> 0" using v that by (metis unat_0)
    then show ?thesis using v by (auto simp: versionsOf_def word_le_nat_alt split: if_splits)
  qed
  show ?thesis
    unfolding MemoryDefinitionStore_LoadLatest_def
    using last by (auto simp: wpE_bindE wpE_getSnd wpE_raise wpE_ret Let_def
        intro!: onFst_any exI[of _ ?v])
qed

interpretation memdefs: definition_repository "MemoryDefinitionStore_CreateVersion (Some ())"
  "MemoryDefinitionStore_Load (Some ())" "MemoryDefinitionStore_LoadLatest (Some ())"
  defsRoom versionsOf
proof (unfold_locales, goal_cases)
  case (1 w d)
  show ?case
    by (rule wpE_mono[OF CreateVersion_wp[OF 1]]) (use next_version[OF 1] in auto)
next
  case (2 w k v)
  show ?case by (rule wpE_mono[OF Version_Load_wp[OF 2]]) auto
next
  case (3 w k)
  show ?case by (rule wpE_mono[OF LoadLatest_wp[OF 3]]) auto
qed

end
