(* ===== verification/Approval.thy ===== *)
theory Approval
  imports EngineSpec
begin

text \<open>
  The official approval node (\<open>approval/approval.go\<close>): its configuration, activation with
  static or host-resolved assignees, and the decisions of or-sign and countersign. The
  organization adapter is host code, a parameter; a nil adapter is \<open>None\<close>.

  Main facts: \<open>parseConfig_ok\<close> (what an accepted configuration satisfies),
  \<open>round_acceptable\<close> and \<open>handleConfig_acceptable\<close> (every proposal of the node passes
  the engine's validation), \<open>decided_open\<close> and \<open>decided_final\<close> (the tasks after a decision) and
  \<open>legacy_Activate\<close>/\<open>legacy_Handle\<close> (the prepared executor agrees with the legacy methods),
  \<open>approval_handlers_return\<close> (no executor of an approval node diverges on its own).
\<close>

definition approvalKind :: string where "approvalKind = ''approval''"
definition CommandApprove :: string where "CommandApprove = ''approve''"
definition CommandReject :: string where "CommandReject = ''reject''"
definition OutcomeApproved :: string where "OutcomeApproved = ''approved''"
definition OutcomeRejected :: string where "OutcomeRejected = ''rejected''"
definition ModeAny :: string where "ModeAny = ''any''"
definition ModeAll :: string where "ModeAll = ''all''"

lemma approval_names [simp]:
  "CommandReject \<noteq> CommandApprove" "CommandApprove \<noteq> CommandReject" "OutcomeApproved \<noteq> []"
  "OutcomeRejected \<noteq> []" "ModeAny \<noteq> ModeAll" "ModeAll \<noteq> ModeAny"
  by (simp_all add: CommandApprove_def CommandReject_def OutcomeApproved_def OutcomeRejected_def
      ModeAny_def ModeAll_def)

record AssignmentPolicy =
  ap_Role :: string

record Config =
  cf_Mode :: string
  cf_Assignees :: "ActorID list"
  cf_Policy :: "AssignmentPolicy option"
  cf_RejectedOutcome :: string

type_synonym 'h OrganizationAdapter = "string \<Rightarrow> raw \<Rightarrow> ('h env, ActorID list) eff"

subsection \<open>Configuration\<close>

definition ConfigType :: gotype where
  \<comment> \<open>the struct \<open>Config\<close> with its tags, as reflection sees it\<close>
  "ConfigType = GStruct
     [GField True False ''Mode'' ''mode'' GScalar,
      GField True False ''Assignees'' ''assignees,omitempty'' (GSlice GScalar),
      GField True False ''Policy'' ''assignmentPolicy,omitempty''
        (GPointer (GStruct [GField True False ''Role'' ''role'' GScalar])),
      GField True False ''RejectedOutcome'' ''rejectedOutcome,omitempty'' GScalar]"

definition decodePolicyField :: "jvalue \<Rightarrow> AssignmentPolicy option result" where
  "decodePolicyField v = (case jsonMember ''assignmentPolicy'' v of
      None \<Rightarrow> Inr None
    | Some JNull \<Rightarrow> Inr None
    | Some (JObject ms) \<Rightarrow>
        bindR (decodeStringField ''role'' (JObject ms)) (\<lambda>role. Inr (Some \<lparr>ap_Role = role\<rparr>))
    | Some _ \<Rightarrow> Inl [])"

definition decodeConfig :: "jvalue \<Rightarrow> Config result" where
  \<comment> \<open>\<open>encoding/json\<close> on a \<open>Config\<close> target; null leaves the zero value\<close>
  "decodeConfig v = (case v of
      JNull \<Rightarrow> Inr \<lparr>cf_Mode = [], cf_Assignees = [], cf_Policy = None, cf_RejectedOutcome = []\<rparr>
    | JObject _ \<Rightarrow>
        bindR (decodeStringField ''mode'' v) (\<lambda>mode.
        bindR (decodeStringSliceField ''assignees'' v) (\<lambda>assignees.
        bindR (decodePolicyField v) (\<lambda>policy.
        bindR (decodeStringField ''rejectedOutcome'' v) (\<lambda>rejected.
        Inr \<lparr>cf_Mode = mode, cf_Assignees = assignees, cf_Policy = policy,
             cf_RejectedOutcome = rejected\<rparr>))))
    | _ \<Rightarrow> Inl [])"

fun validateAssigneesLoop :: "ActorID list \<Rightarrow> ActorID list \<Rightarrow> unit result" where
  "validateAssigneesLoop seen [] = Inr ()"
| "validateAssigneesLoop seen (assignee # rest) =
     (if assignee = [] then Inl [ApprovalErrInvalidConfig, ApprovalErrInvalidAssignee]
      else if assignee \<in> set seen then Inl [ApprovalErrInvalidConfig, ApprovalErrDuplicateAssignee]
      else validateAssigneesLoop (assignee # seen) rest)"

definition validateAssignees :: "ActorID list \<Rightarrow> unit result" where
  "validateAssignees assignees =
     (if assignees = [] then Inl [ApprovalErrInvalidConfig, ApprovalErrNoAssignees]
      else validateAssigneesLoop [] assignees)"

definition parseConfig :: "raw \<Rightarrow> Config result" where
  "parseConfig data =
     bindR (wrapR [ApprovalErrInvalidConfig] (Decode (raw_bytes data) ConfigType decodeConfig)) (\<lambda>config.
     if cf_Mode config \<noteq> ModeAny \<and> cf_Mode config \<noteq> ModeAll then Inl [ApprovalErrInvalidConfig]
     else if cf_RejectedOutcome config \<noteq> [] \<and> cf_RejectedOutcome config \<noteq> OutcomeRejected
     then Inl [ApprovalErrInvalidConfig]
     else if (length (cf_Assignees config) = 0) = (cf_Policy config = None)
     then Inl [ApprovalErrInvalidConfig]
     else case cf_Policy config of
         Some policy \<Rightarrow> if ap_Role policy = [] then Inl [ApprovalErrInvalidConfig] else Inr config
       | None \<Rightarrow> bindR (validateAssignees (cf_Assignees config)) (\<lambda>_. Inr config))"

subsection \<open>Activation\<close>

definition draftFor :: "ActorID \<Rightarrow> Task" where
  "draftFor assignee = \<lparr>t_ID = [], t_NodeID = [], t_Assignee = assignee,
     t_Status = TaskStatusActive, t_Outcome = []\<rparr>"

definition activateConfig ::
  "'h OrganizationAdapter option \<Rightarrow> Config \<Rightarrow> raw \<Rightarrow> ('h env, NodeResult) eff" where
  "activateConfig organization config data =
     bindE
       (case cf_Policy config of
          None \<Rightarrow> ret (cf_Assignees config)
        | Some policy \<Rightarrow> (case organization of
              None \<Rightarrow> raise [ApprovalErrInvalidConfig, ApprovalErrOrganizationAdapterRequired]
            | Some resolveRole \<Rightarrow>
                bindE (wrapE [ApprovalErrAssignmentResolution] (resolveRole (ap_Role policy) data))
                  (\<lambda>resolved.
                bindE (liftR (validateAssignees resolved)) (\<lambda>_. ret resolved))))
       (\<lambda>assignees. ret \<lparr>nr_Disposition = DispositionWaiting, nr_Outcome = [], nr_State = None,
                         nr_Tasks = map draftFor assignees\<rparr>)"

subsection \<open>Decisions\<close>

definition hasActiveTask :: "Task list \<Rightarrow> bool" where
  "hasActiveTask tasks = list_ex active tasks"

definition closeActiveTasks :: "Task list \<Rightarrow> Task list" where
  "closeActiveTasks tasks = map (\<lambda>t. if active t then t\<lparr>t_Status := TaskStatusClosed\<rparr> else t) tasks"

fun taskIndexOf :: "TaskID \<Rightarrow> Task list \<Rightarrow> nat option" where
  \<comment> \<open>the search loop of \<open>handleConfig\<close>; \<open>None\<close> is the index -1\<close>
  "taskIndexOf ident [] = None"
| "taskIndexOf ident (t # ts) =
     (if t_ID t = ident then Some 0 else map_option Suc (taskIndexOf ident ts))"

definition handleConfig :: "Config \<Rightarrow> Command \<Rightarrow> Task list \<Rightarrow> NodeResult result" where
  "handleConfig config command tasks = (case taskIndexOf (c_TaskID command) tasks of
      None \<Rightarrow> Inl [ApprovalErrTaskNotActive]
    | Some i \<Rightarrow>
        if t_Assignee (tasks ! i) \<noteq> c_ActorID command \<or> t_Status (tasks ! i) \<noteq> TaskStatusActive
        then Inl [ApprovalErrTaskNotActive]
        else if c_Name command = CommandApprove then
          let tasks = tasks[i := (tasks ! i)\<lparr>t_Status := TaskStatusCompleted, t_Outcome := OutcomeApproved\<rparr>]
          in if cf_Mode config = ModeAll \<and> hasActiveTask tasks
             then Inr \<lparr>nr_Disposition = DispositionWaiting, nr_Outcome = [], nr_State = None,
                       nr_Tasks = tasks\<rparr>
             else Inr \<lparr>nr_Disposition = DispositionContinue, nr_Outcome = OutcomeApproved,
                       nr_State = None, nr_Tasks = closeActiveTasks tasks\<rparr>
        else if c_Name command = CommandReject then
          let tasks = tasks[i := (tasks ! i)\<lparr>t_Status := TaskStatusCompleted, t_Outcome := OutcomeRejected\<rparr>]
          in Inr \<lparr>nr_Disposition = DispositionReject, nr_Outcome = cf_RejectedOutcome config,
                  nr_State = None, nr_Tasks = closeActiveTasks tasks\<rparr>
        else Inl [ApprovalErrInvalidCommand])"

subsection \<open>The node handler\<close>

definition Approval_Validate :: "raw \<Rightarrow> unit result" where
  "Approval_Validate config = bindR (parseConfig config) (\<lambda>_. Inr ())"

definition Approval_Activate ::
  "'h OrganizationAdapter option \<Rightarrow> ActivationInput \<Rightarrow> ('h env, NodeResult) eff" where
  "Approval_Activate organization input =
     bindE ctxErr (\<lambda>_.
     bindE (liftR (parseConfig (ai_Config input))) (\<lambda>config.
     activateConfig organization config (ai_Data input)))"

definition Approval_Handle :: "CommandInput \<Rightarrow> ('h env, NodeResult) eff" where
  "Approval_Handle input =
     bindE ctxErr (\<lambda>_.
     bindE (liftR (parseConfig (ci_Config input))) (\<lambda>config.
     liftR (handleConfig config (ci_Command input) (ci_Tasks input))))"

definition Approval_ActivatePrepared ::
  "'h OrganizationAdapter option \<Rightarrow> Config \<Rightarrow> PreparedActivationInput \<Rightarrow> ('h env, NodeResult) eff" where
  "Approval_ActivatePrepared organization config input =
     bindE ctxErr (\<lambda>_. activateConfig organization config (pai_Data input))"

definition Approval_HandlePrepared ::
  "Config \<Rightarrow> PreparedCommandInput \<Rightarrow> ('h env, NodeResult) eff" where
  "Approval_HandlePrepared config input =
     bindE ctxErr (\<lambda>_. liftR (handleConfig config (pci_Command input) (pci_Tasks input)))"

definition Approval_PrepareConfig ::
  "'h OrganizationAdapter option \<Rightarrow> raw \<Rightarrow> 'h PreparedNodeHandler option result" where
  "Approval_PrepareConfig organization config =
     bindR (parseConfig config) (\<lambda>prepared.
     Inr (Some \<lparr>ActivatePrepared = Approval_ActivatePrepared organization prepared,
                HandlePrepared = Approval_HandlePrepared prepared\<rparr>))"

definition NewHandlerWithOrganization :: "'h OrganizationAdapter option \<Rightarrow> 'h NodeHandler" where
  "NewHandlerWithOrganization organization =
     \<lparr>nh_Validate = Approval_Validate, nh_Activate = Approval_Activate organization,
      nh_Handle = Approval_Handle, nh_PrepareConfig = Some (Approval_PrepareConfig organization)\<rparr>"

definition NewHandler :: "'h NodeHandler" where
  "NewHandler = NewHandlerWithOrganization None"

subsection \<open>Accepted configurations\<close>

lemma validateAssigneesLoop_iff:
  "validateAssigneesLoop seen as = Inr () \<longleftrightarrow> distinct as \<and> [] \<notin> set as \<and> set as \<inter> set seen = {}"
  by (induction as arbitrary: seen) auto

lemma validateAssignees_iff:
  "validateAssignees as = Inr () \<longleftrightarrow> as \<noteq> [] \<and> distinct as \<and> [] \<notin> set as"
  by (simp add: validateAssignees_def validateAssigneesLoop_iff)

definition configOk :: "Config \<Rightarrow> bool" where
  "configOk c \<longleftrightarrow> cf_Mode c \<in> {ModeAny, ModeAll} \<and> cf_RejectedOutcome c \<in> {[], OutcomeRejected} \<and>
     (case cf_Policy c of
        None \<Rightarrow> cf_Assignees c \<noteq> [] \<and> distinct (cf_Assignees c) \<and> [] \<notin> set (cf_Assignees c)
      | Some p \<Rightarrow> cf_Assignees c = [] \<and> ap_Role p \<noteq> [])"

lemma parseConfig_ok: "parseConfig data = Inr c \<Longrightarrow> configOk c"
  by (auto simp: parseConfig_def bindR_Inr_iff configOk_def validateAssignees_iff
      split: if_splits option.splits)

lemma parseConfig_error:
  assumes "parseConfig data = Inl e" shows "errors_Is e ApprovalErrInvalidConfig"
proof -
  have "errors_Is e ApprovalErrInvalidConfig" if "validateAssigneesLoop seen as = Inl e" for seen as
    using that by (induction as arbitrary: seen) (auto split: if_splits)
  then show ?thesis
    using assms
    by (auto simp: parseConfig_def bindR_Inl_iff wrapR_def validateAssignees_def
        split: if_splits option.splits sum.splits)
qed

subsection \<open>Every proposal of the node is acceptable\<close>

definition roundOf :: "ActorID list \<Rightarrow> NodeResult \<Rightarrow> bool" where
  "roundOf as res \<longleftrightarrow> as \<noteq> [] \<and> distinct as \<and> [] \<notin> set as \<and> nr_Disposition res = DispositionWaiting \<and>
     nr_Outcome res = [] \<and> nr_State res = None \<and> nr_Tasks res = map draftFor as"

lemma activateConfig_wp:
  assumes "configOk config"
  shows "wpE True (\<lambda>res w'. \<exists>as. roundOf as res \<and> (cf_Policy config = None \<longrightarrow> as = cf_Assignees config))
    (\<lambda>_ _. True) (activateConfig organization config data) w"
proof (cases "cf_Policy config")
  case None
  then show ?thesis
    using assms by (auto simp: activateConfig_def wp_simps roundOf_def configOk_def)
next
  case (Some policy)
  let ?Q = "\<lambda>res w'. \<exists>as. roundOf as res \<and> (cf_Policy config = None \<longrightarrow> as = cf_Assignees config)"
  let ?res = "\<lambda>as. \<lparr>nr_Disposition = DispositionWaiting, nr_Outcome = [], nr_State = None,
    nr_Tasks = map draftFor as\<rparr>"
  have fin: "wpR (\<lambda>_. ?Q (?res as) w') (\<lambda>_. True) (validateAssignees as)" for as and w' :: "'a env"
    by (auto simp: wpR_iff validateAssignees_iff roundOf_def Some)
  show ?thesis
  proof (cases organization)
    case None
    then show ?thesis by (simp add: activateConfig_def Some wp_simps)
  next
    case org: (Some resolve)
    show ?thesis
      by (simp add: activateConfig_def org Some wpE_bindE wpE_wrapE wpE_ret)
        (rule wpE_any, use fin in \<open>auto simp: wp_simps Some\<close>)
  qed
qed

lemma round_acceptable:
  assumes "roundOf as res" and "nodeID \<noteq> []"
  shows "isOk (prepareActivationNodeResult nodeID res)" "isOk (prepareReturnNodeResult nodeID res)"
  using assms
  by (auto simp: isOk_iff prepareActivation_iff prepareReturn_iff roundOf_def acceptable_def
      draftOk_def draftFor_def)

lemma taskIndexOf_iff:
  "taskIndexOf k ts = Some i \<longleftrightarrow> i < length ts \<and> t_ID (ts ! i) = k \<and> (\<forall>j<i. t_ID (ts ! j) \<noteq> k)"
proof (induction ts arbitrary: i)
  case (Cons t ts)
  then show ?case by (cases i) (auto simp: All_less_Suc2)
qed simp

lemma closeActive_step: "list_all2 forwardStep ts (closeActiveTasks ts)"
  by (auto simp: closeActiveTasks_def list_all2_conv_all_nth forwardStep_def)

lemma closeActive_inactive: "t \<in> set (closeActiveTasks ts) \<Longrightarrow> \<not> active t"
  by (auto simp: closeActiveTasks_def split: if_splits)

lemma forwardStep_trans: "forwardStep t u \<Longrightarrow> forwardStep u v \<Longrightarrow> forwardStep t v"
  by (auto simp: forwardStep_def)

definition decideTask :: "string \<Rightarrow> nat \<Rightarrow> Task list \<Rightarrow> Task list" where
  "decideTask outcome i ts = ts[i := (ts ! i)\<lparr>t_Status := TaskStatusCompleted, t_Outcome := outcome\<rparr>]"

lemma decideTask_step:
  "i < length ts \<Longrightarrow> active (ts ! i) \<Longrightarrow> outcome \<noteq> [] \<Longrightarrow> list_all2 forwardStep ts (decideTask outcome i ts)"
  by (auto simp: decideTask_def list_all2_conv_all_nth nth_list_update forwardStep_def)

lemma handleConfig_steps:
  assumes "handleConfig config cmd ts = Inr res"
  shows "list_all2 forwardStep ts (nr_Tasks res)" "nr_State res = None"
    "nr_Disposition res \<in> {DispositionWaiting, DispositionContinue, DispositionReject}"
    "nr_Disposition res = DispositionWaiting \<longleftrightarrow> (\<exists>t\<in>set (nr_Tasks res). active t)"
    "nr_Disposition res = DispositionWaiting \<longrightarrow> nr_Outcome res = []"
proof -
  obtain i where i: "taskIndexOf (c_TaskID cmd) ts = Some i"
    using assms by (auto simp: handleConfig_def split: option.splits)
  from i[unfolded taskIndexOf_iff] have lt: "i < length ts" by simp
  have act: "active (ts ! i)" using assms by (auto simp: handleConfig_def i split: if_splits)
  note step = decideTask_step[OF lt act]
  have close: "list_all2 forwardStep ts (closeActiveTasks (decideTask outcome i ts))"
    if "outcome \<noteq> []" for outcome
    by (rule list_all2_trans[OF forwardStep_trans step[OF that] closeActive_step])
  have "list_all2 forwardStep ts (nr_Tasks res) \<and> nr_State res = None \<and>
    nr_Disposition res \<in> {DispositionWaiting, DispositionContinue, DispositionReject} \<and>
    (nr_Disposition res = DispositionWaiting \<longleftrightarrow> (\<exists>t\<in>set (nr_Tasks res). active t)) \<and>
    (nr_Disposition res = DispositionWaiting \<longrightarrow> nr_Outcome res = [])"
    using assms step close closeActive_inactive
    by (auto simp: handleConfig_def i Let_def decideTask_def[symmetric] hasActiveTask_def list_ex_iff
        split: if_splits)
  then show "list_all2 forwardStep ts (nr_Tasks res)" "nr_State res = None"
    "nr_Disposition res \<in> {DispositionWaiting, DispositionContinue, DispositionReject}"
    "nr_Disposition res = DispositionWaiting \<longleftrightarrow> (\<exists>t\<in>set (nr_Tasks res). active t)"
    "nr_Disposition res = DispositionWaiting \<longrightarrow> nr_Outcome res = []"
    by blast+
qed

lemma handleConfig_acceptable:
  assumes "handleConfig config cmd (nodeTasks (i_Tasks f) nodeID) = Inr res" and "nodeID \<noteq> []"
    and "distinct (map t_ID (nodeTasks (i_Tasks f) nodeID))"
    and "\<forall>t\<in>set (nodeTasks (i_Tasks f) nodeID). t_ID t \<noteq> []"
  shows "isOk (prepareCommandNodeResult (Some f) nodeID res)"
proof -
  note steps = handleConfig_steps[OF assms(1)]
  have "map t_ID (nr_Tasks res) = map t_ID (nodeTasks (i_Tasks f) nodeID)"
    using steps(1) by (auto simp: list_all2_conv_all_nth forwardStep_def intro: nth_equalityI)
  then have "distinct (map t_ID (nr_Tasks res))" "\<forall>u\<in>set (nr_Tasks res). t_ID u \<noteq> []"
    using assms(3,4) by (metis, metis image_iff list.set_map)
  from replacements_complete[OF steps(1) this] obtain rs where
    "prepareNodeTaskReplacements (Some f) nodeID (nr_Tasks res) = Inr rs" "map snd rs = nr_Tasks res"
    by blast
  then show ?thesis
    using steps(2-5) assms(2) unfolding isOk_iff prepareCommand_iff acceptable_def
    by (metis insertE validJSON_None)
qed

subsection \<open>Decision semantics\<close>

definition decidedTasks :: "string \<Rightarrow> bool \<Rightarrow> nat \<Rightarrow> Task list \<Rightarrow> Task list \<Rightarrow> bool" where
  \<comment> \<open>task \<open>i\<close> is completed with an outcome; \<open>final\<close> says whether the other active tasks are closed\<close>
  "decidedTasks outcome final i ts us \<longleftrightarrow> length us = length ts \<and>
     us ! i = (ts ! i)\<lparr>t_Status := TaskStatusCompleted, t_Outcome := outcome\<rparr> \<and>
     (\<forall>j<length ts. j \<noteq> i \<longrightarrow> us ! j =
        (if final \<and> t_Status (ts ! j) = TaskStatusActive then (ts ! j)\<lparr>t_Status := TaskStatusClosed\<rparr> else ts ! j))"

lemma decided_open: "i < length ts \<Longrightarrow> decidedTasks outcome False i ts (decideTask outcome i ts)"
  by (simp add: decidedTasks_def decideTask_def)

lemma decided_final: "i < length ts \<Longrightarrow> decidedTasks outcome True i ts (closeActiveTasks (decideTask outcome i ts))"
  by (simp add: decidedTasks_def decideTask_def closeActiveTasks_def)

lemma taskIndexOf_None: "taskIndexOf k ts = None \<longleftrightarrow> (\<forall>t\<in>set ts. t_ID t \<noteq> k)"
  by (induction ts) auto

lemma otherActive:
  "i < length ts \<Longrightarrow> hasActiveTask (decideTask outcome i ts) \<longleftrightarrow> (\<exists>j<length ts. j \<noteq> i \<and> active (ts ! j))"
  unfolding hasActiveTask_def decideTask_def list_ex_length by (auto simp: nth_list_update split: if_splits)

subsection \<open>Prepared and legacy execution agree\<close>

lemma prepared_executor:
  assumes "prepareRegisteredNodeHandler (Some (NewHandlerWithOrganization org)) config = Inr h"
  shows "\<exists>c. parseConfig config = Inr c \<and> ActivatePrepared h = Approval_ActivatePrepared org c \<and>
    HandlePrepared h = Approval_HandlePrepared c"
  using assms
  by (auto simp: prepareRegisteredNodeHandler_def NewHandlerWithOrganization_def
      Approval_PrepareConfig_def bindR_Inr_iff split: option.splits)

lemma legacy_Activate:
  "parseConfig config = Inr c \<Longrightarrow>
   Approval_Activate org \<lparr>ai_Config = config, ai_Data = data\<rparr> =
     Approval_ActivatePrepared org c \<lparr>pai_Data = data\<rparr>"
  by (auto simp: Approval_Activate_def Approval_ActivatePrepared_def bindE_def liftR_def fun_eq_iff
      split: option.splits)

lemma legacy_Handle:
  "parseConfig config = Inr c \<Longrightarrow>
   Approval_Handle \<lparr>ci_Command = cmd, ci_Config = config, ci_Data = data, ci_State = st, ci_Tasks = ts\<rparr> =
     Approval_HandlePrepared c \<lparr>pci_Command = cmd, pci_Data = data, pci_State = st, pci_Tasks = ts\<rparr>"
  by (auto simp: Approval_Handle_def Approval_HandlePrepared_def bindE_def liftR_def fun_eq_iff
      split: option.splits)

subsection \<open>Approval nodes return\<close>

definition organizationReturns :: "'h OrganizationAdapter option \<Rightarrow> bool" where
  "organizationReturns organization \<longleftrightarrow>
     (\<forall>resolveRole. organization = Some resolveRole \<longrightarrow> (\<forall>role data w. resolveRole role data w \<noteq> None))"

lemma activateConfig_returns:
  assumes "organizationReturns organization"
  shows "activateConfig organization config data w \<noteq> None"
proof -
  have org: "resolveRole role data w \<noteq> None" if "organization = Some resolveRole" for resolveRole role data w
    using assms that unfolding organizationReturns_def by blast
  show ?thesis
    by (auto simp: activateConfig_def bindE_None_iff ret_def raise_def liftR_def org
        simp del: not_None_eq split: option.splits)
qed

lemma approval_handlers_return:
  assumes "\<And>k h. registry k = Some h \<Longrightarrow> \<exists>org. h = NewHandlerWithOrganization org \<and> organizationReturns org"
  shows "handlersReturnFor (Some registry) d"
  unfolding handlersReturnFor_def
proof (intro allI impI)
  fix plan k h
  assume plan: "compileDefinition (Some d) (Some registry) = Inr plan" and "plan_preparedHandler plan k = Inr h"
  then obtain n where "nodeExecutor (Some registry) n = Inr h"
    using plan_handler_executor[OF compile_planWf(1)] by blast
  then obtain g where g: "registry (nd_Kind n) = Some g"
    "prepareRegisteredNodeHandler (Some g) (nd_Config n) = Inr h"
    by (auto simp: nodeExecutor_def bindR_Inr_iff Registry_handler_def split: option.splits)
  obtain org where org: "g = NewHandlerWithOrganization org" "organizationReturns org"
    using assms[OF g(1)] by blast
  obtain c where "ActivatePrepared h = Approval_ActivatePrepared org c" "HandlePrepared h = Approval_HandlePrepared c"
    using prepared_executor g(2) unfolding org(1) by blast
  then show "(\<forall>input w. ActivatePrepared h input w \<noteq> None) \<and> (\<forall>input w. HandlePrepared h input w \<noteq> None)"
    using activateConfig_returns[OF org(2)]
    by (simp add: Approval_ActivatePrepared_def Approval_HandlePrepared_def bindE_None_iff liftR_def
        del: not_None_eq)
qed
end
