(* ===== verification/Examples.thy ===== *)
theory Examples
  imports Clients Publication Approval
begin

text \<open>
  Concrete values on which the properties are exercised: a two-step approval workflow, its
  registry, an engine over \<open>MemoryStore\<close>, and the states it runs through. Evaluation goes
  through the definitions of the model, JSON configuration included.
\<close>

definition demoConfig :: string where
  "demoConfig = ''{'' @ [CHR 0x22] @ ''mode'' @ [CHR 0x22] @ '':'' @ [CHR 0x22] @ ''any'' @ [CHR 0x22] @
     '','' @ [CHR 0x22] @ ''assignees'' @ [CHR 0x22] @ '':['' @ [CHR 0x22] @ ''ann'' @ [CHR 0x22] @ '']}''"

definition demoDefinition :: Definition where
  "demoDefinition = \<lparr>d_ID = ''leave'', d_Version = 1,
     d_Nodes = [\<lparr>nd_ID = ''s'', nd_Kind = KindStart, nd_Config = None\<rparr>,
                \<lparr>nd_ID = ''a'', nd_Kind = approvalKind, nd_Config = Some demoConfig\<rparr>,
                \<lparr>nd_ID = ''b'', nd_Kind = approvalKind, nd_Config = Some demoConfig\<rparr>,
                \<lparr>nd_ID = ''e'', nd_Kind = KindEnd, nd_Config = None\<rparr>],
     d_Edges = [\<lparr>e_From = ''s'', e_To = ''a'', e_Outcome = []\<rparr>,
                \<lparr>e_From = ''a'', e_To = ''b'', e_Outcome = OutcomeApproved\<rparr>,
                \<lparr>e_From = ''b'', e_To = ''e'', e_Outcome = OutcomeApproved\<rparr>]\<rparr>"

definition demoRegistry :: "unit Registry" where
  "demoRegistry = [approvalKind \<mapsto> NewHandler]"

definition demoEngine :: "(unit, MemoryStore) Engine option" where
  "demoEngine = Some (NewEngine (Some MemoryStore_ops) (Some demoRegistry))"

definition demoStart :: StartRequest where
  "demoStart = \<lparr>sr_ID = ''i1'', sr_Initiator = ''joe'', sr_Data = None\<rparr>"

definition demoEnv :: "unit env" where
  "demoEnv = quietEnv ()"

definition laterEnv :: "unit env" where
  \<comment> \<open>the environment of the next request: fresh entropy, later clock\<close>
  "laterEnv = demoEnv\<lparr>entropy_pos := 1, clock_pos := 2\<rparr>"

definition latestEnv :: "unit env" where
  "latestEnv = demoEnv\<lparr>entropy_pos := 2, clock_pos := 4\<rparr>"

lemma demo_uncancelled: "uncancelled demoEnv" "uncancelled laterEnv" "uncancelled latestEnv"
  by (simp_all add: uncancelled_def demoEnv_def laterEnv_def latestEnv_def quietEnv_def)

subsection \<open>Outcomes of runs\<close>

definition ranTo :: "'a \<Rightarrow> ('a result \<times> 'w) option \<Rightarrow> bool" where
  "ranTo x r = (case r of Some (Inr y, _) \<Rightarrow> y = x | _ \<Rightarrow> False)"

definition failedWith :: "err \<Rightarrow> ('a result \<times> 'w) option \<Rightarrow> bool" where
  "failedWith e r = (case r of Some (Inl e', _) \<Rightarrow> e' = e | _ \<Rightarrow> False)"

lemma ranTo_iff: "ranTo x r \<longleftrightarrow> (\<exists>w. r = Some (Inr x, w))"
  by (auto simp: ranTo_def split: option.split sum.split)

lemma failedWith_iff: "failedWith e r \<longleftrightarrow> (\<exists>w. r = Some (Inl e, w))"
  by (auto simp: failedWith_def split: option.split sum.split)

subsection \<open>The states of the workflow\<close>

definition demoTaskID :: "nat \<Rightarrow> TaskID" where
  "demoTaskID k = ''task_'' @ hexEncode (replicate 15 (CHR 0x00) @ [char_of k])"

definition demoTask :: "nat \<Rightarrow> string \<Rightarrow> ActorID \<Rightarrow> TaskStatus \<Rightarrow> string \<Rightarrow> Task" where
  "demoTask k node assignee status outcome = \<lparr>t_ID = demoTaskID k, t_NodeID = node,
     t_Assignee = assignee, t_Status = status, t_Outcome = outcome\<rparr>"

definition demoAudit :: "AuditRecord list" where
  "demoAudit = [emptyAudit\<lparr>a_Action := auditInstanceStarted, a_NodeID := ''s'', a_ActorID := ''joe'', a_At := 1\<rparr>,
     emptyAudit\<lparr>a_Action := auditNodeEntered, a_NodeID := ''a'', a_At := 2\<rparr>]"

definition demoApproved :: "AuditRecord list" where
  "demoApproved = demoAudit @ [emptyAudit\<lparr>a_Action := auditTaskActionPrefix @ CommandApprove,
       a_NodeID := ''a'', a_TaskID := demoTaskID 0, a_ActorID := ''ann'', a_At := 3\<rparr>,
     emptyAudit\<lparr>a_Action := auditNodeEntered, a_NodeID := ''b'', a_At := 4\<rparr>]"

definition demoAtA :: Instance where
  \<comment> \<open>after the start: waiting on node \<open>a\<close>\<close>
  "demoAtA = \<lparr>i_ID = ''i1'', i_Definition = demoDefinition, i_Status = InstanceStatusRunning,
     i_Initiator = ''joe'', i_CurrentNodeID = ''a'', i_Data = None, i_NodeState = None,
     i_Tasks = [demoTask 0 ''a'' ''ann'' TaskStatusActive []], i_Audit = demoAudit, i_Version = 1\<rparr>"

definition demoAtB :: Instance where
  \<comment> \<open>after the approval of node \<open>a\<close>: waiting on node \<open>b\<close>\<close>
  "demoAtB = demoAtA\<lparr>i_CurrentNodeID := ''b'',
     i_Tasks := [demoTask 0 ''a'' ''ann'' TaskStatusCompleted OutcomeApproved,
                 demoTask 1 ''b'' ''ann'' TaskStatusActive []],
     i_Audit := demoApproved, i_Version := 2\<rparr>"

definition demoStoreA :: MemoryStore where
  "demoStoreA = NewMemoryStore(''i1'' \<mapsto> demoAtA)"

definition demoStoreB :: MemoryStore where
  "demoStoreB = NewMemoryStore(''i1'' \<mapsto> demoAtB)"

lemma demo_settled: "settled demoAtA" "waiting demoAtA" "waiting demoAtB" "settled demoAtB"
  by (simp_all add: settled_def waiting_def activeHere_def demoAtA_def demoAtB_def demoTask_def)

lemma demo_storeOk: "storeOk NewMemoryStore" "storeOk demoStoreA" "storeOk demoStoreB"
  using demo_settled
  by (simp_all add: storeOk_def demoStoreA_def demoStoreB_def NewMemoryStore_def)
    (simp_all add: demoAtA_def demoAtB_def)

subsection \<open>Requests\<close>

definition demoCommand :: "ActorID \<Rightarrow> Command" where
  "demoCommand actor = \<lparr>c_InstanceID = ''i1'', c_TaskID = demoTaskID 0, c_ActorID = actor,
     c_Name = CommandApprove, c_Payload = None\<rparr>"

definition demoWithdraw :: WithdrawRequest where
  "demoWithdraw = \<lparr>wr_InstanceID = ''i1'', wr_ActorID = ''joe''\<rparr>"

definition demoReturn :: ReturnRequest where
  "demoReturn = \<lparr>rr_InstanceID = ''i1'', rr_ActorID = ''ann'', rr_TargetNodeID = ''a'', rr_Reason = ''again''\<rparr>"

definition demoTransfer :: TransferRequest where
  "demoTransfer = \<lparr>tr_InstanceID = ''i1'', tr_TaskID = demoTaskID 0, tr_ActorID = ''ann'',
     tr_NewAssignee = ''bob'', tr_Reason = ''away''\<rparr>"

definition demoWithdrawn :: Instance where
  "demoWithdrawn = demoAtA\<lparr>i_Status := InstanceStatusWithdrawn,
     i_Tasks := [demoTask 0 ''a'' ''ann'' TaskStatusClosed []],
     i_Audit := demoAudit @ [emptyAudit\<lparr>a_Action := auditInstanceWithdrawn, a_NodeID := ''a'',
       a_ActorID := ''joe'', a_At := 3\<rparr>], i_Version := 2\<rparr>"

definition demoReturned :: Instance where
  "demoReturned = demoAtB\<lparr>i_CurrentNodeID := ''a'',
     i_Tasks := [demoTask 0 ''a'' ''ann'' TaskStatusCompleted OutcomeApproved,
                 demoTask 1 ''b'' ''ann'' TaskStatusClosed [], demoTask 2 ''a'' ''ann'' TaskStatusActive []],
     i_Audit := demoApproved @ [emptyAudit\<lparr>a_Action := auditInstanceReturned, a_NodeID := ''b'',
         a_TargetNodeID := ''a'', a_ActorID := ''ann'', a_Reason := ''again'', a_At := 5\<rparr>,
       emptyAudit\<lparr>a_Action := auditNodeEntered, a_NodeID := ''a'', a_At := 6\<rparr>], i_Version := 3\<rparr>"

definition demoTransferred :: Instance where
  "demoTransferred = demoAtA\<lparr>
     i_Tasks := [demoTask 0 ''a'' ''ann'' TaskStatusClosed [], demoTask 1 ''a'' ''bob'' TaskStatusActive []],
     i_Audit := demoAudit @ [emptyAudit\<lparr>a_Action := auditTaskTransferred, a_InstanceID := ''i1'',
       a_NodeID := ''a'', a_TaskID := demoTaskID 0, a_ActorID := ''ann'', a_PreviousAssignee := ''ann'',
       a_NewAssignee := ''bob'', a_Reason := ''away'', a_At := 3\<rparr>], i_Version := 2\<rparr>"

subsection \<open>Runs\<close>

lemma demo_config: "parseConfig (Some demoConfig) = Inr \<lparr>cf_Mode = ModeAny, cf_Assignees = [''ann''],
    cf_Policy = None, cf_RejectedOutcome = []\<rparr>"
  by code_simp

lemma demo_start: "ranTo demoAtA
    (Start demoEngine (Some demoDefinition) demoStart (demoEnv, NewMemoryStore))"
  by code_simp

lemma demo_handle: "ranTo demoAtB (Handle demoEngine (demoCommand ''ann'') (laterEnv, demoStoreA))"
  by code_simp

lemma demo_handle_other: "failedWith [ErrInvalidCommand]
    (Handle demoEngine (demoCommand ''bob'') (laterEnv, demoStoreA))"
  by code_simp

lemma demo_withdraw: "ranTo demoWithdrawn
    (Withdraw demoEngine demoWithdraw (Some (\<lambda>_ _. ret ())) (laterEnv, demoStoreA))"
  by code_simp

lemma demo_return: "ranTo demoReturned
    (Return demoEngine demoReturn (Some (\<lambda>_ _. ret ())) (latestEnv, demoStoreB))"
  by code_simp

lemma demo_transfer: "ranTo demoTransferred
    (Transfer demoEngine demoTransfer (Some (\<lambda>_ _ _. ret ())) (laterEnv, demoStoreA))"
  by code_simp

lemma demo_returns: "handlersReturnFor (Some demoRegistry) d"
  unfolding demoRegistry_def
  by (rule approval_handlers_return)
    (auto simp: NewHandler_def organizationReturns_def split: if_splits)

lemma demo_engine: "Option.bind demoEngine e_store = Some MemoryStore_ops"
  "Option.bind demoEngine e_registry = Some demoRegistry"
  by (simp_all add: demoEngine_def NewEngine_def)

lemma demo_compiles: "isOk (compileDefinition (Some demoDefinition) (Some demoRegistry))"
  by code_simp

lemma demo_compilable: "compilable (Some demoRegistry) demoDefinition"
  using demo_compiles unfolding compileDefinition_total[symmetric] isOk_iff .

subsection \<open>Interleaved clients\<close>

lemma demo_start_candidate: "ranTo demoAtA
    (startCandidate (Some demoRegistry) (Some demoDefinition) demoStart demoEnv)"
  by code_simp

lemma demo_command_candidate: "ranTo demoAtB
    (commandCandidate (handleCommand (Some demoRegistry) (demoCommand ''ann'')) demoAtA laterEnv)"
  by code_simp

definition demoInFlight :: system where
  \<comment> \<open>one client has loaded the instance and computed its candidate\<close>
  "demoInFlight = (demoStoreA, Map.empty(0 \<mapsto> (demoAtA, demoAtB)))"

lemma demo_ids: "i_ID demoAtA = ''i1''" "i_ID demoAtB = ''i1''" "i_Status demoAtA = InstanceStatusRunning"
  "i_Version demoAtA = 1" "i_Version demoAtB = 2" "auditKept (i_Audit demoAtA) (i_Audit demoAtB)"
  by (simp_all add: demoAtA_def demoAtB_def demoApproved_def auditKept_def)

lemma demo_in_flight: "(sysStep (Some demoRegistry))\<^sup>*\<^sup>* initSystem demoInFlight"
proof -
  obtain w1 where c: "startCandidate (Some demoRegistry) (Some demoDefinition) demoStart demoEnv = Some (Inr demoAtA, w1)"
    using demo_start_candidate by (auto simp: ranTo_iff)
  obtain w2 where cr: "MemoryStore_Create (Some ()) (Some demoAtA) (demoEnv, NewMemoryStore) = Some (Inr (), (w2, demoStoreA))"
    using store_uncancelled(1)[OF demo_uncancelled(1), of demoAtA NewMemoryStore]
    by (auto simp: demo_ids demoStoreA_def NewMemoryStore_def)
  obtain w3 where lo: "MemoryStore_Load (Some ()) ''i1'' (laterEnv, demoStoreA) = Some (Inr demoAtA, (w3, demoStoreA))"
    using store_uncancelled(2)[OF demo_uncancelled(2), of "''i1''" demoStoreA]
    by (auto simp: demoStoreA_def)
  have "engineCandidate (Some demoRegistry) laterEnv demoAtA demoAtB"
    using demo_command_candidate unfolding engineCandidate_def ranTo_iff by blast
  from sysStep.start[OF c cr] sysStep.load[OF lo demo_ids(3) this] show ?thesis
    unfolding initSystem_def demoInFlight_def by (meson converse_rtranclp_into_rtranclp rtranclp.rtrancl_refl)
qed

lemma demo_save: "\<exists>w'. MemoryStore_Save (Some ()) (Some demoAtB) (i_Version demoAtA) (laterEnv, demoStoreA) =
    Some (Inr (), (w', demoStoreB))"
  using store_uncancelled(3)[OF demo_uncancelled(2), of demoAtB "i_Version demoAtA" demoStoreA] demo_ids
  by (auto simp: demoStoreA_def demoStoreB_def NewMemoryStore_def)

subsection \<open>Publication\<close>

definition demoPublisher :: "(unit, MemoryDefinitionStore) DefinitionPublisher option" where
  "demoPublisher = Some (NewDefinitionPublisher
     (Some (MemoryDefinitionStore_CreateVersion (Some ()))) (Some demoRegistry))"

definition demoPublished :: MemoryDefinitionStore where
  "demoPublished = NewMemoryDefinitionStore(''leave'' := [demoDefinition])"

lemma demo_publish: "ranTo (Some demoDefinition)
    (Publish demoPublisher (Some demoDefinition) (demoEnv, NewMemoryDefinitionStore))"
  by code_simp

lemma demo_room: "defsRoom NewMemoryDefinitionStore" "defsRoom demoPublished"
  by (simp_all add: defsRoom_def NewMemoryDefinitionStore_def demoPublished_def)

lemma demo_load: "ranTo (Some demoDefinition)
    (MemoryDefinitionStore_Load (Some ()) ''leave'' 1 (demoEnv, demoPublished))"
  by code_simp

lemma demo_latest: "ranTo (Some demoDefinition)
    (MemoryDefinitionStore_LoadLatest (Some ()) ''leave'' (demoEnv, demoPublished))"
  by code_simp

end
