(* ===== verification/Decimal.thy ===== *)
theory Decimal
  imports Json
begin

text \<open>
  Decimal text: the value of a digit string, fixed-width and free-width printing, and the
  part of \<open>strconv\<close> the row codecs use (\<open>FormatUint\<close> and \<open>ParseUint\<close> in base 10).

  Main facts: \<open>digitsValue_fixedDigits\<close>, \<open>fixedDigits_take\<close>, \<open>ParseUint_FormatUint\<close>.
\<close>

definition digitsValue :: "string \<Rightarrow> nat" where
  "digitsValue ds = foldl (\<lambda>n c. n * 10 + (byte c - 48)) 0 ds"

definition digits :: "string \<Rightarrow> bool" where
  "digits s \<longleftrightarrow> s \<noteq> [] \<and> list_all is_digit s"

lemma not_digit [simp]: "\<not> is_digit CHR ''.''" "\<not> is_digit CHR ''e''" "\<not> is_digit CHR ''-''" "\<not> is_digit CHR ''E''" "\<not> is_digit CHR ''+''"
  by (simp_all add: is_digit_def)

lemma span_digits:
  "list_all is_digit ds \<Longrightarrow> (rest = [] \<or> \<not> is_digit (hd rest)) \<Longrightarrow>
   takeWhile is_digit (ds @ rest) = ds \<and> dropWhile is_digit (ds @ rest) = rest"
  by (cases rest) (auto simp: list_all_iff takeWhile_append dropWhile_append)

lemma digitsValue_simps [simp]:
  "digitsValue [] = 0" "digitsValue (ds @ [c]) = digitsValue ds * 10 + (byte c - 48)"
  by (simp_all add: digitsValue_def)

subsection \<open>Printing\<close>

definition digitChar :: "nat \<Rightarrow> char" where
  "digitChar d = char_of (48 + d mod 10)"

lemma byte_digitChar [simp]: "byte (digitChar d) = 48 + d mod 10"
  unfolding digitChar_def of_char_of by (rule mod_less) linarith

lemma is_digit_digitChar [simp]: "is_digit (digitChar d)"
  by (simp add: is_digit_def)

lemma digitChar_neq [simp]:
  assumes "\<not> is_digit c" shows "digitChar d \<noteq> c" "c \<noteq> digitChar d"
  using assms is_digit_digitChar by metis+

fun fixedDigits :: "nat \<Rightarrow> nat \<Rightarrow> string" where
  \<comment> \<open>the last \<open>w\<close> decimal digits of \<open>n\<close>\<close>
  "fixedDigits 0 n = []"
| "fixedDigits (Suc w) n = fixedDigits w (n div 10) @ [digitChar n]"

lemma length_fixedDigits [simp]: "length (fixedDigits w n) = w"
  by (induction w arbitrary: n) auto

lemma fixedDigits_digits [simp]: "list_all is_digit (fixedDigits w n)"
  by (induction w arbitrary: n) auto

lemma digitsValue_fixedDigits [simp]: "digitsValue (fixedDigits w n) = n mod 10 ^ w"
proof (induction w arbitrary: n)
  case (Suc w)
  have "n mod 10 ^ Suc w = 10 * (n div 10 mod 10 ^ w) + n mod 10"
    by (simp add: mod_mult2_eq)
  with Suc show ?case by simp
qed simp

fun FormatUint :: "nat \<Rightarrow> string" where
  "FormatUint n = (if n < 10 then [digitChar n] else FormatUint (n div 10) @ [digitChar n])"

declare FormatUint.simps [simp del]

lemma digitsValue_FormatUint [simp]: "digitsValue (FormatUint n) = n"
proof (induction n rule: FormatUint.induct)
  case (1 n)
  have "digitsValue [digitChar n] = n mod 10"
    using digitsValue_simps(2)[of "[]" "digitChar n"] by simp
  with 1 show ?case by (subst FormatUint.simps) auto
qed

lemma digits_FormatUint [simp]: "digits (FormatUint n)"
proof (induction n rule: FormatUint.induct)
  case (1 n)
  then show ?case by (subst FormatUint.simps) (auto simp: digits_def)
qed

lemma FormatUint_leading:
  "FormatUint n = CHR ''0'' # cs \<Longrightarrow> n = 0"
proof (induction n arbitrary: cs rule: FormatUint.induct)
  case (1 n)
  show ?case
  proof (cases "n < 10")
    case True
    then have "digitChar n = CHR ''0''" using "1.prems" by (simp add: FormatUint.simps)
    then have "byte (digitChar n) = 48" by simp
    then show ?thesis using True by simp
  next
    case False
    moreover have "FormatUint (n div 10) \<noteq> []" using digits_FormatUint by (auto simp: digits_def)
    ultimately obtain cs' where "FormatUint (n div 10) = CHR ''0'' # cs'"
      using "1.prems" by (cases "FormatUint (n div 10)") (auto simp: FormatUint.simps[of n])
    with "1.IH" False have "n div 10 = 0" by blast
    with False show ?thesis by simp
  qed
qed

subsection \<open>Parsing\<close>

definition ParseUint :: "string \<Rightarrow> u64 result" where
  \<comment> \<open>\<open>strconv.ParseUint(s, 10, 64)\<close>: digits only, in range\<close>
  "ParseUint s =
     (if \<not> digits s then Inl []
      else if digitsValue s < 2 ^ 64 then Inr (word_of_nat (digitsValue s)) else Inl [])"

lemma ParseUint_FormatUint [simp]: "ParseUint (FormatUint (unat v)) = Inr v"
  using unsigned_less[of v] by (simp add: ParseUint_def)

lemma ParseUint_FormatUint_large: "ParseUint (FormatUint n) = (if n < 2 ^ 64 then Inr (word_of_nat n) else Inl [])"
  by (simp add: ParseUint_def)

lemma utf8_Valid_ascii_only: "\<forall>c\<in>set s. byte c < 128 \<Longrightarrow> utf8_Valid s"
  by (induction s) (auto simp: utf8_lead_def)

end
