(* ===== verification/Condition.thy ===== *)
theory Condition
  imports EngineSpec JsonStrict Decimal Complex_Main "HOL-Library.Sublist" "HOL-Library.Multiset"
begin

text \<open>
  The condition node of \<open>condition/condition.go\<close>: its closed configuration schema, JSON
  pointers, exact decimal numbers, the typed expressions and the rule that exactly one rule
  may match.

  A value of Go type \<open>any\<close> that \<open>encoding/json\<close> decoded with \<open>UseNumber\<close> is a \<open>jvalue\<close>: \<open>nil\<close>
  is \<open>JNull\<close>, a \<open>json.Number\<close> is \<open>JNumber\<close> with its text, a \<open>map[string]any\<close> the members of a
  \<open>JObject\<close>, which are distinct because \<open>jsonstrict\<close> has checked them.
\<close>

subsection \<open>Names\<close>

definition conditionKind :: string where "conditionKind = ''condition''"
definition MatchAll :: string where "MatchAll = ''all''"
definition MatchAny :: string where "MatchAny = ''any''"
definition TypeString :: string where "TypeString = ''string''"
definition TypeNumber :: string where "TypeNumber = ''number''"
definition TypeBoolean :: string where "TypeBoolean = ''boolean''"
definition TypeCollection :: string where "TypeCollection = ''collection''"
definition OperatorEqual :: string where "OperatorEqual = ''eq''"
definition OperatorNotEqual :: string where "OperatorNotEqual = ''neq''"
definition OperatorContains :: string where "OperatorContains = ''contains''"
definition OperatorStartsWith :: string where "OperatorStartsWith = ''starts_with''"
definition OperatorEndsWith :: string where "OperatorEndsWith = ''ends_with''"
definition OperatorGreaterThan :: string where "OperatorGreaterThan = ''gt''"
definition OperatorGreaterOrEqual :: string where "OperatorGreaterOrEqual = ''gte''"
definition OperatorLessThan :: string where "OperatorLessThan = ''lt''"
definition OperatorLessOrEqual :: string where "OperatorLessOrEqual = ''lte''"
definition OperatorContainsAny :: string where "OperatorContainsAny = ''contains_any''"
definition OperatorContainsAll :: string where "OperatorContainsAll = ''contains_all''"

lemmas condition_names = conditionKind_def MatchAll_def MatchAny_def TypeString_def TypeNumber_def
  TypeBoolean_def TypeCollection_def OperatorEqual_def OperatorNotEqual_def OperatorContains_def
  OperatorStartsWith_def OperatorEndsWith_def OperatorGreaterThan_def OperatorGreaterOrEqual_def
  OperatorLessThan_def OperatorLessOrEqual_def OperatorContainsAny_def OperatorContainsAll_def

record Expression =
  ex_Field :: string
  ex_Type :: string
  ex_Operator :: string
  ex_Value :: jvalue

record Rule =
  ru_Match :: string
  ru_Conditions :: "Expression list"
  ru_Outcome :: string

record ConditionConfig =
  cc_Rules :: "Rule list"
  cc_DefaultOutcome :: string

subsection \<open>JSON pointers\<close>

fun splitSlash :: "string \<Rightarrow> string list" where
  \<comment> \<open>\<open>strings.Split(s, "/")\<close>\<close>
  "splitSlash [] = [[]]"
| "splitSlash (c # cs) =
     (if c = CHR ''/'' then [] # splitSlash cs
      else case splitSlash cs of
          [] \<Rightarrow> [[c]]
        | t # ts \<Rightarrow> (c # t) # ts)"

fun decodeToken :: "string \<Rightarrow> string result" where
  \<comment> \<open>the loop of \<open>parsePointer\<close> over the bytes of one raw token\<close>
  "decodeToken [] = Inr []"
| "decodeToken (c # cs) =
     (if c \<noteq> CHR ''~'' then bindR (decodeToken cs) (\<lambda>t. Inr (c # t))
      else case cs of
          [] \<Rightarrow> Inl [ConditionErrInvalidPointer]
        | d # ds \<Rightarrow>
            if d = CHR ''0'' then bindR (decodeToken ds) (\<lambda>t. Inr (CHR ''~'' # t))
            else if d = CHR ''1'' then bindR (decodeToken ds) (\<lambda>t. Inr (CHR ''/'' # t))
            else Inl [ConditionErrInvalidPointer])"

fun decodeTokens :: "string list \<Rightarrow> string list result" where
  "decodeTokens [] = Inr []"
| "decodeTokens (raw # rest) =
     bindR (decodeToken raw) (\<lambda>t. bindR (decodeTokens rest) (\<lambda>ts. Inr (t # ts)))"

definition parsePointer :: "string \<Rightarrow> string list result" where
  "parsePointer pointer = (case pointer of
      [] \<Rightarrow> Inl [ConditionErrInvalidPointer]
    | c # cs \<Rightarrow> if c \<noteq> CHR ''/'' then Inl [ConditionErrInvalidPointer]
                else decodeTokens (splitSlash cs))"

fun lookupTokens :: "jvalue \<Rightarrow> string list \<Rightarrow> jvalue option" where
  "lookupTokens current [] = Some current"
| "lookupTokens current (token # rest) = (case current of
      JObject ms \<Rightarrow> (case map_of ms token of
          None \<Rightarrow> None
        | Some v \<Rightarrow> lookupTokens v rest)
    | _ \<Rightarrow> None)"

definition lookupField :: "(string \<times> jvalue) list \<Rightarrow> string \<Rightarrow> jvalue option" where
  "lookupField data pointer = (case parsePointer pointer of
      Inl _ \<Rightarrow> None
    | Inr tokens \<Rightarrow> lookupTokens (JObject data) tokens)"

subsection \<open>Exact numbers\<close>

definition scanExponent :: "string \<Rightarrow> int option" where
  \<comment> \<open>\<open>math/big\<close>: the decimal exponent at the end of a number\<close>
  "scanExponent s3 = (case s3 of
       [] \<Rightarrow> Some 0
     | c # cs \<Rightarrow>
         if c \<noteq> CHR ''e'' \<and> c \<noteq> CHR ''E'' then None
         else let (eneg, ds) = (case cs of
                  d # ds \<Rightarrow> if d = CHR ''-'' then (True, ds)
                            else if d = CHR ''+'' then (False, ds) else (False, cs)
                | [] \<Rightarrow> (False, []))
              in if ds = [] \<or> \<not> list_all is_digit ds then None
                 else Some (if eneg then - int (digitsValue ds) else int (digitsValue ds)))"

definition Rat_SetString :: "string \<Rightarrow> rat option" where
  \<comment> \<open>\<open>(*big.Rat).SetString\<close> on the text of a JSON number: sign, digits, optional fraction and
      exponent, nothing left over; the exponent must fit \<open>int64\<close>, and for a non-zero mantissa
      the power of ten must not exceed a million in magnitude\<close>
  "Rat_SetString s =
     (let (neg, s1) = (case s of c # cs \<Rightarrow> if c = CHR ''-'' then (True, cs) else (False, s) | [] \<Rightarrow> (False, s));
          ip = takeWhile is_digit s1; s2 = dropWhile is_digit s1;
          (fp, s3) = (case s2 of c # cs \<Rightarrow>
              if c = CHR ''.'' then (takeWhile is_digit cs, dropWhile is_digit cs) else ([], s2)
            | [] \<Rightarrow> ([], s2));
          mant = digitsValue (ip @ fp)
      in if ip @ fp = [] then None
         else case scanExponent s3 of
             None \<Rightarrow> None
           | Some ex \<Rightarrow>
               if ex < - (2 ^ 63) \<or> 2 ^ 63 \<le> ex then None
               else if mant = 0 then Some 0
               else let exp5 = ex - int (length fp) in
                 if \<bar>exp5\<bar> > 1000000 then None
                 else let v = (if exp5 < 0 then of_nat mant / 10 ^ nat (- exp5)
                               else of_nat mant * 10 ^ nat exp5)
                      in Some (if neg then - v else v))"

definition parseConditionNumber :: "string \<Rightarrow> rat result" where
  "parseConditionNumber value = (case Rat_SetString value of
      None \<Rightarrow> Inl [OtherError ''invalid number'']
    | Some parsed \<Rightarrow> Inr parsed)"

definition Rat_Cmp :: "rat \<Rightarrow> rat \<Rightarrow> int" where
  "Rat_Cmp a b = (if a < b then - 1 else if a = b then 0 else 1)"

definition compareNumbers :: "string \<Rightarrow> string \<Rightarrow> int result" where
  "compareNumbers left right =
     bindR (parseConditionNumber left) (\<lambda>leftValue.
     bindR (parseConditionNumber right) (\<lambda>rightValue.
     Inr (Rat_Cmp leftValue rightValue)))"

subsection \<open>Validation of expressions\<close>

definition isPrimitive :: "jvalue \<Rightarrow> bool" where
  "isPrimitive v = (case v of JString _ \<Rightarrow> True | JNumber _ \<Rightarrow> True | JBool _ \<Rightarrow> True | _ \<Rightarrow> False)"

definition validateConditionPrimitive :: "jvalue \<Rightarrow> unit result" where
  "validateConditionPrimitive v = (case v of
      JNumber number \<Rightarrow>
        wrapR [ConditionErrInvalidConfig] (bindR (parseConditionNumber number) (\<lambda>_. Inr ()))
    | _ \<Rightarrow> Inr ())"

fun validatePrimitives :: "jvalue list \<Rightarrow> unit result" where
  "validatePrimitives [] = Inr ()"
| "validatePrimitives (v # vs) = bindR (validateConditionPrimitive v) (\<lambda>_. validatePrimitives vs)"

definition validateStringExpression :: "Expression \<Rightarrow> unit result" where
  "validateStringExpression expression = (case ex_Value expression of
      JString _ \<Rightarrow>
        failIf (ex_Operator expression \<noteq> OperatorEqual \<and> ex_Operator expression \<noteq> OperatorNotEqual \<and>
                ex_Operator expression \<noteq> OperatorContains \<and> ex_Operator expression \<noteq> OperatorStartsWith \<and>
                ex_Operator expression \<noteq> OperatorEndsWith) [ConditionErrInvalidConfig]
    | _ \<Rightarrow> Inl [ConditionErrInvalidConfig])"

definition validateNumberExpression :: "Expression \<Rightarrow> unit result" where
  "validateNumberExpression expression = (case ex_Value expression of
      JNumber number \<Rightarrow>
        bindR (wrapR [ConditionErrInvalidConfig] (parseConditionNumber number)) (\<lambda>_.
        failIf (ex_Operator expression \<noteq> OperatorEqual \<and> ex_Operator expression \<noteq> OperatorNotEqual \<and>
                ex_Operator expression \<noteq> OperatorGreaterThan \<and> ex_Operator expression \<noteq> OperatorGreaterOrEqual \<and>
                ex_Operator expression \<noteq> OperatorLessThan \<and> ex_Operator expression \<noteq> OperatorLessOrEqual)
          [ConditionErrInvalidConfig])
    | _ \<Rightarrow> Inl [ConditionErrInvalidConfig])"

definition validateBooleanExpression :: "Expression \<Rightarrow> unit result" where
  "validateBooleanExpression expression = (case ex_Value expression of
      JBool _ \<Rightarrow>
        failIf (ex_Operator expression \<noteq> OperatorEqual \<and> ex_Operator expression \<noteq> OperatorNotEqual)
          [ConditionErrInvalidConfig]
    | _ \<Rightarrow> Inl [ConditionErrInvalidConfig])"

definition validateCollectionExpression :: "Expression \<Rightarrow> unit result" where
  "validateCollectionExpression expression =
     (if ex_Operator expression = OperatorContains then
        (if \<not> isPrimitive (ex_Value expression) then Inl [ConditionErrInvalidConfig]
         else validateConditionPrimitive (ex_Value expression))
      else if ex_Operator expression \<noteq> OperatorContainsAny \<and> ex_Operator expression \<noteq> OperatorContainsAll
      then Inl [ConditionErrInvalidConfig]
      else case ex_Value expression of
          JArray values \<Rightarrow>
            if values = [] then Inl [ConditionErrInvalidConfig]
            else if list_ex (\<lambda>v. \<not> isPrimitive v) values then Inl [ConditionErrInvalidConfig]
            else validatePrimitives values
        | _ \<Rightarrow> Inl [ConditionErrInvalidConfig])"

definition validateExpression :: "Expression \<Rightarrow> unit result" where
  "validateExpression expression =
     (if ex_Type expression = TypeString then validateStringExpression expression
      else if ex_Type expression = TypeNumber then validateNumberExpression expression
      else if ex_Type expression = TypeBoolean then validateBooleanExpression expression
      else if ex_Type expression = TypeCollection then validateCollectionExpression expression
      else Inl [ConditionErrInvalidConfig])"

subsection \<open>Configuration\<close>

definition ExpressionType :: gotype where
  "ExpressionType = GStruct
     [GField True False ''Field'' ''field'' GScalar, GField True False ''Type'' ''type'' GScalar,
      GField True False ''Operator'' ''operator'' GScalar, GField True False ''Value'' ''value'' GOpen]"

definition RuleType :: gotype where
  "RuleType = GStruct
     [GField True False ''Match'' ''match'' GScalar,
      GField True False ''Conditions'' ''conditions'' (GSlice ExpressionType),
      GField True False ''Outcome'' ''outcome'' GScalar]"

definition ConditionConfigType :: gotype where
  "ConditionConfigType = GStruct
     [GField True False ''Rules'' ''rules'' (GSlice RuleType),
      GField True False ''DefaultOutcome'' ''defaultOutcome,omitempty'' GScalar]"

fun decodeEach :: "(jvalue \<Rightarrow> 'a result) \<Rightarrow> jvalue list \<Rightarrow> 'a list result" where
  "decodeEach dec [] = Inr []"
| "decodeEach dec (v # vs) = bindR (dec v) (\<lambda>x. bindR (decodeEach dec vs) (\<lambda>xs. Inr (x # xs)))"

definition decodeSliceField :: "(jvalue \<Rightarrow> 'a result) \<Rightarrow> string \<Rightarrow> jvalue \<Rightarrow> 'a list result" where
  "decodeSliceField dec name v = (case jsonMember name v of
      None \<Rightarrow> Inr []
    | Some JNull \<Rightarrow> Inr []
    | Some (JArray vs) \<Rightarrow> decodeEach dec vs
    | Some _ \<Rightarrow> Inl [])"

definition decodeExpression :: "jvalue \<Rightarrow> Expression result" where
  \<comment> \<open>\<open>encoding/json\<close> on an \<open>Expression\<close>; the field of type \<open>any\<close> takes the value as it is\<close>
  "decodeExpression v = (case v of
      JNull \<Rightarrow> Inr \<lparr>ex_Field = [], ex_Type = [], ex_Operator = [], ex_Value = JNull\<rparr>
    | JObject _ \<Rightarrow>
        bindR (decodeStringField ''field'' v) (\<lambda>field.
        bindR (decodeStringField ''type'' v) (\<lambda>type.
        bindR (decodeStringField ''operator'' v) (\<lambda>operator.
        Inr \<lparr>ex_Field = field, ex_Type = type, ex_Operator = operator,
             ex_Value = (case jsonMember ''value'' v of None \<Rightarrow> JNull | Some x \<Rightarrow> x)\<rparr>)))
    | _ \<Rightarrow> Inl [])"

definition decodeRule :: "jvalue \<Rightarrow> Rule result" where
  "decodeRule v = (case v of
      JNull \<Rightarrow> Inr \<lparr>ru_Match = [], ru_Conditions = [], ru_Outcome = []\<rparr>
    | JObject _ \<Rightarrow>
        bindR (decodeStringField ''match'' v) (\<lambda>mtch.
        bindR (decodeSliceField decodeExpression ''conditions'' v) (\<lambda>conditions.
        bindR (decodeStringField ''outcome'' v) (\<lambda>outcome.
        Inr \<lparr>ru_Match = mtch, ru_Conditions = conditions, ru_Outcome = outcome\<rparr>)))
    | _ \<Rightarrow> Inl [])"

definition decodeConditionConfig :: "jvalue \<Rightarrow> ConditionConfig result" where
  "decodeConditionConfig v = (case v of
      JNull \<Rightarrow> Inr \<lparr>cc_Rules = [], cc_DefaultOutcome = []\<rparr>
    | JObject _ \<Rightarrow>
        bindR (decodeSliceField decodeRule ''rules'' v) (\<lambda>rules.
        bindR (decodeStringField ''defaultOutcome'' v) (\<lambda>dflt.
        Inr \<lparr>cc_Rules = rules, cc_DefaultOutcome = dflt\<rparr>))
    | _ \<Rightarrow> Inl [])"

definition Condition_decodeConfig :: "string \<Rightarrow> ConditionConfig result" where
  "Condition_decodeConfig data =
     wrapR [ConditionErrInvalidJSON] (Decode data ConditionConfigType decodeConditionConfig)"

fun validateConditions :: "Expression list \<Rightarrow> unit result" where
  "validateConditions [] = Inr ()"
| "validateConditions (expression # rest) = (case parsePointer (ex_Field expression) of
      Inl _ \<Rightarrow> Inl [ConditionErrInvalidConfig]
    | Inr _ \<Rightarrow>
        bindR (wrapR [ConditionErrInvalidConfig] (validateExpression expression)) (\<lambda>_.
        validateConditions rest))"

fun validateRules :: "Rule list \<Rightarrow> unit result" where
  "validateRules [] = Inr ()"
| "validateRules (rule # rest) =
     (if (ru_Match rule \<noteq> MatchAll \<and> ru_Match rule \<noteq> MatchAny) \<or> ru_Outcome rule = [] \<or>
         ru_Conditions rule = []
      then Inl [ConditionErrInvalidConfig]
      else bindR (validateConditions (ru_Conditions rule)) (\<lambda>_. validateRules rest))"

definition Condition_parseConfig :: "raw \<Rightarrow> ConditionConfig result" where
  "Condition_parseConfig data =
     bindR (wrapR [ConditionErrInvalidConfig] (Condition_decodeConfig (raw_bytes data))) (\<lambda>config.
     if cc_Rules config = [] then Inl [ConditionErrInvalidConfig]
     else bindR (validateRules (cc_Rules config)) (\<lambda>_. Inr config))"

subsection \<open>Evaluation of expressions\<close>

definition evaluateString :: "jvalue \<Rightarrow> Expression \<Rightarrow> bool result" where
  "evaluateString v expression = (case v of
      JString actual \<Rightarrow> (case ex_Value expression of
          JString expected \<Rightarrow>
            if ex_Operator expression = OperatorEqual then Inr (actual = expected)
            else if ex_Operator expression = OperatorNotEqual then Inr (actual \<noteq> expected)
            else if ex_Operator expression = OperatorContains then Inr (sublist expected actual)
            else if ex_Operator expression = OperatorStartsWith then Inr (prefix expected actual)
            else if ex_Operator expression = OperatorEndsWith then Inr (suffix expected actual)
            else Inl [ConditionErrInvalidConfig]
        | _ \<Rightarrow> Inl [ConditionErrInvalidConfig])
    | _ \<Rightarrow> Inl [ConditionErrTypeMismatch])"

definition evaluateNumber :: "jvalue \<Rightarrow> Expression \<Rightarrow> bool result" where
  "evaluateNumber v expression = (case v of
      JNumber actual \<Rightarrow> (case ex_Value expression of
          JNumber expected \<Rightarrow>
            bindR (wrapR [ConditionErrInvalidData] (parseConditionNumber actual)) (\<lambda>actualValue.
            bindR (wrapR [ConditionErrInvalidConfig] (parseConditionNumber expected)) (\<lambda>expectedValue.
            let comparison = Rat_Cmp actualValue expectedValue in
            if ex_Operator expression = OperatorEqual then Inr (comparison = 0)
            else if ex_Operator expression = OperatorNotEqual then Inr (comparison \<noteq> 0)
            else if ex_Operator expression = OperatorGreaterThan then Inr (0 < comparison)
            else if ex_Operator expression = OperatorGreaterOrEqual then Inr (0 \<le> comparison)
            else if ex_Operator expression = OperatorLessThan then Inr (comparison < 0)
            else if ex_Operator expression = OperatorLessOrEqual then Inr (comparison \<le> 0)
            else Inl [ConditionErrInvalidConfig]))
        | _ \<Rightarrow> Inl [ConditionErrInvalidConfig])
    | _ \<Rightarrow> Inl [ConditionErrTypeMismatch])"

definition evaluateBoolean :: "jvalue \<Rightarrow> Expression \<Rightarrow> bool result" where
  "evaluateBoolean v expression = (case v of
      JBool actual \<Rightarrow> (case ex_Value expression of
          JBool expected \<Rightarrow>
            if ex_Operator expression = OperatorEqual then Inr (actual = expected)
            else if ex_Operator expression = OperatorNotEqual then Inr (actual \<noteq> expected)
            else Inl [ConditionErrInvalidConfig]
        | _ \<Rightarrow> Inl [ConditionErrInvalidConfig])
    | _ \<Rightarrow> Inl [ConditionErrTypeMismatch])"

definition equalPrimitive :: "jvalue \<Rightarrow> jvalue \<Rightarrow> bool" where
  "equalPrimitive left right = (case left of
      JString l \<Rightarrow> (case right of JString r \<Rightarrow> l = r | _ \<Rightarrow> False)
    | JBool l \<Rightarrow> (case right of JBool r \<Rightarrow> l = r | _ \<Rightarrow> False)
    | JNumber l \<Rightarrow> (case right of JNumber r \<Rightarrow> compareNumbers l r = Inr 0 | _ \<Rightarrow> False)
    | _ \<Rightarrow> False)"

fun containsMember :: "jvalue list \<Rightarrow> jvalue \<Rightarrow> ('h env, bool) eff" where
  \<comment> \<open>the closure \<open>contains\<close> of \<open>compareCollection\<close>\<close>
  "containsMember [] candidate = ret False"
| "containsMember (v # vs) candidate =
     bindE ctxErr (\<lambda>_. if equalPrimitive v candidate then ret True else containsMember vs candidate)"

fun containsAny :: "jvalue list \<Rightarrow> jvalue list \<Rightarrow> ('h env, bool) eff" where
  "containsAny actual [] = ret False"
| "containsAny actual (candidate # rest) =
     bindE (containsMember actual candidate) (\<lambda>matched.
     if matched then ret True else containsAny actual rest)"

fun containsAll :: "jvalue list \<Rightarrow> jvalue list \<Rightarrow> ('h env, bool) eff" where
  "containsAll actual [] = ret True"
| "containsAll actual (candidate # rest) =
     bindE (containsMember actual candidate) (\<lambda>matched.
     if \<not> matched then ret False else containsAll actual rest)"

definition compareCollection :: "jvalue list \<Rightarrow> string \<Rightarrow> jvalue \<Rightarrow> ('h env, bool) eff" where
  "compareCollection actual operator expected =
     (if operator = OperatorContains then containsMember actual expected
      else if operator \<noteq> OperatorContainsAny \<and> operator \<noteq> OperatorContainsAll
      then raise [ConditionErrInvalidConfig]
      else case expected of
          JArray expectedValues \<Rightarrow>
            if operator = OperatorContainsAny then containsAny actual expectedValues
            else containsAll actual expectedValues
        | _ \<Rightarrow> raise [ConditionErrInvalidConfig])"

fun checkMembers :: "jvalue list \<Rightarrow> ('h env, unit) eff" where
  "checkMembers [] = ret ()"
| "checkMembers (member # rest) =
     bindE ctxErr (\<lambda>_.
     if \<not> isPrimitive member then raise [ConditionErrTypeMismatch]
     else bindE (case member of
          JNumber number \<Rightarrow> liftR (wrapR [ConditionErrInvalidData] (parseConditionNumber number))
        | _ \<Rightarrow> ret 0) (\<lambda>_. checkMembers rest))"

definition mapErr :: "(err \<Rightarrow> err) \<Rightarrow> ('w, 'a) eff \<Rightarrow> ('w, 'a) eff" where
  "mapErr f m = (\<lambda>w. map_option (\<lambda>(r, w'). (case r of Inl e \<Rightarrow> Inl (f e) | Inr x \<Rightarrow> Inr x, w')) (m w))"

definition classifyCollectionError :: "err \<Rightarrow> err" where
  "classifyCollectionError e =
     (if errors_Is e ContextCanceled \<or> errors_Is e ContextDeadlineExceeded \<or>
         errors_Is e ConditionErrInvalidConfig
      then e else ConditionErrInvalidData # e)"

definition evaluateCollection :: "jvalue \<Rightarrow> Expression \<Rightarrow> ('h env, bool) eff" where
  "evaluateCollection v expression = (case v of
      JArray actual \<Rightarrow>
        bindE (checkMembers actual) (\<lambda>_.
        mapErr classifyCollectionError
          (compareCollection actual (ex_Operator expression) (ex_Value expression)))
    | _ \<Rightarrow> raise [ConditionErrTypeMismatch])"

definition evaluateExpression :: "Expression \<Rightarrow> (string \<times> jvalue) list \<Rightarrow> ('h env, bool) eff" where
  "evaluateExpression expression data =
     bindE ctxErr (\<lambda>_.
     case lookupField data (ex_Field expression) of
       None \<Rightarrow> raise [ConditionErrFieldNotFound]
     | Some v \<Rightarrow>
         if ex_Type expression = TypeString then liftR (evaluateString v expression)
         else if ex_Type expression = TypeNumber then liftR (evaluateNumber v expression)
         else if ex_Type expression = TypeBoolean then liftR (evaluateBoolean v expression)
         else if ex_Type expression = TypeCollection then evaluateCollection v expression
         else raise [ConditionErrInvalidConfig])"

fun countMatches :: "Expression list \<Rightarrow> (string \<times> jvalue) list \<Rightarrow> nat \<Rightarrow> ('h env, nat) eff" where
  "countMatches [] data matchedCount = ret matchedCount"
| "countMatches (expression # rest) data matchedCount =
     bindE ctxErr (\<lambda>_.
     bindE (evaluateExpression expression data) (\<lambda>matched.
     countMatches rest data (if matched then Suc matchedCount else matchedCount)))"

definition evaluateRule :: "Rule \<Rightarrow> (string \<times> jvalue) list \<Rightarrow> ('h env, bool) eff" where
  "evaluateRule rule data =
     bindE (countMatches (ru_Conditions rule) data 0) (\<lambda>matchedCount.
     if ru_Match rule = MatchAll then ret (matchedCount = length (ru_Conditions rule))
     else ret (0 < matchedCount))"

fun evaluateRules ::
  "Rule list \<Rightarrow> (string \<times> jvalue) list \<Rightarrow> string \<Rightarrow> nat \<Rightarrow> ('h env, string \<times> nat) eff" where
  "evaluateRules [] data matchedOutcome matchCount = ret (matchedOutcome, matchCount)"
| "evaluateRules (rule # rest) data matchedOutcome matchCount =
     bindE (evaluateRule rule data) (\<lambda>matched.
     if matched then evaluateRules rest data (ru_Outcome rule) (Suc matchCount)
     else evaluateRules rest data matchedOutcome matchCount)"

definition continueWith :: "string \<Rightarrow> NodeResult" where
  "continueWith outcome =
     \<lparr>nr_Disposition = DispositionContinue, nr_Outcome = outcome, nr_State = None, nr_Tasks = []\<rparr>"

definition decodeObject :: "jvalue \<Rightarrow> (string \<times> jvalue) list option result" where
  \<comment> \<open>\<open>encoding/json\<close> on a \<open>map[string]any\<close>; null leaves the nil map\<close>
  "decodeObject v = (case v of JNull \<Rightarrow> Inr None | JObject ms \<Rightarrow> Inr (Some ms) | _ \<Rightarrow> Inl [])"

definition Condition_activateConfig :: "ConditionConfig \<Rightarrow> raw \<Rightarrow> ('h env, NodeResult) eff" where
  "Condition_activateConfig config dataJSON =
     bindE ctxErr (\<lambda>_.
     bindE (liftR (wrapR [ConditionErrInvalidData]
              (Decode (raw_bytes dataJSON) (GMap GOpen) decodeObject))) (\<lambda>decoded.
     case decoded of
       None \<Rightarrow> raise [ConditionErrInvalidData]
     | Some data \<Rightarrow>
         bindE ctxErr (\<lambda>_.
         bindE (evaluateRules (cc_Rules config) data [] 0) (\<lambda>(matchedOutcome, matchCount).
         if 1 < matchCount then raise [ConditionErrMultipleMatches]
         else if matchCount = 1 then ret (continueWith matchedOutcome)
         else if cc_DefaultOutcome config \<noteq> [] then ret (continueWith (cc_DefaultOutcome config))
         else raise [ConditionErrNoMatch]))))"

subsection \<open>The node handler\<close>

definition Condition_Validate :: "raw \<Rightarrow> unit result" where
  "Condition_Validate config = bindR (Condition_parseConfig config) (\<lambda>_. Inr ())"

definition Condition_Activate :: "ActivationInput \<Rightarrow> ('h env, NodeResult) eff" where
  "Condition_Activate input =
     bindE ctxErr (\<lambda>_.
     bindE (liftR (Condition_parseConfig (ai_Config input))) (\<lambda>config.
     Condition_activateConfig config (ai_Data input)))"

definition Condition_ActivatePrepared ::
  "ConditionConfig \<Rightarrow> PreparedActivationInput \<Rightarrow> ('h env, NodeResult) eff" where
  "Condition_ActivatePrepared config input =
     bindE ctxErr (\<lambda>_. Condition_activateConfig config (pai_Data input))"

definition Condition_Handle :: "CommandInput \<Rightarrow> ('h env, NodeResult) eff" where
  "Condition_Handle input = bindE ctxErr (\<lambda>_. raise [ErrInvalidCommand])"

definition Condition_HandlePrepared :: "PreparedCommandInput \<Rightarrow> ('h env, NodeResult) eff" where
  "Condition_HandlePrepared input = bindE ctxErr (\<lambda>_. raise [ErrInvalidCommand])"

definition Condition_PrepareConfig :: "raw \<Rightarrow> 'h PreparedNodeHandler option result" where
  "Condition_PrepareConfig config =
     bindR (Condition_parseConfig config) (\<lambda>prepared.
     Inr (Some \<lparr>ActivatePrepared = Condition_ActivatePrepared prepared,
                HandlePrepared = Condition_HandlePrepared\<rparr>))"

definition NewConditionHandler :: "'h NodeHandler" where
  "NewConditionHandler =
     \<lparr>nh_Validate = Condition_Validate, nh_Activate = Condition_Activate,
      nh_Handle = Condition_Handle, nh_PrepareConfig = Some Condition_PrepareConfig\<rparr>"

end
