(* ===== verification/ConditionSpec.thy ===== *)
theory ConditionSpec
  imports Condition
begin

text \<open>
  What the condition node does: pointers are printed token lists and lead to fields
  (\<open>lookupField_iff\<close>), a validated configuration selects its outcome declaratively.
\<close>

subsection \<open>Pointers are the printed token lists\<close>

definition escapeToken :: "string \<Rightarrow> string" where
  "escapeToken t = concat (map (\<lambda>c. if c = CHR ''~'' then ''~0'' else if c = CHR ''/'' then ''~1'' else [c]) t)"

definition pointerOf :: "string list \<Rightarrow> string" where
  "pointerOf tokens = concat (map (\<lambda>t. CHR ''/'' # escapeToken t) tokens)"

lemma escapeToken_simps [simp]:
  "escapeToken [] = []"
  "escapeToken (c # t) =
     (if c = CHR ''~'' then ''~0'' else if c = CHR ''/'' then ''~1'' else [c]) @ escapeToken t"
  by (simp_all add: escapeToken_def)

lemma escapeToken_slash [simp]: "CHR ''/'' \<notin> set (escapeToken t)"
  by (induction t) auto

lemma decodeToken_Cons:
  "c \<noteq> CHR ''~'' \<Longrightarrow> decodeToken (c # cs) = bindR (decodeToken cs) (\<lambda>t. Inr (c # t))"
  "decodeToken (CHR ''~'' # CHR ''0'' # cs) = bindR (decodeToken cs) (\<lambda>t. Inr (CHR ''~'' # t))"
  "decodeToken (CHR ''~'' # CHR ''1'' # cs) = bindR (decodeToken cs) (\<lambda>t. Inr (CHR ''/'' # t))"
  by simp_all

declare decodeToken.simps(2) [simp del]

lemma decodeToken_escape [simp]: "decodeToken (escapeToken t) = Inr t"
  by (induction t) (simp_all add: decodeToken_Cons)

lemma decodeToken_tilde:
  "decodeToken (CHR ''~'' # cs) = Inr t \<Longrightarrow>
     \<exists>ds u. decodeToken ds = Inr u \<and>
       (cs = CHR ''0'' # ds \<and> t = CHR ''~'' # u \<or> cs = CHR ''1'' # ds \<and> t = CHR ''/'' # u)"
  by (simp add: decodeToken.simps(2) bindR_Inr_iff split: list.splits if_splits; blast)

lemma decodeToken_Inr: "decodeToken r = Inr t \<Longrightarrow> CHR ''/'' \<notin> set r \<Longrightarrow> r = escapeToken t"
proof (induction r arbitrary: t rule: length_induct)
  case (1 r)
  show ?case
  proof (cases r)
    case (Cons c cs)
    show ?thesis
    proof (cases "c = CHR ''~''")
      case True
      then obtain ds u where "decodeToken ds = Inr u"
        "cs = CHR ''0'' # ds \<and> t = CHR ''~'' # u \<or> cs = CHR ''1'' # ds \<and> t = CHR ''/'' # u"
        using decodeToken_tilde[of cs t] "1.prems"(1) Cons by blast
      moreover from this have "ds = escapeToken u"
        using "1.IH" "1.prems"(2) Cons by (elim disjE) simp_all
      ultimately show ?thesis using Cons True by (elim disjE) simp_all
    next
      case False
      with "1.prems" Cons obtain u where "decodeToken cs = Inr u" "t = c # u"
        by (auto simp: decodeToken_Cons bindR_Inr_iff)
      then show ?thesis using "1.IH" "1.prems"(2) Cons False by (simp add: eq_commute)
    qed
  qed (use 1 in simp)
qed

lemma decodeTokens_iff:
  "\<forall>r\<in>set rs. CHR ''/'' \<notin> set r \<Longrightarrow> decodeTokens rs = Inr ts \<longleftrightarrow> rs = map escapeToken ts"
proof (induction rs arbitrary: ts)
  case (Cons r rs)
  have "decodeToken r = Inr t \<longleftrightarrow> r = escapeToken t" for t
    using decodeToken_Inr[of r t] Cons.prems decodeToken_escape[of t] by (simp del: decodeToken_escape) blast
  then show ?case using Cons by (simp add: bindR_Inr_iff Cons_eq_map_conv) blast
qed auto

lemma splitSlash_not_Nil [simp]: "splitSlash s \<noteq> []"
  by (induction s) (auto split: list.splits)

lemma splitSlash_free: "t \<in> set (splitSlash s) \<Longrightarrow> CHR ''/'' \<notin> set t"
  by (induction s arbitrary: t) (auto split: if_splits list.splits)

lemma splitSlash_join: "concat (map ((#) (CHR ''/'')) (splitSlash s)) = CHR ''/'' # s"
  by (induction s) (auto split: list.splits)

lemma splitSlash_token: "CHR ''/'' \<notin> set t \<Longrightarrow> splitSlash t = [t]"
  by (induction t) auto

lemma splitSlash_append:
  "CHR ''/'' \<notin> set t \<Longrightarrow> splitSlash (t @ CHR ''/'' # s) = t # splitSlash s"
  by (induction t) auto

lemma splitSlash_tokens:
  "CHR ''/'' \<notin> set t \<Longrightarrow> \<forall>u\<in>set ts. CHR ''/'' \<notin> set u \<Longrightarrow>
   splitSlash (t @ concat (map ((#) (CHR ''/'')) ts)) = t # ts"
proof (induction ts arbitrary: t)
  case (Cons u ts)
  then show ?case using splitSlash_append[of t "u @ concat (map ((#) (CHR ''/'')) ts)"] by simp
qed (simp add: splitSlash_token)

lemma parsePointer_iff: "parsePointer p = Inr ts \<longleftrightarrow> ts \<noteq> [] \<and> p = pointerOf ts"
proof
  assume "parsePointer p = Inr ts"
  then obtain s where s: "p = CHR ''/'' # s" "decodeTokens (splitSlash s) = Inr ts"
    by (auto simp: parsePointer_def split: list.splits if_splits)
  then have "splitSlash s = map escapeToken ts" using decodeTokens_iff splitSlash_free by blast
  then show "ts \<noteq> [] \<and> p = pointerOf ts"
    using splitSlash_join[of s] splitSlash_not_Nil[of s] s(1) by (auto simp: pointerOf_def comp_def)
next
  assume p: "ts \<noteq> [] \<and> p = pointerOf ts"
  then obtain t us where ts: "ts = t # us" by (cases ts) auto
  have "splitSlash (escapeToken t @ concat (map ((#) (CHR ''/'')) (map escapeToken us))) =
      escapeToken t # map escapeToken us"
    by (rule splitSlash_tokens) auto
  moreover have "decodeTokens (escapeToken t # map escapeToken us) = Inr (t # us)"
    by (subst decodeTokens_iff) auto
  ultimately show "parsePointer p = Inr ts"
    using p by (simp add: ts parsePointer_def pointerOf_def comp_def)
qed

lemma parsePointer_error: "parsePointer p = Inl e \<Longrightarrow> e = [ConditionErrInvalidPointer]"
proof -
  have token: "decodeToken t = Inl e \<Longrightarrow> e = [ConditionErrInvalidPointer]" for t
  proof (induction t rule: decodeToken.induct)
    case (2 c cs)
    then show ?case unfolding decodeToken.simps(2) by (auto simp: bindR_Inl_iff split: if_splits list.splits)
  qed simp
  have "decodeTokens ts = Inl e \<Longrightarrow> e = [ConditionErrInvalidPointer]" for ts
    by (induction ts) (auto simp: bindR_Inl_iff dest: token)
  then show "parsePointer p = Inl e \<Longrightarrow> e = [ConditionErrInvalidPointer]"
    by (auto simp: parsePointer_def split: list.splits if_splits)
qed

subsection \<open>Fields\<close>

inductive reaches :: "jvalue \<Rightarrow> string list \<Rightarrow> jvalue \<Rightarrow> bool" where
  \<comment> \<open>the path of member names leads through objects only\<close>
  here: "reaches v [] v"
| member: "map_of ms name = Some u \<Longrightarrow> reaches u names v \<Longrightarrow> reaches (JObject ms) (name # names) v"

inductive_simps reaches_simps: "reaches u [] v" "reaches u (name # names) v"

definition fieldAt :: "(string \<times> jvalue) list \<Rightarrow> string \<Rightarrow> jvalue \<Rightarrow> bool" where
  \<comment> \<open>the pointer is the printed path of a member of the business data, at any depth\<close>
  "fieldAt data pointer v \<longleftrightarrow> (\<exists>names. names \<noteq> [] \<and> pointer = pointerOf names \<and> reaches (JObject data) names v)"

lemma lookupTokens_iff: "lookupTokens u names = Some v \<longleftrightarrow> reaches u names v"
  by (induction u names rule: lookupTokens.induct) (auto simp: reaches_simps split: jvalue.split option.split)

lemma lookupField_iff: "lookupField data pointer = Some v \<longleftrightarrow> fieldAt data pointer v"
proof -
  have "lookupField data pointer = Some v \<longleftrightarrow> (\<exists>names. parsePointer pointer = Inr names \<and> lookupTokens (JObject data) names = Some v)"
    by (simp add: lookupField_def split: sum.split)
  then show ?thesis by (simp add: parsePointer_iff lookupTokens_iff fieldAt_def conj_assoc)
qed

subsection \<open>What a validated expression means\<close>

definition samePrimitive :: "jvalue \<Rightarrow> jvalue \<Rightarrow> bool" where
  "samePrimitive v u \<longleftrightarrow>
     (\<exists>s. v = JString s \<and> u = JString s) \<or> (\<exists>b. v = JBool b \<and> u = JBool b) \<or>
     (\<exists>a b q. v = JNumber a \<and> u = JNumber b \<and> Rat_SetString a = Some q \<and> Rat_SetString b = Some q)"

definition numeric :: "jvalue \<Rightarrow> bool" where
  \<comment> \<open>a number, if it is one, has a value\<close>
  "numeric v \<longleftrightarrow> (\<forall>n. v = JNumber n \<longrightarrow> Rat_SetString n \<noteq> None)"

definition fits :: "string \<Rightarrow> jvalue \<Rightarrow> bool" where
  "fits ty v \<longleftrightarrow>
     (if ty = TypeString then \<exists>s. v = JString s
      else if ty = TypeNumber then (\<exists>n. v = JNumber n) \<and> numeric v
      else if ty = TypeBoolean then \<exists>b. v = JBool b
      else \<exists>vs. v = JArray vs \<and> (\<forall>m\<in>set vs. isPrimitive m \<and> numeric m))"

definition stringHolds :: "string \<Rightarrow> string \<Rightarrow> string \<Rightarrow> bool" where
  "stringHolds op a e \<longleftrightarrow>
     op = OperatorEqual \<and> a = e \<or> op = OperatorNotEqual \<and> a \<noteq> e \<or>
     op = OperatorContains \<and> (\<exists>l r. a = l @ e @ r) \<or>
     op = OperatorStartsWith \<and> (\<exists>r. a = e @ r) \<or> op = OperatorEndsWith \<and> (\<exists>l. a = l @ e)"

definition numberHolds :: "string \<Rightarrow> rat \<Rightarrow> rat \<Rightarrow> bool" where
  "numberHolds op a e \<longleftrightarrow>
     op = OperatorEqual \<and> a = e \<or> op = OperatorNotEqual \<and> a \<noteq> e \<or>
     op = OperatorGreaterThan \<and> a > e \<or> op = OperatorGreaterOrEqual \<and> a \<ge> e \<or>
     op = OperatorLessThan \<and> a < e \<or> op = OperatorLessOrEqual \<and> a \<le> e"

definition holds :: "Expression \<Rightarrow> jvalue \<Rightarrow> bool" where
  "holds ex v = (case v of
      JString a \<Rightarrow> (\<exists>e. ex_Value ex = JString e \<and> stringHolds (ex_Operator ex) a e)
    | JNumber a \<Rightarrow> (\<exists>e. ex_Value ex = JNumber e \<and>
        numberHolds (ex_Operator ex) (the (Rat_SetString a)) (the (Rat_SetString e)))
    | JBool a \<Rightarrow> (\<exists>e. ex_Value ex = JBool e \<and>
        (ex_Operator ex = OperatorEqual \<and> a = e \<or> ex_Operator ex = OperatorNotEqual \<and> a \<noteq> e))
    | JArray vs \<Rightarrow>
        ex_Operator ex = OperatorContains \<and> (\<exists>m\<in>set vs. samePrimitive m (ex_Value ex)) \<or>
        (\<exists>es. ex_Value ex = JArray es \<and>
          (ex_Operator ex = OperatorContainsAny \<and> (\<exists>e\<in>set es. \<exists>m\<in>set vs. samePrimitive m e) \<or>
           ex_Operator ex = OperatorContainsAll \<and> (\<forall>e\<in>set es. \<exists>m\<in>set vs. samePrimitive m e)))
    | _ \<Rightarrow> False)"

lemma equalPrimitive_iff: "equalPrimitive v u \<longleftrightarrow> samePrimitive v u"
proof -
  have "compareNumbers a b = Inr 0 \<longleftrightarrow> (\<exists>q. Rat_SetString a = Some q \<and> Rat_SetString b = Some q)" for a b
    by (auto simp: compareNumbers_def bindR_Inr_iff parseConditionNumber_def Rat_Cmp_def split: option.splits)
  then show ?thesis
    by (auto simp: equalPrimitive_def samePrimitive_def split: jvalue.splits)
qed

text \<open>The operators are distinct names.\<close>

lemma operators_distinct [simp]:
  "distinct [OperatorEqual, OperatorNotEqual, OperatorContains, OperatorStartsWith, OperatorEndsWith,
     OperatorGreaterThan, OperatorGreaterOrEqual, OperatorLessThan, OperatorLessOrEqual,
     OperatorContainsAny, OperatorContainsAll]"
  "distinct [TypeString, TypeNumber, TypeBoolean, TypeCollection]" "MatchAll \<noteq> MatchAny"
  by (simp_all add: condition_names)

lemma name_neqs [simp]:
  "TypeNumber \<noteq> TypeString" "TypeBoolean \<noteq> TypeString" "TypeBoolean \<noteq> TypeNumber"
  "TypeCollection \<noteq> TypeString" "TypeCollection \<noteq> TypeNumber" "TypeCollection \<noteq> TypeBoolean"
  "OperatorContains \<noteq> OperatorContainsAny" "OperatorContains \<noteq> OperatorContainsAll"
  "OperatorContainsAny \<noteq> OperatorContains" "OperatorContainsAll \<noteq> OperatorContains"
  "OperatorContainsAll \<noteq> OperatorContainsAny" "OperatorContainsAny \<noteq> OperatorContainsAll"
  by (simp_all add: condition_names)

lemma string_expression:
  assumes "validateStringExpression ex = Inr ()"
  shows "evaluateString v ex = (if \<exists>s. v = JString s then Inr (holds ex v) else Inl [ConditionErrTypeMismatch])"
proof -
  obtain e where e: "ex_Value ex = JString e"
    using assms by (auto simp: validateStringExpression_def split: jvalue.splits)
  have "ex_Operator ex \<in> {OperatorEqual, OperatorNotEqual, OperatorContains, OperatorStartsWith, OperatorEndsWith}"
    using assms by (auto simp: validateStringExpression_def e)
  then show ?thesis
    using operators_distinct(1)
    by (cases v) (auto simp: evaluateString_def holds_def e stringHolds_def sublist_def prefix_def suffix_def)
qed

lemma number_expression:
  assumes "validateNumberExpression ex = Inr ()"
  shows "evaluateNumber v ex = (case v of
     JNumber n \<Rightarrow> if numeric v then Inr (holds ex v)
                 else Inl [ConditionErrInvalidData, OtherError ''invalid number'']
   | _ \<Rightarrow> Inl [ConditionErrTypeMismatch])"
proof -
  obtain e q where e: "ex_Value ex = JNumber e" "Rat_SetString e = Some q"
    using assms by (auto simp: validateNumberExpression_def bindR_Inr_iff parseConditionNumber_def
        split: jvalue.splits option.splits)
  have "ex_Operator ex \<in> {OperatorEqual, OperatorNotEqual, OperatorGreaterThan, OperatorGreaterOrEqual,
      OperatorLessThan, OperatorLessOrEqual}"
    using assms by (auto simp: validateNumberExpression_def bindR_Inr_iff e)
  then show ?thesis
    using operators_distinct(1)
    by (cases v) (auto simp: evaluateNumber_def holds_def e numberHolds_def numeric_def
        parseConditionNumber_def Rat_Cmp_def Let_def split: option.splits)
qed

lemma boolean_expression:
  assumes "validateBooleanExpression ex = Inr ()"
  shows "evaluateBoolean v ex = (if \<exists>b. v = JBool b then Inr (holds ex v) else Inl [ConditionErrTypeMismatch])"
proof -
  obtain e where e: "ex_Value ex = JBool e"
    using assms by (auto simp: validateBooleanExpression_def split: jvalue.splits)
  have "ex_Operator ex \<in> {OperatorEqual, OperatorNotEqual}"
    using assms by (auto simp: validateBooleanExpression_def e)
  then show ?thesis
    using operators_distinct(1) by (cases v) (auto simp: evaluateBoolean_def holds_def e)
qed

subsection \<open>Evaluation in an environment\<close>

definition ctxCause :: "(nat \<Rightarrow> err option) \<Rightarrow> err \<Rightarrow> bool" where
  \<comment> \<open>the error reports what some poll of the context observed\<close>
  "ctxCause obs e \<longleftrightarrow> (\<exists>k c. obs k = Some c \<and> (e = c \<or> e = ConditionErrInvalidData # c))"

definition dataError :: "err \<Rightarrow> bool" where
  "dataError e \<longleftrightarrow> e \<in> {[ConditionErrFieldNotFound], [ConditionErrTypeMismatch],
     [ConditionErrInvalidData, OtherError ''invalid number'']}"

lemma wpE_mapErr [wp_simps]: "wpE D Q E (mapErr f m) w = wpE D Q (\<lambda>e. E (f e)) m w"
  by (auto simp: wpE_def mapErr_def split: option.split sum.split)

lemma ctxErr_step:
  assumes "\<And>w'. ctx_obs w' = ctx_obs w \<Longrightarrow> Q () w'" and "\<And>k c w'. ctx_obs w k = Some c \<Longrightarrow> E c w'"
  shows "wpE D Q E ctxErr w"
  using assms by (auto simp: wp_simps split: option.splits)

lemma containsMember_wp:
  "wpE False (\<lambda>b w'. ctx_obs w' = ctx_obs w \<and> b = (\<exists>m\<in>set vs. samePrimitive m c))
     (\<lambda>e w'. \<exists>k. ctx_obs w k = Some e) (containsMember vs c) w"
proof (induction vs arbitrary: w)
  case (Cons v vs)
  show ?case
    unfolding containsMember.simps wpE_bindE
  proof (rule ctxErr_step, goal_cases)
    case (1 w')
    show ?case
      using wpE_mono[OF Cons.IH[of w']] 1 by (auto simp: wp_simps equalPrimitive_iff)
  qed auto
qed (simp add: wp_simps)

lemma containsAny_wp:
  "wpE False (\<lambda>b w'. ctx_obs w' = ctx_obs w \<and> b = (\<exists>e\<in>set es. \<exists>m\<in>set vs. samePrimitive m e))
     (\<lambda>e w'. \<exists>k. ctx_obs w k = Some e) (containsAny vs es) w"
proof (induction es arbitrary: w)
  case (Cons e es)
  show ?case
    unfolding containsAny.simps wpE_bindE
  proof (rule wpE_mono[OF containsMember_wp], goal_cases)
    case (1 b w')
    then show ?case using Cons.IH[of w'] by (auto simp: wp_simps elim: wpE_mono)
  qed
qed (simp add: wp_simps)

lemma containsAll_wp:
  "wpE False (\<lambda>b w'. ctx_obs w' = ctx_obs w \<and> b = (\<forall>e\<in>set es. \<exists>m\<in>set vs. samePrimitive m e))
     (\<lambda>e w'. \<exists>k. ctx_obs w k = Some e) (containsAll vs es) w"
proof (induction es arbitrary: w)
  case (Cons e es)
  show ?case
    unfolding containsAll.simps wpE_bindE
  proof (rule wpE_mono[OF containsMember_wp], goal_cases)
    case (1 b w')
    then show ?case using Cons.IH[of w'] by (auto simp: wp_simps elim: wpE_mono)
  qed
qed (simp add: wp_simps)

lemma checkMembers_wp:
  "wpE False (\<lambda>_ w'. ctx_obs w' = ctx_obs w \<and> (\<forall>m\<in>set vs. isPrimitive m \<and> numeric m))
     (\<lambda>e w'. (\<exists>k. ctx_obs w k = Some e) \<or> dataError e \<and> \<not> (\<forall>m\<in>set vs. isPrimitive m \<and> numeric m))
     (checkMembers vs) w"
proof (induction vs arbitrary: w)
  case (Cons v vs)
  show ?case
    unfolding checkMembers.simps wpE_bindE
  proof (rule ctxErr_step, goal_cases)
    case (1 w')
    show ?case
      using wpE_mono[OF Cons.IH[of w']] 1
      by (cases v)
        (auto simp: wp_simps numeric_def isPrimitive_def dataError_def parseConditionNumber_def wpR_iff
          split: option.splits)
  qed auto
qed (simp add: wp_simps)


lemma collection_expression_wp:
  assumes "validateCollectionExpression ex = Inr ()" and "ex_Type ex = TypeCollection"
  shows "wpE False (\<lambda>b w'. ctx_obs w' = ctx_obs w \<and> fits TypeCollection v \<and> b = holds ex v)
    (\<lambda>e w'. ctxCause (ctx_obs w) e \<or> dataError e \<and> \<not> fits TypeCollection v) (evaluateCollection v ex) w"
proof (cases "\<exists>vs. v = JArray vs")
  case True
  then obtain vs where v: "v = JArray vs" by blast
  let ?ok = "\<forall>m\<in>set vs. isPrimitive m \<and> numeric m"
  have fits: "fits TypeCollection v \<longleftrightarrow> ?ok" using operators_distinct(2) by (auto simp: v fits_def)
  have ops: "ex_Operator ex = OperatorContains \<or>
      (ex_Operator ex = OperatorContainsAny \<or> ex_Operator ex = OperatorContainsAll) \<and> (\<exists>es. ex_Value ex = JArray es)"
    using assms(1) by (auto simp: validateCollectionExpression_def split: if_splits jvalue.splits)
  have cause: "ctxCause (ctx_obs w) (classifyCollectionError e)" if "\<exists>k. ctx_obs w k = Some e" for e
    using that by (auto simp: classifyCollectionError_def ctxCause_def)
  have cmp: "wpE False (\<lambda>b w'. ctx_obs w' = ctx_obs w \<and> b = holds ex v) (\<lambda>e w'. \<exists>k. ctx_obs w k = Some e)
      (compareCollection vs (ex_Operator ex) (ex_Value ex)) w1" if "ctx_obs w1 = ctx_obs w" for w1
  proof -
    note wps = containsMember_wp[of w1 vs "ex_Value ex"] containsAny_wp[where w = w1 and vs = vs]
      containsAll_wp[where w = w1 and vs = vs]
    from ops show ?thesis
      using wps that by (elim disjE conjE exE) (simp_all add: compareCollection_def holds_def v)
  qed
  show ?thesis
    unfolding evaluateCollection_def v jvalue.case wpE_bindE wpE_mapErr
  proof (rule wpE_mono[OF checkMembers_wp], goal_cases)
    case (1 u w1)
    show ?case
      by (rule wpE_mono[OF cmp]) (use 1 cause fits in \<open>auto simp: v[symmetric]\<close>)
  next
    case (2 e w1)
    then show ?case using fits by (auto simp: ctxCause_def v[symmetric])
  qed
next
  case False
  then have "\<not> fits TypeCollection v" using operators_distinct(2) by (auto simp: fits_def)
  with False show ?thesis
    by (cases v) (auto simp: evaluateCollection_def wp_simps dataError_def)
qed

definition answers :: "(string \<times> jvalue) list \<Rightarrow> Expression \<Rightarrow> bool" where
  \<comment> \<open>the field is there and has the declared type\<close>
  "answers data ex \<longleftrightarrow> (\<exists>v. fieldAt data (ex_Field ex) v \<and> fits (ex_Type ex) v)"

definition holdsAt :: "(string \<times> jvalue) list \<Rightarrow> Expression \<Rightarrow> bool" where
  "holdsAt data ex \<longleftrightarrow> (\<exists>v. fieldAt data (ex_Field ex) v \<and> holds ex v)"

lemmas at_field = answers_def[folded lookupField_iff] holdsAt_def[folded lookupField_iff]

lemma expression_wp:
  assumes "validateExpression ex = Inr ()"
  shows "wpE False (\<lambda>b w'. ctx_obs w' = ctx_obs w \<and> answers data ex \<and> b = holdsAt data ex)
    (\<lambda>e w'. ctxCause (ctx_obs w) e \<or> dataError e \<and> \<not> answers data ex) (evaluateExpression ex data) w"
  unfolding evaluateExpression_def wpE_bindE
proof (rule ctxErr_step, goal_cases)
  case (1 w1)
  show ?case
  proof (cases "lookupField data (ex_Field ex)")
    case None
    then show ?thesis by (simp add: wp_simps dataError_def at_field)
  next
    case (Some v)
    note ty = operators_distinct(2)
    have "ex_Type ex = TypeString \<or> ex_Type ex = TypeNumber \<or> ex_Type ex = TypeBoolean \<or> ex_Type ex = TypeCollection"
      using assms by (auto simp: validateExpression_def split: if_splits)
    then show ?thesis
    proof (elim disjE)
      assume "ex_Type ex = TypeString"
      then show ?thesis
        using 1 assms Some ty
        by (auto simp: validateExpression_def string_expression wp_simps at_field fits_def dataError_def)
    next
      assume "ex_Type ex = TypeNumber"
      then show ?thesis
        using 1 assms Some ty
        by (auto simp: validateExpression_def number_expression wp_simps at_field fits_def dataError_def
            split: jvalue.splits)
    next
      assume "ex_Type ex = TypeBoolean"
      then show ?thesis
        using 1 assms Some ty
        by (auto simp: validateExpression_def boolean_expression wp_simps at_field fits_def dataError_def)
    next
      assume t: "ex_Type ex = TypeCollection"
      have "validateCollectionExpression ex = Inr ()" using assms t ty by (auto simp: validateExpression_def)
      from wpE_mono[OF collection_expression_wp[OF this t, of w1 v]] show ?thesis
        using 1 Some t by (simp add: at_field)
    qed
  qed
qed (auto simp: ctxCause_def)

subsection \<open>Accepted configurations\<close>

definition exprOk :: "Expression \<Rightarrow> bool" where
  "exprOk ex \<longleftrightarrow>
     ex_Type ex = TypeString \<and> (\<exists>s. ex_Value ex = JString s) \<and>
       ex_Operator ex \<in> {OperatorEqual, OperatorNotEqual, OperatorContains, OperatorStartsWith, OperatorEndsWith} \<or>
     ex_Type ex = TypeNumber \<and> (\<exists>n. ex_Value ex = JNumber n) \<and> numeric (ex_Value ex) \<and>
       ex_Operator ex \<in> {OperatorEqual, OperatorNotEqual, OperatorGreaterThan, OperatorGreaterOrEqual,
         OperatorLessThan, OperatorLessOrEqual} \<or>
     ex_Type ex = TypeBoolean \<and> (\<exists>b. ex_Value ex = JBool b) \<and>
       ex_Operator ex \<in> {OperatorEqual, OperatorNotEqual} \<or>
     ex_Type ex = TypeCollection \<and>
       (ex_Operator ex = OperatorContains \<and> isPrimitive (ex_Value ex) \<and> numeric (ex_Value ex) \<or>
        ex_Operator ex \<in> {OperatorContainsAny, OperatorContainsAll} \<and>
          (\<exists>es. ex_Value ex = JArray es \<and> es \<noteq> [] \<and> (\<forall>e\<in>set es. isPrimitive e \<and> numeric e)))"

definition ruleOk :: "Rule \<Rightarrow> bool" where
  "ruleOk rule \<longleftrightarrow> ru_Match rule \<in> {MatchAll, MatchAny} \<and> ru_Outcome rule \<noteq> [] \<and> ru_Conditions rule \<noteq> [] \<and>
     (\<forall>ex\<in>set (ru_Conditions rule). exprOk ex \<and> (\<exists>ts. ts \<noteq> [] \<and> ex_Field ex = pointerOf ts))"

lemma parseConditionNumber_iff: "(\<exists>q. parseConditionNumber n = Inr q) \<longleftrightarrow> Rat_SetString n \<noteq> None"
  by (auto simp: parseConditionNumber_def split: option.splits)

lemma validateConditionPrimitive_iff: "validateConditionPrimitive v = Inr () \<longleftrightarrow> numeric v"
  by (cases v) (auto simp: validateConditionPrimitive_def numeric_def bindR_Inr_iff parseConditionNumber_iff)

lemma validatePrimitives_iff: "validatePrimitives vs = Inr () \<longleftrightarrow> (\<forall>v\<in>set vs. numeric v)"
  by (induction vs) (auto simp: bindR_Inr_iff validateConditionPrimitive_iff)

lemma validateExpression_iff: "validateExpression ex = Inr () \<longleftrightarrow> exprOk ex"
proof -
  have 1: "validateStringExpression ex = Inr () \<longleftrightarrow> (\<exists>s. ex_Value ex = JString s) \<and>
      ex_Operator ex \<in> {OperatorEqual, OperatorNotEqual, OperatorContains, OperatorStartsWith, OperatorEndsWith}"
    by (auto simp: validateStringExpression_def split: jvalue.splits)
  have 2: "validateNumberExpression ex = Inr () \<longleftrightarrow> (\<exists>n. ex_Value ex = JNumber n) \<and> numeric (ex_Value ex) \<and>
      ex_Operator ex \<in> {OperatorEqual, OperatorNotEqual, OperatorGreaterThan, OperatorGreaterOrEqual,
         OperatorLessThan, OperatorLessOrEqual}"
    by (cases "ex_Value ex")
      (auto simp: validateNumberExpression_def bindR_Inr_iff numeric_def parseConditionNumber_def
        split: option.splits)
  have 3: "validateBooleanExpression ex = Inr () \<longleftrightarrow> (\<exists>b. ex_Value ex = JBool b) \<and>
      ex_Operator ex \<in> {OperatorEqual, OperatorNotEqual}"
    by (auto simp: validateBooleanExpression_def split: jvalue.splits)
  have 4: "validateCollectionExpression ex = Inr () \<longleftrightarrow>
      ex_Operator ex = OperatorContains \<and> isPrimitive (ex_Value ex) \<and> numeric (ex_Value ex) \<or>
      ex_Operator ex \<in> {OperatorContainsAny, OperatorContainsAll} \<and>
        (\<exists>es. ex_Value ex = JArray es \<and> es \<noteq> [] \<and> (\<forall>e\<in>set es. isPrimitive e \<and> numeric e))"
    by (cases "ex_Value ex")
      (auto simp: validateCollectionExpression_def validateConditionPrimitive_iff validatePrimitives_iff list_ex_iff
        split: if_splits)
  consider "ex_Type ex = TypeString" | "ex_Type ex = TypeNumber" | "ex_Type ex = TypeBoolean"
    | "ex_Type ex = TypeCollection"
    | "ex_Type ex \<notin> {TypeString, TypeNumber, TypeBoolean, TypeCollection}" by auto
  then show ?thesis
    by cases (simp_all add: validateExpression_def exprOk_def 1 2 3 4 name_neqs[symmetric])
qed

lemma validateConditions_iff:
  "validateConditions exs = Inr () \<longleftrightarrow>
     (\<forall>ex\<in>set exs. exprOk ex \<and> (\<exists>ts. ts \<noteq> [] \<and> ex_Field ex = pointerOf ts))"
proof (induction exs)
  case (Cons ex exs)
  show ?case
  proof (cases "parsePointer (ex_Field ex)")
    case (Inl e)
    then show ?thesis using parsePointer_iff[of "ex_Field ex"] by auto
  next
    case (Inr ts)
    then show ?thesis
      using Cons parsePointer_iff[of "ex_Field ex" ts] by (auto simp: bindR_Inr_iff validateExpression_iff)
  qed
qed simp

lemma validateRules_iff: "validateRules rules = Inr () \<longleftrightarrow> (\<forall>rule\<in>set rules. ruleOk rule)"
  by (induction rules) (auto simp: bindR_Inr_iff validateConditions_iff ruleOk_def)

lemma Condition_parseConfig_iff:
  "Condition_parseConfig data = Inr c \<longleftrightarrow>
     Condition_decodeConfig (raw_bytes data) = Inr c \<and> cc_Rules c \<noteq> [] \<and> (\<forall>rule\<in>set (cc_Rules c). ruleOk rule)"
  by (auto simp: Condition_parseConfig_def bindR_Inr_iff validateRules_iff split: if_splits)

lemma validate_error:
  "validateRules rules = Inl e \<Longrightarrow> errors_Is e ConditionErrInvalidConfig"
proof (induction rules arbitrary: e)
  case (Cons rule rules)
  have "errors_Is e ConditionErrInvalidConfig" if "validateConditions exs = Inl e" for exs
    using that by (induction exs) (auto simp: bindR_Inl_iff wrapR_def split: sum.splits)
  with Cons show ?case by (auto simp: bindR_Inl_iff split: if_splits)
qed simp

lemma Condition_parseConfig_error:
  "Condition_parseConfig data = Inl e \<Longrightarrow> errors_Is e ConditionErrInvalidConfig"
  by (auto simp: Condition_parseConfig_def bindR_Inl_iff wrapR_def dest: validate_error
      split: if_splits sum.splits)

subsection \<open>The selected outcome\<close>

definition ruleHolds :: "(string \<times> jvalue) list \<Rightarrow> Rule \<Rightarrow> bool" where
  "ruleHolds data rule \<longleftrightarrow>
     (if ru_Match rule = MatchAll then \<forall>ex\<in>set (ru_Conditions rule). holdsAt data ex
      else \<exists>ex\<in>set (ru_Conditions rule). holdsAt data ex)"

definition applicable :: "ConditionConfig \<Rightarrow> (string \<times> jvalue) list \<Rightarrow> bool" where
  "applicable config data \<longleftrightarrow>
     (\<forall>rule\<in>set (cc_Rules config). \<forall>ex\<in>set (ru_Conditions rule). answers data ex)"

definition selected :: "ConditionConfig \<Rightarrow> (string \<times> jvalue) list \<Rightarrow> NodeResult result" where
  "selected config data = (case filter (ruleHolds data) (cc_Rules config) of
      [rule] \<Rightarrow> Inr (continueWith (ru_Outcome rule))
    | [] \<Rightarrow> if cc_DefaultOutcome config \<noteq> [] then Inr (continueWith (cc_DefaultOutcome config))
           else Inl [ConditionErrNoMatch]
    | _ \<Rightarrow> Inl [ConditionErrMultipleMatches])"

lemma length_filter_all: "length (filter P xs) = length xs \<longleftrightarrow> (\<forall>x\<in>set xs. P x)"
proof (induction xs)
  case (Cons x xs)
  then show ?case using length_filter_le[of P xs] by (auto simp del: length_filter_le)
qed simp

lemma countMatches_wp:
  assumes "\<forall>ex\<in>set exs. exprOk ex"
  shows "wpE False (\<lambda>n w'. ctx_obs w' = ctx_obs w \<and> (\<forall>ex\<in>set exs. answers data ex) \<and>
      n = k + length (filter (holdsAt data) exs))
    (\<lambda>e w'. ctxCause (ctx_obs w) e \<or> dataError e \<and> \<not> (\<forall>ex\<in>set exs. answers data ex))
    (countMatches exs data k) w"
  using assms
proof (induction exs arbitrary: k w)
  case (Cons ex exs)
  have ex: "validateExpression ex = Inr ()" using Cons.prems by (simp add: validateExpression_iff)
  show ?case
    unfolding countMatches.simps wpE_bindE
  proof (rule ctxErr_step, goal_cases)
    case (1 w1)
    show ?case
    proof (rule wpE_mono[OF expression_wp[OF ex]], goal_cases)
      case (1 b w2)
      show ?case
        by (rule wpE_mono[OF Cons.IH]) (use Cons.prems 1 \<open>ctx_obs w1 = ctx_obs w\<close> in auto)
    qed (use \<open>ctx_obs w1 = ctx_obs w\<close> in auto)
  qed (auto simp: ctxCause_def)
qed (simp add: wp_simps)

lemma rule_wp:
  assumes "ruleOk rule"
  shows "wpE False (\<lambda>b w'. ctx_obs w' = ctx_obs w \<and> (\<forall>ex\<in>set (ru_Conditions rule). answers data ex) \<and>
      b = ruleHolds data rule)
    (\<lambda>e w'. ctxCause (ctx_obs w) e \<or> dataError e \<and> \<not> (\<forall>ex\<in>set (ru_Conditions rule). answers data ex))
    (evaluateRule rule data) w"
proof -
  have ok: "\<forall>ex\<in>set (ru_Conditions rule). exprOk ex" using assms by (simp add: ruleOk_def)
  show ?thesis
    unfolding evaluateRule_def wpE_bindE
    by (rule wpE_mono[OF countMatches_wp[OF ok]])
      (auto simp: wp_simps ruleHolds_def length_filter_all filter_empty_conv)
qed

lemma rules_wp:
  assumes "\<forall>rule\<in>set rules. ruleOk rule"
  shows "wpE False (\<lambda>(out, n) w'. ctx_obs w' = ctx_obs w \<and>
      (\<forall>rule\<in>set rules. \<forall>ex\<in>set (ru_Conditions rule). answers data ex) \<and>
      n = k + length (filter (ruleHolds data) rules) \<and>
      out = (if filter (ruleHolds data) rules = [] then out0 else ru_Outcome (last (filter (ruleHolds data) rules))))
    (\<lambda>e w'. ctxCause (ctx_obs w) e \<or>
      dataError e \<and> \<not> (\<forall>rule\<in>set rules. \<forall>ex\<in>set (ru_Conditions rule). answers data ex))
    (evaluateRules rules data out0 k) w"
  using assms
proof (induction rules arbitrary: k w out0)
  case (Cons rule rules)
  have rule: "ruleOk rule" using Cons.prems by simp
  show ?case
    unfolding evaluateRules.simps wpE_bindE
  proof (rule wpE_mono[OF rule_wp[OF rule]], goal_cases)
    case (1 b w1)
    note IH = Cons.IH[where w = w1]
    show ?case
    proof (cases b)
      case True
      then show ?thesis
        by (simp only: if_True, intro wpE_mono[OF IH]) (use Cons.prems 1 in \<open>auto split: prod.splits if_splits\<close>)
    next
      case False
      then show ?thesis
        by (simp only: if_False, intro wpE_mono[OF IH]) (use Cons.prems 1 in \<open>auto split: prod.splits if_splits\<close>)
    qed
  qed auto
qed (simp add: wp_simps)

lemma Condition_activate_wp:
  assumes "\<forall>rule\<in>set (cc_Rules config). ruleOk rule"
    and "Decode (raw_bytes d) (GMap GOpen) decodeObject = Inr (Some data)"
  shows "wpE False (\<lambda>res w'. applicable config data \<and> selected config data = Inr res)
    (\<lambda>e w'. ctxCause (ctx_obs w) e \<or>
       (if applicable config data then selected config data = Inl e else dataError e))
    (Condition_activateConfig config d) w"
proof -
  let ?E = "\<lambda>e (w' :: 'a env). ctxCause (ctx_obs w) e \<or>
       (if applicable config data then selected config data = Inl e else dataError e)"
  let ?Q = "\<lambda>res (w' :: 'a env). applicable config data \<and> selected config data = Inr res"
  let ?f = "filter (ruleHolds data) (cc_Rules config)"
  have fin: "wpE False ?Q ?E (if 1 < n then raise [ConditionErrMultipleMatches]
         else if n = 1 then ret (continueWith out)
         else if cc_DefaultOutcome config \<noteq> [] then ret (continueWith (cc_DefaultOutcome config))
         else raise [ConditionErrNoMatch]) w'"
    if "applicable config data" "n = length ?f" "out = (if ?f = [] then [] else ru_Outcome (last ?f))"
    for n out w'
    using that by (cases ?f; cases "tl ?f") (simp_all add: wp_simps selected_def)
  have ev: "wpE False (\<lambda>p. wpE False ?Q ?E (case p of (out, n) \<Rightarrow>
         if 1 < n then raise [ConditionErrMultipleMatches]
         else if n = 1 then ret (continueWith out)
         else if cc_DefaultOutcome config \<noteq> [] then ret (continueWith (cc_DefaultOutcome config))
         else raise [ConditionErrNoMatch])) ?E (evaluateRules (cc_Rules config) data [] 0) w1"
    if "ctx_obs w1 = ctx_obs w" for w1
  proof (rule wpE_mono[OF rules_wp[OF assms(1)]], goal_cases)
    case (1 p w')
    then show ?case by (cases p) (use fin in \<open>simp add: applicable_def\<close>)
  next
    case (2 e w')
    then show ?case using that by (auto simp: applicable_def)
  qed
  show ?thesis
    unfolding Condition_activateConfig_def wpE_bindE
  proof (rule ctxErr_step, goal_cases)
    case (1 w1)
    show ?case
      unfolding wpE_liftR assms(2) wrapR_simps wpR_simps option.case wpE_bindE
      by (rule ctxErr_step) (use 1 ev in \<open>auto simp: ctxCause_def\<close>)
  qed (auto simp: ctxCause_def)
qed

lemma Condition_activate_no_object:
  assumes "\<nexists>data. Decode (raw_bytes d) (GMap GOpen) decodeObject = Inr (Some data)"
  shows "wpE False (\<lambda>_ _. False) (\<lambda>e w'. ctxCause (ctx_obs w) e \<or> errors_Is e ConditionErrInvalidData)
    (Condition_activateConfig config d) w"
  unfolding Condition_activateConfig_def wpE_bindE
proof (rule ctxErr_step, goal_cases)
  case (1 w1)
  show ?case
    using assms by (cases "Decode (raw_bytes d) (GMap GOpen) decodeObject"; cases "projr (Decode (raw_bytes d) (GMap GOpen) decodeObject)")
      (auto simp: wp_simps)
qed (auto simp: ctxCause_def)

lemma Condition_activate_returns: "Condition_parseConfig raw = Inr config \<Longrightarrow> Condition_activateConfig config d w \<noteq> None"
proof (cases "\<exists>data. Decode (raw_bytes d) (GMap GOpen) decodeObject = Inr (Some data)")
  case True
  assume "Condition_parseConfig raw = Inr config"
  with True show ?thesis
    using Condition_activate_wp[of config d] wpE_returns by (fastforce simp: Condition_parseConfig_iff)
next
  case False
  show ?thesis using wpE_returns[OF Condition_activate_no_object[OF False]] by fastforce
qed

text \<open>The outcome does not depend on the order of rules or of the conditions of a rule.\<close>

definition sameRules :: "ConditionConfig \<Rightarrow> ConditionConfig \<Rightarrow> bool" where
  "sameRules c c' \<longleftrightarrow> cc_DefaultOutcome c' = cc_DefaultOutcome c \<and>
     mset (map (\<lambda>r. (ru_Match r, mset (ru_Conditions r), ru_Outcome r)) (cc_Rules c')) =
     mset (map (\<lambda>r. (ru_Match r, mset (ru_Conditions r), ru_Outcome r)) (cc_Rules c))"

lemma sameRules_selected:
  assumes "sameRules c c'"
  shows "applicable c' data = applicable c data" "selected c' data = selected c data"
proof -
  let ?k = "\<lambda>r. (ru_Match r, mset (ru_Conditions r), ru_Outcome r)"
  let ?P = "\<lambda>(mt, es, out :: string). if mt = MatchAll then \<forall>ex\<in>#es. holdsAt data ex else \<exists>ex\<in>#es. holdsAt data ex"
  have eq: "mset (map ?k (cc_Rules c')) = mset (map ?k (cc_Rules c))"
    using assms by (simp add: sameRules_def)
  have ap: "applicable c data \<longleftrightarrow> (\<forall>(mt, es, out)\<in>set (map ?k (cc_Rules c)). \<forall>ex\<in>#es. answers data ex)" for c
    by (auto simp: applicable_def)
  show "applicable c' data = applicable c data"
    unfolding ap using mset_eq_setD[OF eq] by (simp only:)
  have P: "ruleHolds data r = ?P (?k r)" for r by (simp add: ruleHolds_def)
  have fl: "map ?k (filter (ruleHolds data) rs) = filter ?P (map ?k rs)" for rs
    by (simp add: filter_map comp_def P cong: filter_cong)
  have out: "mset (map ru_Outcome rs) = image_mset (\<lambda>p. snd (snd p)) (mset (map ?k rs))" for rs
    by (simp add: multiset.map_comp comp_def)
  have "mset (map ?k (filter (ruleHolds data) (cc_Rules c'))) = mset (map ?k (filter (ruleHolds data) (cc_Rules c)))"
    unfolding fl mset_filter eq ..
  note sel = this
  have "length (filter (ruleHolds data) (cc_Rules c')) = length (filter (ruleHolds data) (cc_Rules c))"
    using mset_eq_length[OF sel] by simp
  moreover have "mset (map ru_Outcome (filter (ruleHolds data) (cc_Rules c'))) =
      mset (map ru_Outcome (filter (ruleHolds data) (cc_Rules c)))"
    unfolding out sel ..
  ultimately show "selected c' data = selected c data"
    using assms
    by (cases "filter (ruleHolds data) (cc_Rules c')"; cases "filter (ruleHolds data) (cc_Rules c)")
      (auto simp: selected_def sameRules_def split: list.splits)
qed

end
