(* ===== verification/Builtin.thy ===== *)
theory Builtin
  imports Approval ConditionSpec
begin

text \<open>
  The handlers that come with the engine, together: the condition node's executor, and what
  registries that hold only approval and condition nodes guarantee.
\<close>

subsection \<open>The condition node's executor\<close>

lemma condition_executor:
  assumes "prepareRegisteredNodeHandler (Some NewConditionHandler) config = Inr h"
  shows "\<exists>c. Condition_parseConfig config = Inr c \<and> ActivatePrepared h = Condition_ActivatePrepared c \<and>
    HandlePrepared h = Condition_HandlePrepared"
  using assms
  by (auto simp: prepareRegisteredNodeHandler_def NewConditionHandler_def
      Condition_PrepareConfig_def bindR_Inr_iff split: option.splits)

lemma condition_legacy_Activate:
  "Condition_parseConfig config = Inr c \<Longrightarrow>
   Condition_Activate \<lparr>ai_Config = config, ai_Data = data\<rparr> =
     Condition_ActivatePrepared c \<lparr>pai_Data = data\<rparr>"
  by (auto simp: Condition_Activate_def Condition_ActivatePrepared_def bindE_def liftR_def fun_eq_iff
      split: option.splits)

lemma condition_result:
  assumes "\<forall>rule\<in>set (cc_Rules config). ruleOk rule" and "selected config data = Inr res"
  shows "\<exists>out. out \<noteq> [] \<and> res = continueWith out"
proof -
  have "ru_Outcome rule \<noteq> []" if "filter (ruleHolds data) (cc_Rules config) = [rule]" for rule
    using that assms(1) filter_eq_ConsD[of "ruleHolds data" "cc_Rules config" rule "[]"]
    by (auto simp: ruleOk_def)
  then show ?thesis
    using assms(2) by (auto simp: selected_def split: list.splits if_splits)
qed

lemma continue_proposal:
  assumes "out \<noteq> []" and "nodeID \<noteq> []"
  shows "isOk (prepareActivationNodeResult nodeID (continueWith out))"
    "\<not> isOk (prepareReturnNodeResult nodeID (continueWith out))"
  using assms
  by (auto simp: isOk_iff prepareActivation_iff prepareReturn_iff acceptable_def continueWith_def)

lemma condition_success:
  assumes "Condition_parseConfig raw = Inr config" and "Condition_activateConfig config d w = Some (Inr res, w')"
  shows "\<exists>out. out \<noteq> [] \<and> res = continueWith out"
proof (cases "\<exists>data. Decode (raw_bytes d) (GMap GOpen) decodeObject = Inr (Some data)")
  case True
  then obtain data where data: "Decode (raw_bytes d) (GMap GOpen) decodeObject = Inr (Some data)" by blast
  have ok: "\<forall>rule\<in>set (cc_Rules config). ruleOk rule" using assms(1) by (simp add: Condition_parseConfig_iff)
  show ?thesis
    using wpE_InrD[OF Condition_activate_wp[OF ok data] assms(2)] condition_result[OF ok] by blast
next
  case False
  show ?thesis using wpE_InrD[OF Condition_activate_no_object[OF False] assms(2)] by simp
qed

subsection \<open>Registries of built-in handlers\<close>

definition builtin :: "'h Registry \<Rightarrow> bool" where
  "builtin registry \<longleftrightarrow> (\<forall>k h. registry k = Some h \<longrightarrow>
     h = NewConditionHandler \<or>
     (\<exists>org. h = NewHandlerWithOrganization org \<and> organizationReturns org))"

lemma builtin_executor_returns:
  assumes "builtin registry" and "registry k = Some g"
    and "prepareRegisteredNodeHandler (Some g) config = Inr h"
  shows "ActivatePrepared h input w \<noteq> None" "HandlePrepared h command w \<noteq> None"
proof -
  consider (condition) "g = NewConditionHandler"
    | (approval) org where "g = NewHandlerWithOrganization org" "organizationReturns org"
    using assms(1,2) unfolding builtin_def by blast
  then have "ActivatePrepared h input w \<noteq> None \<and> HandlePrepared h command w \<noteq> None"
  proof cases
    case condition
    then obtain c where c: "Condition_parseConfig config = Inr c"
      "ActivatePrepared h = Condition_ActivatePrepared c" "HandlePrepared h = Condition_HandlePrepared"
      using condition_executor assms(3) by blast
    show ?thesis
      by (simp add: Condition_activate_returns[OF c(1)] c(2,3) Condition_ActivatePrepared_def Condition_HandlePrepared_def bindE_None_iff
          raise_def del: not_None_eq)
  next
    case approval
    obtain c where "ActivatePrepared h = Approval_ActivatePrepared org c" "HandlePrepared h = Approval_HandlePrepared c"
      using prepared_executor assms(3) unfolding approval(1) by blast
    then show ?thesis
      using activateConfig_returns[OF approval(2)]
      by (simp add: Approval_ActivatePrepared_def Approval_HandlePrepared_def bindE_None_iff liftR_def
          del: not_None_eq)
  qed
  then show "ActivatePrepared h input w \<noteq> None" "HandlePrepared h command w \<noteq> None" by simp_all
qed

lemma builtin_returns:
  assumes "builtin registry"
  shows "handlersReturnFor (Some registry) d"
  unfolding handlersReturnFor_def
proof (intro allI impI)
  fix plan k h
  assume plan: "compileDefinition (Some d) (Some registry) = Inr plan" and "plan_preparedHandler plan k = Inr h"
  then obtain n where "nodeExecutor (Some registry) n = Inr h"
    using plan_handler_executor[OF compile_planWf(1)] by blast
  then obtain g where g: "registry (nd_Kind n) = Some g"
    "prepareRegisteredNodeHandler (Some g) (nd_Config n) = Inr h"
    by (auto simp: nodeExecutor_def bindR_Inr_iff Registry_handler_def split: option.splits)
  show "(\<forall>input w. ActivatePrepared h input w \<noteq> None) \<and> (\<forall>input w. HandlePrepared h input w \<noteq> None)"
    using builtin_executor_returns[OF assms g] by blast
qed

end
