(* ===== verification/ConditionExamples.thy ===== *)
theory ConditionExamples
  imports Examples Builtin
begin

text \<open>
  A condition node that routes by amount, evaluated through the definitions of the model.
\<close>

definition quoted :: "string \<Rightarrow> string" where
  "quoted s = map (\<lambda>c. if c = CHR 0x60 then CHR 0x22 else c) s"

definition bigRule :: string where
  "bigRule = quoted ''{`match`:`all`,`conditions`:[{`field`:`/order/amount`,`type`:`number`,`operator`:`gte`,`value`:2.50},{`field`:`/tags`,`type`:`collection`,`operator`:`contains`,`value`:`x`}],`outcome`:`big`}''"

definition smallRule :: string where
  "smallRule = quoted ''{`match`:`any`,`conditions`:[{`field`:`/order/amount`,`type`:`number`,`operator`:`lt`,`value`:25e-1}],`outcome`:`small`}''"

definition routeConfig :: string where
  "routeConfig = quoted ''{`rules`:['' @ bigRule @ '','' @ smallRule @ '']}''"

definition routeConfigSwapped :: string where
  "routeConfigSwapped = quoted ''{`rules`:['' @ smallRule @ '','' @ bigRule @ '']}''"

definition bigRuleOf :: Rule where
  "bigRuleOf = \<lparr>ru_Match = ''all'', ru_Conditions =
     [\<lparr>ex_Field = ''/order/amount'', ex_Type = ''number'', ex_Operator = ''gte'', ex_Value = JNumber ''2.50''\<rparr>,
      \<lparr>ex_Field = ''/tags'', ex_Type = ''collection'', ex_Operator = ''contains'', ex_Value = JString ''x''\<rparr>],
     ru_Outcome = ''big''\<rparr>"

definition smallRuleOf :: Rule where
  "smallRuleOf = \<lparr>ru_Match = ''any'', ru_Conditions =
     [\<lparr>ex_Field = ''/order/amount'', ex_Type = ''number'', ex_Operator = ''lt'', ex_Value = JNumber ''25e-1''\<rparr>],
     ru_Outcome = ''small''\<rparr>"

definition orderData :: string where
  "orderData = quoted ''{`order`:{`amount`:250E-2},`tags`:[true,`x`]}''"

definition orderMembers :: "(string \<times> jvalue) list" where
  "orderMembers = [(''order'', JObject [(''amount'', JNumber ''250E-2'')]),
     (''tags'', JArray [JBool True, JString ''x''])]"

lemma route_config:
  "Condition_parseConfig (Some routeConfig) = Inr \<lparr>cc_Rules = [bigRuleOf, smallRuleOf], cc_DefaultOutcome = []\<rparr>"
  by code_simp

lemma route_config_swapped:
  "Condition_parseConfig (Some routeConfigSwapped) = Inr \<lparr>cc_Rules = [smallRuleOf, bigRuleOf], cc_DefaultOutcome = []\<rparr>"
  by code_simp

lemma order_data: "Decode orderData (GMap GOpen) decodeObject = Inr (Some orderMembers)"
  by code_simp

lemma order_evaluates:
  "ranTo (continueWith ''big'')
     (Condition_activateConfig \<lparr>cc_Rules = [bigRuleOf, smallRuleOf], cc_DefaultOutcome = []\<rparr> (Some orderData) demoEnv)"
  by code_simp

end
