(* ===== verification/Marshal.thy ===== *)
theory Marshal
  imports Decimal JsonStrict Facts
begin

text \<open>
  The printer of \<open>encoding/json\<close> as the row codecs use it: \<open>json.Marshal\<close> with HTML escaping on
  strings, unsigned numbers, arrays and structs, and the standard base64 text of a byte slice.

  Main facts: \<open>lex_str_escapeString\<close> (a printed string is read back with every byte that is not
  UTF-8 replaced by U+FFFD), \<open>json_parse_print\<close> and \<open>Validate_print\<close> (a printed value is a strict
  document whose value is \<open>clean v\<close>), \<open>clean_id\<close> (nothing changes for valid UTF-8) and
  \<open>base64_round_trip\<close>.
\<close>

subsection \<open>Runes\<close>

definition rune_size :: "string \<Rightarrow> nat" where
  \<comment> \<open>\<open>utf8.DecodeRune\<close>: the size of a valid rune at the head, 0 if the first byte is invalid\<close>
  "rune_size s = (case s of
     [] \<Rightarrow> 0
   | c # cs \<Rightarrow> (case utf8_lead (byte c) of
       None \<Rightarrow> 0
     | Some (n, lo, hi) \<Rightarrow>
         if n = 0 then 1
         else if n \<le> length cs \<and> is_cont lo hi (hd cs) \<and>
                 list_all (is_cont 128 191) (take (n - 1) (tl cs)) then n + 1
         else 0))"

function toValidUTF8 :: "string \<Rightarrow> string" where
  \<comment> \<open>every byte that starts no valid rune becomes U+FFFD\<close>
  "toValidUTF8 [] = []"
| "toValidUTF8 (c # cs) =
     (if rune_size (c # cs) = 0 then replacement @ toValidUTF8 cs
      else take (rune_size (c # cs)) (c # cs) @ toValidUTF8 (drop (rune_size (c # cs)) (c # cs)))"
  by pat_completeness auto
termination
  by (relation "measure length") auto

subsection \<open>Strings\<close>

definition escapeByte :: "char \<Rightarrow> string" where
  "escapeByte c =
     (if c = CHR 0x22 \<or> c = CHR 0x5C then [CHR 0x5C, c]
      else if c = CHR 0x08 then [CHR 0x5C, CHR ''b'']
      else if c = CHR 0x0C then [CHR 0x5C, CHR ''f'']
      else if c = CHR 0x0A then [CHR 0x5C, CHR ''n'']
      else if c = CHR 0x0D then [CHR 0x5C, CHR ''r'']
      else if c = CHR 0x09 then [CHR 0x5C, CHR ''t'']
      else if byte c < 32 \<or> c = CHR ''<'' \<or> c = CHR ''>'' \<or> c = CHR ''&'' then
        CHR 0x5C # ''u00'' @ [hexDigit (byte c div 16), hexDigit (byte c mod 16)]
      else [c])"

definition lineSeparator :: "string \<Rightarrow> bool" where
  \<comment> \<open>U+2028 or U+2029\<close>
  "lineSeparator r \<longleftrightarrow> r = [CHR 0xE2, CHR 0x80, CHR 0xA8] \<or> r = [CHR 0xE2, CHR 0x80, CHR 0xA9]"

definition escapeRune :: "string \<Rightarrow> string" where
  "escapeRune r =
     (if lineSeparator r then CHR 0x5C # ''u202'' @ [hexDigit (byte (r ! 2) mod 16)] else r)"

function escapeString :: "string \<Rightarrow> string" where
  "escapeString [] = []"
| "escapeString (c # cs) =
     (if byte c < 128 then escapeByte c @ escapeString cs
      else if rune_size (c # cs) = 0 then CHR 0x5C # ''ufffd'' @ escapeString cs
      else escapeRune (take (rune_size (c # cs)) (c # cs)) @
           escapeString (drop (rune_size (c # cs)) (c # cs)))"
  by pat_completeness auto
termination
  by (relation "measure length") auto

definition quote :: "string \<Rightarrow> string" where
  "quote s = CHR 0x22 # escapeString s @ [CHR 0x22]"

subsection \<open>Values\<close>

fun json_print :: "jvalue \<Rightarrow> string"
  and print_elems :: "jvalue list \<Rightarrow> string"
  and print_members :: "(string \<times> jvalue) list \<Rightarrow> string"
where
  "json_print JNull = ''null''"
| "json_print (JBool b) = (if b then ''true'' else ''false'')"
| "json_print (JNumber s) = s"
| "json_print (JString s) = quote s"
| "json_print (JArray vs) = CHR 0x5B # (if vs = [] then [CHR 0x5D] else print_elems vs)"
| "json_print (JObject ms) = CHR 0x7B # (if ms = [] then [CHR 0x7D] else print_members ms)"
| "print_elems [] = []"
| "print_elems (v # vs) = json_print v @ (if vs = [] then [CHR 0x5D] else CHR 0x2C # print_elems vs)"
| "print_members [] = []"
| "print_members ((k, v) # ms) =
     quote k @ CHR 0x3A # json_print v @ (if ms = [] then [CHR 0x7D] else CHR 0x2C # print_members ms)"

fun clean :: "jvalue \<Rightarrow> jvalue" where
  \<comment> \<open>what a reader of the printed value sees\<close>
  "clean (JString s) = JString (toValidUTF8 s)"
| "clean (JArray vs) = JArray (map clean vs)"
| "clean (JObject ms) = JObject (map (\<lambda>p. (toValidUTF8 (fst p), clean (snd p))) ms)"
| "clean v = v"

fun printable :: "jvalue \<Rightarrow> bool" where
  "printable (JNumber s) \<longleftrightarrow> (\<exists>n. s = FormatUint n)"
| "printable (JArray vs) \<longleftrightarrow> (\<forall>v\<in>set vs. printable v)"
| "printable (JObject ms) \<longleftrightarrow> (\<forall>p\<in>set ms. printable (snd p))"
| "printable _ \<longleftrightarrow> True"

fun utf8_clean :: "jvalue \<Rightarrow> bool" where
  "utf8_clean (JString s) \<longleftrightarrow> utf8_Valid s"
| "utf8_clean (JArray vs) \<longleftrightarrow> (\<forall>v\<in>set vs. utf8_clean v)"
| "utf8_clean (JObject ms) \<longleftrightarrow> (\<forall>p\<in>set ms. utf8_Valid (fst p) \<and> utf8_clean (snd p))"
| "utf8_clean _ \<longleftrightarrow> True"

subsection \<open>Runes and UTF-8\<close>

lemma utf8_Valid_ascii [simp]: "byte c < 128 \<Longrightarrow> utf8_Valid (c # cs) = utf8_Valid cs"
  by (simp add: utf8_lead_def)

lemma rune_size_ascii [simp]: "byte c < 128 \<Longrightarrow> rune_size (c # cs) = 1"
  by (simp add: rune_size_def utf8_lead_def)

lemma utf8_lead_cases:
  assumes "utf8_lead b = Some (n, lo, hi)"
  shows "n = 0 \<and> b < 128 \<or> (n = 1 \<or> n = 2 \<or> n = 3) \<and> 128 \<le> lo \<and> 128 \<le> b"
  using assms by (auto simp: utf8_lead_def split: if_splits)

lemma rune_size_Cons:
  assumes "utf8_lead (byte c) = Some (n, lo, hi)"
  shows "n = 0 \<Longrightarrow> rune_size (c # cs) = 1"
    and "n = 1 \<Longrightarrow> rune_size (c # cs) = (case cs of d # _ \<Rightarrow> if is_cont lo hi d then 2 else 0 | _ \<Rightarrow> 0)"
    and "n = 2 \<Longrightarrow> rune_size (c # cs) = (case cs of d # f # _ \<Rightarrow>
           if is_cont lo hi d \<and> is_cont 128 191 f then 3 else 0 | _ \<Rightarrow> 0)"
    and "n = 3 \<Longrightarrow> rune_size (c # cs) = (case cs of d # f # g # _ \<Rightarrow>
           if is_cont lo hi d \<and> is_cont 128 191 f \<and> is_cont 128 191 g then 4 else 0 | _ \<Rightarrow> 0)"
  using assms by (auto simp: rune_size_def split: list.split)

lemma rune_size_le: "rune_size s \<le> length s"
  by (auto simp: rune_size_def split: list.split option.split)

lemma utf8_Valid_step:
  assumes "s \<noteq> []"
  shows "utf8_Valid s \<longleftrightarrow> 0 < rune_size s \<and> utf8_Valid (drop (rune_size s) s)"
proof -
  obtain c cs where s: "s = c # cs" using assms by (cases s) auto
  show ?thesis
  proof (cases "utf8_lead (byte c)")
    case None
    then show ?thesis by (simp add: s rune_size_def)
  next
    case (Some p)
    obtain n lo hi where p: "p = (n, lo, hi)" by (cases p)
    note lead = Some[unfolded p]
    from utf8_lead_cases[OF lead] consider "n = 0" | "n = 1" | "n = 2" | "n = 3" by auto
    then show ?thesis
      by cases (auto simp: s lead rune_size_Cons[OF lead] split: list.split)
  qed
qed

lemma rune_size_prefix:
  assumes "0 < rune_size s"
  shows "rune_size (take (rune_size s) s @ t) = rune_size s"
proof -
  obtain c cs where s: "s = c # cs" using assms by (cases s) (auto simp: rune_size_def)
  from assms obtain n lo hi where lead: "utf8_lead (byte c) = Some (n, lo, hi)"
    by (auto simp: s rune_size_def split: option.splits)
  from utf8_lead_cases[OF lead] consider "n = 0" | "n = 1" | "n = 2" | "n = 3" by auto
  then show ?thesis using assms
    by cases (auto simp: s lead rune_size_Cons[OF lead] split: list.splits if_splits)
qed

lemma utf8_Valid_rune:
  assumes "0 < rune_size s"
  shows "utf8_Valid (take (rune_size s) s @ t) = utf8_Valid t"
proof -
  have "take (rune_size s) s @ t \<noteq> []" using assms rune_size_le[of s] by (cases s) auto
  from utf8_Valid_step[OF this] show ?thesis
    using assms rune_size_le[of s] by (simp add: rune_size_prefix)
qed

lemma rune_high:
  assumes "0 < rune_size (c # cs)" and "128 \<le> byte c"
  shows "\<forall>d \<in> set (take (rune_size (c # cs)) (c # cs)). 128 \<le> byte d"
proof -
  from assms obtain n lo hi where lead: "utf8_lead (byte c) = Some (n, lo, hi)"
    by (auto simp: rune_size_def split: option.splits)
  from utf8_lead_cases[OF lead] assms(2) have "n = 1 \<or> n = 2 \<or> n = 3" "128 \<le> lo" by auto
  then show ?thesis using assms
    by (auto simp: rune_size_Cons[OF lead] is_cont_def split: list.splits if_splits)
qed

lemma utf8_Valid_replacement [simp]: "utf8_Valid (replacement @ s) = utf8_Valid s"
  by (simp add: replacement_def utf8_encode_def utf8_lead_def is_cont_def)

lemma utf8_Valid_toValidUTF8 [simp]: "utf8_Valid (toValidUTF8 s)"
  by (induction s rule: toValidUTF8.induct) (auto simp: utf8_Valid_rune simp del: utf8_Valid.simps(2))

lemma toValidUTF8_valid: "utf8_Valid s \<Longrightarrow> toValidUTF8 s = s"
proof (induction s rule: toValidUTF8.induct)
  case (2 c cs)
  then show ?case using utf8_Valid_step[of "c # cs"]
    by (simp add: append_take_drop_id del: utf8_Valid.simps)
qed simp

lemma toValidUTF8_id: "toValidUTF8 s = s \<longleftrightarrow> utf8_Valid s"
  using toValidUTF8_valid utf8_Valid_toValidUTF8 by metis

subsection \<open>A printed string is read back\<close>

lemma push_push [simp]: "push a (push b m) = push (a @ b) m"
  by (cases m) (auto simp: push_def)

lemma push_Some [simp]: "push p (Some (s, r)) = Some (p @ s, r)"
  by (simp add: push_def)

lemma hex_val_hexDigit [simp]: "n < 16 \<Longrightarrow> hex_val (hexDigit n) = Some n"
  unfolding hex_val_def hexDigit_value by auto

lemma byte_div_16 [simp]: "byte c div 16 < 16"
  using nat_of_char_less_256[of c] by (simp add: less_mult_imp_div_less)

lemma utf8_encode_ascii [simp]: "byte c < 128 \<Longrightarrow> utf8_encode (byte c) = [c]"
  by (simp add: utf8_encode_def)

lemma simple_escape_simps [simp]:
  "simple_escape (CHR 0x22) = Some (CHR 0x22)" "simple_escape (CHR 0x5C) = Some (CHR 0x5C)"
  "simple_escape (CHR ''b'') = Some (CHR 0x08)" "simple_escape (CHR ''f'') = Some (CHR 0x0C)"
  "simple_escape (CHR ''n'') = Some (CHR 0x0A)" "simple_escape (CHR ''r'') = Some (CHR 0x0D)"
  "simple_escape (CHR ''t'') = Some (CHR 0x09)"
  by (simp_all add: simple_escape_def)

lemma hex4_low [simp]:
  "a < 16 \<Longrightarrow> b < 16 \<Longrightarrow> hex4 (CHR ''0'') (CHR ''0'') (hexDigit a) (hexDigit b) = Some (16 * a + b)"
  by (simp add: hex4_def) (simp add: hex_val_def)

lemma lex_str_unicode:
  assumes "hex4 a b c d = Some v" and "v < 55296 \<or> 57343 < v"
  shows "lex_str (CHR 0x5C # CHR ''u'' # a # b # c # d # t) = push (utf8_encode v) (lex_str t)"
  using assms by (subst lex_str.simps) auto

lemma lex_str_plain:
  "c \<noteq> CHR 0x22 \<Longrightarrow> c \<noteq> CHR 0x5C \<Longrightarrow> 32 \<le> byte c \<Longrightarrow> lex_str (c # t) = push [c] (lex_str t)"
  by (subst lex_str.simps) auto

lemma lex_str_escapeByte:
  assumes "byte c < 128"
  shows "lex_str (escapeByte c @ t) = push [c] (lex_str t)"
proof -
  have v: "16 * (byte c div 16) + byte c mod 16 = byte c" by simp
  have u: "lex_str (CHR 0x5C # CHR ''u'' # CHR ''0'' # CHR ''0'' # hexDigit (byte c div 16) #
      hexDigit (byte c mod 16) # t) = push [c] (lex_str t)"
    using lex_str_unicode[of "CHR ''0''" "CHR ''0''" "hexDigit (byte c div 16)" "hexDigit (byte c mod 16)"
        "byte c" t] assms v by (simp del: lex_str.simps)
  show ?thesis using u lex_str_plain[of c t]
    by (auto simp: escapeByte_def)
qed

lemma high_bytes:
  assumes "128 \<le> byte c"
  shows "c \<noteq> CHR 0x22" "c \<noteq> CHR 0x5C" "32 \<le> byte c"
  using assms by auto

lemma lex_str_high:
  "(\<forall>d\<in>set r. 128 \<le> byte d) \<Longrightarrow> lex_str (r @ t) = push r (lex_str t)"
proof (induction r)
  case Nil
  show ?case by (cases "lex_str t") (auto simp: push_def)
next
  case (Cons c r)
  then show ?case using lex_str_plain[OF high_bytes[of c], of "r @ t"] by simp
qed

lemma lex_str_escapeRune:
  assumes "\<forall>d\<in>set r. 128 \<le> byte d"
  shows "lex_str (escapeRune r @ t) = push r (lex_str t)"
proof (cases "lineSeparator r")
  case True
  have u: "char_of (226::nat) = CHR 0xE2" "char_of (128::nat) = CHR 0x80" "char_of (168::nat) = CHR 0xA8"
    "char_of (169::nat) = CHR 0xA9" by (simp_all add: char_of_eq_iff)
  have d: "hexDigit 8 = CHR ''8''" "hexDigit 9 = CHR ''9''" by (simp_all add: hexDigit_def char_of_eq_iff)
  from True show ?thesis
    using lex_str_unicode[of "CHR ''2''" "CHR ''0''" "CHR ''2''" "CHR ''8''" 8232 t]
      lex_str_unicode[of "CHR ''2''" "CHR ''0''" "CHR ''2''" "CHR ''9''" 8233 t]
    by (auto simp: lineSeparator_def escapeRune_def d hex4_def hex_val_def utf8_encode_def u
        simp del: lex_str.simps)
next
  case False
  with assms show ?thesis by (simp add: escapeRune_def lex_str_high)
qed

lemma lex_str_replacement: "lex_str (CHR 0x5C # ''ufffd'' @ t) = push replacement (lex_str t)"
  using lex_str_unicode[of "CHR ''f''" "CHR ''f''" "CHR ''f''" "CHR ''d''" 65533 t]
  by (simp add: hex4_def hex_val_def replacement_def del: lex_str.simps)

lemma escapeString_ascii: "byte c < 128 \<Longrightarrow> escapeString (c # cs) = escapeByte c @ escapeString cs"
  by simp

lemma toValidUTF8_ascii: "byte c < 128 \<Longrightarrow> toValidUTF8 (c # cs) = c # toValidUTF8 cs"
  by simp

lemma escape_induct [case_names Nil ascii invalid rune]:
  assumes "P []"
    and "\<And>c cs. byte c < 128 \<Longrightarrow> P cs \<Longrightarrow> P (c # cs)"
    and "\<And>c cs. 128 \<le> byte c \<Longrightarrow> rune_size (c # cs) = 0 \<Longrightarrow> P cs \<Longrightarrow> P (c # cs)"
    and "\<And>r cs. r \<noteq> [] \<Longrightarrow> rune_size (r @ cs) = length r \<Longrightarrow> \<forall>d\<in>set r. 128 \<le> byte d \<Longrightarrow> P cs \<Longrightarrow> P (r @ cs)"
  shows "P s"
proof (induction s rule: escapeString.induct)
  case (2 c cs)
  show ?case
  proof (cases "byte c < 128 \<or> rune_size (c # cs) = 0")
    case True
    with 2 assms(2,3) show ?thesis by force
  next
    case False
    let ?k = "rune_size (c # cs)"
    let ?r = "take ?k (c # cs)"
    have k: "0 < ?k" "128 \<le> byte c" using False by auto
    have "P (?r @ drop ?k (c # cs))"
    proof (rule assms(4))
      show "P (drop ?k (c # cs))" using 2(3) False by blast
      show "rune_size (?r @ drop ?k (c # cs)) = length ?r"
        using rune_size_le[of "c # cs"] by simp
      show "\<forall>d\<in>set ?r. 128 \<le> byte d" by (rule rune_high[OF k])
      show "?r \<noteq> []" using k by simp
    qed
    then show ?thesis by (simp only: append_take_drop_id)
  qed
qed (rule assms(1))

lemma high_rune:
  assumes "r \<noteq> []" and "rune_size (r @ cs) = length r" and "\<forall>d\<in>set r. 128 \<le> byte d"
  shows "escapeString (r @ cs) = escapeRune r @ escapeString cs"
    and "toValidUTF8 (r @ cs) = r @ toValidUTF8 cs"
    and "utf8_Valid (r @ t) = utf8_Valid t"
proof -
  obtain c r' where r: "r = c # r'" using assms(1) by (cases r) auto
  show "escapeString (r @ cs) = escapeRune r @ escapeString cs"
    using assms unfolding r append_Cons escapeString.simps(2) by simp
  show "toValidUTF8 (r @ cs) = r @ toValidUTF8 cs"
    using assms unfolding r append_Cons toValidUTF8.simps(2) by simp
  show "utf8_Valid (r @ t) = utf8_Valid t"
    using utf8_Valid_rune[of "r @ cs" t] assms by simp
qed

lemma lex_str_escapeString:
  "lex_str (escapeString s @ CHR 0x22 # t) = Some (toValidUTF8 s, t)"
proof (induction s rule: escape_induct)
  case Nil
  show ?case by simp
next
  case (ascii c cs)
  then show ?case by (simp add: lex_str_escapeByte del: lex_str.simps escapeString.simps)
      (simp add: escapeString_ascii lex_str_escapeByte)
next
  case (invalid c cs)
  then show ?case using lex_str_replacement by (simp del: lex_str.simps)
next
  case (rune r cs)
  then show ?case by (simp add: high_rune lex_str_escapeRune del: lex_str.simps)
qed

subsection \<open>A printed string is valid UTF-8 without broken surrogates\<close>

declare utf8_Valid.simps(2) [simp del]

lemma byte_hexDigit [simp]: "n < 16 \<Longrightarrow> byte (hexDigit n) < 128"
  by (simp add: hexDigit_value)

lemma utf8_Valid_escapeByte [simp]: "byte c < 128 \<Longrightarrow> utf8_Valid (escapeByte c @ t) = utf8_Valid t"
  by (simp add: escapeByte_def)

lemma utf8_Valid_escapeString: "utf8_Valid (escapeString s @ t) = utf8_Valid t"
proof (induction s rule: escape_induct)
  case (rune r cs)
  have "utf8_Valid (escapeRune r @ u) = utf8_Valid u" for u
    using high_rune(3)[OF rune(1-3)] by (simp add: escapeRune_def)
  with rune show ?case by (simp add: high_rune(1))
qed simp_all

lemma utf8_Valid_quote: "utf8_Valid (quote s @ t) = utf8_Valid t"
  by (simp add: quote_def utf8_Valid_escapeString)

lemma surrogateScan_plain:
  "c \<noteq> CHR 0x22 \<Longrightarrow> c \<noteq> CHR 0x5C \<Longrightarrow> surrogateScan True (c # t) = surrogateScan True t"
  by (subst surrogateScan.simps) auto

lemma surrogateScan_simple:
  "e \<noteq> CHR ''u'' \<Longrightarrow> surrogateScan True (CHR 0x5C # e # t) = surrogateScan True t"
  by (subst surrogateScan.simps) auto

lemma surrogateScan_unicode:
  assumes "hex_digits_value [a, b, c, d] = Some v" and "v < 55296 \<or> 57343 < v"
  shows "surrogateScan True (CHR 0x5C # CHR ''u'' # a # b # c # d # t) = surrogateScan True t"
proof -
  obtain w where w: "decodeHexEscape [a, b, c, d] = Some w" "unat w = v"
    using decodeHexEscape_value[of "[a, b, c, d]"] assms(1) by auto
  have "\<not> isHighSurrogate w" "\<not> isLowSurrogate w"
    using assms(2) w(2) by (auto simp: isHighSurrogate_def isLowSurrogate_def word_le_nat_alt)
  with w(1) show ?thesis by (subst surrogateScan.simps) simp
qed

lemma hex_digits_low:
  "a < 16 \<Longrightarrow> b < 16 \<Longrightarrow> hex_digits_value [CHR ''0'', CHR ''0'', hexDigit a, hexDigit b] = Some (16 * a + b)"
  by (simp add: hex_digits_value_def hexAcc_def) (simp add: hex_val_def)

lemma surrogateScan_escapeByte:
  assumes "byte c < 128"
  shows "surrogateScan True (escapeByte c @ t) = surrogateScan True t"
proof -
  have v: "16 * (byte c div 16) + byte c mod 16 = byte c" by simp
  have u: "surrogateScan True (CHR 0x5C # CHR ''u'' # CHR ''0'' # CHR ''0'' # hexDigit (byte c div 16) #
      hexDigit (byte c mod 16) # t) = surrogateScan True t"
    by (rule surrogateScan_unicode[of _ _ _ _ "byte c"])
       (use hex_digits_low[of "byte c div 16" "byte c mod 16"] assms in auto)
  show ?thesis using u surrogateScan_plain[of c t] surrogateScan_simple[of _ t]
    by (simp add: escapeByte_def del: surrogateScan.simps)
qed

lemma surrogateScan_high:
  "(\<forall>d\<in>set r. 128 \<le> byte d) \<Longrightarrow> surrogateScan True (r @ t) = surrogateScan True t"
proof (induction r)
  case (Cons c r)
  then show ?case using surrogateScan_plain[OF high_bytes(1,2)[of c], of "r @ t"] by simp
qed simp

lemma surrogateScan_escapeRune:
  assumes "\<forall>d\<in>set r. 128 \<le> byte d"
  shows "surrogateScan True (escapeRune r @ t) = surrogateScan True t"
proof (cases "lineSeparator r")
  case True
  have d: "hexDigit 8 = CHR ''8''" "hexDigit 9 = CHR ''9''" by (simp_all add: hexDigit_def char_of_eq_iff)
  have "surrogateScan True (CHR 0x5C # CHR ''u'' # CHR ''2'' # CHR ''0'' # CHR ''2'' # CHR ''8'' # t) = surrogateScan True t"
    by (rule surrogateScan_unicode[of _ _ _ _ 8232]) (simp_all add: hex_digits_value_def hexAcc_def hex_val_def)
  moreover have "surrogateScan True (CHR 0x5C # CHR ''u'' # CHR ''2'' # CHR ''0'' # CHR ''2'' # CHR ''9'' # t) = surrogateScan True t"
    by (rule surrogateScan_unicode[of _ _ _ _ 8233]) (simp_all add: hex_digits_value_def hexAcc_def hex_val_def)
  ultimately show ?thesis using True
    by (auto simp: lineSeparator_def escapeRune_def d simp del: surrogateScan.simps)
next
  case False
  with assms show ?thesis by (simp add: escapeRune_def surrogateScan_high)
qed

lemma surrogateScan_replacement: "surrogateScan True (CHR 0x5C # ''ufffd'' @ t) = surrogateScan True t"
  using surrogateScan_unicode[of "CHR ''f''" "CHR ''f''" "CHR ''f''" "CHR ''d''" 65533 t]
  by (simp add: hex_digits_value_def hexAcc_def hex_val_def del: surrogateScan.simps)

lemma surrogateScan_escapeString: "surrogateScan True (escapeString s @ t) = surrogateScan True t"
proof (induction s rule: escape_induct)
  case (ascii c cs)
  then show ?case by (simp add: escapeString_ascii surrogateScan_escapeByte del: surrogateScan.simps)
next
  case (invalid c cs)
  then show ?case using surrogateScan_replacement by (simp del: surrogateScan.simps)
next
  case (rune r cs)
  then show ?case by (simp add: high_rune(1) surrogateScan_escapeRune del: surrogateScan.simps)
qed simp

lemma surrogateScan_quote: "surrogateScan False (quote s @ t) = surrogateScan False t"
  using surrogateScan_escapeString[of s "CHR 0x22 # t"] by (simp add: quote_def)

subsection \<open>Printed values\<close>

lemma digits_utf8: "list_all is_digit ds \<Longrightarrow> utf8_Valid (ds @ t) = utf8_Valid t"
  by (induction ds) (simp_all add: is_digit_def)

lemma digits_surrogates: "list_all is_digit ds \<Longrightarrow> surrogateScan False (ds @ t) = surrogateScan False t"
proof (induction ds)
  case (Cons c ds)
  then have "c \<noteq> CHR 0x22" by (auto simp: is_digit_def)
  with Cons show ?case by (simp add: surrogateScan.simps(2))
qed simp

lemma FormatUint_digits: "list_all is_digit (FormatUint n)" "FormatUint n \<noteq> []"
  using digits_FormatUint[of n] by (auto simp: digits_def)

lemma utf8_Valid_print:
  "printable v \<Longrightarrow> utf8_Valid (json_print v @ t) = utf8_Valid t"
  "\<forall>v\<in>set vs. printable v \<Longrightarrow> utf8_Valid (print_elems vs @ t) = utf8_Valid t"
  "\<forall>p\<in>set ms. printable (snd p) \<Longrightarrow> utf8_Valid (print_members ms @ t) = utf8_Valid t"
  by (induction v and vs and ms arbitrary: t and t and t
      rule: json_print_print_elems_print_members.induct)
     (auto simp: utf8_Valid_quote digits_utf8 FormatUint_digits)

lemma surrogateScan_print:
  "printable v \<Longrightarrow> surrogateScan False (json_print v @ t) = surrogateScan False t"
  "\<forall>v\<in>set vs. printable v \<Longrightarrow> surrogateScan False (print_elems vs @ t) = surrogateScan False t"
  "\<forall>p\<in>set ms. printable (snd p) \<Longrightarrow> surrogateScan False (print_members ms @ t) = surrogateScan False t"
  by (induction v and vs and ms arbitrary: t and t and t
      rule: json_print_print_elems_print_members.induct)
     (auto simp: surrogateScan_quote digits_surrogates FormatUint_digits)

lemma lex_quote: "lex (quote s @ t) = map_option ((#) (TStr (toValidUTF8 s))) (lex t)"
  by (simp add: quote_def is_ws_def punct_def lex_str_escapeString del: lex_str.simps)

definition delimited :: "string \<Rightarrow> bool" where
  "delimited t \<longleftrightarrow> t = [] \<or> hd t \<in> {CHR 0x2C, CHR 0x5D, CHR 0x7D}"

lemma delimited_simps [simp]: "delimited []" "delimited (CHR 0x2C # t)" "delimited (CHR 0x5D # t)" "delimited (CHR 0x7D # t)"
  by (simp_all add: delimited_def)

lemma delimited_rest:
  assumes "delimited t"
  shows "t = [] \<or> \<not> is_digit (hd t)" "lex_frac t = Some ([], t)" "lex_exp t = Some ([], t)"
  using assms by (auto simp: delimited_def lex_frac_def lex_exp_def is_digit_def split: list.split)

lemma lex_number:
  assumes "delimited t"
  shows "lex (FormatUint n @ t) = map_option ((#) (TNum (FormatUint n))) (lex t)"
proof -
  obtain c cs where n: "FormatUint n = c # cs" using FormatUint_digits(2)[of n] by (cases "FormatUint n") auto
  then have c: "is_digit c" "list_all is_digit cs" using FormatUint_digits(1)[of n] by auto
  then have nc: "c \<noteq> CHR ''-''" "\<not> is_ws c" "punct c = None" "c \<noteq> CHR 0x22"
    by (auto simp: is_digit_def is_ws_def punct_def)
  have cs: "c = CHR ''0'' \<Longrightarrow> cs = []"
    using FormatUint_leading[of n cs] n by (auto simp: FormatUint.simps)
  have "lex_int (c # cs @ t) = Some (c # cs, t)"
    using span_digits[OF c(2) delimited_rest(1)[OF assms]] c(1) cs by (auto simp: lex_int_def)
  then have "lex_num (c # cs @ t) = Some (c # cs, t)"
    using nc(1) by (simp add: lex_num_def delimited_rest[OF assms])
  with nc c(1) show ?thesis by (simp add: n)
qed

lemma lex_words:
  "lex (CHR ''n'' # CHR ''u'' # CHR ''l'' # CHR ''l'' # t) = map_option ((#) TNull) (lex t)"
  "lex (CHR ''t'' # CHR ''r'' # CHR ''u'' # CHR ''e'' # t) = map_option ((#) TTrue) (lex t)"
  "lex (CHR ''f'' # CHR ''a'' # CHR ''l'' # CHR ''s'' # CHR ''e'' # t) = map_option ((#) TFalse) (lex t)"
  by (simp_all add: is_ws_def punct_def is_digit_def lex_word_def)

lemma lex_punct:
  "lex (CHR 0x7B # t) = map_option ((#) TLBrace) (lex t)" "lex (CHR 0x7D # t) = map_option ((#) TRBrace) (lex t)"
  "lex (CHR 0x5B # t) = map_option ((#) TLBrack) (lex t)" "lex (CHR 0x5D # t) = map_option ((#) TRBrack) (lex t)"
  "lex (CHR 0x2C # t) = map_option ((#) TComma) (lex t)" "lex (CHR 0x3A # t) = map_option ((#) TColon) (lex t)"
  by (simp_all add: is_ws_def punct_def)

lemma append_fun: "(@) [] = (\<lambda>ys. ys)" "(@) (x # xs) = (\<lambda>ys. x # xs @ ys)"
  by auto

abbreviation cleanMembers :: "(string \<times> jvalue) list \<Rightarrow> (string \<times> jvalue) list" where
  "cleanMembers ms \<equiv> map (\<lambda>p. (toValidUTF8 (fst p), clean (snd p))) ms"

lemma lex_print:
  "printable v \<Longrightarrow> delimited t \<Longrightarrow> lex (json_print v @ t) = map_option ((@) (toks (clean v))) (lex t)"
  "\<forall>v\<in>set vs. printable v \<Longrightarrow> vs \<noteq> [] \<Longrightarrow>
     lex (print_elems vs @ t) = map_option ((@) (toks_elems (map clean vs))) (lex t)"
  "\<forall>p\<in>set ms. printable (snd p) \<Longrightarrow> ms \<noteq> [] \<Longrightarrow>
     lex (print_members ms @ t) = map_option ((@) (toks_members (cleanMembers ms))) (lex t)"
proof (induction v and vs and ms arbitrary: t and t and t
    rule: json_print_print_elems_print_members.induct)
  case (8 v vs)
  then show ?case by (cases "vs = []") (auto simp: lex_punct append_fun option.map_comp comp_def simp del: lex.simps)
next
  case (10 k v ms)
  then show ?case
    by (cases "ms = []") (auto simp: lex_punct lex_quote append_fun option.map_comp comp_def simp del: lex.simps)
qed (auto simp: lex_words append_fun lex_punct lex_quote lex_number option.map_comp comp_def simp del: lex.simps)

lemma json_parse_print: "printable v \<Longrightarrow> json_parse (json_print v) = Some (clean v)"
  using lex_print(1)[of v "[]"] by (simp add: json_parse_iff)

lemma Validate_print:
  "printable v \<Longrightarrow> Validate (json_print v) = Inr () \<longleftrightarrow> unique_members (clean v)"
  using utf8_Valid_print(1)[of v "[]"] surrogateScan_print(1)[of v "[]"]
  by (simp add: Validate_iff validateEscapedSurrogates_def json_parse_print)

lemma clean_id: "utf8_clean v \<Longrightarrow> clean v = v"
  by (induction v rule: clean.induct) (auto simp: toValidUTF8_valid intro!: map_idI)

lemma Decode_print:
  assumes "printable v" and "unique_members (clean v)" and "validateExactValue (clean v) T = Inr ()"
  shows "Decode (json_print v) T typed = wrapR [JsonErrInvalid] (typed (clean v))"
proof -
  have "Validate (json_print v) = Inr ()" using assms(1,2) by (simp add: Validate_print)
  with assms(1,3) show ?thesis by (simp add: Decode_def json_parse_print)
qed

subsection \<open>Byte slices\<close>

definition base64Char :: "nat \<Rightarrow> char" where
  "base64Char n =
     (if n < 26 then char_of (65 + n) else if n < 52 then char_of (71 + n)
      else if n < 62 then char_of (n - 4) else if n = 62 then CHR ''+'' else CHR ''/'')"

definition base64Val :: "char \<Rightarrow> nat option" where
  "base64Val c =
     (let b = byte c in
      if 65 \<le> b \<and> b \<le> 90 then Some (b - 65) else if 97 \<le> b \<and> b \<le> 122 then Some (b - 71)
      else if 48 \<le> b \<and> b \<le> 57 then Some (b + 4) else if b = 43 then Some 62
      else if b = 47 then Some 63 else None)"

fun base64Encode :: "string \<Rightarrow> string" where
  \<comment> \<open>\<open>base64.StdEncoding\<close>: three bytes to four characters, padded\<close>
  "base64Encode [] = []"
| "base64Encode [a] =
     [base64Char (byte a div 4), base64Char (byte a mod 4 * 16), CHR ''='', CHR ''='']"
| "base64Encode [a, b] =
     [base64Char (byte a div 4), base64Char (byte a mod 4 * 16 + byte b div 16),
      base64Char (byte b mod 16 * 4), CHR ''='']"
| "base64Encode (a # b # c # r) =
     base64Char (byte a div 4) # base64Char (byte a mod 4 * 16 + byte b div 16) #
     base64Char (byte b mod 16 * 4 + byte c div 64) # base64Char (byte c mod 64) # base64Encode r"

fun base64Quanta :: "string \<Rightarrow> string option" where
  "base64Quanta [] = Some []"
| "base64Quanta (p # q # r # s # t) =
     (case (base64Val p, base64Val q) of
        (Some v, Some w) \<Rightarrow>
          (case (base64Val r, base64Val s) of
             (Some x, Some y) \<Rightarrow>
               map_option (\<lambda>bs. char_of (v * 4 + w div 16) # char_of (w mod 16 * 16 + x div 4) #
                 char_of (x mod 4 * 64 + y) # bs) (base64Quanta t)
           | (Some x, None) \<Rightarrow>
               if s = CHR ''='' \<and> t = [] then
                 Some [char_of (v * 4 + w div 16), char_of (w mod 16 * 16 + x div 4)]
               else None
           | _ \<Rightarrow>
               if r = CHR ''='' \<and> s = CHR ''='' \<and> t = [] then Some [char_of (v * 4 + w div 16)]
               else None)
      | _ \<Rightarrow> None)"
| "base64Quanta _ = None"

definition base64Decode :: "string \<Rightarrow> string option" where
  \<comment> \<open>line breaks are skipped, the bits after the last byte are not checked\<close>
  "base64Decode s = base64Quanta (filter (\<lambda>c. c \<noteq> CHR 0x0A \<and> c \<noteq> CHR 0x0D) s)"

lemma byte_base64Char:
  assumes "n < 64"
  shows "byte (base64Char n) =
    (if n < 26 then 65 + n else if n < 52 then 71 + n else if n < 62 then n - 4 else if n = 62 then 43 else 47)"
proof -
  have "byte (char_of k) = k" if "k < 256" for k :: nat using that by simp
  then show ?thesis using assms by (auto simp: base64Char_def)
qed

lemma base64Val_Char [simp]: "n < 64 \<Longrightarrow> base64Val (base64Char n) = Some n"
  unfolding base64Val_def Let_def byte_base64Char by (auto split: if_splits)

lemma base64Val_pad [simp]: "base64Val (CHR ''='') = None"
  by (simp add: base64Val_def)

lemma base64Val_range: "base64Val c \<noteq> None \<Longrightarrow> c \<noteq> CHR 0x0A \<and> c \<noteq> CHR 0x0D \<and> c \<noteq> CHR 0x22 \<and> byte c < 128"
  by (auto simp: base64Val_def Let_def split: if_splits)

lemma base64_group [simp]:
  "byte a div 4 < 64" "byte a mod 4 * 16 + byte b div 16 < 64" "byte b mod 16 * 4 + byte c div 64 < 64"
  "byte a mod 4 * 16 < 64" "byte b mod 16 * 4 < 64"
  using nat_of_char_less_256[of a] nat_of_char_less_256[of b] nat_of_char_less_256[of c]
  by linarith+

lemma base64_pack [simp]:
  fixes x y :: nat
  shows "y < 16 \<Longrightarrow> (x * 16 + y) div 16 = x" "y < 16 \<Longrightarrow> (x * 16 + y) mod 16 = y"
    "y < 4 \<Longrightarrow> (x * 4 + y) div 4 = x" "y < 4 \<Longrightarrow> (x * 4 + y) mod 4 = y"
  by simp_all

lemma base64_part [simp]: "byte c div 64 < 4"
  using nat_of_char_less_256[of c] by (simp add: less_mult_imp_div_less)

lemma base64Quanta_Encode: "base64Quanta (base64Encode s) = Some s"
  by (induction s rule: base64Encode.induct) (simp_all del: mult_Suc_right)

lemma base64Encode_chars: "c \<in> set (base64Encode s) \<Longrightarrow> base64Val c \<noteq> None \<or> c = CHR ''=''"
  by (induction s rule: base64Encode.induct) (auto simp del: not_None_eq)

lemma base64_round_trip [simp]: "base64Decode (base64Encode s) = Some s"
proof -
  have "\<forall>c\<in>set (base64Encode s). c \<noteq> CHR 0x0A \<and> c \<noteq> CHR 0x0D"
    using base64Encode_chars base64Val_range by fastforce
  then have "filter (\<lambda>c. c \<noteq> CHR 0x0A \<and> c \<noteq> CHR 0x0D) (base64Encode s) = base64Encode s"
    by (simp add: filter_id_conv)
  then show ?thesis by (simp add: base64Decode_def base64Quanta_Encode)
qed

lemma utf8_Valid_base64 [simp]: "utf8_Valid (base64Encode s)"
proof -
  have "utf8_Valid t" if "\<forall>c\<in>set t. byte c < 128" for t
    using that by (induction t) auto
  moreover have "\<forall>c\<in>set (base64Encode s). byte c < 128"
    using base64Encode_chars base64Val_range by fastforce
  ultimately show ?thesis by blast
qed

end
