(* ===== verification/TimeText.thy ===== *)
theory TimeText
  imports Decimal
begin

text \<open>
  The JSON text of a \<open>time.Time\<close> in UTC: RFC 3339 with nanoseconds, trailing zeros of the fraction
  dropped (\<open>Time.MarshalJSON\<close>), and the reader of \<open>Time.UnmarshalJSON\<close>, which also accepts
  a numeric zone offset and, as \<open>time.Parse\<close> does, an hour of one digit and a comma before the fraction. An instant is the number of nanoseconds since Go's zero time,
  0001-01-01T00:00:00Z; the proleptic Gregorian calendar starts in year 0.

  Main fact: \<open>parse_format\<close>: every instant of the years 0 to 9999 is read back exactly, and
  \<open>formatTime\<close> fails on every other.
\<close>

subsection \<open>Calendar\<close>

definition leapYear :: "nat \<Rightarrow> bool" where
  "leapYear y \<longleftrightarrow> y mod 4 = 0 \<and> (y mod 100 \<noteq> 0 \<or> y mod 400 = 0)"

definition daysBeforeYear :: "nat \<Rightarrow> nat" where
  \<comment> \<open>days from 0000-01-01 to the first of January\<close>
  "daysBeforeYear y = 365 * y + (y + 3) div 4 - (y + 99) div 100 + (y + 399) div 400"

definition monthLengths :: "nat \<Rightarrow> nat list" where
  "monthLengths y = [31, if leapYear y then 29 else 28, 31, 30, 31, 30, 31, 31, 30, 31, 30, 31]"

definition yearOf :: "nat \<Rightarrow> nat" where
  "yearOf n = (let y = 400 * n div 146097 in
     if n < daysBeforeYear y then y - 1 else if daysBeforeYear (y + 1) \<le> n then y + 1 else y)"

fun monthDay :: "nat list \<Rightarrow> nat \<Rightarrow> nat \<times> nat" where
  "monthDay [] d = (0, d)"
| "monthDay (l # ls) d =
     (if d < l then (0, d) else let (m, d') = monthDay ls (d - l) in (Suc m, d'))"

definition dateOf :: "nat \<Rightarrow> nat \<times> nat \<times> nat" where
  \<comment> \<open>year, month 1 to 12 and day of the month of a day number\<close>
  "dateOf n = (let y = yearOf n; (m, d) = monthDay (monthLengths y) (n - daysBeforeYear y)
     in (y, m + 1, d + 1))"

definition dayOf :: "nat \<Rightarrow> nat \<Rightarrow> nat \<Rightarrow> nat" where
  "dayOf y m d = daysBeforeYear y + sum_list (take (m - 1) (monthLengths y)) + (d - 1)"

lemma daysBeforeYear_Suc: "daysBeforeYear (Suc y) = daysBeforeYear y + (if leapYear y then 366 else 365)"
proof -
  have c: "(Suc y + k) div Suc k = (y + k) div Suc k + (if y mod Suc k = 0 then 1 else 0)" for k
    using div_Suc[of "y + k" "Suc k"] by (simp add: add_Suc_right[symmetric] del: add_Suc_right)
  have 4: "(Suc y + 3) div 4 = (y + 3) div 4 + (if y mod 4 = 0 then 1 else 0)"
    using c[of 3] by simp
  have 100: "(Suc y + 99) div 100 = (y + 99) div 100 + (if y mod 100 = 0 then 1 else 0)"
    using c[of 99] by simp
  have 400: "(Suc y + 399) div 400 = (y + 399) div 400 + (if y mod 400 = 0 then 1 else 0)"
    using c[of 399] by simp
  have le: "(y + 99) div 100 \<le> 365 * y + (y + 3) div 4" by linarith
  have "(100::nat) dvd 400" "(4::nat) dvd 100" by simp_all
  then have m: "y mod 400 = 0 \<Longrightarrow> y mod 100 = 0" "y mod 100 = 0 \<Longrightarrow> y mod 4 = 0"
    unfolding mod_eq_0_iff_dvd by (blast intro: dvd_trans)+
  have step: "(b :: nat) \<le> a \<Longrightarrow> (r \<Longrightarrow> q) \<Longrightarrow> (q \<Longrightarrow> p) \<Longrightarrow>
      a + 365 + (if p then 1 else 0) - (b + (if q then 1 else 0)) + (c + (if r then 1 else 0)) =
      a - b + c + (if p \<and> (\<not> q \<or> r) then 366 else 365)" for a b c p q r
    by (cases p; cases q; cases r) simp_all
  have e: "365 * Suc y + ((y + 3) div 4 + (if y mod 4 = 0 then 1 else 0)) =
      365 * y + (y + 3) div 4 + 365 + (if y mod 4 = 0 then 1 else 0)" by simp
  have s: "365 * y + (y + 3) div 4 + 365 + (if y mod 4 = 0 then 1 else 0) -
      ((y + 99) div 100 + (if y mod 100 = 0 then 1 else 0)) +
      ((y + 399) div 400 + (if y mod 400 = 0 then 1 else 0)) =
      365 * y + (y + 3) div 4 - (y + 99) div 100 + (y + 399) div 400 +
      (if y mod 4 = 0 \<and> (\<not> y mod 100 = 0 \<or> y mod 400 = 0) then 366 else 365)"
    by (rule step[OF le]) (fact m)+
  show ?thesis
    unfolding daysBeforeYear_def 4 100 400 leapYear_def e s ..
qed

lemma daysBeforeYear_0 [simp]: "daysBeforeYear 0 = 0"
  by (simp add: daysBeforeYear_def)

lemma daysBeforeYear_bounds:
  "400 * daysBeforeYear y \<le> 146097 * y + 699" "146097 * y \<le> 400 * daysBeforeYear y + 396"
proof -
  define a b c where "a = (y + 3) div 4" and "b = (y + 99) div 100" and "c = (y + 399) div 400"
  have a: "4 * a \<le> y + 3" "y \<le> 4 * a" unfolding a_def by linarith+
  have b: "100 * b \<le> y + 99" "y \<le> 100 * b" unfolding b_def by linarith+
  have c: "400 * c \<le> y + 399" "y \<le> 400 * c" unfolding c_def by linarith+
  have "b \<le> 365 * y + a" using a b by linarith
  moreover have "daysBeforeYear y = 365 * y + a - b + c"
    by (simp add: daysBeforeYear_def a_def b_def c_def)
  ultimately show "400 * daysBeforeYear y \<le> 146097 * y + 699" "146097 * y \<le> 400 * daysBeforeYear y + 396"
    using a b c by linarith+
qed

lemma yearOf_bounds: "daysBeforeYear (yearOf n) \<le> n" "n < daysBeforeYear (Suc (yearOf n))"
proof -
  define y where "y = 400 * n div 146097"
  have y: "146097 * y \<le> 400 * n" "400 * n < 146097 * y + 146097"
    unfolding y_def by linarith+
  have low: "daysBeforeYear (y - 1) \<le> n" if "n < daysBeforeYear y"
  proof -
    have "y \<noteq> 0" using that by (cases y) auto
    then have "400 * daysBeforeYear (y - 1) \<le> 400 * n"
      using daysBeforeYear_bounds(1)[of "y - 1"] y by (cases y) auto
    then show ?thesis by simp
  qed
  have high: "n < daysBeforeYear (Suc (Suc y))"
    using daysBeforeYear_bounds(2)[of "Suc (Suc y)"] y by simp
  have p: "Suc (y - 1) = y" if "n < daysBeforeYear y" using that by (cases y) auto
  show "daysBeforeYear (yearOf n) \<le> n" "n < daysBeforeYear (Suc (yearOf n))"
    using low high p unfolding yearOf_def y_def[symmetric] by (auto simp: Let_def)
qed

lemma sum_monthLengths: "sum_list (monthLengths y) = (if leapYear y then 366 else 365)"
  by (simp add: monthLengths_def)

lemma monthDay_bounds:
  assumes "d < sum_list ls" and "monthDay ls d = (m, r)"
  shows "m < length ls \<and> r < ls ! m \<and> sum_list (take m ls) + r = d"
  using assms
proof (induction ls arbitrary: d m r)
  case (Cons l ls)
  show ?case
  proof (cases "d < l")
    case True
    with Cons.prems show ?thesis by auto
  next
    case False
    obtain m' r' where md: "monthDay ls (d - l) = (m', r')" by force
    then have "m = Suc m'" "r = r'" using False Cons.prems(2) by auto
    moreover have "m' < length ls \<and> r' < ls ! m' \<and> sum_list (take m' ls) + r' = d - l"
      by (rule Cons.IH[OF _ md]) (use Cons.prems(1) False in simp)
    ultimately show ?thesis using False by auto
  qed
qed simp

lemma dateOf_bounds:
  assumes "dateOf n = (y, m, d)"
  shows "y = yearOf n" "1 \<le> m" "m \<le> 12" "1 \<le> d" "d \<le> monthLengths y ! (m - 1)" "dayOf y m d = n"
proof -
  define k where "k = n - daysBeforeYear (yearOf n)"
  obtain m' d' where md: "monthDay (monthLengths (yearOf n)) k = (m', d')" by force
  have e: "y = yearOf n" "m = m' + 1" "d = d' + 1"
    using assms md by (auto simp: dateOf_def k_def Let_def)
  have "k < sum_list (monthLengths (yearOf n))"
    using yearOf_bounds[of n] by (auto simp: sum_monthLengths k_def daysBeforeYear_Suc split: if_splits)
  from monthDay_bounds[OF this md] yearOf_bounds(1)[of n] show "y = yearOf n" "1 \<le> m" "m \<le> 12" "1 \<le> d"
    "d \<le> monthLengths y ! (m - 1)" "dayOf y m d = n"
    unfolding e by (auto simp: dayOf_def k_def) (simp_all add: monthLengths_def)
qed

lemma daysBeforeYear_mono: "x \<le> y \<Longrightarrow> daysBeforeYear x \<le> daysBeforeYear y"
  by (induction rule: dec_induct) (auto simp: daysBeforeYear_Suc)

lemma yearOf_less: "n < daysBeforeYear y \<Longrightarrow> yearOf n < y"
  using yearOf_bounds(1)[of n] daysBeforeYear_mono[of y "yearOf n"] by (meson leD le_less_linear order_trans)

subsection \<open>Text\<close>

definition dayNanos :: int where "dayNanos = 86400000000000"

definition epochDays :: int where "epochDays = 366"  \<comment> \<open>from 0000-01-01 to 0001-01-01\<close>

definition limitDay :: nat where "limitDay = daysBeforeYear 10000"

definition trimZeros :: "string \<Rightarrow> string" where
  "trimZeros s = rev (dropWhile (\<lambda>c. c = CHR ''0'') (rev s))"

definition fractionText :: "nat \<Rightarrow> string" where
  "fractionText nanos = (let f = trimZeros (fixedDigits 9 nanos) in if f = [] then [] else CHR ''.'' # f)"

definition clockText :: "nat \<Rightarrow> string" where
  \<comment> \<open>the time of day, from the nanoseconds since midnight\<close>
  "clockText k = (let s = k div 1000000000 in
     fixedDigits 2 (s div 3600) @ CHR '':'' # fixedDigits 2 (s div 60 mod 60) @ CHR '':'' #
     fixedDigits 2 (s mod 60) @ fractionText (k mod 1000000000))"

definition dateText :: "nat \<Rightarrow> string" where
  "dateText n = (let (y, m, d) = dateOf n in
     fixedDigits 4 y @ CHR ''-'' # fixedDigits 2 m @ CHR ''-'' # fixedDigits 2 d)"

definition formatTime :: "int \<Rightarrow> string result" where
  \<comment> \<open>\<open>Time.MarshalJSON\<close> of a UTC time: the year must be in [0,9999]\<close>
  "formatTime t =
     (let day = t div dayNanos + epochDays in
      if day < 0 \<or> int limitDay \<le> day then Inl []
      else Inr (dateText (nat day) @ CHR ''T'' # clockText (nat (t mod dayNanos)) @ ''Z''))"

definition number :: "nat \<Rightarrow> string \<Rightarrow> (nat \<times> string) option" where
  \<comment> \<open>exactly \<open>w\<close> digits\<close>
  "number w s =
     (if w \<le> length s \<and> list_all is_digit (take w s) then Some (digitsValue (take w s), drop w s) else None)"

definition sep :: "char \<Rightarrow> string \<Rightarrow> string option" where
  "sep c s = (case s of [] \<Rightarrow> None | d # ds \<Rightarrow> if d = c then Some ds else None)"

definition hourNumber :: "string \<Rightarrow> (nat \<times> string) option" where
  \<comment> \<open>two digits or one\<close>
  "hourNumber s = (case number 2 s of None \<Rightarrow> number 1 s | Some r \<Rightarrow> Some r)"

definition parseFraction :: "string \<Rightarrow> nat \<times> string" where
  \<comment> \<open>an optional fraction after a period or a comma, cut after nine digits\<close>
  "parseFraction s = (case s of
     c # d # ds \<Rightarrow>
       if (c = CHR ''.'' \<or> c = CHR '','') \<and> is_digit d then
         (digitsValue (take 9 (takeWhile is_digit (d # ds) @ replicate 9 (CHR ''0''))),
          dropWhile is_digit (d # ds))
       else (0, s)
   | _ \<Rightarrow> (0, s))"

definition parseZone :: "string \<Rightarrow> int option" where
  \<comment> \<open>the zone offset in seconds: \<open>Z\<close> or a sign, hours and minutes\<close>
  "parseZone s =
     (if s = ''Z'' then Some 0
      else case s of
        g # r \<Rightarrow>
          if g = CHR ''+'' \<or> g = CHR ''-'' then
            Option.bind (number 2 r) (\<lambda>(h, r). Option.bind (sep (CHR '':'') r) (\<lambda>r.
            Option.bind (number 2 r) (\<lambda>(m, r).
              if r = [] \<and> h \<le> 24 \<and> m \<le> 60 then
                Some ((if g = CHR ''-'' then - 1 else 1) * int ((h * 60 + m) * 60))
              else None)))
          else None
      | [] \<Rightarrow> None)"

definition parseDate :: "string \<Rightarrow> (nat \<times> string) option" where
  "parseDate s =
     Option.bind (number 4 s) (\<lambda>(y, s). Option.bind (sep (CHR ''-'') s) (\<lambda>s.
     Option.bind (number 2 s) (\<lambda>(m, s). Option.bind (sep (CHR ''-'') s) (\<lambda>s.
     Option.bind (number 2 s) (\<lambda>(d, s).
       if 1 \<le> m \<and> m \<le> 12 \<and> 1 \<le> d \<and> d \<le> monthLengths y ! (m - 1) then Some (dayOf y m d, s)
       else None)))))"

definition parseClock :: "string \<Rightarrow> (nat \<times> string) option" where
  "parseClock s =
     Option.bind (hourNumber s) (\<lambda>(h, s). Option.bind (sep (CHR '':'') s) (\<lambda>s.
     Option.bind (number 2 s) (\<lambda>(m, s). Option.bind (sep (CHR '':'') s) (\<lambda>s.
     Option.bind (number 2 s) (\<lambda>(sec, s).
       if h \<le> 23 \<and> m \<le> 59 \<and> sec \<le> 59 then
         (let (f, r) = parseFraction s in Some (((h * 60 + m) * 60 + sec) * 1000000000 + f, r))
       else None)))))"

definition parseTime :: "string \<Rightarrow> int result" where
  "parseTime s =
     (case Option.bind (parseDate s) (\<lambda>(day, s). Option.bind (sep (CHR ''T'') s) (\<lambda>s.
           Option.bind (parseClock s) (\<lambda>(k, s). Option.bind (parseZone s) (\<lambda>z.
             Some ((int day - epochDays) * dayNanos + int k - z * 1000000000))))) of
        None \<Rightarrow> Inl [] | Some t \<Rightarrow> Inr t)"

subsection \<open>What is printed is read back\<close>

lemma number_fixedDigits [simp]:
  "number w (fixedDigits w n @ t) = Some (n mod 10 ^ w, t)"
  by (simp add: number_def)

lemma hourNumber_fixedDigits [simp]: "hourNumber (fixedDigits 2 n @ t) = Some (n mod 100, t)"
  by (simp add: hourNumber_def)

lemma sep_Cons [simp]: "sep c (c # t) = Some t"
  by (simp add: sep_def)

lemma trimZeros_pad: "trimZeros s @ replicate (length s - length (trimZeros s)) (CHR ''0'') = s"
proof -
  let ?P = "\<lambda>c. c = CHR ''0''"
  have "takeWhile ?P (rev s) = replicate (length (takeWhile ?P (rev s))) (CHR ''0'')"
    by (rule replicate_eqI) (auto dest: set_takeWhileD)
  moreover have "rev s = takeWhile ?P (rev s) @ dropWhile ?P (rev s)" by simp
  then have "s = trimZeros s @ rev (takeWhile ?P (rev s))"
    unfolding trimZeros_def by (metis rev_append rev_rev_ident)
  ultimately show ?thesis
    by (metis add_diff_cancel_left' length_append length_rev rev_replicate)
qed

lemma trimZeros_length: "length (trimZeros s) \<le> length s"
  using length_dropWhile_le[of _ "rev s"] by (simp add: trimZeros_def)

lemma take_trimZeros:
  assumes "length s = w"
  shows "take w (trimZeros s @ replicate w (CHR ''0'')) = s"
proof -
  have "take w (trimZeros s @ replicate w (CHR ''0'')) =
      trimZeros s @ replicate (length s - length (trimZeros s)) (CHR ''0'')"
    using assms trimZeros_length[of s] by simp
  then show ?thesis by (simp only: trimZeros_pad)
qed

lemma trimZeros_digits: "list_all is_digit s \<Longrightarrow> list_all is_digit (trimZeros s)"
  by (auto simp: trimZeros_def list_all_iff dest: set_dropWhileD)

lemma parseFraction_text:
  assumes "n < 1000000000"
  shows "parseFraction (fractionText n @ ''Z'') = (n, ''Z'')"
proof -
  let ?f = "trimZeros (fixedDigits 9 n)"
  have d: "list_all is_digit ?f" by (intro trimZeros_digits) simp
  have t: "take 9 (?f @ replicate 9 (CHR ''0'')) = fixedDigits 9 n" by (rule take_trimZeros) simp
  have z: "\<not> is_digit (CHR ''Z'')" by (simp add: is_digit_def)
  have v: "digitsValue (fixedDigits 9 n) = n" using assms by simp
  show ?thesis
  proof (cases ?f)
    case Nil
    then have "fixedDigits 9 n = replicate 9 (CHR ''0'')" using t by simp
    moreover have "digitsValue (replicate 9 (CHR ''0'')) = 0" by (simp add: digitsValue_def numeral_eq_Suc)
    ultimately have "n = 0" using v by simp
    with Nil show ?thesis by (simp add: fractionText_def parseFraction_def)
  next
    case (Cons c cs)
    then have c: "is_digit c" "list_all is_digit cs" using d by auto
    have "takeWhile is_digit (c # cs @ ''Z'') = c # cs" "dropWhile is_digit (c # cs @ ''Z'') = ''Z''"
      using span_digits[OF c(2), of "''Z''"] c(1) z by auto
    with Cons c(1) t v show ?thesis
      by (simp add: fractionText_def parseFraction_def Let_def)
  qed
qed

lemma parseClock_text:
  assumes "k < nat dayNanos"
  shows "parseClock (clockText k @ ''Z'') = Some (k, ''Z'')"
proof -
  define s where "s = k div 1000000000"
  have s: "s < 86400" using assms by (simp add: s_def dayNanos_def less_mult_imp_div_less)
  then have "s div 3600 < 24" by (simp add: less_mult_imp_div_less)
  moreover have "(s div 3600 * 60 + s div 60 mod 60) * 60 + s mod 60 = s"
  proof -
    have "s div 3600 = s div 60 div 60" by (simp add: div_mult2_eq[symmetric])
    then show ?thesis by (simp only: div_mult_mod_eq)
  qed
  moreover have "s * 1000000000 + k mod 1000000000 = k" by (simp add: s_def)
  moreover have "parseFraction (fractionText (k mod 1000000000) @ ''Z'') = (k mod 1000000000, ''Z'')"
    by (rule parseFraction_text) simp
  moreover have "s div 60 mod 60 < 60" "s mod 60 < 60" by simp_all
  ultimately show ?thesis
    by (simp add: parseClock_def clockText_def s_def[symmetric] Let_def less_Suc_eq_le[symmetric])
qed

lemma monthLengths_le: "m < 12 \<Longrightarrow> monthLengths y ! m \<le> 31"
  by (auto simp: monthLengths_def nth_Cons split: nat.split)

lemma parseDate_text:
  assumes "n < limitDay"
  shows "parseDate (dateText n @ t) = Some (n, t)"
proof -
  obtain y m d where ymd: "dateOf n = (y, m, d)" by (cases "dateOf n")
  note b = dateOf_bounds[OF ymd]
  have "y < 10000" using yearOf_less[of n 10000] assms b(1) by (simp add: limitDay_def)
  moreover have "d \<le> 31" using b(2,3,5) monthLengths_le[of "m - 1" y] by linarith
  ultimately show ?thesis using b ymd
    by (simp add: parseDate_def dateText_def)
qed

lemma parse_format:
  assumes "formatTime t = Inr s"
  shows "parseTime s = Inr t"
proof -
  define day where "day = nat (t div dayNanos + epochDays)"
  define k where "k = nat (t mod dayNanos)"
  have r: "0 \<le> t div dayNanos + epochDays" "day < limitDay"
    "s = dateText day @ CHR ''T'' # clockText k @ ''Z''"
    using assms by (auto simp: formatTime_def Let_def day_def k_def split: if_splits)
  have k: "k < nat dayNanos" "int k = t mod dayNanos"
    by (simp_all add: k_def dayNanos_def)
  have "(int day - epochDays) * dayNanos + int k = t"
    using r(1) by (simp add: day_def k)
  then show ?thesis
    by (simp add: parseTime_def r(3) parseDate_text[OF r(2)] parseClock_text[OF k(1)] parseZone_def)
qed

lemma le_div_iff:
  fixes p :: int
  assumes "0 < p" shows "m \<le> t div p \<longleftrightarrow> m * p \<le> t"
proof
  assume "m \<le> t div p"
  then have "m * p \<le> t div p * p" using assms by simp
  also have "\<dots> \<le> t" using assms pos_mod_sign[of p t] div_mult_mod_eq[of t p] by linarith
  finally show "m * p \<le> t" .
next
  assume "m * p \<le> t"
  then show "m \<le> t div p" using zdiv_mono1[of "m * p" t p] assms by simp
qed

lemma formatTime_iff:
  "isOk (formatTime t) \<longleftrightarrow> - epochDays * dayNanos \<le> t \<and> t < (int limitDay - epochDays) * dayNanos"
proof -
  have p: "0 < dayNanos" by (simp add: dayNanos_def)
  have "t div dayNanos < - epochDays \<longleftrightarrow> t < - epochDays * dayNanos"
    unfolding not_le[symmetric] le_div_iff[OF p] ..
  then have "t div dayNanos + epochDays < 0 \<longleftrightarrow> t < - epochDays * dayNanos" by linarith
  moreover have "int limitDay \<le> t div dayNanos + epochDays \<longleftrightarrow> (int limitDay - epochDays) * dayNanos \<le> t"
    using le_div_iff[OF p, of "int limitDay - epochDays" t] by linarith
  ultimately show ?thesis by (auto simp: formatTime_def Let_def)
qed

lemma formatTime_ascii:
  assumes "formatTime t = Inr s"
  shows "utf8_Valid s"
proof -
  let ?A = "list_all (\<lambda>c. byte c < 128)"
  have d: "?A ds" if "list_all is_digit ds" for ds
    using that by (auto simp: list_all_iff is_digit_def)
  have fd: "?A (fixedDigits w n)" for w n by (rule d) simp
  have f: "?A (fractionText n)" for n
    using d[of "trimZeros (fixedDigits 9 n)"] by (simp add: fractionText_def Let_def trimZeros_digits)
  obtain n k where "s = dateText n @ CHR ''T'' # clockText k @ ''Z''"
    using assms by (auto simp: formatTime_def Let_def split: if_splits)
  moreover have "?A (dateText n)" by (simp add: dateText_def fd del: fixedDigits.simps split: prod.split)
  moreover have "?A (clockText k)" by (simp add: clockText_def Let_def fd f del: fixedDigits.simps)
  ultimately have "?A s" by simp
  then show ?thesis by (intro utf8_Valid_ascii_only) (simp add: list_all_iff)
qed

end
