(* ===== verification/RowCodec.thy ===== *)
theory RowCodec
  imports Marshal TimeText Model
begin

text \<open>
  The row payloads of the SQL adapters (\<open>mysql/codec.go\<close>, and the same functions of
  \<open>postgres/codec.go\<close>): the struct tags of tasks, audit records and stored definitions,
  \<open>encodeDefinition\<close>, \<open>encodeValues\<close> and their decoders through \<open>jsonstrict\<close>.

  The core model takes slices as lists; the adapters also keep whether a slice is nil, which
  the record \<open>nilSlices\<close> carries beside the aggregate.

  Main facts: \<open>decode_task\<close>, \<open>decode_audit\<close> and \<open>decode_definition\<close>: what a written payload is read
  back as. \<open>cleanTask\<close>, \<open>cleanAudit\<close> and \<open>cleanDefinition\<close> replace bytes that are not UTF-8 and are the
  identity on the \<open>storable\<close> values.
\<close>

declare utf8_Valid.simps(2) [simp del]

subsection \<open>Nil slices\<close>

record nilSlices =
  nil_Nodes :: bool
  nil_Edges :: bool
  nil_Tasks :: bool
  nil_Audit :: bool

definition nilOk :: "Instance \<Rightarrow> nilSlices \<Rightarrow> bool" where
  \<comment> \<open>a nil slice is empty\<close>
  "nilOk i n \<longleftrightarrow>
     (nil_Nodes n \<longrightarrow> d_Nodes (i_Definition i) = []) \<and> (nil_Edges n \<longrightarrow> d_Edges (i_Definition i) = []) \<and>
     (nil_Tasks n \<longrightarrow> i_Tasks i = []) \<and> (nil_Audit n \<longrightarrow> i_Audit i = [])"

subsection \<open>Status texts (runtime.go)\<close>

fun instanceStatusText :: "InstanceStatus \<Rightarrow> string" where
  "instanceStatusText InstanceStatusUnknown = ''''"
| "instanceStatusText InstanceStatusRunning = ''running''"
| "instanceStatusText InstanceStatusCompleted = ''completed''"
| "instanceStatusText InstanceStatusRejected = ''rejected''"
| "instanceStatusText InstanceStatusWithdrawn = ''withdrawn''"
| "instanceStatusText (InstanceStatusOther s) = s"

definition instanceStatusOf :: "string \<Rightarrow> InstanceStatus" where
  "instanceStatusOf s =
     (if s = '''' then InstanceStatusUnknown else if s = ''running'' then InstanceStatusRunning
      else if s = ''completed'' then InstanceStatusCompleted
      else if s = ''rejected'' then InstanceStatusRejected
      else if s = ''withdrawn'' then InstanceStatusWithdrawn else InstanceStatusOther s)"

fun taskStatusText :: "TaskStatus \<Rightarrow> string" where
  "taskStatusText TaskStatusUnknown = ''''"
| "taskStatusText TaskStatusActive = ''active''"
| "taskStatusText TaskStatusCompleted = ''completed''"
| "taskStatusText TaskStatusClosed = ''closed''"
| "taskStatusText (TaskStatusOther s) = s"

definition taskStatusOf :: "string \<Rightarrow> TaskStatus" where
  "taskStatusOf s =
     (if s = '''' then TaskStatusUnknown else if s = ''active'' then TaskStatusActive
      else if s = ''completed'' then TaskStatusCompleted
      else if s = ''closed'' then TaskStatusClosed else TaskStatusOther s)"

lemma statusText_of [simp]:
  "instanceStatusText (instanceStatusOf s) = s" "taskStatusText (taskStatusOf s) = s"
  by (auto simp: instanceStatusOf_def taskStatusOf_def)

definition canonicalStatus :: "InstanceStatus \<Rightarrow> bool" where
  \<comment> \<open>the constructor \<open>Other\<close> is not used for a declared constant\<close>
  "canonicalStatus s \<longleftrightarrow> instanceStatusOf (instanceStatusText s) = s"

definition canonicalTaskStatus :: "TaskStatus \<Rightarrow> bool" where
  "canonicalTaskStatus s \<longleftrightarrow> taskStatusOf (taskStatusText s) = s"

lemma canonical_simps [simp]:
  "canonicalStatus InstanceStatusUnknown" "canonicalStatus InstanceStatusRunning"
  "canonicalStatus InstanceStatusCompleted" "canonicalStatus InstanceStatusRejected"
  "canonicalStatus InstanceStatusWithdrawn"
  "canonicalTaskStatus TaskStatusUnknown" "canonicalTaskStatus TaskStatusActive"
  "canonicalTaskStatus TaskStatusCompleted" "canonicalTaskStatus TaskStatusClosed"
  by (simp_all add: canonicalStatus_def canonicalTaskStatus_def instanceStatusOf_def taskStatusOf_def)

subsection \<open>Struct schemas and their JSON values\<close>

definition stringField :: "string \<Rightarrow> string \<Rightarrow> gofield" where
  "stringField name tag = GField True False name tag GScalar"

definition present :: "string \<times> bool \<times> jvalue \<Rightarrow> bool" where
  "present f \<longleftrightarrow> \<not> (fst (snd f) \<and> snd (snd f) = JString [])"

definition structJSON :: "(string \<times> bool \<times> jvalue) list \<Rightarrow> jvalue" where
  \<comment> \<open>the members of a struct in field order; the flag is \<open>omitempty\<close> on a string\<close>
  "structJSON fs = JObject (map (\<lambda>f. (fst f, snd (snd f))) (filter present fs))"

definition TaskType :: gotype where
  "TaskType = GStruct [stringField ''ID'' ''id'', stringField ''NodeID'' ''nodeId'',
     stringField ''Assignee'' ''assignee'', stringField ''Status'' ''status'',
     stringField ''Outcome'' ''outcome,omitempty'']"

definition taskJSON :: "Task \<Rightarrow> jvalue" where
  "taskJSON t = structJSON [(''id'', False, JString (t_ID t)), (''nodeId'', False, JString (t_NodeID t)),
     (''assignee'', False, JString (t_Assignee t)),
     (''status'', False, JString (taskStatusText (t_Status t))), (''outcome'', True, JString (t_Outcome t))]"

definition isStruct :: "jvalue \<Rightarrow> bool" where
  \<comment> \<open>values \<open>encoding/json\<close> stores in a struct: objects, and null, which changes nothing\<close>
  "isStruct v \<longleftrightarrow> (case v of JObject _ \<Rightarrow> True | JNull \<Rightarrow> True | _ \<Rightarrow> False)"

definition taskOf :: "jvalue \<Rightarrow> Task result" where
  "taskOf v =
     (if \<not> isStruct v then Inl []
      else bindR (decodeStringField ''id'' v) (\<lambda>ident.
        bindR (decodeStringField ''nodeId'' v) (\<lambda>node.
        bindR (decodeStringField ''assignee'' v) (\<lambda>assignee.
        bindR (decodeStringField ''status'' v) (\<lambda>status.
        bindR (decodeStringField ''outcome'' v) (\<lambda>outcome.
          Inr \<lparr>t_ID = ident, t_NodeID = node, t_Assignee = assignee,
               t_Status = taskStatusOf status, t_Outcome = outcome\<rparr>))))))"

definition AuditType :: gotype where
  "AuditType = GStruct [stringField ''Action'' ''action'', stringField ''InstanceID'' ''instanceId,omitempty'',
     stringField ''NodeID'' ''nodeId,omitempty'', stringField ''TargetNodeID'' ''targetNodeId,omitempty'',
     stringField ''TaskID'' ''taskId,omitempty'', stringField ''ActorID'' ''actorId,omitempty'',
     stringField ''PreviousAssignee'' ''previousAssignee,omitempty'',
     stringField ''NewAssignee'' ''newAssignee,omitempty'', stringField ''Reason'' ''reason,omitempty'',
     stringField ''NodeState'' ''nodeState,omitempty'', GField True False ''At'' ''at'' GOpen]"

definition auditJSON :: "AuditRecord \<Rightarrow> jvalue result" where
  "auditJSON r = bindR (formatTime (a_At r)) (\<lambda>at.
     Inr (structJSON [(''action'', False, JString (a_Action r)), (''instanceId'', True, JString (a_InstanceID r)),
       (''nodeId'', True, JString (a_NodeID r)), (''targetNodeId'', True, JString (a_TargetNodeID r)),
       (''taskId'', True, JString (a_TaskID r)), (''actorId'', True, JString (a_ActorID r)),
       (''previousAssignee'', True, JString (a_PreviousAssignee r)),
       (''newAssignee'', True, JString (a_NewAssignee r)), (''reason'', True, JString (a_Reason r)),
       (''nodeState'', True, JString (a_NodeState r)), (''at'', False, JString at)]))"

definition decodeTimeField :: "string \<Rightarrow> jvalue \<Rightarrow> time result" where
  \<comment> \<open>\<open>Time.UnmarshalJSON\<close>, the text taken without JSON escapes; null leaves the zero time\<close>
  "decodeTimeField name v = (case jsonMember name v of
      None \<Rightarrow> Inr 0
    | Some JNull \<Rightarrow> Inr 0
    | Some (JString s) \<Rightarrow> parseTime s
    | Some _ \<Rightarrow> Inl [])"

definition auditOf :: "jvalue \<Rightarrow> AuditRecord result" where
  "auditOf v =
     (if \<not> isStruct v then Inl []
      else bindR (decodeStringField ''action'' v) (\<lambda>action.
        bindR (decodeStringField ''instanceId'' v) (\<lambda>instance_id.
        bindR (decodeStringField ''nodeId'' v) (\<lambda>node.
        bindR (decodeStringField ''targetNodeId'' v) (\<lambda>target.
        bindR (decodeStringField ''taskId'' v) (\<lambda>task.
        bindR (decodeStringField ''actorId'' v) (\<lambda>actor.
        bindR (decodeStringField ''previousAssignee'' v) (\<lambda>previous.
        bindR (decodeStringField ''newAssignee'' v) (\<lambda>new.
        bindR (decodeStringField ''reason'' v) (\<lambda>reason.
        bindR (decodeStringField ''nodeState'' v) (\<lambda>state.
        bindR (decodeTimeField ''at'' v) (\<lambda>at.
          Inr \<lparr>a_Action = action, a_InstanceID = instance_id, a_NodeID = node, a_TargetNodeID = target,
               a_TaskID = task, a_ActorID = actor, a_PreviousAssignee = previous, a_NewAssignee = new,
               a_Reason = reason, a_NodeState = state, a_At = at\<rparr>))))))))))))"

subsection \<open>Definitions\<close>

record storedNode =
  sn_ID :: string
  sn_Kind :: string
  sn_Config :: raw

record storedDefinition =
  sd_ID :: string
  sd_Version :: u64
  sd_Nodes :: "storedNode list option"  \<comment> \<open>\<open>None\<close>: nil\<close>
  sd_Edges :: "Edge list option"

definition storedNodeType :: gotype where
  "storedNodeType = GStruct [stringField ''ID'' ''id'', stringField ''Kind'' ''kind'',
     GField True False ''Config'' ''config'' (GSlice GScalar)]"

definition EdgeType :: gotype where
  "EdgeType = GStruct [stringField ''From'' ''from'', stringField ''To'' ''to'',
     stringField ''Outcome'' ''outcome,omitempty'']"

definition storedDefinitionType :: gotype where
  "storedDefinitionType = GStruct [stringField ''ID'' ''id'', stringField ''Version'' ''version'',
     GField True False ''Nodes'' ''nodes'' (GSlice storedNodeType),
     GField True False ''Edges'' ''edges'' (GSlice EdgeType)]"

definition bytesJSON :: "raw \<Rightarrow> jvalue" where
  "bytesJSON b = (case b of None \<Rightarrow> JNull | Some s \<Rightarrow> JString (base64Encode s))"

definition storedNodeJSON :: "storedNode \<Rightarrow> jvalue" where
  "storedNodeJSON n = structJSON [(''id'', False, JString (sn_ID n)),
     (''kind'', False, JString (sn_Kind n)), (''config'', False, bytesJSON (sn_Config n))]"

definition edgeJSON :: "Edge \<Rightarrow> jvalue" where
  "edgeJSON e = structJSON [(''from'', False, JString (e_From e)), (''to'', False, JString (e_To e)),
     (''outcome'', True, JString (e_Outcome e))]"

definition sliceJSON :: "('a \<Rightarrow> jvalue) \<Rightarrow> 'a list option \<Rightarrow> jvalue" where
  "sliceJSON f xs = (case xs of None \<Rightarrow> JNull | Some ys \<Rightarrow> JArray (map f ys))"

definition storedDefinitionJSON :: "storedDefinition \<Rightarrow> jvalue" where
  "storedDefinitionJSON d = structJSON [(''id'', False, JString (sd_ID d)),
     (''version'', False, JNumber (FormatUint (unat (sd_Version d)))),
     (''nodes'', False, sliceJSON storedNodeJSON (sd_Nodes d)),
     (''edges'', False, sliceJSON edgeJSON (sd_Edges d))]"

fun decodeByte :: "jvalue \<Rightarrow> char result" where
  "decodeByte JNull = Inr (char_of (0::nat))"
| "decodeByte (JNumber s) =
     bindR (ParseUint s) (\<lambda>n. if unat n < 256 then Inr (char_of (unat n)) else Inl [])"
| "decodeByte _ = Inl []"

fun mapR :: "('a \<Rightarrow> 'b result) \<Rightarrow> 'a list \<Rightarrow> 'b list result" where
  "mapR f [] = Inr []"
| "mapR f (x # xs) = bindR (f x) (\<lambda>y. bindR (mapR f xs) (\<lambda>ys. Inr (y # ys)))"

definition decodeBytesField :: "string \<Rightarrow> jvalue \<Rightarrow> raw result" where
  \<comment> \<open>a \<open>[]byte\<close> field: base64 text, or an array of bytes\<close>
  "decodeBytesField name v = (case jsonMember name v of
      None \<Rightarrow> Inr None
    | Some JNull \<Rightarrow> Inr None
    | Some (JString s) \<Rightarrow> (case base64Decode s of None \<Rightarrow> Inl [] | Some b \<Rightarrow> Inr (Some b))
    | Some (JArray vs) \<Rightarrow> bindR (mapR decodeByte vs) (\<lambda>b. Inr (Some b))
    | Some _ \<Rightarrow> Inl [])"

definition decodeUintField :: "string \<Rightarrow> jvalue \<Rightarrow> u64 result" where
  "decodeUintField name v = (case jsonMember name v of
      None \<Rightarrow> Inr 0
    | Some JNull \<Rightarrow> Inr 0
    | Some (JNumber s) \<Rightarrow> ParseUint s
    | Some _ \<Rightarrow> Inl [])"

definition decodeSliceField :: "(jvalue \<Rightarrow> 'a result) \<Rightarrow> string \<Rightarrow> jvalue \<Rightarrow> 'a list option result" where
  "decodeSliceField f name v = (case jsonMember name v of
      None \<Rightarrow> Inr None
    | Some JNull \<Rightarrow> Inr None
    | Some (JArray vs) \<Rightarrow> bindR (mapR f vs) (\<lambda>xs. Inr (Some xs))
    | Some _ \<Rightarrow> Inl [])"

definition storedNodeOf :: "jvalue \<Rightarrow> storedNode result" where
  "storedNodeOf v =
     (if \<not> isStruct v then Inl []
      else bindR (decodeStringField ''id'' v) (\<lambda>ident.
        bindR (decodeStringField ''kind'' v) (\<lambda>kind.
        bindR (decodeBytesField ''config'' v) (\<lambda>config.
          Inr \<lparr>sn_ID = ident, sn_Kind = kind, sn_Config = config\<rparr>))))"

definition edgeOf :: "jvalue \<Rightarrow> Edge result" where
  "edgeOf v =
     (if \<not> isStruct v then Inl []
      else bindR (decodeStringField ''from'' v) (\<lambda>source.
        bindR (decodeStringField ''to'' v) (\<lambda>to.
        bindR (decodeStringField ''outcome'' v) (\<lambda>outcome.
          Inr \<lparr>e_From = source, e_To = to, e_Outcome = outcome\<rparr>))))"

definition storedDefinitionOf :: "jvalue \<Rightarrow> storedDefinition result" where
  "storedDefinitionOf v =
     (if \<not> isStruct v then Inl []
      else bindR (decodeStringField ''id'' v) (\<lambda>ident.
        bindR (decodeUintField ''version'' v) (\<lambda>version.
        bindR (decodeSliceField storedNodeOf ''nodes'' v) (\<lambda>nodes.
        bindR (decodeSliceField edgeOf ''edges'' v) (\<lambda>edges.
          Inr \<lparr>sd_ID = ident, sd_Version = version, sd_Nodes = nodes, sd_Edges = edges\<rparr>)))))"

subsection \<open>The codec\<close>

definition decodeJSON :: "string \<Rightarrow> gotype \<Rightarrow> (jvalue \<Rightarrow> 'a result) \<Rightarrow> 'a result" where
  "decodeJSON data T typed = Decode data T typed"

definition encodeDefinition :: "Definition \<Rightarrow> nilSlices \<Rightarrow> string result" where
  "encodeDefinition definition0 n =
     (let nodes = (if nil_Nodes n then None
                   else Some (map (\<lambda>node. \<lparr>sn_ID = nd_ID node, sn_Kind = nd_Kind node,
                                           sn_Config = nd_Config node\<rparr>) (d_Nodes definition0)));
          edges = (if nil_Edges n then None else Some (d_Edges definition0));
          record0 = \<lparr>sd_ID = d_ID definition0, sd_Version = d_Version definition0,
                     sd_Nodes = nodes, sd_Edges = edges\<rparr>
      in Inr (json_print (storedDefinitionJSON record0)))"

definition decodeDefinition :: "string \<Rightarrow> (Definition \<times> bool \<times> bool) result" where
  \<comment> \<open>with whether the nodes and the edges are nil\<close>
  "decodeDefinition data =
     bindR (decodeJSON data storedDefinitionType storedDefinitionOf) (\<lambda>record0.
       Inr (\<lparr>d_ID = sd_ID record0, d_Version = sd_Version record0,
             d_Nodes = (case sd_Nodes record0 of None \<Rightarrow> []
                        | Some ns \<Rightarrow> map (\<lambda>node. \<lparr>nd_ID = sn_ID node, nd_Kind = sn_Kind node,
                                                nd_Config = sn_Config node\<rparr>) ns),
             d_Edges = (case sd_Edges record0 of None \<Rightarrow> [] | Some es \<Rightarrow> es)\<rparr>,
            sd_Nodes record0 = None, sd_Edges record0 = None))"

definition encodeValues :: "('a \<Rightarrow> jvalue result) \<Rightarrow> 'a list \<Rightarrow> string list result" where
  \<comment> \<open>\<open>values\<close> the JSON values of one row type\<close>
  "encodeValues toJSON values = mapR (\<lambda>x. bindR (toJSON x) (\<lambda>v. Inr (json_print v))) values"

definition encodeTask :: "Task \<Rightarrow> jvalue result" where
  "encodeTask t = Inr (taskJSON t)"

subsection \<open>Structs are read back\<close>

definition wellKeyed :: "(string \<times> bool \<times> jvalue) list \<Rightarrow> bool" where
  "wellKeyed fs \<longleftrightarrow> distinct (map fst fs) \<and> (\<forall>f\<in>set fs. utf8_Valid (fst f))"

definition cleanFields :: "(string \<times> bool \<times> jvalue) list \<Rightarrow> (string \<times> bool \<times> jvalue) list" where
  "cleanFields fs = map (\<lambda>f. (fst f, fst (snd f), clean (snd (snd f)))) fs"

lemma toValidUTF8_Nil [simp]: "toValidUTF8 s = [] \<longleftrightarrow> s = []"
proof (cases s)
  case (Cons c cs)
  then show ?thesis by (simp add: replacement_def utf8_encode_def)
qed simp

lemma clean_JString_Nil [simp]: "clean v = JString [] \<longleftrightarrow> v = JString []"
  by (cases v) auto

lemma clean_structJSON:
  assumes "wellKeyed fs"
  shows "clean (structJSON fs) = structJSON (cleanFields fs)"
proof -
  have "cleanMembers (map (\<lambda>f. (fst f, snd (snd f))) (filter present fs)) =
      map (\<lambda>f. (fst f, snd (snd f))) (filter present (cleanFields fs))"
    using assms unfolding wellKeyed_def cleanFields_def
    by (induction fs) (auto simp: toValidUTF8_valid present_def)
  then show ?thesis by (simp add: structJSON_def)
qed

lemma structJSON_distinct:
  "wellKeyed fs \<Longrightarrow> distinct (map fst (map (\<lambda>f. (fst f, snd (snd f))) (filter present fs)))"
  by (simp add: wellKeyed_def comp_def distinct_map_filter)

lemma wellKeyed_clean: "wellKeyed fs \<Longrightarrow> wellKeyed (cleanFields fs)"
  by (auto simp: wellKeyed_def cleanFields_def comp_def)

lemma jsonMember_structJSON:
  assumes "wellKeyed fs" and "(k, omit, v) \<in> set fs"
  shows "jsonMember k (structJSON fs) = (if omit \<and> v = JString [] then None else Some v)"
proof (cases "omit \<and> v = JString []")
  case True
  have "inj_on fst (set fs)" using assms(1) by (simp add: wellKeyed_def distinct_map)
  then have "f = (k, omit, v)" if "f \<in> set fs" "fst f = k" for f
    using that assms(2) by (auto dest: inj_onD[where x = f and y = "(k, omit, v)"])
  then have "k \<notin> fst ` set (filter present fs)" using True by (force simp: present_def)
  then show ?thesis using True
    by (auto simp: jsonMember_def structJSON_def map_of_eq_None_iff image_image)
next
  case False
  then have "(k, v) \<in> set (map (\<lambda>f. (fst f, snd (snd f))) (filter present fs))"
    using assms(2) by (force simp: present_def)
  then show ?thesis using False structJSON_distinct[OF assms(1)]
    by (auto simp: jsonMember_def structJSON_def simp del: set_map)
qed

definition fieldsOf :: "gotype \<Rightarrow> (string \<times> gotype) list" where
  "fieldsOf T = (case T of GStruct gs \<Rightarrow> exactJSONFields [] gs | _ \<Rightarrow> [])"

definition fieldsFit :: "(string \<times> bool \<times> jvalue) list \<Rightarrow> gotype \<Rightarrow> bool" where
  \<comment> \<open>printable fields with distinct names that the struct type declares\<close>
  "fieldsFit fs T \<longleftrightarrow> wellKeyed fs \<and> fs \<noteq> [] \<and>
     (\<forall>(k, _, v)\<in>set fs. printable v \<and> unique_members (clean v) \<and>
       (\<exists>t. map_of (fieldsOf T) k = Some t \<and> validateExactValue (clean v) t = Inr ()))"

lemma structJSON_fits:
  assumes "fieldsFit fs T"
  shows "printable (structJSON fs)" "unique_members (clean (structJSON fs))"
    "validateExactValue (clean (structJSON fs)) T = Inr ()"
proof -
  have k: "wellKeyed fs" using assms by (simp add: fieldsFit_def)
  show "printable (structJSON fs)" using assms by (fastforce simp: structJSON_def fieldsFit_def)
  show "unique_members (clean (structJSON fs))"
    using assms structJSON_distinct[OF wellKeyed_clean[OF k]]
    unfolding clean_structJSON[OF k] by (fastforce simp: structJSON_def cleanFields_def fieldsFit_def)
  obtain gs where T: "T = GStruct gs"
    using assms by (cases T; fastforce simp: fieldsFit_def fieldsOf_def neq_Nil_conv)
  show "validateExactValue (clean (structJSON fs)) T = Inr ()"
    using assms unfolding clean_structJSON[OF k] T
    by (fastforce simp: structJSON_def cleanFields_def validateExactStruct_iff fieldsFit_def fieldsOf_def)
qed

lemma structJSON_printed:
  assumes "fieldsFit fs T"
  shows "decodeJSON (json_print (structJSON fs)) T typed = wrapR [JsonErrInvalid] (typed (structJSON (cleanFields fs)))"
  unfolding decodeJSON_def
  by (subst Decode_print[OF structJSON_fits[OF assms]])
    (use assms in \<open>simp add: clean_structJSON fieldsFit_def\<close>)

lemma isStruct_structJSON [simp]: "isStruct (structJSON fs)"
  by (simp add: isStruct_def structJSON_def)

lemma jsonMember_struct:
  assumes "wellKeyed fs"
  shows "jsonMember k (structJSON fs) = (case map_of fs k of None \<Rightarrow> None
    | Some (omit, v) \<Rightarrow> if omit \<and> v = JString [] then None else Some v)"
proof (cases "map_of fs k")
  case None
  then have "k \<notin> fst ` set fs" by (simp add: map_of_eq_None_iff)
  then have "map_of (map (\<lambda>f. (fst f, snd (snd f))) (filter present fs)) k = None"
    by (force simp: map_of_eq_None_iff)
  with None show ?thesis by (simp add: jsonMember_def structJSON_def)
next
  case (Some p)
  then have "(k, fst p, snd p) \<in> set fs" by (auto dest: map_of_SomeD)
  from jsonMember_structJSON[OF assms this] Some show ?thesis by (cases p) simp
qed

lemma decodeStringField_struct:
  "wellKeyed fs \<Longrightarrow> decodeStringField k (structJSON fs) = (case map_of fs k of
      None \<Rightarrow> Inr []
    | Some (_, v) \<Rightarrow> (case v of JNull \<Rightarrow> Inr [] | JString s \<Rightarrow> Inr s | _ \<Rightarrow> Inl []))"
  by (simp add: decodeStringField_def jsonMember_struct split: option.split prod.split jvalue.split)

lemma ascii_keys [simp]:
  "utf8_Valid ''id''" "utf8_Valid ''nodeId''" "utf8_Valid ''assignee''" "utf8_Valid ''status''"
  "utf8_Valid ''outcome''" "utf8_Valid ''action''" "utf8_Valid ''instanceId''"
  "utf8_Valid ''targetNodeId''" "utf8_Valid ''taskId''" "utf8_Valid ''actorId''"
  "utf8_Valid ''previousAssignee''" "utf8_Valid ''newAssignee''" "utf8_Valid ''reason''"
  "utf8_Valid ''nodeState''" "utf8_Valid ''at''" "utf8_Valid ''kind''" "utf8_Valid ''config''"
  "utf8_Valid ''from''" "utf8_Valid ''to''" "utf8_Valid ''version''" "utf8_Valid ''nodes''"
  "utf8_Valid ''edges''"
  by simp_all

lemma known_fields:
  "fieldsOf TaskType =
     [(''outcome'', GScalar), (''status'', GScalar), (''assignee'', GScalar), (''nodeId'', GScalar),
      (''id'', GScalar)]"
  "fieldsOf AuditType =
     [(''at'', GOpen), (''nodeState'', GScalar), (''reason'', GScalar), (''newAssignee'', GScalar),
      (''previousAssignee'', GScalar), (''actorId'', GScalar), (''taskId'', GScalar),
      (''targetNodeId'', GScalar), (''nodeId'', GScalar), (''instanceId'', GScalar), (''action'', GScalar)]"
  "fieldsOf storedNodeType = [(''config'', GSlice GScalar), (''kind'', GScalar), (''id'', GScalar)]"
  "fieldsOf EdgeType = [(''outcome'', GScalar), (''to'', GScalar), (''from'', GScalar)]"
  "fieldsOf storedDefinitionType =
     [(''edges'', GSlice EdgeType), (''nodes'', GSlice storedNodeType), (''version'', GScalar), (''id'', GScalar)]"
  by (simp_all add: fieldsOf_def TaskType_def AuditType_def storedNodeType_def EdgeType_def
      storedDefinitionType_def stringField_def tagNameOf_def Let_def)

definition cleanTask :: "Task \<Rightarrow> Task" where
  "cleanTask t = \<lparr>t_ID = toValidUTF8 (t_ID t), t_NodeID = toValidUTF8 (t_NodeID t),
     t_Assignee = toValidUTF8 (t_Assignee t),
     t_Status = taskStatusOf (toValidUTF8 (taskStatusText (t_Status t))),
     t_Outcome = toValidUTF8 (t_Outcome t)\<rparr>"

definition cleanAudit :: "AuditRecord \<Rightarrow> AuditRecord" where
  "cleanAudit r = \<lparr>a_Action = toValidUTF8 (a_Action r), a_InstanceID = toValidUTF8 (a_InstanceID r),
     a_NodeID = toValidUTF8 (a_NodeID r), a_TargetNodeID = toValidUTF8 (a_TargetNodeID r),
     a_TaskID = toValidUTF8 (a_TaskID r), a_ActorID = toValidUTF8 (a_ActorID r),
     a_PreviousAssignee = toValidUTF8 (a_PreviousAssignee r),
     a_NewAssignee = toValidUTF8 (a_NewAssignee r), a_Reason = toValidUTF8 (a_Reason r),
     a_NodeState = toValidUTF8 (a_NodeState r), a_At = a_At r\<rparr>"

abbreviation taskFields :: "Task \<Rightarrow> (string \<times> bool \<times> jvalue) list" where
  "taskFields t \<equiv> [(''id'', False, JString (t_ID t)), (''nodeId'', False, JString (t_NodeID t)),
     (''assignee'', False, JString (t_Assignee t)),
     (''status'', False, JString (taskStatusText (t_Status t))), (''outcome'', True, JString (t_Outcome t))]"

lemma decode_task: "decodeJSON (json_print (taskJSON t)) TaskType taskOf = Inr (cleanTask t)"
proof -
  have fit: "fieldsFit (taskFields t) TaskType"
    by (simp add: fieldsFit_def wellKeyed_def known_fields)
  have k: "wellKeyed (cleanFields (taskFields t))" by (rule wellKeyed_clean) (simp add: wellKeyed_def)
  have "taskOf (structJSON (cleanFields (taskFields t))) = Inr (cleanTask t)"
    by (simp add: taskOf_def decodeStringField_struct[OF k] cleanTask_def)
       (simp add: cleanFields_def)
  then show ?thesis unfolding taskJSON_def structJSON_printed[OF fit] by simp
qed

abbreviation auditFields :: "AuditRecord \<Rightarrow> string \<Rightarrow> (string \<times> bool \<times> jvalue) list" where
  "auditFields r at \<equiv> [(''action'', False, JString (a_Action r)), (''instanceId'', True, JString (a_InstanceID r)),
     (''nodeId'', True, JString (a_NodeID r)), (''targetNodeId'', True, JString (a_TargetNodeID r)),
     (''taskId'', True, JString (a_TaskID r)), (''actorId'', True, JString (a_ActorID r)),
     (''previousAssignee'', True, JString (a_PreviousAssignee r)),
     (''newAssignee'', True, JString (a_NewAssignee r)), (''reason'', True, JString (a_Reason r)),
     (''nodeState'', True, JString (a_NodeState r)), (''at'', False, JString at)]"

lemma decodeTimeField_struct:
  "wellKeyed fs \<Longrightarrow> decodeTimeField k (structJSON fs) = (case map_of fs k of
      None \<Rightarrow> Inr 0
    | Some (omit, v) \<Rightarrow> if omit \<and> v = JString [] then Inr 0
        else (case v of JNull \<Rightarrow> Inr 0 | JString s \<Rightarrow> parseTime s | _ \<Rightarrow> Inl []))"
  by (simp add: decodeTimeField_def jsonMember_struct split: option.split prod.split jvalue.split)

lemma decode_audit:
  assumes "auditJSON r = Inr v"
  shows "decodeJSON (json_print v) AuditType auditOf = Inr (cleanAudit r)"
proof -
  obtain at where at: "formatTime (a_At r) = Inr at" and v: "v = structJSON (auditFields r at)"
    using assms by (auto simp: auditJSON_def bindR_Inr_iff)
  have fit: "fieldsFit (auditFields r at) AuditType"
    by (simp add: fieldsFit_def wellKeyed_def known_fields)
  have k: "wellKeyed (cleanFields (auditFields r at))" by (rule wellKeyed_clean) (simp add: wellKeyed_def)
  have "auditOf (structJSON (cleanFields (auditFields r at))) = Inr (cleanAudit r)"
    by (simp add: auditOf_def decodeStringField_struct[OF k] decodeTimeField_struct[OF k] cleanAudit_def)
       (simp add: cleanFields_def parse_format[OF at] toValidUTF8_valid[OF formatTime_ascii[OF at]])
  then show ?thesis unfolding v structJSON_printed[OF fit] by simp
qed

subsection \<open>Definitions are read back\<close>

definition cleanNode :: "storedNode \<Rightarrow> storedNode" where
  "cleanNode n = \<lparr>sn_ID = toValidUTF8 (sn_ID n), sn_Kind = toValidUTF8 (sn_Kind n), sn_Config = sn_Config n\<rparr>"

definition cleanEdge :: "Edge \<Rightarrow> Edge" where
  "cleanEdge e = \<lparr>e_From = toValidUTF8 (e_From e), e_To = toValidUTF8 (e_To e),
     e_Outcome = toValidUTF8 (e_Outcome e)\<rparr>"

abbreviation nodeFields :: "storedNode \<Rightarrow> (string \<times> bool \<times> jvalue) list" where
  "nodeFields n \<equiv> [(''id'', False, JString (sn_ID n)), (''kind'', False, JString (sn_Kind n)),
     (''config'', False, bytesJSON (sn_Config n))]"

abbreviation edgeFields :: "Edge \<Rightarrow> (string \<times> bool \<times> jvalue) list" where
  "edgeFields e \<equiv> [(''from'', False, JString (e_From e)), (''to'', False, JString (e_To e)),
     (''outcome'', True, JString (e_Outcome e))]"

abbreviation definitionFields :: "storedDefinition \<Rightarrow> (string \<times> bool \<times> jvalue) list" where
  "definitionFields d \<equiv> [(''id'', False, JString (sd_ID d)),
     (''version'', False, JNumber (FormatUint (unat (sd_Version d)))),
     (''nodes'', False, sliceJSON storedNodeJSON (sd_Nodes d)),
     (''edges'', False, sliceJSON edgeJSON (sd_Edges d))]"

lemma bytesJSON_printed [simp]:
  "clean (bytesJSON b) = bytesJSON b" "printable (bytesJSON b)" "unique_members (bytesJSON b)"
  "validateExactValue (bytesJSON b) t = Inr ()"
  by (simp_all add: bytesJSON_def toValidUTF8_valid split: option.split)

lemma nodeFields_fit: "fieldsFit (nodeFields n) storedNodeType"
  by (simp add: fieldsFit_def wellKeyed_def known_fields)

lemma edgeFields_fit: "fieldsFit (edgeFields n) EdgeType"
  by (simp add: fieldsFit_def wellKeyed_def known_fields)

lemma decodeBytesField_struct:
  assumes "wellKeyed fs" and "map_of fs k = Some (False, bytesJSON b)"
  shows "decodeBytesField k (structJSON fs) = Inr b"
  using assms by (simp add: decodeBytesField_def jsonMember_struct bytesJSON_def split: option.split)

lemma storedNodeOf_clean: "storedNodeOf (clean (storedNodeJSON n)) = Inr (cleanNode n)"
proof -
  have w: "wellKeyed (nodeFields n)" by (simp add: wellKeyed_def)
  note k = wellKeyed_clean[OF w]
  have b: "decodeBytesField ''config'' (structJSON (cleanFields (nodeFields n))) = Inr (sn_Config n)"
    by (rule decodeBytesField_struct[OF k]) (simp add: cleanFields_def)
  show ?thesis unfolding storedNodeJSON_def clean_structJSON[OF w]
    by (simp add: storedNodeOf_def decodeStringField_struct[OF k] b cleanNode_def)
       (simp add: cleanFields_def)
qed

lemma edgeOf_clean: "edgeOf (clean (edgeJSON e)) = Inr (cleanEdge e)"
proof -
  have w: "wellKeyed (edgeFields e)" by (simp add: wellKeyed_def)
  note k = wellKeyed_clean[OF w]
  show ?thesis unfolding edgeJSON_def clean_structJSON[OF w]
    by (simp add: edgeOf_def decodeStringField_struct[OF k] cleanEdge_def) (simp add: cleanFields_def)
qed

lemma mapR_map: "(\<And>x. f (g x) = Inr (h x)) \<Longrightarrow> mapR f (map g xs) = Inr (map h xs)"
  by (induction xs) simp_all

lemma sliceJSON_fits:
  assumes "\<And>x. fieldsFit (F x) T" and "\<And>x. f x = structJSON (F x)"
  shows "printable (sliceJSON f xs)" "unique_members (clean (sliceJSON f xs))"
    "validateExactValue (clean (sliceJSON f xs)) (GSlice T) = Inr ()"
  using structJSON_fits[OF assms(1)]
  by (auto simp: sliceJSON_def assms(2) validateExactArray_iff split: option.split)

lemmas definition_slices =
  sliceJSON_fits[where F = nodeFields and f = storedNodeJSON, OF nodeFields_fit storedNodeJSON_def]
  sliceJSON_fits[where F = edgeFields and f = edgeJSON, OF edgeFields_fit edgeJSON_def]

lemma decodeSliceField_struct:
  assumes "wellKeyed fs" and "map_of fs k = Some (False, clean (sliceJSON g xs))"
    and "\<And>x. f (clean (g x)) = Inr (h x)"
  shows "decodeSliceField f k (structJSON fs) = Inr (map_option (map h) xs)"
  using assms(1,2) mapR_map[of f "\<lambda>x. clean (g x)" h, OF assms(3)]
  by (simp add: decodeSliceField_def jsonMember_struct sliceJSON_def comp_def split: option.splits)

lemma decode_storedDefinition:
  "decodeJSON (json_print (storedDefinitionJSON d)) storedDefinitionType storedDefinitionOf =
     Inr \<lparr>sd_ID = toValidUTF8 (sd_ID d), sd_Version = sd_Version d,
          sd_Nodes = map_option (map cleanNode) (sd_Nodes d), sd_Edges = map_option (map cleanEdge) (sd_Edges d)\<rparr>"
proof -
  have w: "wellKeyed (definitionFields d)" by (simp add: wellKeyed_def)
  note k = wellKeyed_clean[OF w]
  have fit: "fieldsFit (definitionFields d) storedDefinitionType"
    using w by (auto simp: fieldsFit_def known_fields definition_slices)
  have n: "decodeSliceField storedNodeOf ''nodes'' (structJSON (cleanFields (definitionFields d))) =
      Inr (map_option (map cleanNode) (sd_Nodes d))"
    by (rule decodeSliceField_struct[where g = storedNodeJSON, OF k]) (simp add: cleanFields_def, rule storedNodeOf_clean)
  have e: "decodeSliceField edgeOf ''edges'' (structJSON (cleanFields (definitionFields d))) =
      Inr (map_option (map cleanEdge) (sd_Edges d))"
    by (rule decodeSliceField_struct[where g = edgeJSON, OF k]) (simp add: cleanFields_def, rule edgeOf_clean)
  have v: "decodeUintField ''version'' (structJSON (cleanFields (definitionFields d))) = Inr (sd_Version d)"
    by (simp add: decodeUintField_def jsonMember_struct[OF k]) (simp add: cleanFields_def)
  have "storedDefinitionOf (structJSON (cleanFields (definitionFields d))) =
      Inr \<lparr>sd_ID = toValidUTF8 (sd_ID d), sd_Version = sd_Version d,
        sd_Nodes = map_option (map cleanNode) (sd_Nodes d), sd_Edges = map_option (map cleanEdge) (sd_Edges d)\<rparr>"
    by (simp add: storedDefinitionOf_def decodeStringField_struct[OF k] v n e) (simp add: cleanFields_def)
  then show ?thesis unfolding storedDefinitionJSON_def structJSON_printed[OF fit] by simp
qed

definition cleanDefinition :: "Definition \<Rightarrow> Definition" where
  "cleanDefinition d = \<lparr>d_ID = toValidUTF8 (d_ID d), d_Version = d_Version d,
     d_Nodes = map (\<lambda>n. n\<lparr>nd_ID := toValidUTF8 (nd_ID n), nd_Kind := toValidUTF8 (nd_Kind n)\<rparr>) (d_Nodes d),
     d_Edges = map cleanEdge (d_Edges d)\<rparr>"

lemma decode_definition:
  assumes "encodeDefinition d n = Inr data" and "nil_Nodes n \<Longrightarrow> d_Nodes d = []" and "nil_Edges n \<Longrightarrow> d_Edges d = []"
  shows "decodeDefinition data = Inr (cleanDefinition d, nil_Nodes n, nil_Edges n)"
  using assms
  by (auto simp: encodeDefinition_def decodeDefinition_def decode_storedDefinition cleanDefinition_def
      cleanNode_def comp_def Let_def)

lemma encodeDefinition_total: "\<exists>data. encodeDefinition d n = Inr data"
  by (simp add: encodeDefinition_def Let_def)

subsection \<open>Storable values\<close>

definition utf8Task :: "Task \<Rightarrow> bool" where
  "utf8Task t \<longleftrightarrow> utf8_Valid (t_ID t) \<and> utf8_Valid (t_NodeID t) \<and> utf8_Valid (t_Assignee t) \<and>
     utf8_Valid (taskStatusText (t_Status t)) \<and> canonicalTaskStatus (t_Status t) \<and> utf8_Valid (t_Outcome t)"

definition utf8Audit :: "AuditRecord \<Rightarrow> bool" where
  "utf8Audit r \<longleftrightarrow> list_all utf8_Valid [a_Action r, a_InstanceID r, a_NodeID r, a_TargetNodeID r, a_TaskID r,
     a_ActorID r, a_PreviousAssignee r, a_NewAssignee r, a_Reason r, a_NodeState r]"

definition utf8Definition :: "Definition \<Rightarrow> bool" where
  "utf8Definition d \<longleftrightarrow> utf8_Valid (d_ID d) \<and>
     (\<forall>n\<in>set (d_Nodes d). utf8_Valid (nd_ID n) \<and> utf8_Valid (nd_Kind n)) \<and>
     (\<forall>e\<in>set (d_Edges d). utf8_Valid (e_From e) \<and> utf8_Valid (e_To e) \<and> utf8_Valid (e_Outcome e))"

lemma cleanTask_id: "cleanTask t = t \<longleftrightarrow> utf8Task t"
proof -
  have v: "taskStatusOf (toValidUTF8 (taskStatusText x)) = x \<longleftrightarrow>
      utf8_Valid (taskStatusText x) \<and> canonicalTaskStatus x" for x
    unfolding canonicalTaskStatus_def
    by (metis statusText_of(2) toValidUTF8_id)
  show ?thesis
    by (cases t) (simp add: cleanTask_def utf8Task_def toValidUTF8_id v conj_assoc)
qed

lemma cleanAudit_id: "cleanAudit r = r \<longleftrightarrow> utf8Audit r"
  by (cases r) (auto simp: cleanAudit_def utf8Audit_def toValidUTF8_id)

lemma cleanEdge_id: "cleanEdge e = e \<longleftrightarrow> utf8_Valid (e_From e) \<and> utf8_Valid (e_To e) \<and> utf8_Valid (e_Outcome e)"
  by (cases e) (auto simp: cleanEdge_def toValidUTF8_id)

lemma map_id_iff: "map f xs = xs \<longleftrightarrow> (\<forall>x\<in>set xs. f x = x)"
  by (induction xs) auto

lemma cleanDefinition_id: "cleanDefinition d = d \<longleftrightarrow> utf8Definition d"
proof -
  have n: "n\<lparr>nd_ID := toValidUTF8 (nd_ID n), nd_Kind := toValidUTF8 (nd_Kind n)\<rparr> = n \<longleftrightarrow>
      utf8_Valid (nd_ID n) \<and> utf8_Valid (nd_Kind n)" for n :: NodeDefinition
    by (cases n) (auto simp: toValidUTF8_id)
  show ?thesis
    by (cases d) (simp add: cleanDefinition_def utf8Definition_def toValidUTF8_id map_id_iff n cleanEdge_id)
qed

end
