(* ===== verification/JsonText.thy ===== *)
theory JsonText
  imports JsonStrict
begin

text \<open>
  Facts about the texts that \<open>lex\<close> accepts, beside the tokens it answers: how a text splits into the
  texts of its tokens, and a grammar of the texts whose escaped surrogates are paired (\<open>pairedText\<close>),
  independent of the scan of \<open>internal/jsonstrict\<close>.

  Main facts: \<open>lex_num_text\<close>, \<open>lex_word_text\<close>, \<open>paired_accepted\<close> and \<open>accepted_paired\<close>, which together say
  that the scan accepts, among the texts that lex, exactly those of the grammar.
\<close>

subsection \<open>Texts of numbers and words\<close>

definition is_number_char :: "char \<Rightarrow> bool" where
  "is_number_char c \<longleftrightarrow> is_digit c \<or> c \<in> {CHR ''-'', CHR ''+'', CHR ''.'', CHR ''e'', CHR ''E''}"

lemma digit_run: "c \<in> set (takeWhile is_digit s) \<Longrightarrow> is_digit c"
  by (auto dest: set_takeWhileD)

lemma lex_parts_text:
  "lex_int s = Some (a, r) \<Longrightarrow> s = a @ r \<and> (\<forall>c\<in>set a. is_number_char c)"
  "lex_frac s = Some (a, r) \<Longrightarrow> s = a @ r \<and> (\<forall>c\<in>set a. is_number_char c)"
  "lex_exp s = Some (a, r) \<Longrightarrow> s = a @ r \<and> (\<forall>c\<in>set a. is_number_char c)"
  by (auto simp: lex_int_def lex_frac_def lex_exp_def Let_def is_number_char_def
      split: list.splits if_splits prod.splits dest!: digit_run)

lemma lex_num_text:
  assumes "lex_num s = Some (n, r)"
  shows "s = n @ r \<and> n \<noteq> [] \<and> (\<forall>c\<in>set n. is_number_char c)"
proof -
  obtain sg s1 where sg: "sg = [] \<or> sg = ''-''" "s = sg @ s1"
    "(case s of c # cs \<Rightarrow> if c = CHR ''-'' then ([c], cs) else ([], s) | [] \<Rightarrow> ([], s)) = (sg, s1)"
  proof (cases "\<exists>cs. s = CHR ''-'' # cs")
    case True
    then show thesis using that[of "''-''"] by auto
  next
    case False
    then show thesis using that[of "[]" s] by (auto split: list.split)
  qed
  then obtain ip s2 fp s3 ep where p: "lex_int s1 = Some (ip, s2)" "lex_frac s2 = Some (fp, s3)"
    "lex_exp s3 = Some (ep, r)" "n = sg @ ip @ fp @ ep"
    using assms by (auto simp: lex_num_def split: option.splits)
  have "ip \<noteq> []" using p(1) by (auto simp: lex_int_def split: list.splits if_splits)
  with sg(1,2) p(4) lex_parts_text(1)[OF p(1)] lex_parts_text(2)[OF p(2)] lex_parts_text(3)[OF p(3)] show ?thesis
    by (auto simp: is_number_char_def[of "CHR ''-''"])
qed

lemma lex_word_text: "lex_word s = Some (t, r) \<Longrightarrow> \<exists>w. s = w @ r \<and> w \<in> {''true'', ''false'', ''null''}"
  by (auto simp: lex_word_def split: if_splits) (metis append_take_drop_id)+

lemma number_char_plain: "is_number_char c \<Longrightarrow> c \<notin> {CHR 0x22, CHR 0x5B, CHR 0x7B, CHR 0x5D, CHR 0x7D, CHR 0x2C, CHR 0x5C}"
  by (auto simp: is_number_char_def is_digit_def)

subsection \<open>Paired surrogates, as a grammar\<close>

inductive pairedBody :: "string \<Rightarrow> bool" where
  \<comment> \<open>the text between the quotes of a string literal: every surrogate is half of a high-low pair\<close>
  empty: "pairedBody []"
| plain: "c \<notin> {CHR 0x22, CHR 0x5C} \<Longrightarrow> pairedBody s \<Longrightarrow> pairedBody (c # s)"
| escape: "c \<noteq> CHR ''u'' \<Longrightarrow> pairedBody s \<Longrightarrow> pairedBody (CHR 0x5C # c # s)"
| unit: "length ds = 4 \<Longrightarrow> hex_digits_value ds = Some v \<Longrightarrow> v < 0xD800 \<or> 0xDFFF < v \<Longrightarrow>
    pairedBody s \<Longrightarrow> pairedBody (CHR 0x5C # CHR ''u'' # ds @ s)"
| pair: "length hs = 4 \<Longrightarrow> hex_digits_value hs = Some h \<Longrightarrow> 0xD800 \<le> h \<Longrightarrow> h \<le> 0xDBFF \<Longrightarrow>
    length ls = 4 \<Longrightarrow> hex_digits_value ls = Some l \<Longrightarrow> 0xDC00 \<le> l \<Longrightarrow> l \<le> 0xDFFF \<Longrightarrow>
    pairedBody s \<Longrightarrow> pairedBody (CHR 0x5C # CHR ''u'' # hs @ CHR 0x5C # CHR ''u'' # ls @ s)"

inductive pairedText :: "string \<Rightarrow> bool" where
  \<comment> \<open>a text all of whose string literals have paired surrogates\<close>
  finished: "pairedText []"
| outside: "c \<noteq> CHR 0x22 \<Longrightarrow> pairedText s \<Longrightarrow> pairedText (c # s)"
| literal: "pairedBody b \<Longrightarrow> pairedText s \<Longrightarrow> pairedText (CHR 0x22 # b @ CHR 0x22 # s)"

lemma hex_word:
  assumes "length ds = 4"
  shows "decodeHexEscape ds = Some w \<Longrightarrow> hex_digits_value ds = Some (unat w)"
    and "hex_digits_value ds = Some v \<Longrightarrow> \<exists>w. decodeHexEscape ds = Some w \<and> unat w = v"
  using decodeHexEscape_value[OF assms] by auto

lemma surrogate_ranges:
  "isHighSurrogate w \<longleftrightarrow> 0xD800 \<le> unat w \<and> unat w \<le> 0xDBFF" "isLowSurrogate w \<longleftrightarrow> 0xDC00 \<le> unat w \<and> unat w \<le> 0xDFFF"
  by (simp_all add: isHighSurrogate_def isLowSurrogate_def word_le_nat_alt)

lemma length_4: "length ds = 4 \<longleftrightarrow> (\<exists>a b c d. ds = [a, b, c, d])"
  by (auto simp: numeral_eq_Suc length_Suc_conv)

lemma hex_plain: "hex_digits_value ds = Some v \<Longrightarrow> \<forall>c\<in>set ds. c \<notin> {CHR 0x22, CHR 0x5C}"
proof -
  have "foldl hexAcc acc ds = Some v \<Longrightarrow> \<forall>c\<in>set ds. hex_val c \<noteq> None" for acc
    by (induction ds arbitrary: acc) (auto simp: hexAcc_def foldl_hex_None split: option.splits)
  moreover have "hex_val c = None" if "c \<in> {CHR 0x22, CHR 0x5C}" for c using that by (auto simp: hex_val_def)
  ultimately show "hex_digits_value ds = Some v \<Longrightarrow> \<forall>c\<in>set ds. c \<notin> {CHR 0x22, CHR 0x5C}"
    unfolding hex_digits_value_def by metis
qed

lemma body_accepted: "pairedBody b \<Longrightarrow> surrogateScan True (b @ CHR 0x22 # t) = surrogateScan False t"
proof (induction b rule: pairedBody.induct)
  case (unit ds v s)
  obtain w where "decodeHexEscape ds = Some w" "unat w = v" using hex_word(2)[OF unit(1,2)] by blast
  with unit show ?case by (auto simp: surrogate_ranges length_4)
next
  case (pair hs h ls l s)
  obtain wh wl where "decodeHexEscape hs = Some wh" "unat wh = h" "decodeHexEscape ls = Some wl" "unat wl = l"
    using hex_word(2) pair(1,2,5,6) by metis
  with pair show ?case by (auto simp: surrogate_ranges length_4)
qed simp_all

lemma paired_accepted: "pairedText s \<Longrightarrow> surrogateScan False s = Inr ()"
  by (induction s rule: pairedText.induct) (simp_all add: body_accepted)

lemma hex4_value: "hex4 a b c d = hex_digits_value [a, b, c, d]"
  by (auto simp: hex4_def hex_digits_value_def hexAcc_def split: option.splits)

lemma accepted_body:
  "surrogateScan True s = Inr () \<Longrightarrow> lex_str s = Some (x, r) \<Longrightarrow>
     \<exists>b. s = b @ CHR 0x22 # r \<and> pairedBody b \<and> surrogateScan False r = Inr () \<and>
       (\<forall>t. lex_str (b @ CHR 0x22 # t) = Some (x, t))"
proof (induction s arbitrary: x rule: length_induct)
  case (1 s)
  have IH: "\<exists>b. u = b @ CHR 0x22 # r \<and> pairedBody b \<and> surrogateScan False r = Inr () \<and>
      (\<forall>t. lex_str (b @ CHR 0x22 # t) = Some (y, t))"
    if "surrogateScan True u = Inr ()" "lex_str u = Some (y, r)" "length u < length s" for u y
    using 1(1) that by blast
  from "1.prems"(2) obtain c cs where s: "s = c # cs" by (cases s) auto
  note scan = "1.prems"(1)[unfolded s surrogateScan.simps] and lex = "1.prems"(2)[unfolded s lex_str.simps]
  consider "c = CHR 0x22" | "c \<notin> {CHR 0x22, CHR 0x5C}" | e es where "c = CHR 0x5C" "cs = e # es" "e \<noteq> CHR ''u''"
    | es where "c = CHR 0x5C" "cs = CHR ''u'' # es"
    using lex by (cases cs) (auto split: if_splits)
  then show ?case
  proof cases
    case 1
    then show ?thesis using scan lex by (auto simp: s intro!: exI[of _ "[]"] pairedBody.empty)
  next
    case 2
    with scan lex obtain y where y: "surrogateScan True cs = Inr ()" "lex_str cs = Some (y, r)" "x = c # y" "32 \<le> byte c"
      by (auto simp: push_Some_iff split: if_splits)
    from IH[OF y(1,2)] obtain b where "cs = b @ CHR 0x22 # r" "pairedBody b" "surrogateScan False r = Inr ()"
      "\<forall>t. lex_str (b @ CHR 0x22 # t) = Some (y, t)" by (auto simp: s)
    then show ?thesis using 2 y(3,4) by (auto simp: s push_def intro!: exI[of _ "c # b"] pairedBody.plain)
  next
    case 3
    with scan lex obtain y z where y: "surrogateScan True es = Inr ()" "lex_str es = Some (y, r)" "x = z # y" "simple_escape e = Some z"
      by (auto simp: push_Some_iff split: if_splits option.splits)
    from IH[OF y(1,2)] 3 obtain b where "es = b @ CHR 0x22 # r" "pairedBody b" "surrogateScan False r = Inr ()"
      "\<forall>t. lex_str (b @ CHR 0x22 # t) = Some (y, t)" by (auto simp: s)
    then show ?thesis using 3 y(3,4) by (auto simp: s push_def intro!: exI[of _ "c # e # b"] pairedBody.escape)
  next
    case 4
    obtain a1 a2 a3 a4 r1 where es: "es = a1 # a2 # a3 # a4 # r1"
      using lex 4 by (auto split: list.splits)
    obtain w where w: "decodeHexEscape [a1, a2, a3, a4] = Some w"
      using scan 4 es by (auto split: option.splits)
    then have v: "hex4 a1 a2 a3 a4 = Some (unat w)" by (simp add: hex4_value hex_word(1))
    show ?thesis
    proof (cases "isHighSurrogate w")
      case True
      obtain b1 b2 b3 b4 r2 where r1: "r1 = CHR 0x5C # CHR ''u'' # b1 # b2 # b3 # b4 # r2"
        using scan 4 es w True by (auto simp: Suc_le_length_iff numeral_eq_Suc not_less split: if_splits)
      obtain l where l: "decodeHexEscape [b1, b2, b3, b4] = Some l" "isLowSurrogate l" "surrogateScan True r2 = Inr ()"
        using scan 4 es w True by (auto simp: r1 split: option.splits if_splits)
      then have "hex4 b1 b2 b3 b4 = Some (unat l)" by (simp add: hex4_value hex_word(1))
      then obtain y p where y: "lex_str r2 = Some (y, r)" "x = p @ y" "hex4 b1 b2 b3 b4 = Some (unat l)"
        "p = utf8_encode ((unat w - 55296) * 1024 + (unat l - 56320) + 65536)"
        using lex 4 es v True l(2) by (auto simp: r1 surrogate_ranges low_pair_def push_Some_iff)
      from IH[OF l(3) y(1)] obtain b where "r2 = b @ CHR 0x22 # r" "pairedBody b" "surrogateScan False r = Inr ()"
        "\<forall>t. lex_str (b @ CHR 0x22 # t) = Some (y, t)" by (auto simp: s 4 es r1)
      then show ?thesis using y(2-4) v
        using pairedBody.pair[of "[a1, a2, a3, a4]" "unat w" "[b1, b2, b3, b4]" "unat l" b] w l True
        by (intro exI[of _ "CHR 0x5C # CHR ''u'' # [a1, a2, a3, a4] @ CHR 0x5C # CHR ''u'' # [b1, b2, b3, b4] @ b"])
          (auto simp: s 4 es r1 surrogate_ranges hex_word(1) low_pair_def push_def)
    next
      case False
      then have low: "\<not> isLowSurrogate w" "surrogateScan True r1 = Inr ()"
        using scan 4 es w by (auto split: if_splits)
      then obtain y where y: "lex_str r1 = Some (y, r)" "x = utf8_encode (unat w) @ y"
        using lex 4 es v False by (auto simp: surrogate_ranges push_Some_iff)
      from IH[OF low(2) y(1)] obtain b where "r1 = b @ CHR 0x22 # r" "pairedBody b" "surrogateScan False r = Inr ()"
        "\<forall>t. lex_str (b @ CHR 0x22 # t) = Some (y, t)" by (auto simp: s 4 es)
      then show ?thesis using y(2) v
        using pairedBody.unit[of "[a1, a2, a3, a4]" "unat w" b] w low(1) False
        by (intro exI[of _ "CHR 0x5C # CHR ''u'' # [a1, a2, a3, a4] @ b"])
          (auto simp: s 4 es surrogate_ranges hex_word(1) push_def)
    qed
  qed
qed

lemma outside_text: "\<forall>c\<in>set u. c \<noteq> CHR 0x22 \<Longrightarrow> surrogateScan False (u @ s) = surrogateScan False s"
  "\<forall>c\<in>set u. c \<noteq> CHR 0x22 \<Longrightarrow> pairedText s \<Longrightarrow> pairedText (u @ s)"
  by (induction u) (auto intro: pairedText.outside)

lemma lex_step:
  \<comment> \<open>a text that lexes is empty or begins with white space, punctuation, a string, a number or a word\<close>
  assumes "lex s = Some ts"
  obtains "s = []" "ts = []"
    | c r where "s = c # r" "is_ws c" "lex r = Some ts"
    | c r t ts' where "s = c # r" "\<not> is_ws c" "punct c = Some t" "ts = t # ts'" "lex r = Some ts'"
    | cs x r ts' where "s = CHR 0x22 # cs" "lex_str cs = Some (x, r)" "ts = TStr x # ts'" "lex r = Some ts'"
    | n r ts' where "s = n @ r" "n \<noteq> []" "hd n = CHR ''-'' \<or> is_digit (hd n)" "lex_num s = Some (n, r)" "\<forall>c\<in>set n. is_number_char c" "ts = TNum n # ts'"
        "lex r = Some ts'"
    | w r t ts' where "s = w @ r" "w \<in> {''true'', ''false'', ''null''}" "lex_word s = Some (t, r)" "ts = t # ts'" "lex r = Some ts'"
proof (cases s)
  case (Cons c cs)
  show ?thesis
  proof (cases "is_ws c")
    case True
    with assms Cons that(2) show ?thesis by simp
  next
    case ws: False
    show ?thesis
    proof (cases "punct c")
      case (Some t)
      with assms Cons ws that(3) show ?thesis by auto
    next
      case None
      consider "c = CHR 0x22" | "c \<noteq> CHR 0x22" "c = CHR ''-'' \<or> is_digit c" | "c \<noteq> CHR 0x22" "\<not> (c = CHR ''-'' \<or> is_digit c)"
        by blast
      then show ?thesis
      proof cases
        case 1
        with assms Cons ws None that(4) show ?thesis by (auto split: option.splits)
      next
        case 2
        with assms Cons ws None obtain n r ts' where "lex_num s = Some (n, r)" "ts = TNum n # ts'" "lex r = Some ts'"
          by (auto split: option.splits)
        moreover from lex_num_text[OF this(1)] have "s = n @ r" "n \<noteq> []" "\<forall>c\<in>set n. is_number_char c" by auto
        moreover from this(1,2) Cons 2(2) have "hd n = CHR ''-'' \<or> is_digit (hd n)" by (cases n) auto
        ultimately show ?thesis using that(5) by blast
      next
        case 3
        with assms Cons ws None obtain t r ts' where "lex_word s = Some (t, r)" "ts = t # ts'" "lex r = Some ts'"
          by (auto split: option.splits)
        with lex_word_text[OF this(1)] that(6) show ?thesis by blast
      qed
    qed
  qed
qed (use assms that(1) in simp)

lemma accepted_paired: "lex s = Some ts \<Longrightarrow> surrogateScan False s = Inr () \<Longrightarrow> pairedText s"
proof (induction s arbitrary: ts rule: length_induct)
  case (1 s)
  have IH: "pairedText r" if "lex r = Some us" "surrogateScan False r = Inr ()" "length r < length s" for r us
    using 1(1) that by blast
  from "1.prems"(1) show ?case
  proof (cases rule: lex_step)
    case 1
    then show ?thesis by (simp add: pairedText.finished)
  next
    case (2 c r)
    then have "c \<noteq> CHR 0x22" by (auto simp: is_ws_def)
    with 2 "1.prems"(2) IH[of r] show ?thesis by (auto intro: pairedText.outside)
  next
    case (3 c r t ts')
    then have "c \<noteq> CHR 0x22" by (auto simp: punct_def)
    with 3 "1.prems"(2) IH[of r] show ?thesis by (auto intro: pairedText.outside)
  next
    case (4 cs x r ts')
    then obtain b where "cs = b @ CHR 0x22 # r" "pairedBody b" "surrogateScan False r = Inr ()"
      using accepted_body "1.prems"(2) by force
    with 4 IH[of r] show ?thesis by (auto intro: pairedText.literal)
  next
    case (5 n r ts')
    then have "\<forall>c\<in>set n. c \<noteq> CHR 0x22" using number_char_plain by blast
    with 5 "1.prems"(2) show ?thesis using outside_text IH[of r] by auto
  next
    case (6 w r t ts')
    then have "\<forall>c\<in>set w. c \<noteq> CHR 0x22" "w \<noteq> []" by auto
    with 6(1,5) "1.prems"(2) show ?thesis using outside_text IH[of r] by auto
  qed
qed

lemma paired_iff: "lex s = Some ts \<Longrightarrow> validateEscapedSurrogates s = Inr () \<longleftrightarrow> pairedText s"
  unfolding validateEscapedSurrogates_def using accepted_paired paired_accepted by blast

end
