(* ===== verification/RawText.thy ===== *)
theory RawText
  imports JsonText Marshal
begin

text \<open>
  JSON documents built from the texts of their parts, whatever the parts look like: \<open>isText s v\<close> says
  that \<open>s\<close> is a strict text of the value \<open>v\<close> without white space around it. Printed values are texts of what a
  reader sees (\<open>isText_print\<close>), and arrays and objects of texts are texts of arrays and objects
  (\<open>isText_array\<close>, \<open>isText_object\<close>), because a text lexes in every context as it does alone (\<open>lex_append\<close>).
\<close>

subsection \<open>Texts in context\<close>

declare utf8_Valid.simps(2) [simp del]

lemma span_append:
  "t = [] \<or> \<not> P (hd t) \<Longrightarrow> takeWhile P (s @ t) = takeWhile P s \<and> dropWhile P (s @ t) = dropWhile P s @ t"
  by (induction s) (cases t; auto)+

lemma lex_num_append:
  assumes "lex_num s = Some (n, r)" and "delimited t"
  shows "lex_num (s @ t) = Some (n, r @ t)"
proof -
  note d = delimited_rest[OF assms(2)]
  note span = span_append[where P = is_digit, OF d(1)]
  have sign: "hd t \<noteq> CHR ''-''" if "t \<noteq> []" using assms(2) that by (auto simp: delimited_def)
  have int: "lex_int (u @ t) = Some (a, v @ t)" if "lex_int u = Some (a, v)" for u a v
    using that span by (auto simp: lex_int_def split: list.splits if_splits)
  have frac: "lex_frac (u @ t) = Some (a, v @ t)" if "lex_frac u = Some (a, v)" for u a v
    using that span d(2) by (cases u) (auto simp: lex_frac_def split: if_splits)
  have exp: "lex_exp (u @ t) = Some (a, v @ t)" if u: "lex_exp u = Some (a, v)" for u a v
  proof (cases u)
    case (Cons c cs)
    show ?thesis
    proof (cases cs)
      case Nil
      then show ?thesis using u Cons by (auto simp: lex_exp_def split: if_splits)
    next
      case (Cons e es)
      then show ?thesis using u \<open>u = c # cs\<close> span[of es] span[of "e # es"]
        by (auto simp: lex_exp_def Let_def split: if_splits)
    qed
  qed (use u d(3) in \<open>auto simp: lex_exp_def\<close>)
  show ?thesis
  proof (cases s)
    case Nil
    then show ?thesis using assms(1) by (simp add: lex_num_def lex_int_def)
  next
    case (Cons c cs)
    then show ?thesis using assms(1) int[of cs] int[of "c # cs"] frac exp
      by (fastforce simp: lex_num_def split: if_splits option.splits)
  qed
qed

lemma lex_append:
  "lex s = Some ts \<Longrightarrow> surrogateScan False s = Inr () \<Longrightarrow> delimited t \<Longrightarrow>
     lex (s @ t) = map_option ((@) ts) (lex t)"
proof (induction s arbitrary: ts rule: length_induct)
  case (1 s)
  have IH: "lex (r @ t) = map_option ((@) us) (lex t)" if "lex r = Some us" "surrogateScan False r = Inr ()" "length r < length s" for r us
    using 1 that by blast
  from "1.prems"(1) show ?case
  proof (cases rule: lex_step)
    case 1
    then show ?thesis by (simp add: append_fun(1) option.map_ident)
  next
    case (2 c r)
    then have "c \<noteq> CHR 0x22" by (auto simp: is_ws_def)
    with 2 "1.prems"(2) IH[of r] show ?thesis by auto
  next
    case (3 c r t' ts')
    then have "c \<noteq> CHR 0x22" by (auto simp: punct_def)
    with 3 "1.prems"(2) IH[of r] show ?thesis by (auto simp: append_fun option.map_comp comp_def)
  next
    case (4 cs x r ts')
    then have "surrogateScan True cs = Inr ()" using "1.prems"(2) by simp
    from accepted_body[OF this 4(2)] obtain b where "cs = b @ CHR 0x22 # r" "surrogateScan False r = Inr ()"
      "\<forall>t. lex_str (b @ CHR 0x22 # t) = Some (x, t)" by blast
    with 4 IH[of r] show ?thesis
      by (auto simp: append_fun option.map_comp comp_def is_ws_def punct_def simp del: lex_str.simps)
  next
    case (5 n r ts')
    then have q: "\<forall>c\<in>set n. c \<noteq> CHR 0x22" using number_char_plain by blast
    then have r: "lex (r @ t) = map_option ((@) ts') (lex t)"
      using 5 "1.prems"(2) IH[of r] outside_text(1)[OF q, of r] by auto
    obtain c n' where n: "n = c # n'" using 5(2) by (cases n) auto
    have c: "c = CHR ''-'' \<or> is_digit c" using 5(3) n by simp
    then have "\<not> is_ws c" "punct c = None" "c \<noteq> CHR 0x22" by (auto simp: is_ws_def is_digit_def punct_def)
    then have "lex (c # u) = (case lex_num (c # u) of None \<Rightarrow> None | Some (n, r) \<Rightarrow> map_option ((#) (TNum n)) (lex r))" for u
      using c by (simp only: lex.simps(2) if_False option.case if_P)
    from this[of "n' @ r @ t"] lex_num_append[OF 5(4) "1.prems"(3)]
    have "lex (s @ t) = map_option ((#) (TNum n)) (lex (r @ t))"
      unfolding 5(1) n by (simp only: append_Cons append_assoc option.case prod.case)
    then show ?thesis unfolding r 5(6) by (simp add: append_fun option.map_comp comp_def)
  next
    case (6 w r t' ts')
    then have q: "\<forall>c\<in>set w. c \<noteq> CHR 0x22" by auto
    then have r: "lex (r @ t) = map_option ((@) ts') (lex t)"
      using 6 "1.prems"(2) IH[of r] outside_text(1)[OF q, of r] by auto
    have "lex_word (w @ r) = Some (t', r)" using 6(1,3) by simp
    with 6(2) have "lex (w @ u) = map_option ((#) t') (lex u)" for u
      by (elim insertE emptyE) (simp_all add: lex_words lex_word_def del: lex.simps)
    from this[of "r @ t"] show ?thesis
      unfolding 6(1,4) append_assoc r by (simp add: append_fun option.map_comp comp_def)
  qed
qed

lemma utf8_append: "utf8_Valid s \<Longrightarrow> utf8_Valid (s @ t) = utf8_Valid t"
proof (induction s rule: escape_induct)
  case (invalid c cs)
  have "0 < rune_size (c # cs)" using utf8_Valid_step[of "c # cs"] invalid(4) by blast
  with invalid(2) show ?case by simp
next
  case (rune r cs)
  then show ?case using high_rune(3)[OF rune(1-3)] by simp
qed simp_all

lemma paired_append: "pairedText s \<Longrightarrow> pairedText t \<Longrightarrow> pairedText (s @ t)"
  by (induction s rule: pairedText.induct) (auto intro: pairedText.outside pairedText.literal)

subsection \<open>Texts of values\<close>

definition tight :: "string \<Rightarrow> bool" where
  "tight s \<longleftrightarrow> s \<noteq> [] \<and> \<not> is_ws (hd s) \<and> \<not> is_ws (last s)"

definition isText :: "string \<Rightarrow> jvalue \<Rightarrow> bool" where
  "isText s v \<longleftrightarrow> utf8_Valid s \<and> pairedText s \<and> lex s = Some (toks v) \<and> tight s"

lemma isText_Validate: "isText s v \<Longrightarrow> unique_members v \<Longrightarrow> Validate s = Inr () \<and> json_parse s = Some v"
  by (auto simp: isText_def Validate_iff json_parse_iff validateEscapedSurrogates_def paired_accepted)

lemma Validate_isText: "Validate s = Inr () \<Longrightarrow> tight s \<Longrightarrow> \<exists>v. isText s v \<and> unique_members v"
  by (auto simp: isText_def Validate_iff json_parse_iff paired_iff)

lemma isText_append:
  assumes "isText s v"
  shows "utf8_Valid (s @ t) = utf8_Valid t" "pairedText t \<Longrightarrow> pairedText (s @ t)"
    "delimited t \<Longrightarrow> lex (s @ t) = map_option ((@) (toks v)) (lex t)"
  using assms unfolding isText_def by (auto simp: utf8_append paired_append paired_accepted lex_append)

lemma print_tight: "printable v \<Longrightarrow> tight (json_print v)"
proof -
  assume v: "printable v"
  have elems: "vs \<noteq> [] \<Longrightarrow> print_elems vs \<noteq> [] \<and> last (print_elems vs) = CHR 0x5D" for vs
    by (induction vs) auto
  have members: "ms \<noteq> [] \<Longrightarrow> print_members ms \<noteq> [] \<and> last (print_members ms) = CHR 0x7D" for ms
    by (induction ms) auto
  have digit: "is_digit c \<Longrightarrow> \<not> is_ws c" for c by (auto simp: is_digit_def is_ws_def)
  have ws: "is_ws CHR 0x22 = False" "is_ws CHR 0x5B = False" "is_ws CHR 0x7B = False" "is_ws CHR 0x5D = False"
    "is_ws CHR 0x7D = False" "is_ws CHR ''n'' = False" "is_ws CHR ''l'' = False" "is_ws CHR ''t'' = False"
    "is_ws CHR ''f'' = False" "is_ws CHR ''e'' = False"
    by (simp_all add: is_ws_def)
  have n: "FormatUint k \<noteq> []" "\<not> is_ws (hd (FormatUint k))" "\<not> is_ws (last (FormatUint k))" for k
    using FormatUint_digits[of k] by (auto intro!: digit simp: list_all_iff)
  show ?thesis using v n(2,3) elems members
    by (cases v) (auto simp: tight_def quote_def n(1) ws)
qed

lemma isText_print:
  assumes "printable v"
  shows "isText (json_print v) (clean v)"
proof -
  have "lex (json_print v) = Some (toks (clean v))" using lex_print(1)[OF assms, of "[]"] by simp
  then show ?thesis
    using utf8_Valid_print(1)[OF assms, of "[]"] surrogateScan_print(1)[OF assms, of "[]"] print_tight[OF assms]
    by (auto simp: isText_def intro: accepted_paired)
qed

lemma isText_quote: "utf8_Valid s \<Longrightarrow> isText (quote s) (JString s)"
  using isText_print[of "JString s"] by (simp add: toValidUTF8_valid)

lemma isText_number: "isText (FormatUint n) (JNumber (FormatUint n))"
  using isText_print[of "JNumber (FormatUint n)"] by auto

subsection \<open>Arrays and objects of texts\<close>

fun textList :: "char \<Rightarrow> string list \<Rightarrow> string" where
  "textList e [] = [e]"
| "textList e (s # ss) = s @ (if ss = [] then [e] else CHR 0x2C # textList e ss)"

definition arrayText :: "string list \<Rightarrow> string" where
  "arrayText ss = CHR 0x5B # textList (CHR 0x5D) ss"

abbreviation memberText :: "string \<times> string \<Rightarrow> string" where
  "memberText m \<equiv> quote (fst m) @ CHR 0x3A # snd m"

definition objectText :: "(string \<times> string) list \<Rightarrow> string" where
  "objectText ms = CHR 0x7B # textList (CHR 0x7D) (map memberText ms)"

lemma textList_last: "textList e ss \<noteq> [] \<and> last (textList e ss) = e"
  by (induction ss) auto

lemma textList_utf8: "\<forall>s\<in>set ss. utf8_Valid s \<Longrightarrow> byte e < 128 \<Longrightarrow> utf8_Valid (textList e ss)"
  by (induction ss) (auto simp: utf8_append)

lemma textList_paired: "\<forall>s\<in>set ss. pairedText s \<Longrightarrow> e \<noteq> CHR 0x22 \<Longrightarrow> pairedText (textList e ss)"
  by (induction ss) (auto intro!: paired_append pairedText.outside pairedText.finished)

lemma isText_array:
  assumes "\<forall>(s, v)\<in>set ps. isText s v"
  shows "isText (arrayText (map fst ps)) (JArray (map snd ps))"
proof -
  have "ps \<noteq> [] \<Longrightarrow> lex (textList (CHR 0x5D) (map fst ps)) = Some (toks_elems (map snd ps))"
    using assms by (induction ps) (auto simp: isText_append(3) lex_punct simp del: lex.simps(2))
  then have "lex (arrayText (map fst ps)) = Some (toks (JArray (map snd ps)))"
    by (cases "ps = []") (auto simp: arrayText_def lex_punct simp del: lex.simps(2))
  moreover have "\<forall>s\<in>set (map fst ps). utf8_Valid s \<and> pairedText s" using assms by (auto simp: isText_def)
  then have "utf8_Valid (arrayText (map fst ps))" "pairedText (arrayText (map fst ps))"
    by (auto simp: arrayText_def intro!: textList_utf8 textList_paired pairedText.outside)
  ultimately show ?thesis
    using textList_last by (auto simp: isText_def tight_def arrayText_def is_ws_def)
qed

lemma isText_object:
  assumes "\<forall>(k, s, v)\<in>set fs. utf8_Valid k \<and> isText s v"
  shows "isText (objectText (map (\<lambda>(k, s, v). (k, s)) fs)) (JObject (map (\<lambda>(k, s, v). (k, v)) fs))"
proof -
  let ?ms = "map memberText (map (\<lambda>(k, s, v). (k, s)) fs)"
  have "fs \<noteq> [] \<Longrightarrow> lex (textList (CHR 0x7D) ?ms) = Some (toks_members (map (\<lambda>(k, s, v). (k, v)) fs))"
    using assms
    by (induction fs)
      (auto simp: isText_append(3) lex_punct lex_quote toValidUTF8_valid split: prod.splits simp del: lex.simps(2))
  then have l: "lex (objectText (map (\<lambda>(k, s, v). (k, s)) fs)) = Some (toks (JObject (map (\<lambda>(k, s, v). (k, v)) fs)))"
    by (cases "fs = []") (auto simp: objectText_def lex_punct simp del: lex.simps(2))
  have "utf8_Valid m \<and> pairedText m" if m: "m \<in> set ?ms" for m
  proof -
    obtain k s v where "m = quote k @ CHR 0x3A # s" "utf8_Valid k" "isText s v" using m assms by fastforce
    then show ?thesis using isText_quote[of k]
      by (auto simp: isText_def utf8_append intro!: paired_append pairedText.outside)
  qed
  then have "utf8_Valid (objectText (map (\<lambda>(k, s, v). (k, s)) fs))" "pairedText (objectText (map (\<lambda>(k, s, v). (k, s)) fs))"
    unfolding objectText_def by (auto intro!: textList_utf8 textList_paired pairedText.outside)
  with l show ?thesis
    using textList_last by (auto simp: isText_def tight_def objectText_def is_ws_def)
qed

end
