(* ===== verification/DefinitionJson.thy ===== *)
theory DefinitionJson
  imports RowCodec RawText Publication
begin

text \<open>
  Definitions as JSON documents (\<open>ParseDefinition\<close> of \<open>definition.go\<close> and \<open>PublishJSON\<close> of
  \<open>publication.go\<close>). A node configuration is a \<open>json.RawMessage\<close>: it keeps the text of its value, byte for
  byte, so the decoder needs the parts of the text beside the parsed value (\<open>rawParts\<close>,
  \<open>rawMember\<close>).

  \<open>definitionText\<close> is the document \<open>json.Marshal\<close> writes: it inserts the texts of the configurations, with
  white space between tokens dropped and the characters escaped that HTML gives a meaning (\<open>compactText\<close>).

  Main facts: \<open>split_text\<close> (the text of any value is one part of the level it stands on) and \<open>parse_marshal\<close>,
  a marshalled definition is parsed back with its configurations unchanged.
\<close>

subsection \<open>Texts of members and elements (encoding/json)\<close>

datatype rawMode = Outside | InString | Escaped

fun rawSplit :: "rawMode \<Rightarrow> nat \<Rightarrow> string \<Rightarrow> string \<Rightarrow> string list" where
  \<comment> \<open>the texts between the commas of one level, up to its closing bracket\<close>
  "rawSplit mode d acc [] = [acc]"
| "rawSplit Escaped d acc (c # cs) = rawSplit InString d (acc @ [c]) cs"
| "rawSplit InString d acc (c # cs) =
     rawSplit (if c = CHR 0x22 then Outside else if c = CHR 0x5C then Escaped else InString) d (acc @ [c]) cs"
| "rawSplit Outside d acc (c # cs) =
     (if c = CHR 0x22 then rawSplit InString d (acc @ [c]) cs
      else if c = CHR 0x5B \<or> c = CHR 0x7B then rawSplit Outside (d + 1) (acc @ [c]) cs
      else if c = CHR 0x5D \<or> c = CHR 0x7D then
        (if d = 0 then [acc] else rawSplit Outside (d - 1) (acc @ [c]) cs)
      else if c = CHR 0x2C \<and> d = 0 then acc # rawSplit Outside 0 [] cs
      else rawSplit Outside d (acc @ [c]) cs)"

fun rawAfterColon :: "rawMode \<Rightarrow> string \<Rightarrow> string" where
  \<comment> \<open>the text behind the name of a member\<close>
  "rawAfterColon mode [] = []"
| "rawAfterColon Escaped (c # cs) = rawAfterColon InString cs"
| "rawAfterColon InString (c # cs) =
     rawAfterColon (if c = CHR 0x22 then Outside else if c = CHR 0x5C then Escaped else InString) cs"
| "rawAfterColon Outside (c # cs) =
     (if c = CHR 0x22 then rawAfterColon InString cs else if c = CHR 0x3A then cs else rawAfterColon Outside cs)"

definition trimSpace :: "string \<Rightarrow> string" where
  "trimSpace s = rev (dropWhile is_ws (rev (dropWhile is_ws s)))"

definition rawParts :: "string \<Rightarrow> string list" where
  \<comment> \<open>the texts of the elements of an array, or of the members of an object\<close>
  "rawParts text = (case dropWhile is_ws text of [] \<Rightarrow> [] | _ # cs \<Rightarrow> map trimSpace (rawSplit Outside 0 [] cs))"

definition rawMember :: "string \<Rightarrow> jvalue \<Rightarrow> string \<Rightarrow> string option" where
  \<comment> \<open>the text of the member of an object with the given text\<close>
  "rawMember name v text = (case v of
     JObject ms \<Rightarrow> map_of (zip (map fst ms) (map (trimSpace \<circ> rawAfterColon Outside) (rawParts text))) name
   | _ \<Rightarrow> None)"

subsection \<open>ParseDefinition and PublishJSON\<close>

definition NodeType :: gotype where
  "NodeType = GStruct [stringField ''ID'' ''id'', stringField ''Kind'' ''kind'',
     GField True False ''Config'' ''config,omitempty'' GOpen]"

definition DefinitionType :: gotype where
  "DefinitionType = GStruct [stringField ''ID'' ''id'', stringField ''Version'' ''version'',
     GField True False ''Nodes'' ''nodes'' (GSlice NodeType), GField True False ''Edges'' ''edges'' (GSlice EdgeType)]"

definition nodeOf :: "jvalue \<times> string \<Rightarrow> NodeDefinition result" where
  "nodeOf = (\<lambda>(v, text).
     if \<not> isStruct v then Inl []
     else bindR (decodeStringField ''id'' v) (\<lambda>ident.
       bindR (decodeStringField ''kind'' v) (\<lambda>kind.
         Inr \<lparr>nd_ID = ident, nd_Kind = kind, nd_Config = rawMember ''config'' v text\<rparr>)))"

definition decodeNodes :: "jvalue \<Rightarrow> string \<Rightarrow> NodeDefinition list result" where
  "decodeNodes v text = (case (jsonMember ''nodes'' v, rawMember ''nodes'' v text) of
      (Some (JArray vs), Some nodes) \<Rightarrow> mapR nodeOf (zip vs (rawParts nodes))
    | (None, _) \<Rightarrow> Inr []
    | (Some JNull, _) \<Rightarrow> Inr []
    | _ \<Rightarrow> Inl [])"

definition definitionOf :: "string \<Rightarrow> jvalue \<Rightarrow> Definition result" where
  "definitionOf data v =
     (if \<not> isStruct v then Inl []
      else bindR (decodeStringField ''id'' v) (\<lambda>ident.
        bindR (decodeUintField ''version'' v) (\<lambda>version.
        bindR (decodeNodes v data) (\<lambda>nodes.
        bindR (decodeSliceField edgeOf ''edges'' v) (\<lambda>edges.
          Inr \<lparr>d_ID = ident, d_Version = version, d_Nodes = nodes,
               d_Edges = (case edges of None \<Rightarrow> [] | Some es \<Rightarrow> es)\<rparr>)))))"

definition ParseDefinition :: "string \<Rightarrow> Definition result" where
  "ParseDefinition data =
     bindR (Decode data DefinitionType (definitionOf data)) (\<lambda>definition0.
     bindR (Definition_Validate definition0) (\<lambda>_. Inr definition0))"

definition PublishJSON ::
  "('h, 's) DefinitionPublisher option \<Rightarrow> string \<Rightarrow> ('h env \<times> 's, Definition option) eff" where
  "PublishJSON p data = bindE (liftR (ParseDefinition data)) (\<lambda>definition0. Publish p (Some definition0))"

subsection \<open>What json.Marshal makes of a definition\<close>

definition rawNext :: "rawMode \<Rightarrow> char \<Rightarrow> rawMode" where
  "rawNext mode c = (case mode of
      Outside \<Rightarrow> if c = CHR 0x22 then InString else Outside
    | InString \<Rightarrow> if c = CHR 0x22 then Outside else if c = CHR 0x5C then Escaped else InString
    | Escaped \<Rightarrow> InString)"

function compactText :: "rawMode \<Rightarrow> string \<Rightarrow> string" where
  \<comment> \<open>how a \<open>json.RawMessage\<close> is written: \<open>appendCompact\<close> with HTML escaping\<close>
  "compactText mode [] = []"
| "compactText mode (c # cs) =
     (if c \<in> {CHR ''<'', CHR ''>'', CHR ''&''} then escapeByte c @ compactText (rawNext mode c) cs
      else if lineSeparator (c # take 2 cs) then escapeRune (c # take 2 cs) @ compactText mode (drop 2 cs)
      else if mode = Outside \<and> is_ws c then compactText Outside cs
      else c # compactText (rawNext mode c) cs)"
  by pat_completeness auto
termination
  by (relation "measure (\<lambda>(mode, s). length s)") auto

definition configTexts :: "raw \<Rightarrow> (string \<times> string) list" where
  \<comment> \<open>\<open>omitempty\<close>\<close>
  "configTexts config =
     (if raw_bytes config = [] then [] else [(''config'', compactText Outside (raw_bytes config))])"

definition nodeText :: "NodeDefinition \<Rightarrow> string" where
  "nodeText n = objectText ([(''id'', quote (nd_ID n)), (''kind'', quote (nd_Kind n))] @ configTexts (nd_Config n))"

definition definitionText :: "Definition \<Rightarrow> string" where
  "definitionText d = objectText [(''id'', quote (d_ID d)), (''version'', FormatUint (unat (d_Version d))),
     (''nodes'', arrayText (map nodeText (d_Nodes d))),
     (''edges'', arrayText (map (\<lambda>e. json_print (edgeJSON e)) (d_Edges d)))]"

definition canonicalConfig :: "raw \<Rightarrow> bool" where
  \<comment> \<open>no configuration, or a strict JSON text that is written as it is\<close>
  "canonicalConfig config \<longleftrightarrow> (case config of None \<Rightarrow> True
     | Some s \<Rightarrow> Validate s = Inr () \<and> compactText Outside s = s)"

definition canonicalDefinition :: "Definition \<Rightarrow> bool" where
  "canonicalDefinition d \<longleftrightarrow> utf8Definition d \<and> (\<forall>n\<in>set (d_Nodes d). canonicalConfig (nd_Config n))"

subsection \<open>A text that is written as it is has no white space around it\<close>

declare utf8_Valid.simps(2) [simp del]

lemma compact_step:
  assumes "compactText mode (c # cs) = c # cs" and "\<not> (mode = Outside \<and> is_ws c)"
  shows "compactText (rawNext mode c) cs = cs"
proof (cases "c \<in> {CHR ''<'', CHR ''>'', CHR ''&''} \<or> lineSeparator (c # take 2 cs)")
  case True
  then have "hd (compactText mode (c # cs)) = CHR 0x5C" "c \<noteq> CHR 0x5C"
    by (auto simp: escapeByte_def escapeRune_def lineSeparator_def)
  then show ?thesis using assms(1) by simp
next
  case False
  then show ?thesis using assms by (auto split: if_splits)
qed

lemma compact_run:
  "\<forall>c\<in>set u. rawNext mode c = mode \<and> \<not> (mode = Outside \<and> is_ws c) \<Longrightarrow> compactText mode (u @ v) = u @ v \<Longrightarrow>
     compactText mode v = v"
proof (induction u)
  case (Cons c u)
  from Cons.prems(1) have c: "rawNext mode c = mode" "\<not> (mode = Outside \<and> is_ws c)" by simp_all
  have "compactText mode (u @ v) = u @ v"
    using compact_step[OF Cons.prems(2)[unfolded append_Cons] c(2)] c(1) by simp
  with Cons show ?case by simp
qed simp

lemma compact_start: "compactText Outside s = [] \<or> \<not> is_ws (hd (compactText Outside s))"
proof (induction s)
  case (Cons c cs)
  have "\<not> is_ws CHR 0x5C" by (simp add: is_ws_def)
  with Cons show ?case by (auto simp: escapeByte_def escapeRune_def)
qed simp

lemma compact_body:
  "pairedBody b \<Longrightarrow> compactText InString (b @ CHR 0x22 # r) = b @ CHR 0x22 # r \<Longrightarrow> compactText Outside r = r"
proof -
  have run: "\<forall>c\<in>set ds. c \<notin> {CHR 0x22, CHR 0x5C} \<Longrightarrow> compactText InString (ds @ u) = ds @ u \<Longrightarrow> compactText InString u = u" for ds u
    by (rule compact_run[of ds]) (auto simp: rawNext_def)
  have esc: "compactText InString (CHR 0x5C # c # u) = CHR 0x5C # c # u \<Longrightarrow> compactText InString u = u" for c u
    by (drule compact_step, simp, drule compact_step) (simp_all add: rawNext_def del: compactText.simps)
  show "pairedBody b \<Longrightarrow> compactText InString (b @ CHR 0x22 # r) = b @ CHR 0x22 # r \<Longrightarrow> compactText Outside r = r"
  proof (induction b rule: pairedBody.induct)
    case empty
    then show ?case using compact_step[of InString "CHR 0x22" r] by (simp add: rawNext_def del: compactText.simps)
  next
    case (plain c s)
    then show ?case using run[of "[c]"] by (simp del: compactText.simps)
  next
    case (escape c s)
    then show ?case using esc by (simp del: compactText.simps)
  next
    case (unit ds v s)
    from esc[OF unit(6)[unfolded append_Cons append_assoc]] run[OF hex_plain[OF unit(2)]] unit(5)
    show ?case by blast
  next
    case (pair hs h ls l s)
    from esc[OF pair(11)[unfolded append_Cons append_assoc]] run[OF hex_plain[OF pair(2)]]
    have "compactText InString (CHR 0x5C # CHR ''u'' # ls @ s @ CHR 0x22 # r) = CHR 0x5C # CHR ''u'' # ls @ s @ CHR 0x22 # r"
      by blast
    from esc[OF this] run[OF hex_plain[OF pair(6)]] pair(10) show ?case by blast
  qed
qed

lemma compact_ends:
  "lex s = Some ts \<Longrightarrow> surrogateScan False s = Inr () \<Longrightarrow> compactText Outside s = s \<Longrightarrow> s \<noteq> [] \<Longrightarrow> \<not> is_ws (last s)"
proof (induction s arbitrary: ts rule: length_induct)
  case (1 s)
  have IH: "r = [] \<or> \<not> is_ws (last r)"
    if "lex r = Some us" "surrogateScan False r = Inr ()" "compactText Outside r = r" "length r < length s" for r us
    using 1(1) that by blast
  have run: "\<forall>c\<in>set u. c \<noteq> CHR 0x22 \<and> \<not> is_ws c \<Longrightarrow> compactText Outside (u @ v) = u @ v \<Longrightarrow> compactText Outside v = v" for u v
    by (rule compact_run[of u]) (auto simp: rawNext_def)
  have plain: ?case if "s = u @ r" "u \<noteq> []" "\<forall>c\<in>set u. c \<noteq> CHR 0x22 \<and> \<not> is_ws c" "lex r = Some us" for u r us
  proof -
    have "surrogateScan False r = Inr ()" using "1.prems"(2) outside_text(1)[of u r] that(1,3) by auto
    then have "r = [] \<or> \<not> is_ws (last r)" using IH[OF that(4)] run[OF that(3)] "1.prems"(3) that(1,2) by auto
    moreover have "\<not> is_ws (last u)" using that(2,3) by auto
    ultimately show ?thesis unfolding that(1) by (cases "r = []") simp_all
  qed
  from "1.prems"(1) show ?case
  proof (cases rule: lex_step)
    case 1
    with "1.prems"(4) show ?thesis by simp
  next
    case (2 c r)
    with compact_start[of s] "1.prems"(3) show ?thesis by simp
  next
    case (3 c r t ts')
    then have "c \<noteq> CHR 0x22" by (auto simp: punct_def)
    with 3 show ?thesis using plain[of "[c]" r] by auto
  next
    case (4 cs x r ts')
    then have "surrogateScan True cs = Inr ()" using "1.prems"(2) by simp
    from accepted_body[OF this 4(2)] obtain b where b: "cs = b @ CHR 0x22 # r" "pairedBody b" "surrogateScan False r = Inr ()"
      by blast
    have "compactText InString cs = cs"
      using compact_step[of Outside "CHR 0x22" cs] "1.prems"(3) 4(1) by (simp add: rawNext_def is_ws_def del: compactText.simps)
    then have "compactText Outside r = r" using compact_body b(1,2) by blast
    then have "r = [] \<or> \<not> is_ws (last r)" using IH[OF 4(4) b(3)] by (auto simp: 4(1) b(1))
    then show ?thesis by (auto simp: 4(1) b(1) is_ws_def[of "CHR 0x22"])
  next
    case (5 n r ts')
    then have "\<forall>c\<in>set n. c \<noteq> CHR 0x22 \<and> \<not> is_ws c"
      by (auto simp: is_number_char_def is_digit_def is_ws_def)
    with 5 show ?thesis using plain by blast
  next
    case (6 w r t ts')
    then have "w \<noteq> []" "\<forall>c\<in>set w. c \<noteq> CHR 0x22 \<and> \<not> is_ws c" by (auto simp: is_ws_def)
    with 6 show ?thesis using plain by blast
  qed
qed

lemma canonical_config_text:
  assumes "canonicalConfig (Some s)"
  shows "\<exists>v. isText s v \<and> unique_members v"
proof -
  have s: "Validate s = Inr ()" "compactText Outside s = s" using assms by (simp_all add: canonicalConfig_def)
  then obtain v where v: "lex s = Some (toks v)" "surrogateScan False s = Inr ()"
    by (auto simp: Validate_iff json_parse_iff validateEscapedSurrogates_def)
  then have "s \<noteq> []" using toks_hd[of v] by (cases s) auto
  moreover have "\<not> is_ws (hd s)" using compact_start[of s] s(2) \<open>s \<noteq> []\<close> by simp
  ultimately have "tight s" using compact_ends[OF v s(2)] by (simp add: tight_def)
  with s(1) Validate_isText show ?thesis by blast
qed

subsection \<open>The parts of a text\<close>

fun depthAfter :: "nat \<Rightarrow> jtoken list \<Rightarrow> nat option" where
  \<comment> \<open>the depth after some tokens, unless the level is left or a comma separates two of its parts\<close>
  "depthAfter d [] = Some d"
| "depthAfter d (t # ts) = (case t of
      TLBrace \<Rightarrow> depthAfter (Suc d) ts
    | TLBrack \<Rightarrow> depthAfter (Suc d) ts
    | TRBrace \<Rightarrow> (case d of 0 \<Rightarrow> None | Suc e \<Rightarrow> depthAfter e ts)
    | TRBrack \<Rightarrow> (case d of 0 \<Rightarrow> None | Suc e \<Rightarrow> depthAfter e ts)
    | TComma \<Rightarrow> if d = 0 then None else depthAfter d ts
    | _ \<Rightarrow> depthAfter d ts)"

lemma depth_toks:
  "depthAfter d (toks v @ ts) = depthAfter d ts"
  "vs \<noteq> [] \<Longrightarrow> depthAfter (Suc d) (toks_elems vs @ ts) = depthAfter d ts"
  "ms \<noteq> [] \<Longrightarrow> depthAfter (Suc d) (toks_members ms @ ts) = depthAfter d ts"
  by (induction v and vs and ms arbitrary: d ts and d ts and d ts rule: toks_toks_elems_toks_members.induct) auto

lemma split_plain:
  "\<forall>c\<in>set s. c \<notin> {CHR 0x22, CHR 0x5B, CHR 0x7B, CHR 0x5D, CHR 0x7D, CHR 0x2C} \<Longrightarrow>
     rawSplit Outside d acc (s @ t) = rawSplit Outside d (acc @ s) t"
  by (induction s arbitrary: acc) auto

lemma in_string:
  assumes "\<forall>c\<in>set s. c \<notin> {CHR 0x22, CHR 0x5C}"
  shows "rawSplit InString d acc (s @ t) = rawSplit InString d (acc @ s) t" "rawAfterColon InString (s @ t) = rawAfterColon InString t"
  using assms by (induction s arbitrary: acc) auto

lemma body_parts:
  assumes "pairedBody b"
  shows "rawSplit InString d acc (b @ CHR 0x22 # t) = rawSplit Outside d (acc @ b @ [CHR 0x22]) t"
    "rawAfterColon InString (b @ CHR 0x22 # t) = rawAfterColon Outside t"
proof -
  have "(\<forall>acc. rawSplit InString d acc (b @ CHR 0x22 # t) = rawSplit Outside d (acc @ b @ [CHR 0x22]) t) \<and>
      rawAfterColon InString (b @ CHR 0x22 # t) = rawAfterColon Outside t"
    using assms
  proof (induction b rule: pairedBody.induct)
    case (unit ds v s)
    note in_string[OF hex_plain[OF unit(2)]]
    with unit(5) show ?case by simp
  next
    case (pair hs h ls l s)
    note in_string[OF hex_plain[OF pair(2)]] in_string[OF hex_plain[OF pair(6)]]
    with pair(10) show ?case by simp
  qed simp_all
  then show "rawSplit InString d acc (b @ CHR 0x22 # t) = rawSplit Outside d (acc @ b @ [CHR 0x22]) t"
    "rawAfterColon InString (b @ CHR 0x22 # t) = rawAfterColon Outside t" by blast+
qed

lemma split_lex:
  "lex s = Some ts \<Longrightarrow> surrogateScan False s = Inr () \<Longrightarrow> depthAfter d ts = Some e \<Longrightarrow>
     rawSplit Outside d acc (s @ t) = rawSplit Outside e (acc @ s) t"
proof (induction s arbitrary: ts d acc rule: length_induct)
  case (1 s)
  have IH: "rawSplit Outside k acc (r @ t) = rawSplit Outside e (acc @ r) t"
    if "lex r = Some us" "surrogateScan False r = Inr ()" "depthAfter k us = Some e" "length r < length s" for r us k acc
    using 1(1) that by blast
  from "1.prems"(1) show ?case
  proof (cases rule: lex_step)
    case 1
    with "1.prems"(3) show ?thesis by simp
  next
    case (2 c r)
    then have c: "\<forall>x\<in>set [c]. x \<notin> {CHR 0x22, CHR 0x5B, CHR 0x7B, CHR 0x5D, CHR 0x7D, CHR 0x2C}" by (auto simp: is_ws_def)
    then show ?thesis using split_plain[OF c, of d acc "r @ t"] IH[of r ts d] 2 "1.prems"(2,3) by auto
  next
    case (3 c r u ts')
    then have "c \<noteq> CHR 0x22" by (auto simp: punct_def)
    then have r: "surrogateScan False r = Inr ()" using 3 "1.prems"(2) by simp
    show ?thesis using 3 "1.prems"(3) IH[OF 3(5) r]
      by (auto simp: punct_def split: if_splits nat.splits)
  next
    case (4 cs x r ts')
    then have "surrogateScan True cs = Inr ()" using "1.prems"(2) by simp
    from accepted_body[OF this 4(2)] obtain b where b: "cs = b @ CHR 0x22 # r" "pairedBody b" "surrogateScan False r = Inr ()"
      by blast
    then show ?thesis using IH[of r ts' d] 4 "1.prems"(3) by (simp add: body_parts)
  next
    case (5 n r ts')
    then have n: "\<forall>c\<in>set n. c \<notin> {CHR 0x22, CHR 0x5B, CHR 0x7B, CHR 0x5D, CHR 0x7D, CHR 0x2C}" "\<forall>c\<in>set n. c \<noteq> CHR 0x22"
      using number_char_plain by blast+
    then have "surrogateScan False r = Inr ()" using outside_text(1)[OF n(2), of r] 5(1) "1.prems"(2) by simp
    then show ?thesis using split_plain[OF n(1), of d acc "r @ t"] IH[of r ts' d] 5 "1.prems"(3) by simp
  next
    case (6 w r u ts')
    then have n: "\<forall>c\<in>set w. c \<notin> {CHR 0x22, CHR 0x5B, CHR 0x7B, CHR 0x5D, CHR 0x7D, CHR 0x2C}" "\<forall>c\<in>set w. c \<noteq> CHR 0x22" "w \<noteq> []"
      by auto
    then have "surrogateScan False r = Inr ()" using outside_text(1)[OF n(2), of r] 6(1) "1.prems"(2) by simp
    moreover have "depthAfter d ts' = Some e" using 6 "1.prems"(3) by (auto simp: lex_word_def split: if_splits)
    ultimately show ?thesis using split_plain[OF n(1), of d acc "r @ t"] IH[of r ts' d] 6(1,5) n(3) by simp
  qed
qed

abbreviation onePart :: "string \<Rightarrow> bool" where
  "onePart s \<equiv> \<forall>d acc t. rawSplit Outside d acc (s @ t) = rawSplit Outside d (acc @ s) t"

lemma split_text: "isText s v \<Longrightarrow> onePart s"
  using split_lex[of s "toks v"] depth_toks(1)[of _ v "[]"] by (auto simp: isText_def paired_accepted)

lemma split_list:
  "\<forall>s\<in>set ss. onePart s \<Longrightarrow> ss \<noteq> [] \<Longrightarrow> e \<in> {CHR 0x5D, CHR 0x7D} \<Longrightarrow> rawSplit Outside 0 [] (textList e ss) = ss"
  by (induction ss) auto

lemma after_name: "utf8_Valid k \<Longrightarrow> rawAfterColon Outside (quote k @ CHR 0x3A # s) = s"
proof -
  assume "utf8_Valid k"
  then have "surrogateScan False (quote k) = Inr ()" "lex (quote k) = Some [TStr k]"
    using isText_quote by (auto simp: isText_def paired_accepted)
  then obtain b where "escapeString k @ [CHR 0x22] = b @ [CHR 0x22]" "pairedBody b"
    using accepted_body[of "escapeString k @ [CHR 0x22]"] lex_str_escapeString[of k "[]"]
    by (auto simp: quote_def simp del: lex_str.simps)
  then show ?thesis by (simp add: quote_def body_parts(2))
qed

lemma trim_tight: "tight s \<Longrightarrow> trimSpace s = s"
proof -
  assume s: "tight s"
  have "dropWhile is_ws s = s" using s by (cases s) (auto simp: tight_def)
  moreover have "dropWhile is_ws (rev s) = rev s" using s by (cases s rule: rev_cases) (auto simp: tight_def)
  ultimately show ?thesis by (simp add: trimSpace_def)
qed

lemma rawParts_array:
  assumes "\<forall>(s, v)\<in>set ps. isText s v"
  shows "zip (map snd ps) (rawParts (arrayText (map fst ps))) = map (\<lambda>(s, v). (v, s)) ps"
proof (cases "ps = []")
  case False
  have p: "\<exists>v. isText s v" if "s \<in> set (map fst ps)" for s using assms that by fastforce
  then have "\<forall>s\<in>set (map fst ps). onePart s" using split_text by blast
  moreover have "map trimSpace (map fst ps) = map fst ps"
    by (rule map_idI) (use p trim_tight in \<open>auto simp: isText_def\<close>)
  ultimately have "rawParts (arrayText (map fst ps)) = map fst ps"
    using False by (simp add: rawParts_def arrayText_def is_ws_def split_list)
  then show ?thesis by (simp add: zip_map_map zip_same_conv_map case_prod_beta)
qed simp

lemma rawMember_object:
  assumes "\<forall>(k, s, v)\<in>set fs. utf8_Valid k \<and> isText s v"
  shows "rawMember name (JObject (map (\<lambda>(k, s, v). (k, v)) fs)) (objectText (map (\<lambda>(k, s, v). (k, s)) fs)) =
    map_of (map (\<lambda>(k, s, v). (k, s)) fs) name"
proof (cases "fs = []")
  case False
  let ?ms = "map memberText (map (\<lambda>(k, s, v). (k, s)) fs)"
  have m: "onePart m \<and> tight m" if "m \<in> set ?ms" for m
  proof -
    obtain k s v where m: "m = quote k @ CHR 0x3A # s" "utf8_Valid k" "isText s v" using \<open>m \<in> set ?ms\<close> assms by fastforce
    then have "tight m" by (auto simp: isText_def tight_def quote_def is_ws_def[of "CHR 0x22"])
    with m split_text[OF isText_quote[OF m(2)]] split_text[OF m(3)] show ?thesis by simp
  qed
  then have "map trimSpace ?ms = ?ms" by (intro map_idI) (use trim_tight in blast)
  moreover have "\<forall>m\<in>set ?ms. onePart m" using m by blast
  ultimately have "rawParts (objectText (map (\<lambda>(k, s, v). (k, s)) fs)) = ?ms"
    using False by (simp add: rawParts_def objectText_def is_ws_def split_list del: map_map)
  moreover have "map (trimSpace \<circ> rawAfterColon Outside) ?ms = map (\<lambda>(k, s, v). s) fs"
    using assms by (auto simp: after_name trim_tight isText_def)
  ultimately have "rawMember name (JObject (map (\<lambda>(k, s, v). (k, v)) fs)) (objectText (map (\<lambda>(k, s, v). (k, s)) fs)) =
      map_of (zip (map fst (map (\<lambda>(k, s, v). (k, v)) fs)) (map (\<lambda>(k, s, v). s) fs)) name"
    unfolding rawMember_def jvalue.case by (simp only:)
  also have "zip (map fst (map (\<lambda>(k, s, v). (k, v)) fs)) (map (\<lambda>(k, s, v). s) fs) = map (\<lambda>(k, s, v). (k, s)) fs"
    by (simp add: zip_map_map zip_same_conv_map case_prod_beta comp_def)
  finally show ?thesis .
qed (simp add: rawMember_def)

subsection \<open>A marshalled definition is parsed back\<close>

lemma json_types:
  "validateExactValue (JObject ms) NodeType = validateExactStruct ms [(''config'', GOpen), (''kind'', GScalar), (''id'', GScalar)]"
  "validateExactValue (JObject ms) DefinitionType = validateExactStruct ms
     [(''edges'', GSlice EdgeType), (''nodes'', GSlice NodeType), (''version'', GScalar), (''id'', GScalar)]"
  by (simp_all add: NodeType_def DefinitionType_def stringField_def tagNameOf_def Let_def)

lemma open_fits [simp]: "validateExactValue v GOpen = Inr ()" "validateExactValue (JString x) t = Inr ()"
  "validateExactValue (JNumber x) t = Inr ()"
  by (cases v) simp_all

abbreviation nodeMembers :: "NodeDefinition \<Rightarrow> (string \<times> jvalue) option \<Rightarrow> (string \<times> string \<times> jvalue) list" where
  \<comment> \<open>the members of a node with the text and the value of its configuration\<close>
  "nodeMembers n config \<equiv> [(''id'', quote (nd_ID n), JString (nd_ID n)), (''kind'', quote (nd_Kind n), JString (nd_Kind n))] @
     (case config of None \<Rightarrow> [] | Some c \<Rightarrow> [(''config'', c)])"

lemma node_parsed:
  assumes "canonicalConfig (nd_Config n)" and "utf8_Valid (nd_ID n)" and "utf8_Valid (nd_Kind n)"
  shows "\<exists>v. isText (nodeText n) v \<and> unique_members v \<and> validateExactValue v NodeType = Inr () \<and> nodeOf (v, nodeText n) = Inr n"
proof -
  obtain config where config: "nd_Config n = map_option fst config"
    "configTexts (nd_Config n) = (case config of None \<Rightarrow> [] | Some (s, v) \<Rightarrow> [(''config'', s)])"
    "\<forall>s v. config = Some (s, v) \<longrightarrow> isText s v \<and> unique_members v"
  proof (cases "nd_Config n")
    case None
    then show ?thesis using that[of None] by (simp add: configTexts_def raw_bytes_def)
  next
    case (Some s)
    then obtain v where v: "isText s v" "unique_members v" using canonical_config_text assms(1) by metis
    then have "s \<noteq> []" by (auto simp: isText_def tight_def)
    with v show ?thesis using that[of "Some (s, v)"] Some assms(1)
      by (simp add: configTexts_def raw_bytes_def canonicalConfig_def)
  qed
  let ?fs = "nodeMembers n config"
  let ?v = "JObject (map (\<lambda>(k, s, v). (k, v)) ?fs)"
  have fs: "\<forall>(k, s, v)\<in>set ?fs. utf8_Valid k \<and> isText s v"
    using assms(2,3) config(3) by (auto simp: isText_quote split: option.splits)
  have t: "nodeText n = objectText (map (\<lambda>(k, s, v). (k, s)) ?fs)"
    by (simp add: nodeText_def config(2) split: option.split)
  have "isText (nodeText n) ?v" unfolding t by (rule isText_object[OF fs])
  moreover have "unique_members ?v" using config(3) by (auto split: option.splits)
  moreover have "validateExactValue ?v NodeType = Inr ()"
    unfolding json_types by (cases config) (simp_all add: case_prod_beta)
  moreover have "rawMember ''config'' ?v (nodeText n) = nd_Config n"
    unfolding t rawMember_object[OF fs] by (auto simp: config(1) split: option.split)
  then have "nodeOf (?v, nodeText n) = Inr n"
    by (simp add: nodeOf_def isStruct_def decodeStringField_def jsonMember_def)
  ultimately show ?thesis by blast
qed

lemma edge_parsed:
  assumes "utf8_Valid (e_From e)" and "utf8_Valid (e_To e)" and "utf8_Valid (e_Outcome e)"
  shows "\<exists>v. isText (json_print (edgeJSON e)) v \<and> unique_members v \<and> validateExactValue v EdgeType = Inr () \<and> edgeOf v = Inr e"
  using isText_print[of "edgeJSON e"] structJSON_fits[OF edgeFields_fit, of e, folded edgeJSON_def] edgeOf_clean[of e] assms
  by (auto simp: cleanEdge_def toValidUTF8_valid)

lemma parse_marshal:
  assumes "canonicalDefinition d"
  shows "Decode (definitionText d) DefinitionType (definitionOf (definitionText d)) = Inr d"
proof -
  have utf8: "utf8_Valid (d_ID d)" "\<forall>n\<in>set (d_Nodes d). utf8_Valid (nd_ID n) \<and> utf8_Valid (nd_Kind n) \<and> canonicalConfig (nd_Config n)"
    "\<forall>e\<in>set (d_Edges d). utf8_Valid (e_From e) \<and> utf8_Valid (e_To e) \<and> utf8_Valid (e_Outcome e)"
    using assms by (auto simp: canonicalDefinition_def utf8Definition_def)
  obtain nv where nv: "\<forall>n\<in>set (d_Nodes d). isText (nodeText n) (nv n) \<and> unique_members (nv n) \<and>
      validateExactValue (nv n) NodeType = Inr () \<and> nodeOf (nv n, nodeText n) = Inr n"
    using node_parsed utf8(2) by metis
  obtain ev where ev: "\<forall>e\<in>set (d_Edges d). isText (json_print (edgeJSON e)) (ev e) \<and> unique_members (ev e) \<and>
      validateExactValue (ev e) EdgeType = Inr () \<and> edgeOf (ev e) = Inr e"
    using edge_parsed utf8(3) by metis
  let ?ns = "map (\<lambda>n. (nodeText n, nv n)) (d_Nodes d)" and ?es = "map (\<lambda>e. (json_print (edgeJSON e), ev e)) (d_Edges d)"
  let ?fs = "[(''id'', quote (d_ID d), JString (d_ID d)),
    (''version'', FormatUint (unat (d_Version d)), JNumber (FormatUint (unat (d_Version d)))),
    (''nodes'', arrayText (map fst ?ns), JArray (map snd ?ns)), (''edges'', arrayText (map fst ?es), JArray (map snd ?es))]"
  let ?v = "JObject (map (\<lambda>(k, s, v). (k, v)) ?fs)"
  have ns: "\<forall>(s, v)\<in>set ?ns. isText s v" and es: "\<forall>(s, v)\<in>set ?es. isText s v" using nv ev by auto
  have fs: "\<forall>(k, s, v)\<in>set ?fs. utf8_Valid k \<and> isText s v"
    using isText_quote[OF utf8(1)] isText_number isText_array[OF ns] isText_array[OF es] by (simp del: map_map)
  have t: "definitionText d = objectText (map (\<lambda>(k, s, v). (k, s)) ?fs)" by (simp add: definitionText_def comp_def)
  have doc: "isText (definitionText d) ?v" unfolding t by (rule isText_object[OF fs])
  have "unique_members ?v" using nv ev by auto
  note V = isText_Validate[OF doc this]
  have exact: "validateExactValue ?v DefinitionType = Inr ()"
    unfolding json_types using nv ev by (simp add: validateExactArray_iff[THEN iffD2])
  have raw: "rawMember ''nodes'' ?v (definitionText d) = Some (arrayText (map fst ?ns))"
    unfolding t rawMember_object[OF fs] by simp
  have "mapR nodeOf (map (\<lambda>(s, v). (v, s)) (map (\<lambda>n. (nodeText n, nv n)) ns)) = Inr ns" if "set ns \<subseteq> set (d_Nodes d)" for ns
    using that nv by (induction ns) auto
  then have "decodeNodes ?v (definitionText d) = Inr (d_Nodes d)"
    unfolding decodeNodes_def raw using rawParts_array[OF ns] by (simp add: jsonMember_def del: map_map)
  moreover have "mapR edgeOf (map ev es) = Inr es" if "set es \<subseteq> set (d_Edges d)" for es
    using that ev by (induction es) auto
  then have "decodeSliceField edgeOf ''edges'' ?v = Inr (Some (d_Edges d))"
    by (simp add: decodeSliceField_def jsonMember_def comp_def)
  ultimately have "definitionOf (definitionText d) ?v = Inr d"
    by (simp add: definitionOf_def isStruct_def decodeStringField_def decodeUintField_def jsonMember_def)
  with V exact show ?thesis by (simp add: Decode_def)
qed

text \<open>
  C20. A marshalled definition is parsed and published as it is: for a valid definition whose texts are
  UTF-8 and whose configurations are strict JSON texts that \<open>json.Marshal\<close> writes as they are (no white
  space between tokens, and no character that it would escape for HTML; numbers and escapes of any form), \<open>ParseDefinition\<close> of
  the document it writes answers the definition itself, configurations byte for byte, and \<open>PublishJSON\<close> of the
  document does what \<open>Publish\<close> of the definition does, in every state.
\<close>

theorem definition_json_round_trip:
  assumes "canonicalDefinition d" and "Definition_Validate d = Inr ()"
  shows "ParseDefinition (definitionText d) = Inr d \<and> PublishJSON p (definitionText d) w = Publish p (Some d) w"
  using parse_marshal[OF assms(1)] assms(2)
  by (simp add: ParseDefinition_def PublishJSON_def bindE_def liftR_def)

definition reviewConfig :: string where
  \<comment> \<open>\<open>{"rate":-2.5e+1,"path":"a\/b"}\<close>\<close>
  "reviewConfig = CHR 0x7B # CHR 0x22 # ''rate'' @ CHR 0x22 # '':-2.5e+1,'' @ CHR 0x22 # ''path'' @ CHR 0x22 # CHR '':'' #
     CHR 0x22 # CHR ''a'' # CHR 0x5C # ''/b'' @ [CHR 0x22, CHR 0x7D]"

definition reviewDefinition :: Definition where
  "reviewDefinition = \<lparr>d_ID = ''d'', d_Version = 1,
     d_Nodes = [\<lparr>nd_ID = ''s'', nd_Kind = KindStart, nd_Config = None\<rparr>,
                \<lparr>nd_ID = ''r'', nd_Kind = ''approval'', nd_Config = Some reviewConfig\<rparr>,
                \<lparr>nd_ID = ''e'', nd_Kind = KindEnd, nd_Config = None\<rparr>],
     d_Edges = [\<lparr>e_From = ''s'', e_To = ''r'', e_Outcome = []\<rparr>, \<lparr>e_From = ''r'', e_To = ''e'', e_Outcome = ''approved''\<rparr>]\<rparr>"

theorem definition_json_round_trip_witness:
  "ParseDefinition (definitionText reviewDefinition) = Inr reviewDefinition"
proof -
  have "isOk (Validate reviewConfig)" by code_simp
  moreover have "compactText Outside reviewConfig = reviewConfig" by code_simp
  ultimately have "canonicalConfig (Some reviewConfig)" by (auto simp: canonicalConfig_def isOk_iff)
  then have "canonicalDefinition reviewDefinition"
    by (auto simp: canonicalDefinition_def reviewDefinition_def utf8Definition_def KindStart_def KindEnd_def canonicalConfig_def[of None])
  moreover have "Definition_Validate reviewDefinition = Inr ()" by code_simp
  ultimately show ?thesis by (rule definition_json_round_trip[THEN conjunct1])
qed

end
