(* ===== verification/Sql.thy ===== *)
theory Sql
  imports RowCodec Store
begin

text \<open>
  The database boundary of the SQL adapters. A database handle is a parameter: a record of the
  driver calls the adapters make, each an effect on an abstract server state. The tables of
  migration 0001 are a record of rows. The locale \<open>sql_transactions\<close> states what both adapters rely on of a
  transaction: only a commit changes what other transactions see, and a failed commit either
  happened or did not. What the single statements do is stated in \<open>MySQLDatabase\<close> and \<open>Pgx\<close>.

  A driver call may fail at any point, with any error that carries no sentinel of the workflow
  package. A read may break off after some rows.
\<close>

subsection \<open>Values and calls\<close>

datatype sqlValue =
    SqlNull | SqlText string | SqlBytes raw  \<comment> \<open>\<open>SqlBytes None\<close> is a nil \<open>[]byte\<close>\<close>
  | SqlInt int | SqlBool bool
  | SqlTime int                           \<comment> \<open>an instant, in nanoseconds since year 1\<close>
  | SqlTexts "string list option"         \<comment> \<open>a text array; \<open>None\<close> is a nil slice\<close>

record 'd sqlDB =
  db_BeginTx :: "bool \<Rightarrow> ('d, unit) eff"   \<comment> \<open>argument: repeatable read, read only\<close>
  tx_Exec :: "string \<Rightarrow> sqlValue list \<Rightarrow> ('d, nat result) eff"
    \<comment> \<open>the value is what \<open>RowsAffected\<close> answers\<close>
  tx_Query :: "string \<Rightarrow> sqlValue list \<Rightarrow> ('d, sqlValue list list \<times> unit result) eff"
    \<comment> \<open>the rows \<open>Next\<close> delivers, and \<open>rows.Err()\<close> after them\<close>
  tx_Commit :: "('d, unit) eff"
  tx_Rollback :: "('d, unit) eff"

definition onSnd :: "('s, 'a) eff \<Rightarrow> ('e \<times> 's, 'a) eff" where
  "onSnd m = (\<lambda>(e, s). map_option (\<lambda>(r, s'). (r, (e, s'))) (m s))"

definition tryE :: "('w, 'a) eff \<Rightarrow> ('w, 'a result) eff" where
  \<comment> \<open>the error of a call as a value\<close>
  "tryE m = (\<lambda>w. map_option (\<lambda>(r, w'). (Inr r, w')) (m w))"

lemma wpE_onSnd [wp_simps]:
  "wpE D Q E (onSnd m) w = wpE D (\<lambda>x s. Q x (fst w, s)) (\<lambda>x s. E x (fst w, s)) m (snd w)"
  by (cases w) (auto simp: wpE_def onSnd_def split: option.split sum.split)

lemma wpE_tryE [wp_simps]:
  "wpE D Q E (tryE m) w = wpE D (\<lambda>x. Q (Inr x)) (\<lambda>e. Q (Inl e)) m w"
  by (auto simp: wpE_def tryE_def split: option.split sum.split)

definition queryRow :: "('d, 'z) sqlDB_scheme \<Rightarrow> string \<Rightarrow> sqlValue list \<Rightarrow> ('h env \<times> 'd, sqlValue list) eff" where
  \<comment> \<open>\<open>QueryRowContext\<close> and \<open>Scan\<close>: the first row, or \<open>sql.ErrNoRows\<close>\<close>
  "queryRow db q args = bindE (onSnd (tx_Query db q args)) (\<lambda>(rows, err).
     case rows of
       row # _ \<Rightarrow> ret row
     | [] \<Rightarrow> (case err of Inl e \<Rightarrow> raise e | Inr _ \<Rightarrow> raise [SqlErrNoRows]))"

fun scanBytes :: "sqlValue \<Rightarrow> raw result" where
  "scanBytes SqlNull = Inr None"
| "scanBytes (SqlBytes b) = Inr b"
| "scanBytes (SqlText s) = Inr (Some s)"
| "scanBytes _ = Inl []"

fun scanString :: "sqlValue \<Rightarrow> string result" where
  "scanString (SqlText s) = Inr s"
| "scanString (SqlBytes (Some s)) = Inr s"
| "scanString _ = Inl []"

fun scanBool :: "sqlValue \<Rightarrow> bool result" where
  "scanBool (SqlBool b) = Inr b"
| "scanBool (SqlInt n) = (if n = 0 then Inr False else if n = 1 then Inr True else Inl [])"
| "scanBool _ = Inl []"

fun scanInt :: "sqlValue \<Rightarrow> int result" where
  "scanInt (SqlInt n) = Inr n"
| "scanInt _ = Inl []"

subsection \<open>Tables (migrations/0001)\<close>

record instanceRow =
  ir_definition :: string
  ir_status :: string
  ir_initiator :: string
  ir_current_node_id :: string
  ir_data :: raw
  ir_node_state :: raw
  ir_tasks_is_nil :: bool
  ir_audit_is_nil :: bool
  ir_version :: nat

record taskRow =
  tr_ordinal :: nat
  tr_task_id :: string
  tr_status :: string
  tr_payload :: string

record auditRow =
  ar_ordinal :: nat
  ar_action :: string
  ar_payload :: string

record tables =
  \<comment> \<open>the rows of one instance in the order of their ordinals\<close>
  tb_instances :: "InstanceID \<rightharpoonup> instanceRow"
  tb_tasks :: "InstanceID \<Rightarrow> taskRow list"
  tb_audit :: "InstanceID \<Rightarrow> auditRow list"

definition noTables :: tables where
  "noTables = \<lparr>tb_instances = Map.empty, tb_tasks = (\<lambda>_. []), tb_audit = (\<lambda>_. [])\<rparr>"

definition nullable :: "raw \<Rightarrow> sqlValue" where
  \<comment> \<open>a nullable BLOB column, as a reader sees it\<close>
  "nullable b = (case b of None \<Rightarrow> SqlNull | Some s \<Rightarrow> SqlBytes (Some s))"

definition foreign :: "err \<Rightarrow> bool" where
  \<comment> \<open>an error of a driver carries no sentinel of the workflow package, and not
      \<open>ErrNoRows\<close>, which only \<open>Scan\<close> reports\<close>
  "foreign e \<longleftrightarrow> set e \<inter> {ErrInstanceExists, ErrInstanceNotFound, ErrVersionConflict,
     ErrInvalidStoreInput, ErrInvalidProjectionQuery, SqlErrNoRows, PgxErrNoRows} = {}"

definition delivers :: "sqlValue list list \<Rightarrow> sqlValue list list \<times> unit result \<Rightarrow> bool" where
  \<comment> \<open>a read delivers all rows, or some of them and an error\<close>
  "delivers full answer \<longleftrightarrow> (case answer of
     (rows, Inr _) \<Rightarrow> rows = full
   | (rows, Inl e) \<Rightarrow> (\<exists>k. rows = take k full) \<and> foreign e)"

lemma delivers_cases:
  assumes "delivers full (rows, err)"
  obtains "err = Inr ()" "rows = full" | e k where "err = Inl e" "rows = take k full" "foreign e"
  using assms by (cases err) (auto simp: delivers_def)

definition taskTable :: string where "taskTable = ''easy_workflow_tasks''"
definition taskColumns :: "string list" where
  "taskColumns = [''instance_id'', ''ordinal'', ''task_id'', ''status'', ''payload'']"
definition auditTable :: string where "auditTable = ''easy_workflow_audit''"
definition auditColumns :: "string list" where
  "auditColumns = [''instance_id'', ''ordinal'', ''action'', ''payload'']"

definition taskValues :: "InstanceID \<Rightarrow> taskRow \<Rightarrow> sqlValue list" where
  "taskValues ident r = [SqlText ident, SqlInt (int (tr_ordinal r)), SqlText (tr_task_id r),
     SqlText (tr_status r), SqlBytes (Some (tr_payload r))]"

definition auditValues :: "InstanceID \<Rightarrow> auditRow \<Rightarrow> sqlValue list" where
  "auditValues ident r = [SqlText ident, SqlInt (int (ar_ordinal r)), SqlText (ar_action r),
     SqlBytes (Some (ar_payload r))]"

definition instanceColumns :: "instanceRow \<Rightarrow> sqlValue list" where
  "instanceColumns r = [SqlBytes (Some (ir_definition r)), SqlText (ir_status r), SqlText (ir_initiator r),
     SqlText (ir_current_node_id r), nullable (ir_data r), nullable (ir_node_state r),
     SqlBool (ir_tasks_is_nil r), SqlBool (ir_audit_is_nil r), SqlText (FormatUint (ir_version r))]"

subsection \<open>What the adapters rely on\<close>

definition follow :: "nat list \<Rightarrow> nat list \<Rightarrow> bool" where
  \<comment> \<open>the new ordinals increase beyond the stored ones\<close>
  "follow old new \<longleftrightarrow> sorted_wrt (<) new \<and> (\<forall>a\<in>set old. \<forall>b\<in>set new. a < b)"

definition failed :: "('d \<Rightarrow> 't) \<Rightarrow> ('d \<Rightarrow> 't option) \<Rightarrow> 'd \<Rightarrow> 't \<Rightarrow> err \<Rightarrow> 'd \<Rightarrow> bool" where
  \<comment> \<open>a failed statement changed nothing; a deadlock or a timeout may have undone the transaction\<close>
  "failed committed pending d t e d' \<longleftrightarrow> committed d' = committed d \<and> foreign e \<and>
     (pending d' = Some t \<or> pending d' = Some (committed d))"

locale sql_transactions =
  fixes db :: "('d, 'z) sqlDB_scheme"
    and committed :: "'d \<Rightarrow> 't"         \<comment> \<open>what a new transaction sees\<close>
    and pending :: "'d \<Rightarrow> 't option"    \<comment> \<open>what the open transaction sees\<close>
    and acked :: bool   \<comment> \<open>is a failed commit known not to have happened?\<close>
    and closed :: sentinel  \<comment> \<open>what a rollback after the end reports\<close>
  assumes begin_law: "wpE True
      (\<lambda>_ d'. committed d' = committed d \<and> pending d' = Some (committed d))
      (\<lambda>e d'. committed d' = committed d \<and> foreign e) (db_BeginTx db ro) d"
    and commit_law: "pending d = Some t \<Longrightarrow> wpE True
      (\<lambda>_ d'. committed d' = t \<and> pending d' = None)
      (\<lambda>e d'. (committed d' = committed d \<or> \<not> acked \<and> committed d' = t) \<and> foreign e) (tx_Commit db) d"
    and rollback_law: "wpE True (\<lambda>_ d'. committed d' = committed d \<and> pending d \<noteq> None)
      (\<lambda>e d'. committed d' = committed d \<and> foreign e \<and> (pending d = None \<longrightarrow> errors_Is e closed))
      (tx_Rollback db) d"

end
