(* ===== verification/MySQLDatabase.thy ===== *)
theory MySQLDatabase
  imports Sql
begin

text \<open>
  The statements of the MySQL adapter and the documented behaviour of a MySQL database it relies on:
  what each of its statements reads and writes inside the open transaction.
\<close>

record 'd mysqlDB = "'d sqlDB" +
  rollback_late :: "('d, bool) eff"  \<comment> \<open>does the timer fire before \<open>Rollback\<close> returns?\<close>

subsection \<open>Statements of the MySQL adapter (mysql/store.go)\<close>

text \<open>The texts of the constants, with each run of white space written as one blank.\<close>

definition insertInstanceSQL :: string where
  "insertInstanceSQL = ''INSERT INTO easy_workflow_instances (id, definition, status, initiator, current_node_id, data, node_state, tasks_is_nil, audit_is_nil, version) VALUES (?, ?, ?, ?, ?, ?, ?, ?, ?, ?)''"
definition loadInstanceSQL :: string where
  "loadInstanceSQL = ''SELECT definition, status, initiator, current_node_id, data, node_state, tasks_is_nil, audit_is_nil, CAST(version AS CHAR) FROM easy_workflow_instances WHERE id = ?''"
definition updateInstanceSQL :: string where
  "updateInstanceSQL = ''UPDATE easy_workflow_instances SET definition = ?, status = ?, initiator = ?, current_node_id = ?, data = ?, node_state = ?, tasks_is_nil = ?, audit_is_nil = ?,version = ? WHERE id = ? AND version = ?''"
definition instanceExistsSQL :: string where
  "instanceExistsSQL = ''SELECT 1 FROM easy_workflow_instances WHERE id = ? FOR UPDATE''"
definition deleteTasksSQL :: string where
  "deleteTasksSQL = ''DELETE FROM easy_workflow_tasks WHERE instance_id = ?''"
definition loadTasksSQL :: string where
  "loadTasksSQL = ''SELECT payload FROM easy_workflow_tasks WHERE instance_id = ? ORDER BY ordinal''"
definition loadAuditSQL :: string where
  "loadAuditSQL = ''SELECT payload FROM easy_workflow_audit WHERE instance_id = ? ORDER BY ordinal''"
definition loadVersionSQL :: string where
  "loadVersionSQL = ''SELECT CAST(version AS CHAR) FROM easy_workflow_instances WHERE id = ? FOR UPDATE''"

fun joinWith :: "string \<Rightarrow> string list \<Rightarrow> string" where
  \<comment> \<open>\<open>strings.Join\<close>\<close>
  "joinWith s [] = []"
| "joinWith s [x] = x"
| "joinWith s (x # y # ys) = x @ s @ joinWith s (y # ys)"

definition insertRowsSQL :: "string \<Rightarrow> string list \<Rightarrow> nat \<Rightarrow> string" where
  \<comment> \<open>the text \<open>insertRows\<close> builds for a batch of \<open>n\<close> rows\<close>
  "insertRowsSQL table columns n =
     ''INSERT INTO '' @ table @ '' ('' @ joinWith '', '' columns @ '') VALUES '' @
     joinWith '', '' (replicate n (''('' @ joinWith '', '' (replicate (length columns) ''?'') @ '')''))"

subsection \<open>The laws\<close>

locale mysql_database = sql_transactions db committed pending acked SqlErrTxDone
  for db :: "'d mysqlDB"
    and committed :: "'d \<Rightarrow> tables" and pending :: "'d \<Rightarrow> tables option" and acked :: bool +
  assumes insert_law: "pending d = Some t \<Longrightarrow> wpE True
      (\<lambda>_ d'. committed d' = committed d \<and> ident \<noteq> [] \<and> tb_instances t ident = None \<and>
         pending d' = Some (t\<lparr>tb_instances := (tb_instances t)(ident \<mapsto> r)\<rparr>))
      (failed committed pending d t)
      (tx_Exec db insertInstanceSQL
        [SqlText ident, SqlBytes (Some (ir_definition r)), SqlText (ir_status r), SqlText (ir_initiator r),
         SqlText (ir_current_node_id r), nullable (ir_data r), nullable (ir_node_state r),
         SqlBool (ir_tasks_is_nil r), SqlBool (ir_audit_is_nil r), SqlText (FormatUint (ir_version r))]) d"
    and update_law: "pending d = Some t \<Longrightarrow> wpE True
      (\<lambda>n d'. committed d' = committed d \<and>
         (case tb_instances t ident of
            Some old \<Rightarrow>
              if ir_version old = v
              then pending d' = Some (t\<lparr>tb_instances := (tb_instances t)(ident \<mapsto> r)\<rparr>) \<and> (n = Inr 0 \<longrightarrow> r = old)
              else pending d' = Some t \<and> (\<forall>k. n = Inr k \<longrightarrow> k = 0)
          | None \<Rightarrow> pending d' = Some t \<and> (\<forall>k. n = Inr k \<longrightarrow> k = 0)) \<and>
         (\<forall>e. n = Inl e \<longrightarrow> foreign e))
      (failed committed pending d t)
      (tx_Exec db updateInstanceSQL
        [SqlBytes (Some (ir_definition r)), SqlText (ir_status r), SqlText (ir_initiator r),
         SqlText (ir_current_node_id r), SqlBytes (ir_data r), SqlBytes (ir_node_state r),
         SqlBool (ir_tasks_is_nil r), SqlBool (ir_audit_is_nil r), SqlText (FormatUint (ir_version r)),
         SqlText ident, SqlText (FormatUint v)]) d"
    and delete_law: "pending d = Some t \<Longrightarrow> wpE True
      (\<lambda>_ d'. committed d' = committed d \<and> pending d' = Some (t\<lparr>tb_tasks := (tb_tasks t)(ident := [])\<rparr>))
      (failed committed pending d t)
      (tx_Exec db deleteTasksSQL [SqlText ident]) d"
    and insert_tasks_law: "pending d = Some t \<Longrightarrow> rs \<noteq> [] \<Longrightarrow>
      follow (map tr_ordinal (tb_tasks t ident)) (map tr_ordinal rs) \<Longrightarrow> wpE True
      (\<lambda>_ d'. committed d' = committed d \<and>
         pending d' = Some (t\<lparr>tb_tasks := (tb_tasks t)(ident := tb_tasks t ident @ rs)\<rparr>))
      (failed committed pending d t)
      (tx_Exec db (insertRowsSQL taskTable taskColumns (length rs)) (concat (map (taskValues ident) rs))) d"
    and insert_audit_law: "pending d = Some t \<Longrightarrow> as \<noteq> [] \<Longrightarrow>
      follow (map ar_ordinal (tb_audit t ident)) (map ar_ordinal as) \<Longrightarrow> wpE True
      (\<lambda>_ d'. committed d' = committed d \<and>
         pending d' = Some (t\<lparr>tb_audit := (tb_audit t)(ident := tb_audit t ident @ as)\<rparr>))
      (failed committed pending d t)
      (tx_Exec db (insertRowsSQL auditTable auditColumns (length as)) (concat (map (auditValues ident) as))) d"
    and load_instance_law: "pending d = Some t \<Longrightarrow> wpE True
      (\<lambda>a d'. committed d' = committed d \<and> pending d' = Some t \<and>
         delivers (case tb_instances t ident of None \<Rightarrow> [] | Some r \<Rightarrow> [instanceColumns r]) a)
      (failed committed pending d t)
      (tx_Query db loadInstanceSQL [SqlText ident]) d"
    and load_version_law: "pending d = Some t \<Longrightarrow> wpE True
      (\<lambda>a d'. committed d' = committed d \<and> pending d' = Some t \<and>
         delivers (case tb_instances t ident of None \<Rightarrow> [] | Some r \<Rightarrow> [[SqlText (FormatUint (ir_version r))]]) a)
      (failed committed pending d t)
      (tx_Query db loadVersionSQL [SqlText ident]) d"
    and exists_law: "pending d = Some t \<Longrightarrow> wpE True
      (\<lambda>a d'. committed d' = committed d \<and> pending d' = Some t \<and>
         delivers (case tb_instances t ident of None \<Rightarrow> [] | Some r \<Rightarrow> [[SqlInt 1]]) a)
      (failed committed pending d t)
      (tx_Query db instanceExistsSQL [SqlText ident]) d"
    and load_tasks_law: "pending d = Some t \<Longrightarrow> wpE True
      (\<lambda>a d'. committed d' = committed d \<and> pending d' = Some t \<and>
         delivers (map (\<lambda>r. [SqlBytes (Some (tr_payload r))]) (tb_tasks t ident)) a)
      (failed committed pending d t)
      (tx_Query db loadTasksSQL [SqlText ident]) d"
    and load_audit_law: "pending d = Some t \<Longrightarrow> wpE True
      (\<lambda>a d'. committed d' = committed d \<and> pending d' = Some t \<and>
         delivers (map (\<lambda>r. [SqlBytes (Some (ar_payload r))]) (tb_audit t ident)) a)
      (failed committed pending d t)
      (tx_Query db loadAuditSQL [SqlText ident]) d"
    and timer_law: "wpE True (\<lambda>late d'. committed d' = committed d \<and> pending d' = pending d \<and>
        (pending d = None \<longrightarrow> \<not> late))
      (\<lambda>_ _. False) (rollback_late db) d"

end
