(* ===== verification/Snapshot.thy ===== *)
theory Snapshot
  imports Sql EngineSpec
begin

text \<open>
  What the SQL adapters share: the encoded snapshot of \<open>codec.go\<close>, the reading of payload rows, and the
  rows of tasks and audit records (the two packages repeat this code). \<open>readEntry\<close> is the pure reading of
  the rows of one instance and \<open>tableView\<close> the map of instances that tables stand for; \<open>tablesOk\<close> says
  that every stored instance can be read and that its audit rows are numbered from zero.
  \<open>created\<close> and \<open>saved\<close> say what a creation and a save make of the tables.
\<close>

subsection \<open>Snapshots (codec.go)\<close>

record encodedSnapshot =
  es_aggregate :: Instance
  es_definition :: string
  es_status :: string
  es_initiator :: string
  es_currentNodeID :: string
  es_data :: raw
  es_nodeState :: raw
  es_tasksNil :: bool
  es_auditNil :: bool
  es_version :: u64
  es_tasks :: "string list"
  es_audit :: "string list"

definition parseVersion :: "string \<Rightarrow> u64 result" where
  "parseVersion value0 = ParseUint value0"

subsection \<open>Payload rows\<close>

fun decodePayloads :: "(string \<Rightarrow> 'a result) \<Rightarrow> sqlValue list list \<Rightarrow> 'a list result" where
  \<comment> \<open>\<open>for rows.Next() { Scan; decodeJSON; append }\<close>\<close>
  "decodePayloads decode [] = Inr []"
| "decodePayloads decode (row # rows) =
     bindR (case row of [v] \<Rightarrow> scanBytes v | _ \<Rightarrow> Inl []) (\<lambda>payload.
     bindR (decode (raw_bytes payload)) (\<lambda>x.
     bindR (decodePayloads decode rows) (\<lambda>xs. Inr (x # xs))))"

definition loadRows :: "('d, 'z) sqlDB_scheme \<Rightarrow> string \<Rightarrow> InstanceID \<Rightarrow> (string \<Rightarrow> 'a result) \<Rightarrow> bool \<Rightarrow>
    ('h env \<times> 'd, 'a list \<times> bool) eff" where
  \<comment> \<open>the decoded rows, and whether the slice is nil\<close>
  "loadRows db q ident decode isNil =
     bindE (onSnd (tx_Query db q [SqlText ident])) (\<lambda>(rows, err).
     bindE (liftR (decodePayloads decode rows)) (\<lambda>xs.
     bindE (liftR err) (\<lambda>_. ret (xs, isNil \<and> xs = []))))"

fun scanInstance :: "sqlValue list \<Rightarrow> instanceRow result" where
  \<comment> \<open>the destinations of \<open>Scan\<close>; the version stays text until \<open>parseVersion\<close>\<close>
  "scanInstance [definition0, status, initiator, current, data, state, tasksNil, auditNil, version] =
     bindR (scanBytes definition0) (\<lambda>d. bindR (scanString status) (\<lambda>st. bindR (scanString initiator) (\<lambda>ini.
     bindR (scanString current) (\<lambda>cur. bindR (scanBytes data) (\<lambda>da. bindR (scanBytes state) (\<lambda>ns.
     bindR (scanBool tasksNil) (\<lambda>tn. bindR (scanBool auditNil) (\<lambda>an.
       Inr \<lparr>ir_definition = raw_bytes d, ir_status = st, ir_initiator = ini, ir_current_node_id = cur,
            ir_data = da, ir_node_state = ns, ir_tasks_is_nil = tn, ir_audit_is_nil = an,
            ir_version = 0\<rparr>))))))))"
| "scanInstance _ = Inl []"

definition readSnapshot :: "(bool \<Rightarrow> ('w, Task list \<times> bool) eff) \<Rightarrow> (bool \<Rightarrow> ('w, AuditRecord list \<times> bool) eff) \<Rightarrow>
    InstanceID \<Rightarrow> sqlValue list \<Rightarrow> ('w, Instance \<times> nilSlices) eff" where
  \<comment> \<open>what \<open>loadSnapshot\<close> makes of the parent row\<close>
  "readSnapshot tasksOf auditsOf ident columns =
     bindE (liftR (scanInstance columns)) (\<lambda>row.
     bindE (liftR (scanString (last columns))) (\<lambda>versionData.
     bindE (liftR (decodeDefinition (ir_definition row))) (\<lambda>(definition0, nodesNil, edgesNil).
     bindE (liftR (parseVersion versionData)) (\<lambda>version.
     bindE (tasksOf (ir_tasks_is_nil row)) (\<lambda>(tasks, tasksNil).
     bindE (auditsOf (ir_audit_is_nil row)) (\<lambda>(audit, auditNil).
       ret (\<lparr>i_ID = ident, i_Definition = definition0, i_Status = instanceStatusOf (ir_status row),
             i_Initiator = ir_initiator row, i_CurrentNodeID = ir_current_node_id row,
             i_Data = ir_data row, i_NodeState = ir_node_state row, i_Tasks = tasks,
             i_Audit = audit, i_Version = version\<rparr>,
            \<lparr>nil_Nodes = nodesNil, nil_Edges = edgesNil, nil_Tasks = tasksNil,
             nil_Audit = auditNil\<rparr>)))))))"

fun taskRows :: "InstanceID \<Rightarrow> nat \<Rightarrow> string list \<Rightarrow> sqlValue list list result" where
  "taskRows ident index [] = Inr []"
| "taskRows ident index (payload # ps) =
     bindR (decodeJSON payload TaskType taskOf) (\<lambda>task.
     bindR (taskRows ident (index + 1) ps) (\<lambda>rows.
       Inr ([SqlText ident, SqlInt (int index), SqlText (t_ID task),
             SqlText (taskStatusText (t_Status task)), SqlBytes (Some payload)] # rows)))"

fun auditRows :: "InstanceID \<Rightarrow> nat \<Rightarrow> string list \<Rightarrow> sqlValue list list result" where
  "auditRows ident index [] = Inr []"
| "auditRows ident index (payload # ps) =
     bindR (decodeJSON payload AuditType auditOf) (\<lambda>record0.
     bindR (auditRows ident (index + 1) ps) (\<lambda>rows.
       Inr ([SqlText ident, SqlInt (int index), SqlText (a_Action record0), SqlBytes (Some payload)] # rows)))"

definition deferCleanup :: "sentinel \<Rightarrow> ('w, unit) eff \<Rightarrow> ('w, 'a) eff \<Rightarrow> ('w, 'a) eff" where
  \<comment> \<open>the deferred function of \<open>withTransaction\<close>: an error of the rollback is joined to the result, unless it
      says that the transaction has ended\<close>
  "deferCleanup closed rollback body =
     bindE (tryE body) (\<lambda>r.
     bindE (tryE rollback) (\<lambda>rb.
       case rb of
         Inr _ \<Rightarrow> liftR r
       | Inl e \<Rightarrow>
           if errors_Is e closed then liftR r
           else raise ((case r of Inl e0 \<Rightarrow> e0 | Inr _ \<Rightarrow> []) @ e)))"

subsection \<open>Reading the rows of an instance\<close>

definition decodeTask :: "string \<Rightarrow> Task result" where
  "decodeTask p = decodeJSON p TaskType taskOf"

definition decodeAuditRecord :: "string \<Rightarrow> AuditRecord result" where
  "decodeAuditRecord p = decodeJSON p AuditType auditOf"

definition readEntry ::
  "InstanceID \<Rightarrow> instanceRow \<Rightarrow> taskRow list \<Rightarrow> auditRow list \<Rightarrow> (Instance \<times> nilSlices) result" where
  "readEntry ident row tasks audit =
     bindR (decodeDefinition (ir_definition row)) (\<lambda>(definition0, nodesNil, edgesNil).
     bindR (parseVersion (FormatUint (ir_version row))) (\<lambda>version.
     bindR (mapR decodeTask (map tr_payload tasks)) (\<lambda>ts.
     bindR (mapR decodeAuditRecord (map ar_payload audit)) (\<lambda>rs.
       Inr (\<lparr>i_ID = ident, i_Definition = definition0, i_Status = instanceStatusOf (ir_status row),
             i_Initiator = ir_initiator row, i_CurrentNodeID = ir_current_node_id row,
             i_Data = ir_data row, i_NodeState = ir_node_state row, i_Tasks = ts,
             i_Audit = rs, i_Version = version\<rparr>,
            \<lparr>nil_Nodes = nodesNil, nil_Edges = edgesNil, nil_Tasks = ir_tasks_is_nil row \<and> ts = [],
             nil_Audit = ir_audit_is_nil row \<and> rs = []\<rparr>)))))"

definition tableEntry :: "tables \<Rightarrow> InstanceID \<Rightarrow> (Instance \<times> nilSlices) option" where
  "tableEntry t ident = (case tb_instances t ident of
     None \<Rightarrow> None
   | Some row \<Rightarrow> (case readEntry ident row (tb_tasks t ident) (tb_audit t ident) of
       Inl _ \<Rightarrow> None | Inr x \<Rightarrow> Some x))"

definition tableView :: "tables \<Rightarrow> InstanceID \<rightharpoonup> Instance" where
  "tableView t ident = map_option fst (tableEntry t ident)"

definition entryOk :: "tables \<Rightarrow> InstanceID \<Rightarrow> bool" where
  "entryOk t ident \<longleftrightarrow> (case tb_instances t ident of
     None \<Rightarrow> tb_tasks t ident = [] \<and> tb_audit t ident = []
   | Some row \<Rightarrow> isOk (readEntry ident row (tb_tasks t ident) (tb_audit t ident)) \<and>
       map ar_ordinal (tb_audit t ident) = [0..<length (tb_audit t ident)])"

definition tablesOk :: "tables \<Rightarrow> bool" where
  "tablesOk t \<longleftrightarrow> (\<forall>ident. entryOk t ident)"

lemma noTables_ok [simp]: "tablesOk noTables" "tableView noTables = Map.empty"
  by (auto simp: tablesOk_def entryOk_def noTables_def tableView_def tableEntry_def)

lemma readEntry_version:
  assumes "tb_instances T ident = Some row" and "tablesOk T"
  obtains x where "tableEntry T ident = Some x" "parseVersion (FormatUint (ir_version row)) = Inr (i_Version (fst x))"
    "ir_version row = unat (i_Version (fst x))"
proof -
  have "isOk (readEntry ident row (tb_tasks T ident) (tb_audit T ident))"
    using assms by (auto simp: tablesOk_def entryOk_def dest!: spec[of _ ident])
  then obtain x where x: "readEntry ident row (tb_tasks T ident) (tb_audit T ident) = Inr x"
    by (auto simp: isOk_iff)
  then have p: "parseVersion (FormatUint (ir_version row)) = Inr (i_Version (fst x))"
    by (auto simp: readEntry_def bindR_Inr_iff split: prod.splits)
  moreover have "ir_version row = unat (i_Version (fst x))"
  proof -
    have v: "ir_version row < 2 ^ 64" "word_of_nat (ir_version row) = i_Version (fst x)"
      using p by (auto simp: parseVersion_def ParseUint_FormatUint_large split: if_splits)
    have "unat (word_of_nat (ir_version row) :: u64) = ir_version row"
      using v(1) by (simp add: unsigned_of_nat take_bit_nat_eq_self_iff)
    then show ?thesis unfolding v(2) by simp
  qed
  moreover have "tableEntry T ident = Some x" using assms(1) x by (simp add: tableEntry_def)
  ultimately show thesis using that by blast
qed

subsection \<open>The rows of a snapshot\<close>

definition snapshotRow :: "encodedSnapshot \<Rightarrow> instanceRow" where
  "snapshotRow s = \<lparr>ir_definition = es_definition s, ir_status = es_status s, ir_initiator = es_initiator s,
     ir_current_node_id = es_currentNodeID s, ir_data = es_data s, ir_node_state = es_nodeState s,
     ir_tasks_is_nil = es_tasksNil s, ir_audit_is_nil = es_auditNil s, ir_version = unat (es_version s)\<rparr>"

fun taskRowsFrom :: "nat \<Rightarrow> string list \<Rightarrow> Task list \<Rightarrow> taskRow list" where
  "taskRowsFrom k (p # ps) (t # ts) =
     \<lparr>tr_ordinal = k, tr_task_id = t_ID t, tr_status = taskStatusText (t_Status t), tr_payload = p\<rparr> #
     taskRowsFrom (k + 1) ps ts"
| "taskRowsFrom k _ _ = []"

fun auditRowsFrom :: "nat \<Rightarrow> string list \<Rightarrow> AuditRecord list \<Rightarrow> auditRow list" where
  "auditRowsFrom k (p # ps) (r # rs) =
     \<lparr>ar_ordinal = k, ar_action = a_Action r, ar_payload = p\<rparr> # auditRowsFrom (k + 1) ps rs"
| "auditRowsFrom k _ _ = []"

lemma mapR_length: "mapR f xs = Inr ys \<Longrightarrow> length ys = length xs"
  by (induction xs arbitrary: ys) (auto simp: bindR_Inr_iff)

lemma mapR_append: "mapR f (xs @ ys) = bindR (mapR f xs) (\<lambda>us. bindR (mapR f ys) (\<lambda>vs. Inr (us @ vs)))"
  by (induction xs) (auto simp: bindR_def split: sum.split)

lemma mapR_drop: "mapR f xs = Inr ys \<Longrightarrow> mapR f (drop k xs) = Inr (drop k ys)"
  by (induction f xs arbitrary: ys k rule: mapR.induct) (auto simp: bindR_Inr_iff drop_Cons split: nat.split)

lemma taskRows_values:
  "mapR decodeTask ps = Inr ts \<Longrightarrow> taskRows ident k ps = Inr (map (taskValues ident) (taskRowsFrom k ps ts))"
  by (induction ps arbitrary: k ts) (auto simp: bindR_Inr_iff decodeTask_def taskValues_def)

lemma auditRows_values:
  "mapR decodeAuditRecord ps = Inr rs \<Longrightarrow> auditRows ident k ps = Inr (map (auditValues ident) (auditRowsFrom k ps rs))"
  by (induction ps arbitrary: k rs) (auto simp: bindR_Inr_iff decodeAuditRecord_def auditValues_def)

lemma taskRowsFrom_fields:
  "length ps = length ts \<Longrightarrow> map tr_payload (taskRowsFrom k ps ts) = ps"
  "length ps = length ts \<Longrightarrow> map tr_ordinal (taskRowsFrom k ps ts) = [k..<k + length ps]"
  by (induction k ps ts rule: taskRowsFrom.induct) (auto simp: upt_conv_Cons simp del: upt_Suc)

lemma auditRowsFrom_fields:
  "length ps = length rs \<Longrightarrow> map ar_payload (auditRowsFrom k ps rs) = ps"
  "length ps = length rs \<Longrightarrow> map ar_ordinal (auditRowsFrom k ps rs) = [k..<k + length ps]"
  by (induction k ps rs rule: auditRowsFrom.induct) (auto simp: upt_conv_Cons simp del: upt_Suc)

subsection \<open>What a snapshot is read back as\<close>

definition cleanInstance :: "Instance \<Rightarrow> Instance" where
  "cleanInstance i = i\<lparr>i_Definition := cleanDefinition (i_Definition i),
     i_Status := instanceStatusOf (instanceStatusText (i_Status i)),
     i_Tasks := map cleanTask (i_Tasks i), i_Audit := map cleanAudit (i_Audit i)\<rparr>"

definition storable :: "Instance \<Rightarrow> bool" where
  \<comment> \<open>every text that goes through JSON is valid UTF-8, and each status has its own constructor\<close>
  "storable i \<longleftrightarrow> utf8Definition (i_Definition i) \<and> canonicalStatus (i_Status i) \<and>
     (\<forall>t\<in>set (i_Tasks i). utf8Task t) \<and> (\<forall>r\<in>set (i_Audit i). utf8Audit r)"

lemma cleanInstance_id: "cleanInstance i = i \<longleftrightarrow> storable i"
  by (cases i) (simp add: cleanInstance_def storable_def cleanDefinition_id canonicalStatus_def map_id_iff
      cleanTask_id cleanAudit_id)

lemma encodeValues_tasks: "encodeValues encodeTask ts = Inr ps \<Longrightarrow> mapR decodeTask ps = Inr (map cleanTask ts)"
  unfolding encodeValues_def
  by (induction ts arbitrary: ps) (auto simp: bindR_Inr_iff encodeTask_def decodeTask_def decode_task)

lemma encodeValues_audit: "encodeValues auditJSON rs = Inr ps \<Longrightarrow> mapR decodeAuditRecord ps = Inr (map cleanAudit rs)"
  unfolding encodeValues_def
  by (induction rs arbitrary: ps) (auto simp: bindR_Inr_iff decodeAuditRecord_def decode_audit)

lemma encodeValues_errors: "encodeValues encodeTask ts \<noteq> Inl x" "encodeValues auditJSON rs = Inl x \<Longrightarrow> x = []"
proof -
  show "encodeValues encodeTask ts \<noteq> Inl x"
    unfolding encodeValues_def by (induction ts) (auto simp: encodeTask_def bindR_Inl_iff)
  show "encodeValues auditJSON rs = Inl x \<Longrightarrow> x = []"
    unfolding encodeValues_def
    by (induction rs) (auto simp: auditJSON_def bindR_Inl_iff formatTime_def Let_def split: if_splits)
qed

definition snapshotOf :: "Instance \<Rightarrow> nilSlices \<Rightarrow> encodedSnapshot \<Rightarrow> bool" where
  "snapshotOf i n s \<longleftrightarrow> es_aggregate s = i \<and> encodeDefinition (i_Definition i) n = Inr (es_definition s) \<and>
     encodeValues encodeTask (i_Tasks i) = Inr (es_tasks s) \<and> encodeValues auditJSON (i_Audit i) = Inr (es_audit s) \<and>
     snapshotRow s = \<lparr>ir_definition = es_definition s, ir_status = instanceStatusText (i_Status i),
       ir_initiator = i_Initiator i, ir_current_node_id = i_CurrentNodeID i, ir_data = i_Data i,
       ir_node_state = i_NodeState i, ir_tasks_is_nil = nil_Tasks n, ir_audit_is_nil = nil_Audit n,
       ir_version = unat (i_Version i)\<rparr>"

lemma snapshotOf_fields:
  assumes "snapshotOf i n s"
  shows "es_aggregate s = i" "encodeDefinition (i_Definition i) n = Inr (es_definition s)"
    "encodeValues encodeTask (i_Tasks i) = Inr (es_tasks s)" "encodeValues auditJSON (i_Audit i) = Inr (es_audit s)"
    "snapshotRow s = \<lparr>ir_definition = es_definition s, ir_status = instanceStatusText (i_Status i),
       ir_initiator = i_Initiator i, ir_current_node_id = i_CurrentNodeID i, ir_data = i_Data i,
       ir_node_state = i_NodeState i, ir_tasks_is_nil = nil_Tasks n, ir_audit_is_nil = nil_Audit n,
       ir_version = unat (i_Version i)\<rparr>"
  using assms by (auto simp: snapshotOf_def)

lemma readEntry_snapshot:
  assumes s: "snapshotOf i n s" and n: "nilOk i n"
    and tasks: "map tr_payload tasks = es_tasks s"
    and audit: "mapR decodeAuditRecord (map ar_payload audit) = Inr rs" and rs: "length rs = length (i_Audit i)"
  shows "readEntry (i_ID i) (snapshotRow s) tasks audit = Inr ((cleanInstance i)\<lparr>i_Audit := rs\<rparr>, n)"
proof -
  note f = snapshotOf_fields[OF s]
  have d: "decodeDefinition (es_definition s) = Inr (cleanDefinition (i_Definition i), nil_Nodes n, nil_Edges n)"
    using decode_definition[OF f(2)] n by (simp add: nilOk_def)
  show ?thesis
    using n rs unfolding readEntry_def f(5) tasks audit encodeValues_tasks[OF f(3)]
    by (cases i; cases n) (auto simp: d parseVersion_def cleanInstance_def nilOk_def)
qed

lemma tables_filed:
  assumes "tablesOk T" and "tb_instances T' = (tb_instances T)(ident \<mapsto> row)"
    and "tb_tasks T' = (tb_tasks T)(ident := tasks)" and "tb_audit T' = (tb_audit T)(ident := audit)"
    and "readEntry ident row tasks audit = Inr x" and "map ar_ordinal audit = [0..<length audit]"
  shows "tablesOk T'" "tableEntry T' = (tableEntry T)(ident \<mapsto> x)"
proof -
  have "entryOk T' k" for k
    using assms(1)[unfolded tablesOk_def entryOk_def, rule_format, of k] assms(5,6)
    unfolding entryOk_def assms(2-4) by (cases "k = ident") (auto split: option.splits)
  then show "tablesOk T'" by (simp add: tablesOk_def)
  show "tableEntry T' = (tableEntry T)(ident \<mapsto> x)"
    using assms(5) unfolding tableEntry_def assms(2-4) by (auto simp: fun_eq_iff split: option.split)
qed

definition created :: "tables \<Rightarrow> Instance \<Rightarrow> nilSlices \<Rightarrow> tables \<Rightarrow> bool" where
  "created T i n T' \<longleftrightarrow> i_ID i \<noteq> [] \<and> tb_instances T (i_ID i) = None \<and> tablesOk T' \<and>
     tableEntry T' = (tableEntry T)(i_ID i \<mapsto> (cleanInstance i, n))"

definition savedAs :: "Instance \<Rightarrow> Instance \<Rightarrow> Instance" where
  \<comment> \<open>the stored history is kept as it is, the rest is written\<close>
  "savedAs old i = (cleanInstance i)\<lparr>i_Audit := i_Audit old @ map cleanAudit (drop (length (i_Audit old)) (i_Audit i))\<rparr>"

definition saved :: "tables \<Rightarrow> Instance \<Rightarrow> nilSlices \<Rightarrow> u64 \<Rightarrow> tables \<Rightarrow> bool" where
  "saved T i n v T' \<longleftrightarrow> (\<exists>old m. tableEntry T (i_ID i) = Some (old, m) \<and> i_Version old = v \<and>
     auditKept (i_Audit old) (i_Audit i) \<and> tablesOk T' \<and>
     tableEntry T' = (tableEntry T)(i_ID i \<mapsto> (savedAs old i, n)))"

lemma savedAs_storable: "storable i \<Longrightarrow> auditKept (i_Audit old) (i_Audit i) \<Longrightarrow> savedAs old i = i"
  using cleanInstance_id[of i]
  by (auto simp: savedAs_def auditKept_iff storable_def map_id_iff cleanAudit_id intro!: map_idI)

lemma created_tables:
  assumes s: "snapshotOf i n s" and n: "nilOk i n" and ok: "tablesOk T"
    and new: "tb_instances T (i_ID i) = None" and id: "i_ID i \<noteq> []"
    and t: "T' = T\<lparr>tb_instances := (tb_instances T)(i_ID i \<mapsto> snapshotRow s),
        tb_tasks := (tb_tasks T)(i_ID i := taskRowsFrom 0 (es_tasks s) (map cleanTask (i_Tasks i))),
        tb_audit := (tb_audit T)(i_ID i := auditRowsFrom 0 (es_audit s) (map cleanAudit (i_Audit i)))\<rparr>"
  shows "created T i n T'"
proof -
  note f = snapshotOf_fields[OF s]
  note d = encodeValues_tasks[OF f(3)] encodeValues_audit[OF f(4)]
  have len: "length (es_tasks s) = length (map cleanTask (i_Tasks i))"
    "length (es_audit s) = length (map cleanAudit (i_Audit i))"
    using mapR_length[OF d(1)] mapR_length[OF d(2)] by simp_all
  let ?audit = "auditRowsFrom 0 (es_audit s) (map cleanAudit (i_Audit i))"
  have "readEntry (i_ID i) (snapshotRow s) (taskRowsFrom 0 (es_tasks s) (map cleanTask (i_Tasks i))) ?audit
      = Inr ((cleanInstance i)\<lparr>i_Audit := map cleanAudit (i_Audit i)\<rparr>, n)"
    by (rule readEntry_snapshot[OF s n]) (simp_all add: taskRowsFrom_fields(1)[OF len(1)] auditRowsFrom_fields(1)[OF len(2)] d)
  moreover have "(cleanInstance i)\<lparr>i_Audit := map cleanAudit (i_Audit i)\<rparr> = cleanInstance i"
    by (simp add: cleanInstance_def)
  moreover have "map ar_ordinal ?audit = [0..<length ?audit]"
    using auditRowsFrom_fields[OF len(2), of 0] by (metis add_0 length_map)
  ultimately show ?thesis
    unfolding created_def using new id
      tables_filed[OF ok, of T' "i_ID i" "snapshotRow s" "taskRowsFrom 0 (es_tasks s) (map cleanTask (i_Tasks i))" ?audit]
    by (simp add: t)
qed

lemma saved_tables:
  assumes s: "snapshotOf i n s" and n: "nilOk i n" and ok: "tablesOk T"
    and row: "tb_instances T (i_ID i) = Some row" "ir_version row = unat v"
    and rs: "mapR decodeAuditRecord (map ar_payload (tb_audit T (i_ID i))) = Inr rs" "auditKept rs (i_Audit i)"
    and t: "T' = T\<lparr>tb_instances := (tb_instances T)(i_ID i \<mapsto> snapshotRow s),
        tb_tasks := (tb_tasks T)(i_ID i := taskRowsFrom 0 (es_tasks s) (map cleanTask (i_Tasks i))),
        tb_audit := (tb_audit T)(i_ID i := tb_audit T (i_ID i) @
          auditRowsFrom (length rs) (drop (length rs) (es_audit s)) (drop (length rs) (map cleanAudit (i_Audit i))))\<rparr>"
  shows "saved T i n v T'"
proof -
  note f = snapshotOf_fields[OF s]
  note d = encodeValues_tasks[OF f(3)] encodeValues_audit[OF f(4)]
  have len: "length (es_tasks s) = length (map cleanTask (i_Tasks i))"
    "length (drop (length rs) (es_audit s)) = length (drop (length rs) (map cleanAudit (i_Audit i)))"
    using mapR_length[OF d(1)] mapR_length[OF d(2)] by simp_all
  let ?new = "auditRowsFrom (length rs) (drop (length rs) (es_audit s)) (drop (length rs) (map cleanAudit (i_Audit i)))"
  let ?audit = "tb_audit T (i_ID i) @ ?new"
  have e: "isOk (readEntry (i_ID i) row (tb_tasks T (i_ID i)) (tb_audit T (i_ID i)))"
    "map ar_ordinal (tb_audit T (i_ID i)) = [0..<length (tb_audit T (i_ID i))]"
    using ok row(1) unfolding tablesOk_def entryOk_def by (auto split: option.splits)
  obtain old m where old: "readEntry (i_ID i) row (tb_tasks T (i_ID i)) (tb_audit T (i_ID i)) = Inr (old, m)"
    using e(1) by (auto simp: isOk_iff)
  then have fields: "i_Audit old = rs" "i_Version old = v"
    using rs(1) row(2) by (auto simp: readEntry_def bindR_Inr_iff parseVersion_def split: prod.splits)
  have "mapR decodeAuditRecord (map ar_payload ?audit) = Inr (rs @ drop (length rs) (map cleanAudit (i_Audit i)))"
    by (simp add: mapR_append rs(1) auditRowsFrom_fields(1)[OF len(2)] mapR_drop[OF d(2)])
  then have "readEntry (i_ID i) (snapshotRow s) (taskRowsFrom 0 (es_tasks s) (map cleanTask (i_Tasks i))) ?audit
      = Inr ((cleanInstance i)\<lparr>i_Audit := rs @ drop (length rs) (map cleanAudit (i_Audit i))\<rparr>, n)"
    by (rule readEntry_snapshot[OF s n, rotated]) (use rs(2) in \<open>auto simp: taskRowsFrom_fields(1)[OF len(1)] auditKept_iff\<close>)
  moreover have "length (tb_audit T (i_ID i)) = length rs"
    using mapR_length[OF rs(1)] by simp
  then have "map ar_ordinal ?audit = [0..<length ?audit]"
    using e(2) auditRowsFrom_fields(2)[OF len(2), of "length rs"] mapR_length[OF d(2)] rs(2)
    by (simp add: upt_add_eq_append[symmetric] auditKept_iff) (metis length_map auditRowsFrom_fields(2) len(2) length_drop length_upt add_diff_cancel_left')
  ultimately show ?thesis
    unfolding saved_def using row old fields rs(2)
      tables_filed[OF ok, of T' "i_ID i" "snapshotRow s" "taskRowsFrom 0 (es_tasks s) (map cleanTask (i_Tasks i))" ?audit]
    by (intro exI[of _ old] exI[of _ m]) (simp add: t tableEntry_def savedAs_def drop_map)
qed

type_synonym ('h, 'd) nilChoice = "'h env \<times> 'd \<Rightarrow> Instance \<Rightarrow> nilSlices"

lemma tableView_entry: "tableView t k = Some i \<longleftrightarrow> (\<exists>n. tableEntry t k = Some (i, n))"
  by (auto simp: tableView_def)

lemma tableEntry_ID: "tableEntry t k = Some (i, n) \<Longrightarrow> i_ID i = k"
  by (auto simp: tableEntry_def readEntry_def bindR_Inr_iff split: option.splits sum.splits prod.splits)

lemma tableView_absent: "tb_instances t k = None \<Longrightarrow> tableView t k = None"
  by (simp add: tableView_def tableEntry_def)

lemma created_filed:
  assumes "created T i n T'"
  shows "tablesOk T'" "i_ID i \<noteq> []" "tableView T (i_ID i) = None"
    "filed storable (tableView T) i (tableView T')"
  using assms cleanInstance_id[of i]
  by (auto simp: created_def filed_def tableView_def tableEntry_def[of T "i_ID i"])

lemma saved_filed:
  assumes "saved T i n v T'"
  shows "tablesOk T'" "\<exists>old. tableView T (i_ID i) = Some old \<and> i_Version old = v \<and> auditKept (i_Audit old) (i_Audit i)"
    "filed storable (tableView T) i (tableView T')"
  using assms savedAs_storable[of i] by (auto simp: saved_def filed_def tableView_def)

end
