(* ===== verification/MySQL.thy ===== *)
theory MySQL
  imports MySQLDatabase Snapshot
begin

text \<open>
  The MySQL command store (\<open>mysql/store.go\<close> and \<open>mysql/codec.go\<close>): snapshots, their validation,
  transactions with a bounded rollback, and \<open>Create\<close>, \<open>Load\<close> and \<open>Save\<close> over a database handle.
  An operation runs in a world of the request environment and the server state.
\<close>

subsection \<open>Snapshots (codec.go)\<close>

definition maxStoredStringLength :: nat where "maxStoredStringLength = 255"

function runeCount :: "string \<Rightarrow> nat" where
  \<comment> \<open>\<open>utf8.RuneCountInString\<close>: an invalid byte counts as one rune\<close>
  "runeCount [] = 0"
| "runeCount (c # cs) = 1 + runeCount (drop (max 1 (rune_size (c # cs))) (c # cs))"
  by pat_completeness auto
termination by (relation "measure length") auto

fun validateStoredTasks :: "Task list \<Rightarrow> unit result" where
  "validateStoredTasks [] = Inr ()"
| "validateStoredTasks (task # ts) =
     (if t_ID task = [] then Inl [ErrInvalidStoreInput]
      else if taskStatusText (t_Status task) = [] then Inl [ErrInvalidStoreInput]
      else validateStoredTasks ts)"

fun validateStoredAudit :: "AuditRecord list \<Rightarrow> unit result" where
  "validateStoredAudit [] = Inr ()"
| "validateStoredAudit (record0 # rs) =
     (if a_Action record0 = [] then Inl [ErrInvalidStoreInput] else validateStoredAudit rs)"

definition validateStoredValues :: "Instance \<Rightarrow> unit result" where
  "validateStoredValues i =
     bindR (validateStoredTasks (i_Tasks i)) (\<lambda>_. validateStoredAudit (i_Audit i))"

definition storedFields :: "Instance \<Rightarrow> string list" where
  "storedFields i =
     [i_ID i, instanceStatusText (i_Status i), i_Initiator i, i_CurrentNodeID i] @
     concat (map (\<lambda>task. [t_ID task, taskStatusText (t_Status task)]) (i_Tasks i)) @
     map a_Action (i_Audit i)"

fun checkLengths :: "string list \<Rightarrow> unit result" where
  "checkLengths [] = Inr ()"
| "checkLengths (field # fs) =
     (if runeCount field > maxStoredStringLength then Inl [ErrInvalidStoreInput] else checkLengths fs)"

definition validateStoredStringLengths :: "Instance \<Rightarrow> unit result" where
  "validateStoredStringLengths i = checkLengths (storedFields i)"

definition encodeSnapshot :: "Instance \<Rightarrow> nilSlices \<Rightarrow> encodedSnapshot result" where
  "encodeSnapshot aggregate n =
     bindR (validateStoredValues aggregate) (\<lambda>_.
     bindR (validateStoredStringLengths aggregate) (\<lambda>_.
     bindR (encodeDefinition (i_Definition aggregate) n) (\<lambda>definition0.
     bindR (encodeValues encodeTask (i_Tasks aggregate)) (\<lambda>tasks.
     bindR (encodeValues auditJSON (i_Audit aggregate)) (\<lambda>audit.
       Inr \<lparr>es_aggregate = aggregate, es_definition = definition0,
            es_status = instanceStatusText (i_Status aggregate), es_initiator = i_Initiator aggregate,
            es_currentNodeID = i_CurrentNodeID aggregate, es_data = i_Data aggregate,
            es_nodeState = i_NodeState aggregate, es_tasksNil = nil_Tasks n, es_auditNil = nil_Audit n,
            es_version = i_Version aggregate, es_tasks = tasks, es_audit = audit\<rparr>)))))"

definition nullableBytes :: "raw \<Rightarrow> sqlValue" where
  "nullableBytes value0 = (case value0 of None \<Rightarrow> SqlNull | Some b \<Rightarrow> SqlBytes (Some b))"

definition parentArguments :: "encodedSnapshot \<Rightarrow> sqlValue list" where
  "parentArguments s =
     [SqlText (i_ID (es_aggregate s)), SqlBytes (Some (es_definition s)), SqlText (es_status s),
      SqlText (es_initiator s), SqlText (es_currentNodeID s), nullableBytes (es_data s),
      nullableBytes (es_nodeState s), SqlBool (es_tasksNil s), SqlBool (es_auditNil s),
      SqlText (FormatUint (unat (es_version s)))]"

definition updateArguments :: "encodedSnapshot \<Rightarrow> u64 \<Rightarrow> sqlValue list" where
  "updateArguments s expectedVersion =
     [SqlBytes (Some (es_definition s)), SqlText (es_status s), SqlText (es_initiator s),
      SqlText (es_currentNodeID s), SqlBytes (es_data s), SqlBytes (es_nodeState s),
      SqlBool (es_tasksNil s), SqlBool (es_auditNil s), SqlText (FormatUint (unat (es_version s))),
      SqlText (i_ID (es_aggregate s)), SqlText (FormatUint (unat expectedVersion))]"

subsection \<open>Reading rows (codec.go)\<close>

definition loadTasks :: "'d mysqlDB \<Rightarrow> InstanceID \<Rightarrow> bool \<Rightarrow> ('h env \<times> 'd, Task list \<times> bool) eff" where
  "loadTasks db ident isNil = loadRows db loadTasksSQL ident (\<lambda>p. decodeJSON p TaskType taskOf) isNil"

definition loadAudit :: "'d mysqlDB \<Rightarrow> InstanceID \<Rightarrow> bool \<Rightarrow> ('h env \<times> 'd, AuditRecord list \<times> bool) eff" where
  "loadAudit db ident isNil = loadRows db loadAuditSQL ident (\<lambda>p. decodeJSON p AuditType auditOf) isNil"

definition loadSnapshot :: "'d mysqlDB \<Rightarrow> InstanceID \<Rightarrow> ('h env \<times> 'd, Instance \<times> nilSlices) eff" where
  "loadSnapshot db ident =
     bindE (tryE (queryRow db loadInstanceSQL [SqlText ident])) (\<lambda>answer.
     case answer of
       Inl e \<Rightarrow> if errors_Is e SqlErrNoRows then raise [ErrInstanceNotFound] else raise e
     | Inr columns \<Rightarrow>
         readSnapshot (loadTasks db ident) (loadAudit db ident) ident columns)"

subsection \<open>Transactions (store.go)\<close>

definition rollbackTransaction :: "'d mysqlDB \<Rightarrow> ('h env \<times> 'd, unit) eff" where
  "rollbackTransaction db =
     bindE (onSnd (rollback_late db)) (\<lambda>late.
       if late then raise [MySQLErrRollbackTimeout] else onSnd (tx_Rollback db))"

definition deferRollback :: "'d mysqlDB \<Rightarrow> ('h env \<times> 'd, 'a) eff \<Rightarrow> ('h env \<times> 'd, 'a) eff" where
  \<comment> \<open>the deferred function: a rollback error other than \<open>sql.ErrTxDone\<close> is joined to the result\<close>
  "deferRollback db body =
     deferCleanup SqlErrTxDone (rollbackTransaction db) body"

definition classifyCommitError :: "err \<Rightarrow> ('h env \<times> 'd, 'a) eff" where
  "classifyCommitError err =
     (if errors_Is err SqlErrTxDone then bindE (onFst ctxErr) (\<lambda>_. raise err) else raise err)"

definition withTransaction :: "'d mysqlDB \<Rightarrow> bool \<Rightarrow> ('h env \<times> 'd, 'a) eff \<Rightarrow> ('h env \<times> 'd, 'a) eff" where
  "withTransaction db options operation =
     bindE (onSnd (db_BeginTx db options)) (\<lambda>_.
     deferRollback db
       (bindE operation (\<lambda>x.
        bindE (onFst ctxErr) (\<lambda>_.
        bindE (tryE (onSnd (tx_Commit db))) (\<lambda>c.
          case c of Inl e \<Rightarrow> classifyCommitError e | Inr _ \<Rightarrow> ret x)))))"

subsection \<open>Writing rows (store.go)\<close>

definition maxInsertBatchSize :: nat where "maxInsertBatchSize = 500"

function insertRows :: "'d mysqlDB \<Rightarrow> string \<Rightarrow> string list \<Rightarrow> sqlValue list list \<Rightarrow> ('h env \<times> 'd, unit) eff" where
  "insertRows db table columns rows =
     (if rows = [] then ret ()
      else
        let batch = take maxInsertBatchSize rows in
        bindE (onSnd (tx_Exec db (insertRowsSQL table columns (length batch)) (concat batch))) (\<lambda>_.
          insertRows db table columns (drop maxInsertBatchSize rows)))"
  by pat_completeness auto
termination
  by (relation "measure (\<lambda>(_, _, _, rows). length rows)") (auto simp: maxInsertBatchSize_def)

declare insertRows.simps [simp del]

definition insertTasks :: "'d mysqlDB \<Rightarrow> InstanceID \<Rightarrow> string list \<Rightarrow> ('h env \<times> 'd, unit) eff" where
  "insertTasks db ident tasks =
     (if tasks = [] then ret ()
      else bindE (liftR (taskRows ident 0 tasks)) (\<lambda>rows.
        insertRows db taskTable taskColumns rows))"

definition insertAudit :: "'d mysqlDB \<Rightarrow> InstanceID \<Rightarrow> string list \<Rightarrow> nat \<Rightarrow> ('h env \<times> 'd, unit) eff" where
  "insertAudit db ident audit ordinalOffset =
     (if audit = [] then ret ()
      else bindE (liftR (auditRows ident ordinalOffset audit)) (\<lambda>rows.
        insertRows db auditTable auditColumns rows))"

definition replaceCollections :: "'d mysqlDB \<Rightarrow> InstanceID \<Rightarrow> encodedSnapshot \<Rightarrow> nat \<Rightarrow> ('h env \<times> 'd, unit) eff" where
  "replaceCollections db ident snapshot auditOffset =
     bindE (onSnd (tx_Exec db deleteTasksSQL [SqlText ident])) (\<lambda>_.
     bindE (insertTasks db ident (es_tasks snapshot)) (\<lambda>_.
     insertAudit db ident (drop auditOffset (es_audit snapshot)) auditOffset))"

definition validateAuditAppend :: "'d mysqlDB \<Rightarrow> InstanceID \<Rightarrow> AuditRecord list \<Rightarrow> ('h env \<times> 'd, nat) eff" where
  "validateAuditAppend db ident candidate =
     bindE (loadAudit db ident False) (\<lambda>(durable, _).
       if length candidate < length durable \<or> take (length durable) candidate \<noteq> durable
       then raise [ErrInvalidStoreInput]
       else ret (length durable))"

definition instanceExists :: "'d mysqlDB \<Rightarrow> InstanceID \<Rightarrow> ('h env \<times> 'd, bool) eff" where
  "instanceExists db ident =
     bindE (tryE (queryRow db instanceExistsSQL [SqlText ident])) (\<lambda>answer.
     case answer of
       Inl e \<Rightarrow> if errors_Is e SqlErrNoRows then ret False else raise e
     | Inr row \<Rightarrow> bindE (liftR (case row of [v] \<Rightarrow> scanInt v | _ \<Rightarrow> Inl [])) (\<lambda>value0. ret (value0 = 1)))"

definition classifyFailedCAS :: "'d mysqlDB \<Rightarrow> InstanceID \<Rightarrow> u64 \<Rightarrow> ('h env \<times> 'd, unit) eff" where
  "classifyFailedCAS db ident expectedVersion =
     bindE (tryE (queryRow db loadVersionSQL [SqlText ident])) (\<lambda>answer.
     case answer of
       Inl e \<Rightarrow> if errors_Is e SqlErrNoRows then raise [ErrInstanceNotFound] else raise e
     | Inr row \<Rightarrow>
         bindE (liftR (case row of [v] \<Rightarrow> scanString v | _ \<Rightarrow> Inl [])) (\<lambda>versionData.
         bindE (liftR (parseVersion versionData)) (\<lambda>version.
           if version \<noteq> expectedVersion then raise [ErrVersionConflict] else ret ())))"

subsection \<open>The store\<close>

record 'd MySQLStore =
  ms_db :: "'d mysqlDB option"  \<comment> \<open>\<open>None\<close>: a nil handle\<close>

definition MySQL_New :: "'d mysqlDB option \<Rightarrow> 'd MySQLStore" where
  "MySQL_New db = \<lparr>ms_db = db\<rparr>"

definition MySQL_Create :: "'d MySQLStore option \<Rightarrow> (Instance \<times> nilSlices) option \<Rightarrow> ('h env \<times> 'd, unit) eff" where
  "MySQL_Create s instance0 =
     bindE (onFst ctxErr) (\<lambda>_.
     case (Option.bind s ms_db, instance0) of
       (Some db, Some (i, n)) \<Rightarrow>
         if i_ID i = [] then raise [ErrInvalidStoreInput]
         else
           bindE (liftR (encodeSnapshot i n)) (\<lambda>snapshot.
           withTransaction db False
             (bindE (tryE (onSnd (tx_Exec db insertInstanceSQL (parentArguments snapshot)))) (\<lambda>inserted.
              case inserted of
                Inl execErr \<Rightarrow>
                  bindE (tryE (instanceExists db (i_ID (es_aggregate snapshot)))) (\<lambda>exists0.
                    if exists0 = Inr True then raise [ErrInstanceExists] else raise execErr)
              | Inr _ \<Rightarrow>
                  bindE (insertTasks db (i_ID (es_aggregate snapshot)) (es_tasks snapshot)) (\<lambda>_.
                  insertAudit db (i_ID (es_aggregate snapshot)) (es_audit snapshot) 0))))
     | _ \<Rightarrow> raise [ErrInvalidStoreInput])"

definition MySQL_Load :: "'d MySQLStore option \<Rightarrow> InstanceID \<Rightarrow> ('h env \<times> 'd, Instance \<times> nilSlices) eff" where
  "MySQL_Load s ident =
     bindE (onFst ctxErr) (\<lambda>_.
     case Option.bind s ms_db of
       None \<Rightarrow> raise [ErrInvalidStoreInput]
     | Some db \<Rightarrow> withTransaction db True (loadSnapshot db ident))"

definition MySQL_Save ::
  "'d MySQLStore option \<Rightarrow> (Instance \<times> nilSlices) option \<Rightarrow> u64 \<Rightarrow> ('h env \<times> 'd, unit) eff" where
  "MySQL_Save s instance0 expectedVersion =
     bindE (onFst ctxErr) (\<lambda>_.
     case (Option.bind s ms_db, instance0) of
       (Some db, Some (i, n)) \<Rightarrow>
         bindE (liftR (encodeSnapshot i n)) (\<lambda>snapshot.
         let ident = i_ID (es_aggregate snapshot) in
         withTransaction db False
           (bindE (onSnd (tx_Exec db updateInstanceSQL (updateArguments snapshot expectedVersion))) (\<lambda>result0.
            bindE (liftR result0) (\<lambda>rowsAffected.
            bindE (if rowsAffected = 0 then classifyFailedCAS db ident expectedVersion else ret ()) (\<lambda>_.
            bindE (validateAuditAppend db ident (i_Audit (es_aggregate snapshot))) (\<lambda>auditOffset.
            replaceCollections db ident snapshot auditOffset))))))
     | _ \<Rightarrow> raise [ErrInvalidStoreInput])"

end
