(* ===== verification/Transactions.thy ===== *)
theory Transactions
  imports Snapshot
begin

text \<open>
  Steps of a request on a database: which errors carry no sentinel of the package, and, in the
  locale \<open>sql_request\<close>, how a law about a statement becomes a step of the open transaction (\<open>inTx\<close>,
  \<open>aborted\<close>) and how the deferred rollback ends it.
\<close>

subsection \<open>Errors that carry no sentinel of the package\<close>

lemma foreign_simps [simp]:
  "foreign []" "foreign [MySQLErrRollbackTimeout]" "foreign [JsonErrInvalid]"
  "foreign (a @ b) \<longleftrightarrow> foreign a \<and> foreign b"
  by (auto simp: foreign_def)

lemma foreign_errors:
  assumes "foreign e"
  shows "\<not> errors_Is e ErrInstanceExists" "\<not> errors_Is e ErrInstanceNotFound"
    "\<not> errors_Is e ErrVersionConflict" "\<not> errors_Is e ErrInvalidStoreInput" "\<not> errors_Is e SqlErrNoRows"
  using assms by (auto simp: foreign_def errors_Is_def)

definition foreignR :: "'a result \<Rightarrow> bool" where
  "foreignR r \<longleftrightarrow> (\<forall>e. r = Inl e \<longrightarrow> foreign e)"

lemma foreignR_simps [simp]: "foreignR (Inr x)" "foreignR (Inl e) = foreign e"
  by (simp_all add: foreignR_def)

lemma foreignR_bindR: "foreignR r \<Longrightarrow> (\<And>x. foreignR (k x)) \<Longrightarrow> foreignR (bindR r k)"
  by (cases r) simp_all

lemma foreignR_wrapR: "foreign s \<Longrightarrow> foreignR r \<Longrightarrow> foreignR (wrapR s r)"
  by (cases r) simp_all

lemma foreignR_fields [simp]:
  "foreignR (ParseUint s)" "foreignR (decodeStringField k v)" "foreignR (parseTime s)" "foreignR (decodeByte v)"
  "foreignR (scanBytes c)" "foreignR (scanString c)" "foreignR (scanBool c)" "foreignR (scanInt c)"
proof -
  show u: "foreignR (ParseUint s)" for s by (simp add: ParseUint_def)
  show "foreignR (decodeByte v)" by (cases v) (auto intro!: foreignR_bindR u)
  show "foreignR (scanBytes c)" by (cases c) auto
  show "foreignR (scanString c)"
  proof (cases c)
    case (SqlBytes b)
    then show ?thesis by (cases b) auto
  qed auto
  show "foreignR (scanBool c)" by (cases c) auto
  show "foreignR (scanInt c)" by (cases c) auto
qed (simp_all add: decodeStringField_def parseTime_def split: option.split jvalue.split)

lemma foreignR_mapR: "(\<And>x. foreignR (f x)) \<Longrightarrow> foreignR (mapR f xs)"
  by (induction xs) (auto intro!: foreignR_bindR)

lemma validateExact_error:
  "validateExactValue v t = Inl e \<Longrightarrow> e = [JsonErrInvalid]"
  "validateExactArray vs t' = Inl e \<Longrightarrow> e = [JsonErrInvalid]"
  "validateExactMap ms t'' = Inl e \<Longrightarrow> e = [JsonErrInvalid]"
  "validateExactStruct ms' known = Inl e \<Longrightarrow> e = [JsonErrInvalid]"
  by (induction v t and vs t' and ms t'' and ms' known
      rule: validateExactValue_validateExactArray_validateExactMap_validateExactStruct.induct)
     (auto simp: bindR_Inl_iff split: gotype.splits option.splits)

lemma foreignR_decodeJSON:
  assumes "\<And>v. foreignR (typed v)"
  shows "foreignR (decodeJSON data T typed)"
proof -
  have v: "foreignR (Validate data)" by (simp add: foreignR_def) (use Validate_error in fastforce)
  have x: "foreignR (validateExactValue v T)" for v
    by (simp add: foreignR_def) (use validateExact_error(1) in fastforce)
  have "foreignR (wrapR [JsonErrInvalid] (typed v))" for v
    by (rule foreignR_wrapR) (simp_all add: assms)
  then show ?thesis unfolding decodeJSON_def Decode_def
    by (intro foreignR_bindR v) (auto intro!: foreignR_bindR x split: option.split)
qed

lemma foreignR_decoders [simp]: "foreignR (decodeTask p)" "foreignR (decodeAuditRecord p)" "foreignR (decodeDefinition d)"
proof -
  have time: "foreignR (decodeTimeField k v)" for k v
    by (simp add: decodeTimeField_def split: option.split jvalue.split)
  have slice: "foreignR (decodeSliceField f k v)" if "\<And>v. foreignR (f v)" for f :: "jvalue \<Rightarrow> 'x result" and k v
    by (auto simp: decodeSliceField_def intro!: foreignR_bindR foreignR_mapR that split: option.split jvalue.split)
  have bytes: "foreignR (decodeBytesField k v)" for k v
    by (auto simp: decodeBytesField_def intro!: foreignR_bindR foreignR_mapR split: option.split jvalue.split)
  have uint: "foreignR (decodeUintField k v)" for k v
    by (simp add: decodeUintField_def split: option.split jvalue.split)
  have node: "foreignR (storedNodeOf v)" for v
    by (auto simp: storedNodeOf_def bytes intro!: foreignR_bindR)
  have edge: "foreignR (edgeOf v)" for v
    by (auto simp: edgeOf_def intro!: foreignR_bindR)
  show "foreignR (decodeTask p)" unfolding decodeTask_def
    by (intro foreignR_decodeJSON) (auto simp: taskOf_def intro!: foreignR_bindR)
  show "foreignR (decodeAuditRecord p)" unfolding decodeAuditRecord_def
    by (intro foreignR_decodeJSON) (auto simp: auditOf_def time intro!: foreignR_bindR)
  have "foreignR (storedDefinitionOf v)" for v
    by (auto simp: storedDefinitionOf_def intro!: foreignR_bindR slice node edge uint)
  then show "foreignR (decodeDefinition d)" unfolding decodeDefinition_def
    by (intro foreignR_bindR foreignR_decodeJSON) auto
qed

subsection \<open>Steps of a transaction\<close>

text \<open>
  The flag \<open>c\<close> says whether the errors of the request context are those of the package \<open>context\<close>.
  Only then can a caller tell the sentinels of the store from a strange context error; what
  happens to the tables does not depend on it.
\<close>

definition quietCtx :: "bool \<Rightarrow> 'h env \<Rightarrow> bool" where
  "quietCtx c e \<longleftrightarrow> (c \<longrightarrow> (\<forall>k err. ctx_obs e k = Some err \<longrightarrow> foreign err))"

definition expected :: "bool \<Rightarrow> err \<Rightarrow> bool" where
  "expected c e \<longleftrightarrow> (c \<longrightarrow> foreign e)"

lemma expected_simps [simp]:
  "foreign e \<Longrightarrow> expected c e" "expected c (a @ b) \<longleftrightarrow> expected c a \<and> expected c b"
  by (auto simp: expected_def)

lemma expected_errors:
  assumes "expected c e" and c
  shows "\<not> errors_Is e ErrInstanceExists" "\<not> errors_Is e ErrInstanceNotFound"
    "\<not> errors_Is e ErrVersionConflict" "\<not> errors_Is e ErrInvalidStoreInput" "\<not> errors_Is e SqlErrNoRows"
  using assms by (auto simp: expected_def foreign_errors)

definition reports :: "bool \<Rightarrow> err \<Rightarrow> sentinel \<Rightarrow> bool \<Rightarrow> bool" where
  \<comment> \<open>the error carries the sentinel \<open>s\<close> only if \<open>P\<close>\<close>
  "reports c e s P \<longleftrightarrow> (c \<longrightarrow> errors_Is e s \<longrightarrow> P)"

lemma reports_simps [simp]:
  "reports c e s True" "reports c [] s P" "\<not> errors_Is e s \<Longrightarrow> reports c e s P" "reports c [x] s P \<longleftrightarrow> (c \<longrightarrow> x = s \<longrightarrow> P)"
  "reports c (a @ b) s P \<longleftrightarrow> reports c a s P \<and> reports c b s P"
  by (auto simp: reports_def)

lemma expected_reports [simp]:
  assumes "expected c e"
  shows "reports c e ErrInstanceExists P" "reports c e ErrInstanceNotFound P" "reports c e ErrVersionConflict P"
  using expected_errors[OF assms] by (auto simp: reports_def)

lemma ctxErr_quiet:
  assumes "quietCtx c (fst w)" and "\<And>e. quietCtx c e \<Longrightarrow> Q () (e, snd w)"
    and "\<And>x e. quietCtx c e \<Longrightarrow> expected c x \<Longrightarrow> E x (e, snd w)"
  shows "wpE True Q E (onFst ctxErr) w"
  unfolding wp_simps using assms by (auto simp: quietCtx_def expected_def split: option.split)

locale sql_request = sql_transactions db committed pending acked closed
  for db :: "('d, 'z) sqlDB_scheme" and committed :: "'d \<Rightarrow> 't" and pending acked closed + fixes c :: bool
begin

definition inTx :: "'t \<Rightarrow> 't \<Rightarrow> 'h env \<times> 'd \<Rightarrow> bool" where
  \<comment> \<open>the tables are \<open>T\<close>, the open transaction sees \<open>t\<close>\<close>
  "inTx T t w \<longleftrightarrow> committed (snd w) = T \<and> pending (snd w) = Some t \<and> quietCtx c (fst w)"

definition aborted :: "'t \<Rightarrow> err \<Rightarrow> 'h env \<times> 'd \<Rightarrow> bool" where
  "aborted T e w \<longleftrightarrow> committed (snd w) = T \<and> quietCtx c (fst w) \<and> expected c e"

lemma statement_wp:
  \<comment> \<open>from a law of the database to a step of an operation\<close>
  assumes "inTx T t w"
    and law: "pending (snd w) = Some t \<Longrightarrow> wpE True Q (failed committed pending (snd w) t) m (snd w)"
    and ok: "\<And>x d'. Q x d' \<Longrightarrow> Q' x (fst w, d')"
    and err: "\<And>e d'. committed d' = T \<Longrightarrow> foreign e \<Longrightarrow> pending d' = Some t \<or> pending d' = Some T \<Longrightarrow>
        quietCtx c (fst w) \<Longrightarrow> E' e (fst w, d')"
  shows "wpE True Q' E' (onSnd m) w"
  unfolding wp_simps
  by (rule wpE_mono[OF law]) (use assms(1) ok err in \<open>auto simp: inTx_def failed_def\<close>)

lemma query_wp:
  assumes "inTx T t w"
    and law: "\<And>d. pending d = Some t \<Longrightarrow> wpE True
        (\<lambda>a d'. committed d' = committed d \<and> pending d' = Some t \<and> delivers full a)
        (failed committed pending d t) (tx_Query db q args) d"
    and ok: "\<And>a w'. inTx T t w' \<Longrightarrow> delivers full a \<Longrightarrow> Q a w'"
    and err: "\<And>e w'. aborted T e w' \<Longrightarrow> foreign e \<Longrightarrow> E e w'"
  shows "wpE True Q E (onSnd (tx_Query db q args)) w"
  by (rule statement_wp[OF assms(1) law]) (use assms(1) in \<open>auto simp: inTx_def aborted_def intro!: ok err\<close>)

lemma queryRow_wp:
  assumes "inTx T t w"
    and law: "\<And>d. pending d = Some t \<Longrightarrow> wpE True
        (\<lambda>a d'. committed d' = committed d \<and> pending d' = Some t \<and> delivers full a)
        (failed committed pending d t) (tx_Query db q args) d"
    and ok: "\<And>row rest w'. inTx T t w' \<Longrightarrow> full = row # rest \<Longrightarrow> Q row w'"
    and none: "\<And>w'. inTx T t w' \<Longrightarrow> full = [] \<Longrightarrow> E [SqlErrNoRows] w'"
    and err: "\<And>e w'. aborted T e w' \<Longrightarrow> foreign e \<Longrightarrow> E e w'"
  shows "wpE True Q E (queryRow db q args) w"
  unfolding queryRow_def wpE_bindE
proof (rule query_wp[OF assms(1) law], goal_cases)
  case (2 a w')
  obtain rows er where a: "a = (rows, er)" by force
  from 2(2)[unfolded a] show ?case
  proof (rule delivers_cases)
    assume "er = Inr ()" "rows = full"
    then show ?thesis using 2 by (cases full) (auto simp: a wpE_ret wpE_raise intro: ok none)
  next
    fix e k assume e: "er = Inl e" "rows = take k full" "foreign e"
    show ?thesis
    proof (cases rows)
      case Nil
      have "aborted T e w'" using 2(1) e(3) by (auto simp: aborted_def inTx_def)
      then show ?thesis using e(1,3) Nil by (simp add: a wpE_raise err)
    next
      case (Cons row rest)
      then have "full = row # (rest @ drop k full)"
        using e(2) by (metis append_Cons append_take_drop_id)
      then show ?thesis using 2(1) Cons by (simp add: a wpE_ret ok)
    qed
  qed
qed (auto intro: err)

lemma loadRows_wp:
  assumes "inTx T t w" and dec: "\<And>p. foreignR (decode p)"
    and law: "\<And>d. pending d = Some t \<Longrightarrow> wpE True
        (\<lambda>a d'. committed d' = committed d \<and> pending d' = Some t \<and>
           delivers (map (\<lambda>p. [SqlBytes (Some p)]) payloads) a)
        (failed committed pending d t) (tx_Query db q [SqlText ident]) d"
  shows "wpE True (\<lambda>(xs, b) w'. inTx T t w' \<and> mapR decode payloads = Inr xs \<and> b = (isNil \<and> xs = []))
    (aborted T) (loadRows db q ident decode isNil) w"
proof -
  have decoded: "decodePayloads decode (map (\<lambda>p. [SqlBytes (Some p)]) ps) = mapR decode ps" for ps
    by (induction ps) auto
  show ?thesis
    unfolding loadRows_def wpE_bindE
  proof (rule query_wp[OF assms(1) law], goal_cases)
    case (2 a w')
    obtain rows er where a: "a = (rows, er)" by force
    have f: "foreign e" if "mapR decode ps = Inl e" for ps e
      using foreignR_mapR[of decode ps] dec that by (simp add: foreignR_def)
    from 2(2)[unfolded a] show ?case
    proof (rule delivers_cases)
      assume "er = Inr ()" "rows = map (\<lambda>p. [SqlBytes (Some p)]) payloads"
      then show ?thesis using 2(1) f
        by (cases "mapR decode payloads") (auto simp: a wp_simps decoded aborted_def inTx_def)
    next
      fix e k assume e: "er = Inl e" "rows = take k (map (\<lambda>p. [SqlBytes (Some p)]) payloads)" "foreign e"
      then have "decodePayloads decode rows = mapR decode (take k payloads)"
        by (simp add: take_map decoded)
      then show ?thesis using 2(1) e(1,3) f
        by (cases "mapR decode (take k payloads)") (auto simp: a wp_simps aborted_def inTx_def)
    qed
  qed auto
qed

lemma readSnapshot_wp:
  assumes tx: "inTx T t w" and r: "tb_instances f ident = Some r" "columns = instanceColumns r"
    and tasks: "\<And>w isNil. inTx T t w \<Longrightarrow> wpE True (\<lambda>(ts, b) w'. inTx T t w' \<and>
        mapR decodeTask (map tr_payload (tb_tasks f ident)) = Inr ts \<and> b = (isNil \<and> ts = [])) (aborted T) (tasksOf isNil) w"
    and audits: "\<And>w isNil. inTx T t w \<Longrightarrow> wpE True (\<lambda>(rs, b) w'. inTx T t w' \<and>
        mapR decodeAuditRecord (map ar_payload (tb_audit f ident)) = Inr rs \<and> b = (isNil \<and> rs = [])) (aborted T) (auditsOf isNil) w"
  shows "wpE True (\<lambda>x w'. inTx T t w' \<and> tableEntry f ident = Some x) (aborted T)
    (readSnapshot tasksOf auditsOf ident columns) w"
proof -
  have scan: "scanInstance columns = Inr (r\<lparr>ir_version := 0\<rparr>)"
    "scanString (last columns) = Inr (FormatUint (ir_version r))"
    by (cases "ir_data r"; cases "ir_node_state r"; simp add: r instanceColumns_def nullable_def)+
  have step: "wpR Q (\<lambda>e. aborted T e w) x" if "foreignR x" "\<And>y. x = Inr y \<Longrightarrow> Q y" for Q and x :: "'x result"
    using that tx by (cases x) (auto simp: aborted_def inTx_def)
  show ?thesis
    unfolding readSnapshot_def wpE_bindE wpE_liftR scan wpR_simps
  proof (rule step, goal_cases)
    case (2 y)
    obtain d nn en where y: "y = (d, nn, en)" by (cases y)
    note dec = 2[unfolded y]
    show ?case unfolding y prod.case wpE_bindE wpE_liftR
    proof (rule step, goal_cases)
      case (2 version)
      note ver = 2
      show ?case unfolding wpE_bindE
      proof (rule wpE_mono[OF tasks[OF tx]], goal_cases)
        case (1 x w2)
        then show ?case
          unfolding prod.case_eq_if wpE_bindE
          by (intro wpE_mono[OF audits])
            (use r dec ver in \<open>auto simp: wpE_ret tableEntry_def readEntry_def\<close>)
      qed auto
    qed (simp add: parseVersion_def)
  qed simp
qed

lemma exec_wp:
  assumes "inTx T t w"
    and law: "wpE True (\<lambda>_ d'. committed d' = committed (snd w) \<and> pending d' = Some t')
        (failed committed pending (snd w) t) m (snd w)"
  shows "wpE True (\<lambda>_. inTx T t') (aborted T) (onSnd m) w"
  by (rule statement_wp[OF assms(1) law]) (use assms(1) in \<open>auto simp: inTx_def aborted_def\<close>)

definition ended :: "'t \<Rightarrow> bool \<Rightarrow> (err \<Rightarrow> bool) \<Rightarrow> ('a \<Rightarrow> 't \<Rightarrow> bool) \<Rightarrow> err \<Rightarrow> 'd \<Rightarrow> bool" where
  \<comment> \<open>a failed transaction changed nothing, unless its commit happened and its answer was lost\<close>
  "ended T a F R e d \<longleftrightarrow> F e \<and> (committed d = T \<or> \<not> a \<and> expected c e \<and> (\<exists>x. R x (committed d)))"

lemma deferCleanup_wp:
  assumes body: "wpE True (\<lambda>x w'. quietCtx c (fst w') \<and> R x (committed (snd w')) \<and> pending (snd w') = None)
      (\<lambda>e w'. quietCtx c (fst w') \<and> ended T acked F R e (snd w')) body w"
    and rollback: "\<And>w. quietCtx c (fst w) \<Longrightarrow> wpE True
        (\<lambda>_ w'. quietCtx c (fst w') \<and> committed (snd w') = committed (snd w) \<and> pending (snd w) \<noteq> None)
        (\<lambda>e w'. quietCtx c (fst w') \<and> committed (snd w') = committed (snd w) \<and> foreign e \<and>
           (pending (snd w) = None \<longrightarrow> errors_Is e closed)) rollback w"
    and F: "\<And>e e'. F e \<Longrightarrow> foreign e' \<Longrightarrow> F (e @ e')"
  shows "wpE True (\<lambda>x w'. quietCtx c (fst w') \<and> R x (committed (snd w')))
    (\<lambda>e w'. quietCtx c (fst w') \<and> ended T acked F R e (snd w')) (deferCleanup closed rollback body) w"
  unfolding deferCleanup_def wpE_bindE[where m = "tryE body"] wpE_tryE
proof (rule wpE_mono[OF body], goal_cases)
  case (1 x w')
  then show ?case unfolding wpE_bindE wpE_tryE
    by (intro wpE_mono[OF rollback]) (auto simp: wp_simps)
next
  case (2 e w')
  then show ?case unfolding wpE_bindE wpE_tryE
    by (intro wpE_mono[OF rollback]) (auto simp: wp_simps ended_def intro: F)
qed

end

end
