(* ===== verification/MySQLSpec.thy ===== *)
theory MySQLSpec
  imports MySQL Transactions
begin

text \<open>
  What the MySQL store does to the tables: the lemmas of \<open>mysql_request\<close> give each step of a
  transaction its effect and end in \<open>Create_wp\<close>, \<open>Load_wp\<close> and \<open>Save_wp\<close>.
\<close>

subsection \<open>Snapshots\<close>

lemma parentArguments_row:
  "parentArguments s = [SqlText (i_ID (es_aggregate s)), SqlBytes (Some (ir_definition (snapshotRow s))),
     SqlText (ir_status (snapshotRow s)), SqlText (ir_initiator (snapshotRow s)),
     SqlText (ir_current_node_id (snapshotRow s)), nullable (ir_data (snapshotRow s)),
     nullable (ir_node_state (snapshotRow s)), SqlBool (ir_tasks_is_nil (snapshotRow s)),
     SqlBool (ir_audit_is_nil (snapshotRow s)), SqlText (FormatUint (ir_version (snapshotRow s)))]"
  by (simp add: parentArguments_def snapshotRow_def nullableBytes_def nullable_def)

lemma updateArguments_row:
  "updateArguments s v = [SqlBytes (Some (ir_definition (snapshotRow s))),
     SqlText (ir_status (snapshotRow s)), SqlText (ir_initiator (snapshotRow s)),
     SqlText (ir_current_node_id (snapshotRow s)), SqlBytes (ir_data (snapshotRow s)),
     SqlBytes (ir_node_state (snapshotRow s)), SqlBool (ir_tasks_is_nil (snapshotRow s)),
     SqlBool (ir_audit_is_nil (snapshotRow s)), SqlText (FormatUint (ir_version (snapshotRow s))),
     SqlText (i_ID (es_aggregate s)), SqlText (FormatUint (unat v))]"
  by (simp add: updateArguments_def snapshotRow_def)

lemma encodeSnapshot_of: "encodeSnapshot i n = Inr s \<Longrightarrow> snapshotOf i n s"
  by (auto simp: encodeSnapshot_def bindR_Inr_iff snapshotRow_def snapshotOf_def)

lemmas encodeSnapshot_fields = snapshotOf_fields[OF encodeSnapshot_of]

lemma encodeSnapshot_error:
  assumes "encodeSnapshot i n = Inl e"
  shows "e = [ErrInvalidStoreInput] \<or> e = []"
proof -
  have "validateStoredTasks ts = Inl x \<Longrightarrow> x = [ErrInvalidStoreInput]" for ts x
    by (induction ts) (auto split: if_splits)
  moreover have "validateStoredAudit rs = Inl x \<Longrightarrow> x = [ErrInvalidStoreInput]" for rs x
    by (induction rs) (auto split: if_splits)
  moreover have "checkLengths fs = Inl x \<Longrightarrow> x = [ErrInvalidStoreInput]" for fs x
    by (induction fs) (auto split: if_splits)
  ultimately show ?thesis using assms
    by (auto simp: encodeSnapshot_def bindR_Inl_iff validateStoredValues_def
        validateStoredStringLengths_def encodeDefinition_def Let_def encodeValues_errors)
qed

locale mysql_request = mysql_database db committed pending acked +
    sql_request db committed pending acked SqlErrTxDone c
  for db :: "'d mysqlDB" and committed pending acked c
begin

lemma loadTasks_wp:
  assumes "inTx T t w"
  shows "wpE True (\<lambda>(ts, b) w'. inTx T t w' \<and> mapR decodeTask (map tr_payload (tb_tasks t ident)) = Inr ts \<and>
      b = (isNil \<and> ts = [])) (aborted T) (loadTasks db ident isNil) w"
  unfolding loadTasks_def decodeTask_def[symmetric]
  by (rule loadRows_wp[OF assms]) (use load_tasks_law in \<open>auto simp: comp_def\<close>)

lemma loadAudit_wp:
  assumes "inTx T t w"
  shows "wpE True (\<lambda>(rs, b) w'. inTx T t w' \<and>
      mapR decodeAuditRecord (map ar_payload (tb_audit t ident)) = Inr rs \<and> b = (isNil \<and> rs = []))
    (aborted T) (loadAudit db ident isNil) w"
  unfolding loadAudit_def decodeAuditRecord_def[symmetric]
  by (rule loadRows_wp[OF assms]) (use load_audit_law in \<open>auto simp: comp_def\<close>)

lemma insertRows_wp:
  fixes add :: "tables \<Rightarrow> 'r list \<Rightarrow> tables" and ok :: "tables \<Rightarrow> 'r list \<Rightarrow> bool"
    and w :: "'h env \<times> 'd"
  assumes law: "\<And>d t b. pending d = Some t \<Longrightarrow> b \<noteq> [] \<Longrightarrow> ok t b \<Longrightarrow> wpE True
        (\<lambda>_ d'. committed d' = committed d \<and> pending d' = Some (add t b)) (failed committed pending d t)
        (tx_Exec db (insertRowsSQL table columns (length b)) (concat (map vals b))) d"
    and add: "\<And>t. add t [] = t" "\<And>t a b. add (add t a) b = add t (a @ b)"
    and ok: "\<And>t a b. ok t (a @ b) \<Longrightarrow> ok t a \<and> ok (add t a) b"
  shows "inTx T t w \<Longrightarrow> ok t rs \<Longrightarrow>
    wpE True (\<lambda>_. inTx T (add t rs)) (aborted T) (insertRows db table columns (map vals rs)) w"
proof (induction "length rs" arbitrary: rs t w rule: less_induct)
  case less
  show ?case
  proof (cases "rs = []")
    case True
    then show ?thesis using less.prems(1) by (simp add: insertRows.simps wpE_ret add(1))
  next
    case False
    let ?b = "take maxInsertBatchSize rs" and ?r = "drop maxInsertBatchSize rs"
    have pos: "0 < maxInsertBatchSize" by (simp add: maxInsertBatchSize_def)
    have b: "?b \<noteq> []" using False pos by (cases rs) auto
    have split: "ok t ?b \<and> ok (add t ?b) ?r" using ok[of t ?b ?r] less.prems(2) by simp
    have "length ?r < length rs" using False pos by (cases rs) auto
    note IH = less.hyps[OF this]
    have "wpE True (\<lambda>_. inTx T (add t rs)) (aborted T) (insertRows db table columns (map vals ?r)) w'"
      if "inTx T (add t ?b) w'" for w' :: "'h env \<times> 'd"
      using IH[OF that] split by (simp add: add(2))
    moreover have "wpE True (\<lambda>_. inTx T (add t ?b)) (aborted T)
        (onSnd (tx_Exec db (insertRowsSQL table columns (length ?b)) (concat (map vals ?b)))) w"
      by (rule exec_wp[OF less.prems(1) law]) (use less.prems(1) b split in \<open>simp_all add: inTx_def\<close>)
    ultimately show ?thesis
      using False
      by (subst insertRows.simps)
        (auto simp: wpE_bindE take_map drop_map Let_def simp del: length_take elim!: wpE_mono)
  qed
qed

abbreviation addTasks :: "InstanceID \<Rightarrow> tables \<Rightarrow> taskRow list \<Rightarrow> tables" where
  "addTasks ident t rs \<equiv> t\<lparr>tb_tasks := (tb_tasks t)(ident := tb_tasks t ident @ rs)\<rparr>"

abbreviation addAudit :: "InstanceID \<Rightarrow> tables \<Rightarrow> auditRow list \<Rightarrow> tables" where
  "addAudit ident t rs \<equiv> t\<lparr>tb_audit := (tb_audit t)(ident := tb_audit t ident @ rs)\<rparr>"

lemma insertTasks_wp:
  assumes "inTx T t w" and "mapR decodeTask ps = Inr ts" and "tb_tasks t ident = []"
  shows "wpE True (\<lambda>_. inTx T (addTasks ident t (taskRowsFrom 0 ps ts))) (aborted T)
    (insertTasks db ident ps) w"
proof (cases "ps = []")
  case True
  then show ?thesis using assms(1,2) by (auto simp: insertTasks_def wpE_ret)
next
  case False
  have len: "length ps = length ts" using mapR_length[OF assms(2)] by simp
  have "wpE True (\<lambda>_. inTx T (addTasks ident t (taskRowsFrom 0 ps ts))) (aborted T)
      (insertRows db taskTable taskColumns (map (taskValues ident) (taskRowsFrom 0 ps ts))) w"
    by (rule insertRows_wp[where add = "addTasks ident" and ok = "\<lambda>t rs. follow (map tr_ordinal (tb_tasks t ident)) (map tr_ordinal rs)"])
      (use assms len in \<open>auto simp: insert_tasks_law follow_def sorted_wrt_append taskRowsFrom_fields\<close>)
  then show ?thesis using False
    by (simp add: insertTasks_def wpE_bindE wpE_liftR taskRows_values[OF assms(2)])
qed

lemma insertAudit_wp:
  assumes "inTx T t w" and "mapR decodeAuditRecord ps = Inr rs"
    and "map ar_ordinal (tb_audit t ident) = [0..<k]"
  shows "wpE True (\<lambda>_. inTx T (addAudit ident t (auditRowsFrom k ps rs))) (aborted T)
    (insertAudit db ident ps k) w"
proof (cases "ps = []")
  case True
  then show ?thesis using assms(1,2) by (auto simp: insertAudit_def wpE_ret)
next
  case False
  have len: "length ps = length rs" using mapR_length[OF assms(2)] by simp
  have "wpE True (\<lambda>_. inTx T (addAudit ident t (auditRowsFrom k ps rs))) (aborted T)
      (insertRows db auditTable auditColumns (map (auditValues ident) (auditRowsFrom k ps rs))) w"
    by (rule insertRows_wp[where add = "addAudit ident" and ok = "\<lambda>t rs. follow (map ar_ordinal (tb_audit t ident)) (map ar_ordinal rs)"])
      (use assms len in \<open>auto simp: insert_audit_law follow_def sorted_wrt_append auditRowsFrom_fields\<close>)
  then show ?thesis using False
    by (simp add: insertAudit_def wpE_bindE wpE_liftR auditRows_values[OF assms(2)])
qed

lemma validateAuditAppend_wp:
  assumes "inTx T t w"
  shows "wpE True
    (\<lambda>k w'. inTx T t w' \<and> (\<exists>rs. mapR decodeAuditRecord (map ar_payload (tb_audit t ident)) = Inr rs \<and>
        auditKept rs candidate \<and> k = length rs))
    (\<lambda>e w'. aborted T e w' \<or> (inTx T t w' \<and> e = [ErrInvalidStoreInput] \<and>
        (\<exists>rs. mapR decodeAuditRecord (map ar_payload (tb_audit t ident)) = Inr rs \<and> \<not> auditKept rs candidate)))
    (validateAuditAppend db ident candidate) w"
  unfolding validateAuditAppend_def wpE_bindE
  by (rule wpE_mono[OF loadAudit_wp[OF assms]]) (auto simp: wp_simps auditKept_def)

lemma instanceExists_wp:
  assumes "inTx T t w"
  shows "wpE True (\<lambda>b w'. inTx T t w' \<and> (b \<longleftrightarrow> tb_instances t ident \<noteq> None)) (aborted T)
    (instanceExists db ident) w"
  unfolding instanceExists_def wpE_bindE wpE_tryE
  by (rule queryRow_wp[OF assms exists_law])
    (auto simp: wp_simps aborted_def inTx_def foreign_errors expected_errors split: option.splits if_splits)

lemma classifyFailedCAS_wp:
  assumes "inTx T t w"
  shows "wpE True
    (\<lambda>_ w'. inTx T t w' \<and> (\<exists>r. tb_instances t ident = Some r \<and> parseVersion (FormatUint (ir_version r)) = Inr v))
    (\<lambda>e w'. aborted T e w' \<or> inTx T t w' \<and>
       (e = [ErrInstanceNotFound] \<and> tb_instances t ident = None \<or>
        e = [ErrVersionConflict] \<and> (\<exists>r u. tb_instances t ident = Some r \<and>
            parseVersion (FormatUint (ir_version r)) = Inr u \<and> u \<noteq> v)))
    (classifyFailedCAS db ident v) w"
  unfolding classifyFailedCAS_def wpE_bindE wpE_tryE
proof (rule queryRow_wp[OF assms load_version_law], goal_cases)
  case (1 d)
  then show ?case .
next
  case (2 row rest w')
  then obtain r where r: "tb_instances t ident = Some r" "row = [SqlText (FormatUint (ir_version r))]"
    by (auto split: option.splits)
  have "foreignR (parseVersion (FormatUint (ir_version r)))" by (simp add: parseVersion_def)
  then show ?case using 2(1) r
    by (cases "parseVersion (FormatUint (ir_version r))") (auto simp: wp_simps aborted_def inTx_def)
next
  case (3 w')
  then show ?case by (auto simp: wp_simps split: option.splits)
next
  case (4 e w')
  then show ?case by (auto simp: wp_simps aborted_def foreign_errors expected_errors)
qed

lemma loadSnapshot_wp:
  assumes "inTx T t w"
  shows "wpE True (\<lambda>x w'. inTx T t w' \<and> tableEntry t ident = Some x)
    (\<lambda>e w'. aborted T e w' \<or> inTx T t w' \<and> e = [ErrInstanceNotFound] \<and> tb_instances t ident = None)
    (loadSnapshot db ident) w"
  unfolding loadSnapshot_def wpE_bindE wpE_tryE
proof (rule queryRow_wp[OF assms load_instance_law], goal_cases)
  case (1 d)
  then show ?case .
next
  case (2 columns rest w1)
  then obtain r where r: "tb_instances t ident = Some r" "columns = instanceColumns r"
    by (auto split: option.splits)
  show ?case unfolding sum.case
    by (rule wpE_mono[OF readSnapshot_wp[OF 2(1) r loadTasks_wp loadAudit_wp]]) auto
next
  case (3 w')
  then show ?case by (auto simp: wp_simps split: option.splits)
next
  case (4 e w')
  then show ?case by (auto simp: wp_simps aborted_def foreign_errors expected_errors)
qed

lemma rollback_wp:
  assumes "quietCtx c (fst w)"
  shows "wpE True
    (\<lambda>_ w'. quietCtx c (fst w') \<and> committed (snd w') = committed (snd w) \<and> pending (snd w) \<noteq> None)
    (\<lambda>e w'. quietCtx c (fst w') \<and> committed (snd w') = committed (snd w) \<and> foreign e \<and>
       (pending (snd w) = None \<longrightarrow> errors_Is e SqlErrTxDone)) (rollbackTransaction db) w"
  unfolding rollbackTransaction_def wp_simps
  by (rule wpE_mono[OF timer_law])
    (use assms in \<open>auto simp: wp_simps eq_commute[of "Some _" "pending _"] intro!: wpE_mono[OF rollback_law]\<close>)

lemma classifyCommit_wp:
  assumes "quietCtx c (fst w)" "expected c e" and "\<And>e. expected c e \<Longrightarrow> F e"
    and "committed (snd w) = T \<or> \<not> acked \<and> (\<exists>x. R x (committed (snd w)))"
  shows "wpE True Q (\<lambda>e w'. quietCtx c (fst w') \<and> ended T acked F R e (snd w')) (classifyCommitError e) w"
  unfolding classifyCommitError_def
  using assms by (auto simp: wpE_raise wpE_bindE ended_def intro!: ctxErr_quiet)

lemma withTransaction_wp:
  assumes q: "quietCtx c (fst w)" and T: "committed (snd w) = T"
    and op: "\<And>w. inTx T T w \<Longrightarrow> wpE True (\<lambda>x w'. \<exists>t'. inTx T t' w' \<and> R x t')
        (\<lambda>e w'. committed (snd w') = T \<and> quietCtx c (fst w') \<and> F e) m w"
    and F: "\<And>e. expected c e \<Longrightarrow> F e" "\<And>e e'. F e \<Longrightarrow> foreign e' \<Longrightarrow> F (e @ e')"
  shows "wpE True (\<lambda>x w'. quietCtx c (fst w') \<and> R x (committed (snd w')))
    (\<lambda>e w'. quietCtx c (fst w') \<and> ended T acked F R e (snd w')) (withTransaction db ro m) w"
proof -
  let ?body = "bindE m (\<lambda>x. bindE (onFst ctxErr) (\<lambda>_. bindE (tryE (onSnd (tx_Commit db)))
      (\<lambda>c. case c of Inl e \<Rightarrow> classifyCommitError e | Inr _ \<Rightarrow> ret x)))"
  have body: "wpE True (\<lambda>x w'. quietCtx c (fst w') \<and> R x (committed (snd w')) \<and> pending (snd w') = None)
      (\<lambda>e w'. quietCtx c (fst w') \<and> ended T acked F R e (snd w')) ?body w1" if "inTx T T w1" for w1
    unfolding wpE_bindE
  proof (rule wpE_mono[OF op[OF that]], goal_cases)
    case (1 x w2)
    then obtain t' where t: "inTx T t' w2" "R x t'" by blast
    show ?case
    proof (rule ctxErr_quiet[where c = c], goal_cases)
      case quiet: (2 e)
      have p: "pending (snd w2) = Some t'" and T2: "committed (snd w2) = T" using t by (simp_all add: inTx_def)
      show ?case
        unfolding wp_simps fst_conv snd_conv
      proof (rule wpE_mono[OF commit_law[OF p]], goal_cases)
        case (1 u d')
        then show ?case using t(2) quiet by (simp add: wpE_ret)
      next
        case (2 err d')
        then show ?case unfolding sum.case using t(2) quiet F(1)
          by (intro classifyCommit_wp) (auto simp: T2)
      qed
    qed (use t F(1) in \<open>auto simp: inTx_def ended_def\<close>)
  qed (simp add: ended_def)
  show ?thesis
    unfolding withTransaction_def wpE_bindE[where m = "onSnd (db_BeginTx db ro)"] wpE_onSnd deferRollback_def
  proof (rule wpE_mono[OF begin_law], goal_cases)
    case (1 u d)
    then show ?case by (intro deferCleanup_wp[OF body rollback_wp F(2)]) (use q T in \<open>simp_all add: inTx_def\<close>)
  next
    case (2 e d)
    then show ?case using q T F(1) by (simp add: ended_def)
  qed
qed

lemma Create_wp:
  assumes q: "quietCtx c (fst w)" and T: "committed (snd w) = T" "tablesOk T" and n: "nilOk i n"
  shows "wpE True (\<lambda>_ w'. quietCtx c (fst w') \<and> created T i n (committed (snd w')))
    (\<lambda>e w'. quietCtx c (fst w') \<and> reports c e ErrInstanceExists (tb_instances T (i_ID i) \<noteq> None) \<and>
       (committed (snd w') = T \<or> \<not> acked \<and> expected c e \<and> created T i n (committed (snd w'))))
    (MySQL_Create (Some (MySQL_New (Some db))) (Some (i, n))) w"
proof -
  let ?F = "\<lambda>e. reports c e ErrInstanceExists (tb_instances T (i_ID i) \<noteq> None)"
  let ?op = "\<lambda>s. bindE (tryE (onSnd (tx_Exec db insertInstanceSQL (parentArguments s)))) (\<lambda>inserted.
      case inserted of
        Inl execErr \<Rightarrow> bindE (tryE (instanceExists db (i_ID (es_aggregate s)))) (\<lambda>exists0.
            if exists0 = Inr True then raise [ErrInstanceExists] else raise execErr)
      | Inr _ \<Rightarrow> bindE (insertTasks db (i_ID (es_aggregate s)) (es_tasks s)) (\<lambda>_.
          insertAudit db (i_ID (es_aggregate s)) (es_audit s) 0))"
  have op: "wpE True (\<lambda>_ w'. \<exists>t'. inTx T t' w' \<and> created T i n t')
      (\<lambda>e w'. committed (snd w') = T \<and> quietCtx c (fst w') \<and> ?F e) (?op s) w1"
    if s: "encodeSnapshot i n = Inr s" and id: "i_ID i \<noteq> []" and tx: "inTx T T w1" for s w1
  proof -
    note f = encodeSnapshot_fields[OF s]
    have p: "pending (snd w1) = Some T" using tx by (simp add: inTx_def)
    let ?t1 = "T\<lparr>tb_instances := (tb_instances T)(i_ID i \<mapsto> snapshotRow s)\<rparr>"
    show ?thesis
      unfolding wpE_bindE[where m = "tryE (onSnd _)"] wpE_tryE parentArguments_row f(1)
    proof (rule statement_wp[OF tx insert_law], goal_cases)
      case 1
      show ?case by (rule p)
    next
      case (2 x d')
      then have new: "tb_instances T (i_ID i) = None" and tx1: "inTx T ?t1 (fst w1, d')"
        using tx by (auto simp: inTx_def)
      from T(2) new have empty: "tb_tasks T (i_ID i) = []" "tb_audit T (i_ID i) = []"
        by (auto simp: tablesOk_def entryOk_def dest!: spec[of _ "i_ID i"])
      note filed = created_tables[OF encodeSnapshot_of[OF s] n T(2) new id refl]
      show ?case
        unfolding sum.case wpE_bindE
        by (rule wpE_mono[OF insertTasks_wp[OF tx1 encodeValues_tasks[OF f(3)]]])
          (use empty filed in \<open>auto simp: aborted_def foreign_errors expected_errors
            intro!: wpE_mono[OF insertAudit_wp[OF _ encodeValues_audit[OF f(4)]]]\<close>)
    next
      case (3 e d')
      then have "inTx T T (fst w1, d')" using tx by (auto simp: inTx_def)
      then show ?case
        unfolding sum.case wpE_bindE wpE_tryE
        by (rule wpE_mono[OF instanceExists_wp])
          (use 3 in \<open>auto simp: wpE_raise inTx_def aborted_def foreign_errors expected_errors\<close>)
    qed
  qed
  have enc: "\<not> errors_Is e ErrInstanceExists" if "encodeSnapshot i n = Inl e" for e
    using encodeSnapshot_error[OF that] by (auto simp: foreign_errors expected_errors)
  show ?thesis
    unfolding MySQL_Create_def MySQL_New_def wpE_bindE[where m = "onFst ctxErr"]
  proof (rule ctxErr_quiet[OF q], goal_cases)
    case (1 e)
    have "wpE True (\<lambda>_ w'. quietCtx c (fst w') \<and> created T i n (committed (snd w')))
        (\<lambda>e w'. quietCtx c (fst w') \<and> ?F e \<and>
           (committed (snd w') = T \<or> \<not> acked \<and> expected c e \<and> created T i n (committed (snd w'))))
        (withTransaction db False (?op s)) (e, snd w)" if "encodeSnapshot i n = Inr s" "i_ID i \<noteq> []" for s
      by (rule wpE_mono[OF withTransaction_wp[where T = T and F = ?F and R = "\<lambda>_. created T i n"]])
        (use 1 T op[OF that] in \<open>auto simp: ended_def foreign_errors expected_errors\<close>)
    then show ?case using 1 T enc
      by (cases "encodeSnapshot i n") (auto simp: wpE_raise wpE_bindE[where m = "liftR _"] wpE_liftR)
  qed (use T in \<open>auto simp: foreign_errors expected_errors\<close>)
qed

lemma Load_wp:
  assumes q: "quietCtx c (fst w)" and T: "committed (snd w) = T"
  shows "wpE True (\<lambda>x w'. quietCtx c (fst w') \<and> committed (snd w') = T \<and> tableEntry T ident = Some x)
    (\<lambda>e w'. quietCtx c (fst w') \<and> committed (snd w') = T \<and>
       reports c e ErrInstanceNotFound (tb_instances T ident = None))
    (MySQL_Load (Some (MySQL_New (Some db))) ident) w"
proof -
  let ?F = "\<lambda>e. reports c e ErrInstanceNotFound (tb_instances T ident = None)"
  have op: "wpE True (\<lambda>x w'. \<exists>t'. inTx T t' w' \<and> t' = T \<and> tableEntry T ident = Some x)
      (\<lambda>e w'. committed (snd w') = T \<and> quietCtx c (fst w') \<and> ?F e) (loadSnapshot db ident) w1"
    if "inTx T T w1" for w1
    by (rule wpE_mono[OF loadSnapshot_wp[OF that]]) (auto simp: aborted_def inTx_def foreign_errors expected_errors)
  have tx: "wpE True (\<lambda>x w'. quietCtx c (fst w') \<and> committed (snd w') = T \<and> tableEntry T ident = Some x)
      (\<lambda>e w'. quietCtx c (fst w') \<and> committed (snd w') = T \<and> ?F e)
      (withTransaction db True (loadSnapshot db ident)) w1"
    if "quietCtx c (fst w1)" "committed (snd w1) = T" for w1
    by (rule wpE_mono[OF withTransaction_wp[where F = ?F, OF that op]]) (auto simp: ended_def foreign_errors expected_errors)
  show ?thesis
    unfolding MySQL_Load_def MySQL_New_def wpE_bindE[where m = "onFst ctxErr"]
  proof (rule ctxErr_quiet[OF q], goal_cases)
    case (1 e)
    then show ?case by (simp add: tx T)
  qed (simp add: T foreign_errors expected_errors)
qed

lemma casStep_wp:
  assumes s: "encodeSnapshot i n = Inr s" and T: "tablesOk T" and tx: "inTx T T w"
  shows "wpE True
    (\<lambda>_ w'. (\<exists>row. tb_instances T (i_ID i) = Some row \<and> ir_version row = unat v) \<and>
        inTx T (T\<lparr>tb_instances := (tb_instances T)(i_ID i \<mapsto> snapshotRow s)\<rparr>) w')
    (\<lambda>e w'. committed (snd w') = T \<and> quietCtx c (fst w') \<and>
        reports c e ErrInstanceNotFound (tb_instances T (i_ID i) = None) \<and>
        reports c e ErrVersionConflict (\<exists>old m. tableEntry T (i_ID i) = Some (old, m) \<and> i_Version old \<noteq> v))
    (bindE (onSnd (tx_Exec db updateInstanceSQL (updateArguments s v))) (\<lambda>result0.
       bindE (liftR result0) (\<lambda>rowsAffected.
         if rowsAffected = 0 then classifyFailedCAS db (i_ID i) v else ret ()))) w"
proof -
  let ?t1 = "T\<lparr>tb_instances := (tb_instances T)(i_ID i \<mapsto> snapshotRow s)\<rparr>"
  have p: "pending (snd w) = Some T" using tx by (simp add: inTx_def)
  have classify: "wpE True
      (\<lambda>_ w'. (\<exists>row. tb_instances T (i_ID i) = Some row \<and> ir_version row = unat v) \<and> inTx T ?t1 w')
      (\<lambda>e w'. committed (snd w') = T \<and> quietCtx c (fst w') \<and>
        reports c e ErrInstanceNotFound (tb_instances T (i_ID i) = None) \<and>
        reports c e ErrVersionConflict (\<exists>old m. tableEntry T (i_ID i) = Some (old, m) \<and> i_Version old \<noteq> v))
      (classifyFailedCAS db (i_ID i) v) w'"
    if w': "inTx T t w'" and t: "t = T \<or> t = ?t1 \<and> (\<exists>row. tb_instances T (i_ID i) = Some row \<and> ir_version row = unat v \<and> snapshotRow s = row)"
      and same: "t = T \<Longrightarrow> \<forall>row. tb_instances T (i_ID i) = Some row \<longrightarrow> ir_version row = unat v \<longrightarrow> ?t1 = T"
    for t w'
  proof -
    have inst: "tb_instances t (i_ID i) = tb_instances T (i_ID i)" using t by auto
    show ?thesis
    proof (rule wpE_mono[OF classifyFailedCAS_wp[OF w']], goal_cases)
      case (1 u w2)
      then obtain r where r: "tb_instances T (i_ID i) = Some r" "parseVersion (FormatUint (ir_version r)) = Inr v"
        unfolding inst by blast
      from readEntry_version[OF r(1) T] r(2) have "ir_version r = unat v" by (metis sum.inject(2))
      with 1 r t same show ?case by auto
    next
      case (2 e w2)
      then have state: "committed (snd w2) = T" "quietCtx c (fst w2)" by (auto simp: aborted_def inTx_def)
      from 2 consider "expected c e" | "e = [ErrInstanceNotFound]" "tb_instances T (i_ID i) = None"
        | r u where "e = [ErrVersionConflict]" "tb_instances T (i_ID i) = Some r"
            "parseVersion (FormatUint (ir_version r)) = Inr u" "u \<noteq> v"
        unfolding inst by (auto simp: aborted_def)
      then show ?case
      proof cases
        case (3 r u)
        from readEntry_version[OF 3(2) T] 3(3) obtain x where
          "tableEntry T (i_ID i) = Some x" "i_Version (fst x) = u" by (metis sum.inject(2))
        then show ?thesis using state 3(1,4) by (cases x) auto
      qed (use state in \<open>auto simp: foreign_errors expected_errors\<close>)
    qed
  qed
  have fail: "aborted T e (fst w, d')" if "committed d' = T" "foreign e" for e d'
    using that tx by (simp add: aborted_def inTx_def)
  show ?thesis
    unfolding wpE_bindE updateArguments_row encodeSnapshot_fields(1)[OF s]
  proof (rule statement_wp[OF tx update_law], goal_cases)
    case 1
    show ?case by (rule p)
  next
    case (2 x d')
    have com: "committed d' = T" "quietCtx c (fst w)" using 2 tx by (auto simp: inTx_def)
    show ?case
    proof (cases x)
      case (Inl e)
      then show ?thesis using 2 com by (auto simp: wp_simps foreign_errors expected_errors)
    next
      case (Inr k)
      show ?thesis
      proof (cases "\<exists>row. tb_instances T (i_ID i) = Some row \<and> ir_version row = unat v")
        case True
        then obtain row where row: "tb_instances T (i_ID i) = Some row" "ir_version row = unat v" by blast
        then have t1: "inTx T ?t1 (fst w, d')" and same: "k = 0 \<Longrightarrow> snapshotRow s = row"
          using 2 com Inr by (auto simp: inTx_def)
        show ?thesis
        proof (cases "k = 0")
          case True
          have "?t1 = T" using same[OF True] row(1) by (simp add: fun_upd_idem)
          show ?thesis
            unfolding Inr True wpE_bindE wpE_liftR wpR_simps
            by (simp only: refl if_True) (rule classify[OF t1]; use row same True \<open>?t1 = T\<close> in auto)
        next
          case False
          then show ?thesis using Inr row t1 by (auto simp: wp_simps)
        qed
      next
        case False
        then have "pending d' = Some T" "k = 0"
          using 2 Inr by (auto split: option.splits if_splits)
        then have tx0: "inTx T T (fst w, d')" using com by (simp add: inTx_def)
        show ?thesis
          unfolding Inr \<open>k = 0\<close> wpE_bindE wpE_liftR wpR_simps
          by (simp only: refl if_True) (rule classify[OF tx0]; use False in auto)
      qed
    qed
  next
    case (3 e d')
    then show ?case by (simp add: foreign_errors expected_errors)
  qed
qed

lemma Save_wp:
  assumes q: "quietCtx c (fst w)" and T: "committed (snd w) = T" "tablesOk T" and n: "nilOk i n"
  shows "wpE True (\<lambda>_ w'. quietCtx c (fst w') \<and> saved T i n v (committed (snd w')))
    (\<lambda>e w'. quietCtx c (fst w') \<and>
       reports c e ErrInstanceNotFound (tb_instances T (i_ID i) = None) \<and>
       reports c e ErrVersionConflict (\<exists>old m. tableEntry T (i_ID i) = Some (old, m) \<and> i_Version old \<noteq> v) \<and>
       (committed (snd w') = T \<or> \<not> acked \<and> expected c e \<and> saved T i n v (committed (snd w'))))
    (MySQL_Save (Some (MySQL_New (Some db))) (Some (i, n)) v) w"
proof -
  let ?F = "\<lambda>e. reports c e ErrInstanceNotFound (tb_instances T (i_ID i) = None) \<and>
     reports c e ErrVersionConflict (\<exists>old m. tableEntry T (i_ID i) = Some (old, m) \<and> i_Version old \<noteq> v)"
  let ?cas = "\<lambda>s. bindE (onSnd (tx_Exec db updateInstanceSQL (updateArguments s v))) (\<lambda>result0.
       bindE (liftR result0) (\<lambda>rowsAffected.
         if rowsAffected = 0 then classifyFailedCAS db (i_ID i) v else ret ()))"
  let ?op = "\<lambda>s. bindE (?cas s) (\<lambda>_. bindE (validateAuditAppend db (i_ID i) (i_Audit i)) (\<lambda>auditOffset.
       replaceCollections db (i_ID i) s auditOffset))"
  have op: "wpE True (\<lambda>_ w'. \<exists>t'. inTx T t' w' \<and> saved T i n v t')
      (\<lambda>e w'. committed (snd w') = T \<and> quietCtx c (fst w') \<and> ?F e) (?op s) w1"
    if s: "encodeSnapshot i n = Inr s" and tx: "inTx T T w1" for s w1
    unfolding wpE_bindE[where m = "?cas s"]
  proof (rule wpE_mono[OF casStep_wp[OF s T(2) tx]], goal_cases)
    case (1 u w2)
    then obtain row where row: "tb_instances T (i_ID i) = Some row" "ir_version row = unat v"
      and tx1: "inTx T (T\<lparr>tb_instances := (tb_instances T)(i_ID i \<mapsto> snapshotRow s)\<rparr>) w2" (is "inTx T ?t1 w2")
      by blast
    note f = encodeSnapshot_fields[OF s]
    have num: "map ar_ordinal (tb_audit T (i_ID i)) = [0..<length (tb_audit T (i_ID i))]"
      using T(2) row(1) by (auto simp: tablesOk_def entryOk_def dest!: spec[of _ "i_ID i"])
    let ?t2 = "?t1\<lparr>tb_tasks := (tb_tasks ?t1)(i_ID i := [])\<rparr>"
    let ?t3 = "addTasks (i_ID i) ?t2 (taskRowsFrom 0 (es_tasks s) (map cleanTask (i_Tasks i)))"
    show ?case
      unfolding wpE_bindE[where m = "validateAuditAppend _ _ _"]
    proof (rule wpE_mono[OF validateAuditAppend_wp[OF tx1]], goal_cases)
      case (1 k w3)
      then obtain rs where tx2: "inTx T ?t1 w3" and rs: "mapR decodeAuditRecord (map ar_payload (tb_audit T (i_ID i))) = Inr rs"
        "auditKept rs (i_Audit i)" "k = length rs"
        by auto
      have k: "length (tb_audit T (i_ID i)) = k" using mapR_length[OF rs(1)] rs(3) by simp
      let ?new = "auditRowsFrom k (drop k (es_audit s)) (drop k (map cleanAudit (i_Audit i)))"
      have del: "wpE True (\<lambda>_. inTx T ?t2) (aborted T) (onSnd (tx_Exec db deleteTasksSQL [SqlText (i_ID i)])) w3"
        by (rule exec_wp[OF tx2 delete_law]) (use tx2 in \<open>simp add: inTx_def\<close>)
      have ins: "wpE True (\<lambda>_. inTx T ?t3) (aborted T) (insertTasks db (i_ID i) (es_tasks s)) w4"
        if "inTx T ?t2 w4" for w4
        by (rule insertTasks_wp[OF that encodeValues_tasks[OF f(3)]]) simp
      have aud: "wpE True (\<lambda>_. inTx T (addAudit (i_ID i) ?t3 ?new)) (aborted T)
          (insertAudit db (i_ID i) (drop k (es_audit s)) k) w4" if "inTx T ?t3 w4" for w4
        by (rule insertAudit_wp[OF that mapR_drop[OF encodeValues_audit[OF f(4)]]]) (simp add: num k)
      have "saved T i n v (addAudit (i_ID i) ?t3 ?new)"
        by (rule saved_tables[OF encodeSnapshot_of[OF s] n T(2) row rs(1,2)]) (simp add: rs(3))
      then have fin: "wpE True (\<lambda>_ w'. \<exists>t'. inTx T t' w' \<and> saved T i n v t') (aborted T)
          (replaceCollections db (i_ID i) s k) w3"
        unfolding replaceCollections_def wpE_bindE
        by (intro wpE_mono[OF del] wpE_mono[OF ins] wpE_mono[OF aud]) auto
      show ?case by (rule wpE_mono[OF fin]) (auto simp: aborted_def foreign_errors expected_errors)
    next
      case (2 e w3)
      then show ?case by (auto simp: aborted_def inTx_def foreign_errors expected_errors)
    qed
  qed auto
  have enc: "?F e" if "encodeSnapshot i n = Inl e" for e
    using encodeSnapshot_error[OF that] by auto
  show ?thesis
    unfolding MySQL_Save_def MySQL_New_def wpE_bindE[where m = "onFst ctxErr"]
  proof (rule ctxErr_quiet[OF q], goal_cases)
    case (1 e)
    have "wpE True (\<lambda>_ w'. quietCtx c (fst w') \<and> saved T i n v (committed (snd w')))
        (\<lambda>e w'. quietCtx c (fst w') \<and> ?F e \<and>
           (committed (snd w') = T \<or> \<not> acked \<and> expected c e \<and> saved T i n v (committed (snd w'))))
        (withTransaction db False (?op s)) (e, snd w)" if "encodeSnapshot i n = Inr s" for s
      by (rule wpE_mono[OF withTransaction_wp[where T = T and F = ?F and R = "\<lambda>_. saved T i n v"]])
        (use 1 T op[OF that] in \<open>auto simp: ended_def foreign_errors expected_errors\<close>)
    note tx = this
    show ?case
    proof (cases "encodeSnapshot i n")
      case (Inl e')
      then show ?thesis using 1 T enc[OF Inl] by (simp add: wpE_bindE[where m = "liftR _"] wpE_liftR)
    next
      case (Inr s)
      show ?thesis
        using tx[OF Inr]
        by (simp add: Inr wpE_bindE[where m = "liftR _"] wpE_liftR Let_def encodeSnapshot_fields(1)[OF Inr] bindE_assoc cong: if_cong)
    qed
  qed (use T in \<open>auto simp: foreign_errors expected_errors\<close>)
qed

end

end
