(* ===== verification/SqlReference.thy ===== *)
theory SqlReference
  imports Transactions
begin

text \<open>
  What the reference databases of the two adapters share: a server with committed tables, one open
  transaction and a schedule that says which calls fail; the statements on the tables of migration
  0001 with their primary keys, unique keys, foreign keys and checks; and the laws of the transactions.
\<close>

record 't server =
  sv_committed :: 't
  sv_pending :: "'t option"
  sv_faults :: "bool list"  \<comment> \<open>for each coming call: does it fail?\<close>

definition ref_server :: "'t \<Rightarrow> bool list \<Rightarrow> 't server" where
  "ref_server t faults = \<lparr>sv_committed = t, sv_pending = None, sv_faults = faults\<rparr>"

definition ref_fault :: "('t server, bool) eff" where
  "ref_fault s = (case sv_faults s of
     [] \<Rightarrow> Some (Inr False, s)
   | b # bs \<Rightarrow> Some (Inr b, s\<lparr>sv_faults := bs\<rparr>))"

definition ref_call :: "sentinel \<Rightarrow> ('t \<Rightarrow> ('t \<times> 'a) result) \<Rightarrow> ('t server, 'a) eff" where
  \<comment> \<open>a statement in the open transaction\<close>
  "ref_call closed f = bindE ref_fault (\<lambda>fault s.
     case sv_pending s of
       None \<Rightarrow> Some (Inl [closed], s)
     | Some t \<Rightarrow>
         if fault then Some (Inl [], s)
         else (case f t of
             Inl e \<Rightarrow> Some (Inl e, s)
           | Inr (t', a) \<Rightarrow> Some (Inr a, s\<lparr>sv_pending := Some t'\<rparr>)))"

definition ref_begin :: "('t server, unit) eff" where
  "ref_begin = bindE ref_fault (\<lambda>fault s.
     if fault then Some (Inl [], s) else Some (Inr (), s\<lparr>sv_pending := Some (sv_committed s)\<rparr>))"

definition ref_commit :: "sentinel \<Rightarrow> bool \<Rightarrow> ('t server, unit) eff" where
  \<comment> \<open>a failing commit is lost if \<open>acked\<close>; otherwise it happens and only its answer is lost\<close>
  "ref_commit closed acked = bindE ref_fault (\<lambda>fault s.
     case sv_pending s of
       None \<Rightarrow> Some (Inl [closed], s)
     | Some t \<Rightarrow>
         let s' = s\<lparr>sv_pending := None\<rparr> in
         if fault then Some (Inl [], if acked then s' else s'\<lparr>sv_committed := t\<rparr>)
         else Some (Inr (), s'\<lparr>sv_committed := t\<rparr>))"

definition ref_rollback :: "sentinel \<Rightarrow> ('t server, unit) eff" where
  "ref_rollback closed = (\<lambda>s. case sv_pending s of
     None \<Rightarrow> Some (Inl [closed], s)
   | Some _ \<Rightarrow> Some (Inr (), s\<lparr>sv_pending := None\<rparr>))"

subsection \<open>Statements\<close>

definition ref_row :: "sqlValue list \<Rightarrow> instanceRow result" where
  "ref_row columns =
     bindR (scanInstance columns) (\<lambda>row.
     bindR (scanString (last columns)) (\<lambda>v.
     bindR (ParseUint v) (\<lambda>version. Inr (row\<lparr>ir_version := unat version\<rparr>))))"

fun ref_insert :: "err \<Rightarrow> sqlValue list \<Rightarrow> tables \<Rightarrow> tables result" where
  \<comment> \<open>first argument: what a duplicate identity reports\<close>
  "ref_insert dup (SqlText ident # columns) t =
     bindR (ref_row columns) (\<lambda>row.
       if ident = [] then Inl []
       else if tb_instances t ident \<noteq> None then Inl dup
       else Inr (t\<lparr>tb_instances := (tb_instances t)(ident \<mapsto> row)\<rparr>))"
| "ref_insert dup _ t = Inl []"

definition ref_task :: "sqlValue list \<Rightarrow> (InstanceID \<times> taskRow) result" where
  "ref_task args = (case args of
     [ident, SqlInt k, tid, st, payload] \<Rightarrow>
       bindR (scanString ident) (\<lambda>ident. bindR (scanString tid) (\<lambda>tid.
       bindR (scanString st) (\<lambda>st. bindR (scanString payload) (\<lambda>p.
         if k < 0 \<or> tid = [] \<or> st = [] then Inl []
         else Inr (ident, \<lparr>tr_ordinal = nat k, tr_task_id = tid, tr_status = st, tr_payload = p\<rparr>)))))
   | _ \<Rightarrow> Inl [])"

definition ref_audit :: "sqlValue list \<Rightarrow> (InstanceID \<times> auditRow) result" where
  "ref_audit args = (case args of
     [ident, SqlInt k, action, payload] \<Rightarrow>
       bindR (scanString ident) (\<lambda>ident. bindR (scanString action) (\<lambda>action.
       bindR (scanString payload) (\<lambda>p.
         if k < 0 \<or> action = [] then Inl []
         else Inr (ident, \<lparr>ar_ordinal = nat k, ar_action = action, ar_payload = p\<rparr>))))
   | _ \<Rightarrow> Inl [])"

definition ref_add_task :: "sqlValue list \<Rightarrow> tables \<Rightarrow> tables result" where
  "ref_add_task args t = bindR (ref_task args) (\<lambda>(ident, r).
     if tb_instances t ident = None \<or> tr_ordinal r \<in> set (map tr_ordinal (tb_tasks t ident)) \<or>
        tr_task_id r \<in> set (map tr_task_id (tb_tasks t ident)) then Inl []
     else Inr (t\<lparr>tb_tasks := (tb_tasks t)(ident := insort_key tr_ordinal r (tb_tasks t ident))\<rparr>))"

definition ref_add_audit :: "sqlValue list \<Rightarrow> tables \<Rightarrow> tables result" where
  "ref_add_audit args t = bindR (ref_audit args) (\<lambda>(ident, r).
     if tb_instances t ident = None \<or> ar_ordinal r \<in> set (map ar_ordinal (tb_audit t ident)) then Inl []
     else Inr (t\<lparr>tb_audit := (tb_audit t)(ident := insort_key ar_ordinal r (tb_audit t ident))\<rparr>))"

fun ref_rows :: "(sqlValue list \<Rightarrow> 't \<Rightarrow> 't result) \<Rightarrow> sqlValue list list \<Rightarrow> 't \<Rightarrow> 't result" where
  \<comment> \<open>many rows one after the other\<close>
  "ref_rows add [] t = Inr t"
| "ref_rows add (row # rows) t = bindR (add row t) (ref_rows add rows)"

definition ref_delete :: "sqlValue list \<Rightarrow> tables \<Rightarrow> tables result" where
  "ref_delete args t = (case args of
     [SqlText ident] \<Rightarrow> Inr (t\<lparr>tb_tasks := (tb_tasks t)(ident := [])\<rparr>)
   | _ \<Rightarrow> Inl [])"

subsection \<open>Their effects\<close>

lemma wpE_ref_fault:
  assumes "\<And>b d'. sv_committed d' = sv_committed d \<Longrightarrow> sv_pending d' = sv_pending d \<Longrightarrow> Q b d'"
  shows "wpE D Q E ref_fault d"
  using assms by (auto simp: wpE_def ref_fault_def split: list.split)

lemma ref_call_wp:
  assumes "sv_pending d = Some t"
    and "\<And>t' a d'. f t = Inr (t', a) \<Longrightarrow> sv_committed d' = sv_committed d \<Longrightarrow> sv_pending d' = Some t' \<Longrightarrow> Q a d'"
    and "\<And>e. f t = Inl e \<Longrightarrow> e = []"
  shows "wpE True Q (failed sv_committed sv_pending d t) (ref_call closed f) d"
  unfolding ref_call_def wpE_bindE
  by (rule wpE_ref_fault) (use assms in \<open>auto simp: wpE_def failed_def split: sum.split\<close>)

lemma unat_version: "n < 18446744073709551616 \<Longrightarrow> unat (word_of_nat n :: u64) = n"
  by (simp add: unsigned_of_nat take_bit_nat_eq_self)

lemma ref_row_columns:
  "ref_row [SqlBytes (Some (ir_definition r)), SqlText (ir_status r), SqlText (ir_initiator r),
     SqlText (ir_current_node_id r), nullable (ir_data r), nullable (ir_node_state r),
     SqlBool (ir_tasks_is_nil r), SqlBool (ir_audit_is_nil r), SqlText (FormatUint (ir_version r))] =
   (if ir_version r < 2 ^ 64 then Inr r else Inl [])"
  "ref_row [SqlBytes (Some (ir_definition r)), SqlText (ir_status r), SqlText (ir_initiator r),
     SqlText (ir_current_node_id r), SqlBytes (ir_data r), SqlBytes (ir_node_state r),
     SqlBool (ir_tasks_is_nil r), SqlBool (ir_audit_is_nil r), SqlText (FormatUint (ir_version r))] =
   (if ir_version r < 2 ^ 64 then Inr r else Inl [])"
  by (cases "ir_data r"; cases "ir_node_state r"; cases r;
      simp add: ref_row_def nullable_def ParseUint_FormatUint_large unat_version)+

lemma insort_key_last: "(\<forall>x\<in>set xs. f x < f a) \<Longrightarrow> insort_key f a xs = xs @ [a]"
  by (induction xs) auto

lemma ref_add_values:
  "ref_add_task (taskValues ident r) t = Inr t' \<Longrightarrow>
     t' = t\<lparr>tb_tasks := (tb_tasks t)(ident := insort_key tr_ordinal r (tb_tasks t ident))\<rparr>"
  "ref_add_audit (auditValues ident a) t = Inr t' \<Longrightarrow>
     t' = t\<lparr>tb_audit := (tb_audit t)(ident := insort_key ar_ordinal a (tb_audit t ident))\<rparr>"
  by (cases r; cases a; auto simp: ref_add_task_def ref_add_audit_def ref_task_def ref_audit_def taskValues_def
      auditValues_def bindR_Inr_iff split: if_splits)+

lemma ref_tasks_follow:
  assumes "ref_rows ref_add_task (map (taskValues ident) rs) t = Inr t'"
    and "follow (map tr_ordinal (tb_tasks t ident)) (map tr_ordinal rs)"
  shows "t' = t\<lparr>tb_tasks := (tb_tasks t)(ident := tb_tasks t ident @ rs)\<rparr>"
  using assms
proof (induction rs arbitrary: t)
  case (Cons r rs)
  have last: "insort_key tr_ordinal r (tb_tasks t ident) = tb_tasks t ident @ [r]"
    by (rule insort_key_last) (use Cons.prems(2) in \<open>auto simp: follow_def\<close>)
  let ?t = "t\<lparr>tb_tasks := (tb_tasks t)(ident := tb_tasks t ident @ [r])\<rparr>"
  have "ref_rows ref_add_task (map (taskValues ident) rs) ?t = Inr t'"
    using Cons.prems(1) last by (auto simp: bindR_Inr_iff dest!: ref_add_values)
  from Cons.IH[OF this] Cons.prems(2) show ?case by (auto simp: follow_def cong: if_cong)
qed auto

lemma ref_audit_follow:
  assumes "ref_rows ref_add_audit (map (auditValues ident) rs) t = Inr t'"
    and "follow (map ar_ordinal (tb_audit t ident)) (map ar_ordinal rs)"
  shows "t' = t\<lparr>tb_audit := (tb_audit t)(ident := tb_audit t ident @ rs)\<rparr>"
  using assms
proof (induction rs arbitrary: t)
  case (Cons r rs)
  have last: "insort_key ar_ordinal r (tb_audit t ident) = tb_audit t ident @ [r]"
    by (rule insort_key_last) (use Cons.prems(2) in \<open>auto simp: follow_def\<close>)
  let ?t = "t\<lparr>tb_audit := (tb_audit t)(ident := tb_audit t ident @ [r])\<rparr>"
  have "ref_rows ref_add_audit (map (auditValues ident) rs) ?t = Inr t'"
    using Cons.prems(1) last by (auto simp: bindR_Inr_iff dest!: ref_add_values)
  from Cons.IH[OF this] Cons.prems(2) show ?case by (auto simp: follow_def cong: if_cong)
qed auto

lemma ref_errors:
  "scanBytes c = Inl e \<Longrightarrow> e = []" "ParseUint s = Inl e \<Longrightarrow> e = []" "ref_row cs = Inl e \<Longrightarrow> e = []"
  "ref_rows ref_add_task rows t = Inl e \<Longrightarrow> e = []" "ref_rows ref_add_audit rows t = Inl e \<Longrightarrow> e = []"
proof -
  show b: "scanBytes c = Inl e \<Longrightarrow> e = []" for c e by (cases c) auto
  show u: "ParseUint s = Inl e \<Longrightarrow> e = []" for s e by (auto simp: ParseUint_def split: if_splits)
  have s: "scanString c = Inl e \<Longrightarrow> e = []" for c e by (induction c rule: scanString.induct) auto
  have o: "scanBool c = Inl e \<Longrightarrow> e = []" for c e by (cases c) (auto split: if_splits)
  have i: "scanInstance cs = Inl e \<Longrightarrow> e = []" for cs e
    by (induction cs rule: scanInstance.induct) (auto simp: bindR_Inl_iff dest: b s o)
  show "ref_row cs = Inl e \<Longrightarrow> e = []"
    by (auto simp: ref_row_def bindR_Inl_iff dest: i s u)
  have t: "ref_task a = Inl e \<Longrightarrow> e = []" for a e
    by (auto simp: ref_task_def bindR_Inl_iff dest: s split: list.splits sqlValue.splits if_splits)
  have a: "ref_audit a = Inl e \<Longrightarrow> e = []" for a e
    by (auto simp: ref_audit_def bindR_Inl_iff dest: s split: list.splits sqlValue.splits if_splits)
  show "ref_rows ref_add_task rows t = Inl e \<Longrightarrow> e = []"
    by (induction rows arbitrary: t) (auto simp: bindR_Inl_iff ref_add_task_def split: if_splits dest: t)
  show "ref_rows ref_add_audit rows t = Inl e \<Longrightarrow> e = []"
    by (induction rows arbitrary: t) (auto simp: bindR_Inl_iff ref_add_audit_def split: if_splits dest: a)
qed

lemma delivers_full [simp]: "delivers full (full, Inr u)"
  by (simp add: delivers_def)

lemma ref_begin_law:
  "wpE True (\<lambda>_ d'. sv_committed d' = sv_committed d \<and> sv_pending d' = Some (sv_committed d))
    (\<lambda>e d'. sv_committed d' = sv_committed d \<and> foreign e) ref_begin d"
  by (auto simp: ref_begin_def bindE_def wpE_def ref_fault_def split: list.split)

lemma ref_commit_law:
  assumes "sv_pending d = Some t"
  shows "wpE True (\<lambda>_ d'. sv_committed d' = t \<and> sv_pending d' = None)
    (\<lambda>e d'. (sv_committed d' = sv_committed d \<or> \<not> acked \<and> sv_committed d' = t) \<and> foreign e) (ref_commit closed acked) d"
  unfolding ref_commit_def wpE_bindE
  by (rule wpE_ref_fault) (use assms in \<open>auto simp: wpE_def Let_def\<close>)

lemma ref_rollback_law:
  assumes "foreign [closed]"
  shows "wpE True (\<lambda>_ d'. sv_committed d' = sv_committed d \<and> sv_pending d \<noteq> None)
    (\<lambda>e d'. sv_committed d' = sv_committed d \<and> foreign e \<and> (sv_pending d = None \<longrightarrow> errors_Is e closed)) (ref_rollback closed) d"
  using assms by (auto simp: ref_rollback_def wpE_def split: option.split)

end
