(* ===== verification/MySQLReference.thy ===== *)
theory MySQLReference
  imports MySQLSpec SqlReference
begin

text \<open>
  A database that the laws of \<open>mysql_database\<close> describe. It discharges the laws (interpretation
  \<open>ref\<close>), so the theorems over an arbitrary database are not about nothing, and it executes, so
  their witnesses compute.
\<close>

definition ref_update :: "sqlValue list \<Rightarrow> tables \<Rightarrow> (tables \<times> nat result) result" where
  "ref_update args t =
     (case drop 9 args of
        [SqlText ident, SqlText v] \<Rightarrow>
          bindR (ref_row (take 9 args)) (\<lambda>row. bindR (ParseUint v) (\<lambda>expected.
            case tb_instances t ident of
              Some old \<Rightarrow>
                if ir_version old = unat expected
                then Inr (t\<lparr>tb_instances := (tb_instances t)(ident \<mapsto> row)\<rparr>,
                          Inr (if row = old then 0 else 1))  \<comment> \<open>only changed rows count\<close>
                else Inr (t, Inr 0)
            | None \<Rightarrow> Inr (t, Inr 0)))
      | _ \<Rightarrow> Inl [])"

fun chunks :: "nat \<Rightarrow> nat \<Rightarrow> 'a list \<Rightarrow> 'a list list" where
  \<comment> \<open>the rows of a multi-row insert\<close>
  "chunks width 0 args = []"
| "chunks width (Suc n) args = take width args # chunks width n (drop width args)"

definition ref_exec :: "string \<Rightarrow> sqlValue list \<Rightarrow> tables \<Rightarrow> (tables \<times> nat result) result" where
  "ref_exec q args t =
     (if q = insertInstanceSQL then bindR (ref_insert [] args t) (\<lambda>t'. Inr (t', Inr 1))
      else if q = updateInstanceSQL then ref_update args t
      else if q = deleteTasksSQL then bindR (ref_delete args t) (\<lambda>t'. Inr (t', Inr 0))
      else if q = insertRowsSQL taskTable taskColumns (length args div 5) then
        bindR (ref_rows ref_add_task (chunks 5 (length args div 5) args) t) (\<lambda>t'. Inr (t', Inr 0))
      else if q = insertRowsSQL auditTable auditColumns (length args div 4) then
        bindR (ref_rows ref_add_audit (chunks 4 (length args div 4) args) t) (\<lambda>t'. Inr (t', Inr 0))
      else Inl [])"

definition ref_query :: "string \<Rightarrow> sqlValue list \<Rightarrow> tables \<Rightarrow> sqlValue list list result" where
  "ref_query q args t = (case args of
     [SqlText ident] \<Rightarrow>
       if q = loadTasksSQL then Inr (map (\<lambda>r. [SqlBytes (Some (tr_payload r))]) (tb_tasks t ident))
       else if q = loadAuditSQL then Inr (map (\<lambda>r. [SqlBytes (Some (ar_payload r))]) (tb_audit t ident))
       else (case tb_instances t ident of
         None \<Rightarrow> Inr []
       | Some r \<Rightarrow>
           if q = loadInstanceSQL then Inr [instanceColumns r]
           else if q = loadVersionSQL then Inr [[SqlText (FormatUint (ir_version r))]]
           else if q = instanceExistsSQL then Inr [[SqlInt 1]]
           else Inl [])
   | _ \<Rightarrow> Inl [])"

subsection \<open>The driver\<close>

definition refDB :: "bool \<Rightarrow> tables server mysqlDB" where
  "refDB acked = \<lparr>
     db_BeginTx = (\<lambda>_. ref_begin),
     tx_Exec = (\<lambda>q args. ref_call SqlErrTxDone (ref_exec q args)),
     tx_Query = (\<lambda>q args. ref_call SqlErrTxDone (\<lambda>t. bindR (ref_query q args t) (\<lambda>rows. Inr (t, (rows, Inr ()))))),
     tx_Commit = ref_commit SqlErrTxDone acked,
     tx_Rollback = ref_rollback SqlErrTxDone,
     rollback_late = (\<lambda>s. if sv_pending s = None then Some (Inr False, s) else ref_fault s)\<rparr>"

subsection \<open>It keeps the laws\<close>

lemma statements_differ:
  "updateInstanceSQL \<noteq> insertInstanceSQL" "deleteTasksSQL \<noteq> insertInstanceSQL" "deleteTasksSQL \<noteq> updateInstanceSQL"
  "loadAuditSQL \<noteq> loadTasksSQL" "loadInstanceSQL \<noteq> loadTasksSQL" "loadInstanceSQL \<noteq> loadAuditSQL"
  "loadVersionSQL \<noteq> loadTasksSQL" "loadVersionSQL \<noteq> loadAuditSQL" "loadVersionSQL \<noteq> loadInstanceSQL"
  "instanceExistsSQL \<noteq> loadTasksSQL" "instanceExistsSQL \<noteq> loadAuditSQL"
  "instanceExistsSQL \<noteq> loadInstanceSQL" "instanceExistsSQL \<noteq> loadVersionSQL"
  by (simp_all add: insertInstanceSQL_def updateInstanceSQL_def deleteTasksSQL_def loadAuditSQL_def
      loadTasksSQL_def loadInstanceSQL_def loadVersionSQL_def instanceExistsSQL_def)

lemma insertRows_differ:
  "insertRowsSQL taskTable c n \<noteq> insertInstanceSQL" "insertRowsSQL auditTable c n \<noteq> insertInstanceSQL"
  "insertRowsSQL taskTable c n \<noteq> updateInstanceSQL" "insertRowsSQL auditTable c n \<noteq> updateInstanceSQL"
  "insertRowsSQL taskTable c n \<noteq> deleteTasksSQL" "insertRowsSQL auditTable c n \<noteq> deleteTasksSQL"
  "insertRowsSQL auditTable c n \<noteq> insertRowsSQL taskTable c' n'"
  by (simp_all add: insertInstanceSQL_def updateInstanceSQL_def deleteTasksSQL_def insertRowsSQL_def
      taskTable_def auditTable_def)

lemma chunks_values:
  "chunks 5 (length rs) (concat (map (taskValues ident) rs)) = map (taskValues ident) rs"
  "chunks 4 (length as) (concat (map (auditValues ident) as)) = map (auditValues ident) as"
  by (induction rs) (auto simp: taskValues_def, induction as, auto simp: auditValues_def)

lemma values_length:
  "length (concat (map (taskValues ident) rs)) = length rs * 5"
  "length (concat (map (auditValues ident) as)) = length as * 4"
  by (induction rs) (auto simp: taskValues_def, induction as, auto simp: auditValues_def)

interpretation ref: mysql_database "refDB acked" sv_committed sv_pending acked
proof (unfold_locales, goal_cases)
  case (1 d ro)
  show ?case unfolding refDB_def sqlDB.simps by (rule ref_begin_law)
next
  case (2 d t)
  then show ?case unfolding refDB_def sqlDB.simps by (rule ref_commit_law)
next
  case (3 d)
  show ?case unfolding refDB_def sqlDB.simps by (rule ref_rollback_law) (simp add: foreign_def)
next
  case (4 d t ident r)
  show ?case unfolding refDB_def sqlDB.simps
    by (rule ref_call_wp[OF 4])
      (auto simp: ref_exec_def ref_row_columns bindR_Inr_iff bindR_Inl_iff split: if_splits)
next
  case (5 d t ident v r)
  show ?case unfolding refDB_def sqlDB.simps
    by (rule ref_call_wp[OF 5])
      (auto simp: ref_exec_def ref_update_def statements_differ ref_row_columns bindR_Inr_iff bindR_Inl_iff
        ParseUint_FormatUint_large unat_version fun_upd_idem
        split: if_splits option.splits)
next
  case (6 d t ident)
  show ?case unfolding refDB_def sqlDB.simps
    by (rule ref_call_wp[OF 6]) (auto simp: ref_exec_def ref_delete_def statements_differ bindR_Inr_iff bindR_Inl_iff)
next
  case (7 d t rs ident)
  show ?case unfolding refDB_def sqlDB.simps
    by (rule ref_call_wp[OF 7(1)])
      (use 7(3) in \<open>auto simp: ref_exec_def insertRows_differ values_length chunks_values bindR_Inr_iff bindR_Inl_iff
        dest: ref_tasks_follow ref_errors\<close>)
next
  case (8 d t as ident)
  show ?case unfolding refDB_def sqlDB.simps
    by (rule ref_call_wp[OF 8(1)])
      (use 8(3) in \<open>auto simp: ref_exec_def insertRows_differ values_length chunks_values bindR_Inr_iff bindR_Inl_iff
        dest: ref_audit_follow ref_errors\<close>)
next
  case (9 d t ident)
  show ?case unfolding refDB_def sqlDB.simps
    by (rule ref_call_wp[OF 9]) (auto simp: ref_query_def statements_differ split: option.splits)
next
  case (10 d t ident)
  show ?case unfolding refDB_def sqlDB.simps
    by (rule ref_call_wp[OF 10]) (auto simp: ref_query_def statements_differ split: option.splits)
next
  case (11 d t ident)
  show ?case unfolding refDB_def sqlDB.simps
    by (rule ref_call_wp[OF 11]) (auto simp: ref_query_def statements_differ split: option.splits)
next
  case (12 d t ident)
  show ?case unfolding refDB_def sqlDB.simps
    by (rule ref_call_wp[OF 12]) (auto simp: ref_query_def)
next
  case (13 d t ident)
  show ?case unfolding refDB_def sqlDB.simps
    by (rule ref_call_wp[OF 13]) (auto simp: ref_query_def statements_differ)
next
  case (14 d)
  show ?case unfolding refDB_def sqlDB.simps
    by (auto simp: wpE_def ref_fault_def split: list.split)
qed

end
