(* ===== verification/MySQLEngine.thy ===== *)
theory MySQLEngine
  imports MySQLReference
begin

text \<open>
  The engine over the MySQL store: \<open>mysql_store\<close> gives every database whose failed commits are
  known not to have happened the contract \<open>store_contract\<close> of the engine, with the instances
  whose texts are valid UTF-8 as those it represents exactly. Which of its slices a private copy
  leaves nil is not part of the aggregate's value; it is an arbitrary choice \<open>ns\<close> for each call.
\<close>

definition mysqlCreate :: "'d mysqlDB \<Rightarrow> ('h, 'd) nilChoice \<Rightarrow> Instance option \<Rightarrow> ('h env \<times> 'd, unit) eff" where
  "mysqlCreate db ns i w = MySQL_Create (Some (MySQL_New (Some db))) (map_option (\<lambda>x. (x, ns w x)) i) w"

definition mysqlLoad :: "'d mysqlDB \<Rightarrow> InstanceID \<Rightarrow> ('h env \<times> 'd, Instance) eff" where
  "mysqlLoad db k = bindE (MySQL_Load (Some (MySQL_New (Some db))) k) (\<lambda>x. ret (fst x))"

definition mysqlSave :: "'d mysqlDB \<Rightarrow> ('h, 'd) nilChoice \<Rightarrow> Instance option \<Rightarrow> u64 \<Rightarrow> ('h env \<times> 'd, unit) eff" where
  "mysqlSave db ns i v w = MySQL_Save (Some (MySQL_New (Some db))) (map_option (\<lambda>x. (x, ns w x)) i) v w"

definition MySQL_ops :: "'d mysqlDB \<Rightarrow> ('h, 'd) nilChoice \<Rightarrow> ('h, 'd) Store" where
  \<comment> \<open>the MySQL store behind the interface \<open>Store\<close>\<close>
  "MySQL_ops db ns = storeOps (mysqlCreate db ns) (mysqlLoad db) (mysqlSave db ns)"

locale mysql_store = mysql_database db tabs pending True
  for db :: "'d mysqlDB" and tabs pending + fixes ns :: "('h, 'd) nilChoice"
  assumes nil_law: "nilOk i (ns w i)"

sublocale mysql_store \<subseteq> request: mysql_request db tabs pending True False ..

sublocale mysql_store \<subseteq> store: store_contract "mysqlCreate db ns" "mysqlLoad db" "mysqlSave db ns"
  "tableView \<circ> tabs" "tablesOk \<circ> tabs" storable
proof (unfold_locales, goal_cases)
  case (1 w i)
  have q: "quietCtx False (fst w)" by (simp add: quietCtx_def)
  show ?case unfolding mysqlCreate_def wpE_def
    using request.Create_wp[OF q refl _ nil_law[of i w]] 1 created_filed
    by (fastforce simp: wpE_def split: option.splits sum.splits)
next
  case (2 w k)
  have q: "quietCtx False (fst w)" by (simp add: quietCtx_def)
  show ?case unfolding mysqlLoad_def wpE_bindE wpE_ret
    by (rule wpE_mono[OF request.Load_wp[OF q refl]]) (use 2 in \<open>auto simp: tableView_def\<close>)
next
  case (3 w i v)
  have q: "quietCtx False (fst w)" by (simp add: quietCtx_def)
  show ?case unfolding mysqlSave_def wpE_def
    using request.Save_wp[OF q refl _ nil_law[of i w]] 3 saved_filed
    by (fastforce simp: wpE_def split: option.splits sum.splits)
qed

context mysql_store
begin

lemma engine_operation_wp:
  assumes "tablesOk (tabs (snd w))" and "storeOk (tableView (tabs (snd w)))"
    and "Option.bind e e_store = Some (MySQL_ops db ns)" and "op \<in> engineOperations e"
  shows "wpE True
    (\<lambda>c w'. tablesOk (tabs (snd w')) \<and>
       replacedOne (tableView (tabs (snd w))) c ((tableView (tabs (snd w)))(i_ID c \<mapsto> c)) \<and>
       filed storable (tableView (tabs (snd w))) c (tableView (tabs (snd w'))))
    (\<lambda>_ w'. tablesOk (tabs (snd w')) \<and> tableView (tabs (snd w')) = tableView (tabs (snd w))) op w"
  by (rule wpE_mono[OF store.operation_wp[OF _ _ assms(3)[unfolded MySQL_ops_def] assms(4)]])
    (use assms(1,2) in auto)

end

interpretation ref_request: mysql_request "refDB acked" sv_committed sv_pending acked c for acked c ..

interpretation ref_store: mysql_store "refDB True" sv_committed sv_pending
  "\<lambda>_ _. \<lparr>nil_Nodes = False, nil_Edges = False, nil_Tasks = False, nil_Audit = False\<rparr>"
  by unfold_locales (simp add: nilOk_def)

end
