(* ===== verification/MySQLExamples.thy ===== *)
theory MySQLExamples
  imports MySQLEngine Examples "HOL-Library.Code_Target_Nat"
begin

text \<open>
  Runs of the MySQL store on the database of \<open>MySQLReference\<close>, for the witnesses: a definition that
  goes straight from start to end, the instance its start creates, and a later snapshot of it.
  \<open>Code_Target_Nat\<close> makes evaluation compute with binary naturals.
\<close>

definition noNil :: nilSlices where
  "noNil = \<lparr>nil_Nodes = False, nil_Edges = False, nil_Tasks = False, nil_Audit = False\<rparr>"

definition tinyDefinition :: Definition where
  "tinyDefinition = \<lparr>d_ID = ''d'', d_Version = 1,
     d_Nodes = [\<lparr>nd_ID = ''s'', nd_Kind = KindStart, nd_Config = None\<rparr>,
                \<lparr>nd_ID = ''e'', nd_Kind = KindEnd, nd_Config = None\<rparr>],
     d_Edges = [\<lparr>e_From = ''s'', e_To = ''e'', e_Outcome = []\<rparr>]\<rparr>"

definition tinyStart :: StartRequest where
  "tinyStart = \<lparr>sr_ID = ''i'', sr_Initiator = ''j'', sr_Data = None\<rparr>"

definition tinyDone :: Instance where
  "tinyDone = \<lparr>i_ID = ''i'', i_Definition = tinyDefinition, i_Status = InstanceStatusCompleted,
     i_Initiator = ''j'', i_CurrentNodeID = ''e'', i_Data = None, i_NodeState = None, i_Tasks = [],
     i_Audit = [emptyAudit\<lparr>a_Action := auditInstanceStarted, a_NodeID := ''s'', a_ActorID := ''j'', a_At := 1\<rparr>,
                emptyAudit\<lparr>a_Action := auditNodeEntered, a_NodeID := ''e'', a_At := 2\<rparr>,
                emptyAudit\<lparr>a_Action := auditInstanceCompleted, a_NodeID := ''e'', a_At := 3\<rparr>], i_Version = 1\<rparr>"

definition tinyLater :: Instance where
  "tinyLater = tinyDone\<lparr>i_Audit := i_Audit tinyDone @ [emptyAudit\<lparr>a_Action := ''x'', a_At := 4\<rparr>], i_Version := 2\<rparr>"

definition tinyStore :: "tables server MySQLStore option" where
  "tinyStore = Some (MySQL_New (Some (refDB True)))"

definition tinyEngine :: "(unit, tables server) Engine option" where
  "tinyEngine = Some (NewEngine (Some (MySQL_ops (refDB True) (\<lambda>_ _. noNil))) (Some demoRegistry))"

definition endsIn :: "('a \<Rightarrow> 'd \<Rightarrow> bool) \<Rightarrow> ('a result \<times> ('e \<times> 'd)) option \<Rightarrow> bool" where
  "endsIn P r = (case r of Some (Inr x, (_, d)) \<Rightarrow> P x d | _ \<Rightarrow> False)"

lemma endsIn_iff: "endsIn P r \<longleftrightarrow> (\<exists>x w d. r = Some (Inr x, (w, d)) \<and> P x d)"
  by (auto simp: endsIn_def split: option.split sum.split)

lemma tiny_store_runs:
  "endsIn (\<lambda>_ d1. 
      endsIn (\<lambda>x _. x = (tinyDone, noNil)) (MySQL_Load tinyStore ''i'' (demoEnv, d1)) \<and>
      endsIn (\<lambda>_ _. True) (MySQL_Save tinyStore (Some (tinyLater, noNil)) 1 (demoEnv, d1)))
    (MySQL_Create tinyStore (Some (tinyDone, noNil)) (demoEnv, ref_server noTables []))"
  by code_simp

lemma tiny_engine_runs:
  "endsIn (\<lambda>c _. c = tinyDone) (Start tinyEngine (Some tinyDefinition) tinyStart (demoEnv, ref_server noTables []))"
  by code_simp

lemma tiny_facts:
  "nilOk tinyDone noNil" "nilOk tinyLater noNil" "quietCtx c demoEnv" "tablesOk (sv_committed (ref_server noTables faults))"
  "tableView (sv_committed (ref_server noTables faults)) = Map.empty" "nilOk i noNil"
  by (simp_all add: nilOk_def noNil_def quietCtx_def demoEnv_def quietEnv_def ref_server_def)

lemma tiny_create:
  obtains w1 d1 w2 d2 w3 d3 where
    "MySQL_Create tinyStore (Some (tinyDone, noNil)) (demoEnv, ref_server noTables []) = Some (Inr (), (w1, d1))"
    "MySQL_Load tinyStore ''i'' (demoEnv, d1) = Some (Inr (tinyDone, noNil), (w2, d2))"
    "MySQL_Save tinyStore (Some (tinyLater, noNil)) 1 (demoEnv, d1) = Some (Inr (), (w3, d3))"
    "created noTables tinyDone noNil (sv_committed d1)"
proof -
  obtain w1 d1 w2 d2 w3 d3 where
    run: "MySQL_Create tinyStore (Some (tinyDone, noNil)) (demoEnv, ref_server noTables []) = Some (Inr (), (w1, d1))"
    "MySQL_Load tinyStore ''i'' (demoEnv, d1) = Some (Inr (tinyDone, noNil), (w2, d2))"
    "MySQL_Save tinyStore (Some (tinyLater, noNil)) 1 (demoEnv, d1) = Some (Inr (), (w3, d3))"
    using tiny_store_runs by (auto simp: endsIn_iff)
  have "created noTables tinyDone noNil (sv_committed d1)"
    using ref_request.Create_wp[of False "(demoEnv, ref_server noTables [])", OF _ refl _ tiny_facts(1), of True] run(1)
    by (auto simp: wpE_def tinyStore_def tiny_facts) (simp add: ref_server_def)
  with run that show thesis by blast
qed

end
