(* ===== verification/MySQLStore.thy ===== *)
theory MySQLStore
  imports MySQLExamples
begin

text \<open>
  The properties of the MySQL store, over any database that behaves as \<open>mysql_database\<close> says, and
  their instances on the database of \<open>MySQLReference\<close>.
\<close>

subsection \<open>When the driver returns\<close>

definition driverReturns :: "'d mysqlDB \<Rightarrow> bool" where
  "driverReturns db \<longleftrightarrow> (\<forall>ro d. db_BeginTx db ro d \<noteq> None) \<and> (\<forall>q args d. tx_Exec db q args d \<noteq> None) \<and>
     (\<forall>q args d. tx_Query db q args d \<noteq> None) \<and> (\<forall>d. tx_Commit db d \<noteq> None) \<and>
     (\<forall>d. tx_Rollback db d \<noteq> None) \<and> (\<forall>d. rollback_late db d \<noteq> None)"

definition returns :: "('w, 'a) eff \<Rightarrow> bool" where
  "returns m \<longleftrightarrow> (\<forall>w. m w \<noteq> None)"

lemma returns_intros [intro]:
  "returns (ret x)" "returns (raise e)" "returns (liftR r)"
  "returns m \<Longrightarrow> (\<And>x. returns (k x)) \<Longrightarrow> returns (bindE m k)"
  "returns f \<Longrightarrow> returns (onFst f)" "returns g \<Longrightarrow> returns (onSnd g)" "returns m \<Longrightarrow> returns (tryE m)"
  "returns ctxErr"
  by (auto simp: returns_def bindE_None_iff ret_def raise_def liftR_def onFst_def onSnd_def tryE_def
      ctxErr_def split: option.splits prod.splits)

lemma driver_intros:
  assumes "driverReturns db"
  shows "returns (db_BeginTx db ro)" "returns (tx_Exec db q args)" "returns (tx_Query db q args)"
    "returns (tx_Commit db)" "returns (tx_Rollback db)" "returns (rollback_late db)"
  using assms by (auto simp: driverReturns_def returns_def)

lemma queryRow_returns: "driverReturns db \<Longrightarrow> returns (queryRow db q args)"
  by (auto simp: queryRow_def intro!: returns_intros driver_intros split: prod.split list.split sum.split)

lemma loadRows_returns: "driverReturns db \<Longrightarrow> returns (loadRows db q ident decode isNil)"
  by (auto simp: loadRows_def intro!: returns_intros driver_intros split: prod.split)

lemma insertRows_returns: "driverReturns db \<Longrightarrow> returns (insertRows db table columns rows)"
proof (induction db table columns rows rule: insertRows.induct)
  case (1 db table columns rows)
  then show ?case
    by (subst insertRows.simps) (auto simp: Let_def intro!: returns_intros driver_intros)
qed

lemma withTransaction_returns: "driverReturns db \<Longrightarrow> returns m \<Longrightarrow> returns (withTransaction db ro m)"
  by (auto simp: withTransaction_def deferRollback_def deferCleanup_def rollbackTransaction_def classifyCommitError_def
      intro!: returns_intros driver_intros split: sum.split)

lemma operation_steps_return:
  assumes "driverReturns db"
  shows "returns (loadSnapshot db ident)" "returns (insertTasks db ident tasks)" "returns (insertAudit db ident audit k)"
    "returns (validateAuditAppend db ident candidate)" "returns (instanceExists db ident)"
    "returns (classifyFailedCAS db ident v)" "returns (replaceCollections db ident s k)"
proof -
  show i: "returns (insertTasks db ident tasks)" "returns (insertAudit db ident audit k)" for tasks audit k
    using assms by (auto simp: insertTasks_def insertAudit_def intro!: returns_intros insertRows_returns)
  show "returns (replaceCollections db ident s k)"
    using assms by (auto simp: replaceCollections_def intro!: returns_intros driver_intros i)
qed (use assms in \<open>auto simp: loadSnapshot_def readSnapshot_def loadTasks_def loadAudit_def validateAuditAppend_def instanceExists_def
    classifyFailedCAS_def intro!: returns_intros driver_intros queryRow_returns loadRows_returns split: sum.split prod.split\<close>)

text \<open>
  The store always answers when the driver does: if every driver call returns, \<open>Create\<close>,
  \<open>Load\<close> and \<open>Save\<close> return from every state, for every argument (nil handles included), with the batch
  loop of the inserts and the deferred rollback.
\<close>

theorem mysql_operations_return:
  assumes "\<forall>db. Option.bind s ms_db = Some db \<longrightarrow> driverReturns db"
  shows "MySQL_Create s x w \<noteq> None \<and> MySQL_Load s k w \<noteq> None \<and> MySQL_Save s x v w \<noteq> None"
proof -
  note intros = returns_intros driver_intros withTransaction_returns operation_steps_return
  have "returns (MySQL_Create s x)" "returns (MySQL_Load s k)" "returns (MySQL_Save s x v)"
    using assms
    by (auto simp: MySQL_Create_def MySQL_Load_def MySQL_Save_def Let_def intro!: intros
        split: option.split prod.split sum.split)
  then show ?thesis unfolding returns_def by blast
qed

lemma ref_driverReturns: "driverReturns (refDB acked)"
  by (auto simp: driverReturns_def refDB_def ref_call_def ref_begin_def ref_commit_def ref_rollback_def bindE_def ref_fault_def Let_def
      split: option.split list.split sum.split)

theorem mysql_operations_return_witness:
  "\<exists>r. MySQL_Load (Some (MySQL_New (Some (refDB True)))) ''i'' (demoEnv, ref_server noTables [True]) = Some r"
  using mysql_operations_return[of "Some (MySQL_New (Some (refDB True)))" None "(demoEnv, ref_server noTables [True])" "''i''" 0]
  by (simp add: MySQL_New_def ref_driverReturns)

subsection \<open>Create, Load and Save\<close>

lemma requests: "mysql_database db tabs opened acked \<Longrightarrow> mysql_request db tabs opened acked"
  by (simp add: mysql_request_def sql_request_def mysql_database_def)

text \<open>
  C28. \<open>Create\<close> is atomic: if it succeeds, the identity was unused and not empty, and one
  transaction has filed every row of the aggregate, so that the tables now hold the instance (as
  JSON keeps it: \<open>cleanInstance\<close>) with its nil slices, and nothing else changed. If it fails, the tables
  are as before, unless the database lost the answer of a commit that happened; and it reports
  \<open>ErrInstanceExists\<close> only for an identity that exists.
\<close>

theorem mysql_Create_atomic:
  assumes "mysql_database db tabs opened acked" and "tablesOk (tabs d)" and "nilOk i n" and "quietCtx True w"
    and "MySQL_Create (Some (MySQL_New (Some db))) (Some (i, n)) (w, d) = Some (r, (w', d'))"
  shows "case r of
      Inr _ \<Rightarrow> created (tabs d) i n (tabs d')
    | Inl e \<Rightarrow> (errors_Is e ErrInstanceExists \<longrightarrow> tb_instances (tabs d) (i_ID i) \<noteq> None) \<and>
        (tabs d' = tabs d \<or> \<not> acked \<and> foreign e \<and> created (tabs d) i n (tabs d'))"
  using mysql_request.Create_wp[OF requests[OF assms(1)], of True "(w, d)", OF _ refl _ assms(3)] assms(2,4,5)
  by (auto simp: wpE_def reports_def expected_def split: sum.split)


theorem mysql_Create_atomic_witness:
  "\<exists>w' d'. MySQL_Create tinyStore (Some (tinyDone, noNil)) (demoEnv, ref_server noTables []) = Some (Inr (), (w', d')) \<and>
     created noTables tinyDone noNil (sv_committed d')"
proof -
  obtain w1 d1 where run: "MySQL_Create tinyStore (Some (tinyDone, noNil)) (demoEnv, ref_server noTables []) =
      Some (Inr (), (w1, d1))"
    by (rule tiny_create)
  from mysql_Create_atomic[OF ref.mysql_database_axioms tiny_facts(4,1,3) this[unfolded tinyStore_def]] run
  show ?thesis by (auto simp: ref_server_def)
qed

text \<open>
  \<open>Load\<close> is exact: it answers the aggregate the tables hold under the identity, with its nil
  slices, decoded from rows that all belong to one transaction; it changes nothing, whatever
  happens, and reports \<open>ErrInstanceNotFound\<close> only if there is no such row.
\<close>

theorem mysql_Load_exact:
  assumes "mysql_database db tabs opened acked" and "quietCtx True w"
    and "MySQL_Load (Some (MySQL_New (Some db))) k (w, d) = Some (r, (w', d'))"
  shows "tabs d' = tabs d \<and> (case r of
      Inr x \<Rightarrow> tableEntry (tabs d) k = Some x
    | Inl e \<Rightarrow> errors_Is e ErrInstanceNotFound \<longrightarrow> tb_instances (tabs d) k = None)"
  using mysql_request.Load_wp[OF requests[OF assms(1)], of True "(w, d)", OF _ refl, where ident = k] assms(2,3)
  by (auto simp: wpE_def reports_def split: sum.split)

theorem mysql_Load_exact_witness:
  "\<exists>d w' d'. MySQL_Load tinyStore ''i'' (demoEnv, d) = Some (Inr (tinyDone, noNil), (w', d')) \<and>
     tableEntry (sv_committed d) ''i'' = Some (tinyDone, noNil)"
proof -
  obtain d1 w2 d2 where run: "MySQL_Load tinyStore ''i'' (demoEnv, d1) = Some (Inr (tinyDone, noNil), (w2, d2))"
    by (rule tiny_create)
  from mysql_Load_exact[OF ref.mysql_database_axioms tiny_facts(3) this[unfolded tinyStore_def]] run
  show ?thesis by auto
qed

text \<open>
  C29. \<open>Save\<close> is an atomic compare-and-swap with an append-only audit: if it succeeds, the tables
  held a snapshot with the expected version whose audit is a prefix of the new one, and now hold
  the new aggregate in its place, with the stored audit rows kept as they are, and nothing else changed.
  If it fails, the tables are as before, unless the answer of a commit that happened was lost. It
  reports \<open>ErrInstanceNotFound\<close> only without such a row, and \<open>ErrVersionConflict\<close> only if the stored
  version is another one.
\<close>

theorem mysql_Save_atomic:
  assumes "mysql_database db tabs opened acked" and "tablesOk (tabs d)" and "nilOk i n" and "quietCtx True w"
    and "MySQL_Save (Some (MySQL_New (Some db))) (Some (i, n)) v (w, d) = Some (r, (w', d'))"
  shows "case r of
      Inr _ \<Rightarrow> saved (tabs d) i n v (tabs d')
    | Inl e \<Rightarrow> (errors_Is e ErrInstanceNotFound \<longrightarrow> tb_instances (tabs d) (i_ID i) = None) \<and>
        (errors_Is e ErrVersionConflict \<longrightarrow>
          (\<exists>old m. tableEntry (tabs d) (i_ID i) = Some (old, m) \<and> i_Version old \<noteq> v)) \<and>
        (tabs d' = tabs d \<or> \<not> acked \<and> foreign e \<and> saved (tabs d) i n v (tabs d'))"
  using mysql_request.Save_wp[OF requests[OF assms(1)], of True "(w, d)", OF _ refl _ assms(3), where v = v] assms(2,4,5)
  by (auto simp: wpE_def reports_def expected_def split: sum.split)

theorem mysql_Save_atomic_witness:
  "\<exists>d w' d'. MySQL_Save tinyStore (Some (tinyLater, noNil)) 1 (demoEnv, d) = Some (Inr (), (w', d')) \<and>
     saved (sv_committed d) tinyLater noNil 1 (sv_committed d')"
proof -
  obtain d1 w3 d3 where run: "MySQL_Save tinyStore (Some (tinyLater, noNil)) 1 (demoEnv, d1) = Some (Inr (), (w3, d3))"
    and "created noTables tinyDone noNil (sv_committed d1)"
    by (rule tiny_create)
  then have ok: "tablesOk (sv_committed d1)" by (simp add: created_def)
  from mysql_Save_atomic[OF ref.mysql_database_axioms ok tiny_facts(2,3) run[unfolded tinyStore_def]] run
  show ?thesis by auto
qed

text \<open>
  C30. What is created is loaded back: a later \<open>Load\<close> by any request, while the tables are the same,
  answers the created aggregate with its nil slices, with every byte that is not UTF-8 in a text of
  a task, an audit record or the definition replaced by U+FFFD. It is the aggregate itself exactly if
  those texts are UTF-8 and the statuses use their own constructors.
\<close>

theorem mysql_round_trip:
  assumes "mysql_database db tabs opened acked" and "tablesOk (tabs d)" and "nilOk i n"
    and "MySQL_Create (Some (MySQL_New (Some db))) (Some (i, n)) (w, d) = Some (Inr (), (w1, d1))"
    and "tabs d2 = tabs d1"
    and "MySQL_Load (Some (MySQL_New (Some db))) (i_ID i) (w2, d2) = Some (Inr (j, m), (w3, d3))"
  shows "j = cleanInstance i \<and> m = n \<and> (j = i \<longleftrightarrow> storable i)"
proof -
  note request = requests[OF assms(1)]
  have q: "quietCtx False e" for e :: "'x env" by (simp add: quietCtx_def)
  have "created (tabs d) i n (tabs d1)"
    using mysql_request.Create_wp[OF request, of False "(w, d)", OF _ refl _ assms(3)] assms(2,4) q
    by (auto simp: wpE_def)
  moreover have "tableEntry (tabs d1) (i_ID i) = Some (j, m)"
    using mysql_request.Load_wp[OF request, of False "(w2, d2)", OF _ refl, where ident = "i_ID i"] assms(5,6) q by (auto simp: wpE_def)
  ultimately show ?thesis using cleanInstance_id[of i] by (auto simp: created_def)
qed

theorem mysql_round_trip_witness:
  "cleanInstance tinyDone = tinyDone \<and> storable tinyDone"
proof -
  obtain w1 d1 w2 d2 where
    run: "MySQL_Create tinyStore (Some (tinyDone, noNil)) (demoEnv, ref_server noTables []) = Some (Inr (), (w1, d1))"
    "MySQL_Load tinyStore ''i'' (demoEnv, d1) = Some (Inr (tinyDone, noNil), (w2, d2))"
    by (rule tiny_create)
  have "''i'' = i_ID tinyDone" by (simp add: tinyDone_def)
  from mysql_round_trip[OF ref.mysql_database_axioms tiny_facts(4,1) run(1)[unfolded tinyStore_def] refl
      run(2)[unfolded tinyStore_def this]]
  show ?thesis by simp
qed

subsection \<open>The engine over the store\<close>

text \<open>
  C31. The engine keeps its promises over MySQL: over any database whose failed commits did not
  happen, a successful operation of the engine computes the successor it promises (\<open>replacedOne\<close>), files
  nothing but the answered snapshot under its identity, exactly if its texts are valid UTF-8,
  and keeps the tables well formed; a failed operation leaves the stored instances as they were.
\<close>

theorem engine_over_mysql:
  assumes "mysql_database db tabs opened True" and "\<forall>w i. nilOk i (ns w i)"
    and "tablesOk (tabs d)" and "storeOk (tableView (tabs d))"
    and "Option.bind e e_store = Some (MySQL_ops db ns)" and "op \<in> engineOperations e"
    and "op (w, d) = Some (r, (w', d'))"
  shows "tablesOk (tabs d') \<and> (case r of
      Inl _ \<Rightarrow> tableView (tabs d') = tableView (tabs d)
    | Inr c \<Rightarrow> replacedOne (tableView (tabs d)) c ((tableView (tabs d))(i_ID c \<mapsto> c)) \<and>
        filed storable (tableView (tabs d)) c (tableView (tabs d')))"
proof -
  have "mysql_store db tabs opened ns"
    using assms(1,2) by (simp add: mysql_store_def mysql_store_axioms_def)
  from mysql_store.engine_operation_wp[OF this, of "(w, d)", OF _ _ assms(5,6)] show ?thesis
    using assms(3,4,7) by (auto simp: wpE_def split: sum.split)
qed

theorem engine_over_mysql_witness:
  "\<exists>w' d'. Start tinyEngine (Some tinyDefinition) tinyStart (demoEnv, ref_server noTables []) =
     Some (Inr tinyDone, (w', d')) \<and>
     filed storable Map.empty tinyDone (tableView (sv_committed d')) \<and> replacedOne Map.empty tinyDone [''i'' \<mapsto> tinyDone]"
proof -
  obtain w' d' where run: "Start tinyEngine (Some tinyDefinition) tinyStart (demoEnv, ref_server noTables []) =
      Some (Inr tinyDone, (w', d'))"
    using tiny_engine_runs by (auto simp: endsIn_iff)
  have op: "Start tinyEngine (Some tinyDefinition) tinyStart \<in> engineOperations tinyEngine"
    unfolding engineOperations_def by blast
  have store: "Option.bind tinyEngine e_store = Some (MySQL_ops (refDB True) (\<lambda>_ _. noNil))"
    by (simp add: tinyEngine_def NewEngine_def)
  have nil: "\<forall>w i. nilOk i noNil" by (simp add: tiny_facts)
  have "i_ID tinyDone = ''i''" by (simp add: tinyDone_def)
  with engine_over_mysql[OF ref.mysql_database_axioms _ tiny_facts(4) _ store op run] nil run show ?thesis
    by (auto simp: tiny_facts storeOk_def)
qed

end
