(* ===== verification/Pgx.thy ===== *)
theory Pgx
  imports Sql
begin

text \<open>
  The database boundary of the PostgreSQL adapter: the pool as a record of driver calls, the read
  model tables of migration 0002, the adapter's statements (the texts of the constants, with each
  run of white space written as one blank), and the locale \<open>pg_database\<close> of the documented behaviour of
  PostgreSQL it relies on. Time stamps are stored in microseconds; a text column takes valid UTF-8
  only; texts are compared in the order of the database's collation, a parameter.
\<close>

record 'd pgxPool = "'d sqlDB" +
  tx_CopyFrom :: "string \<Rightarrow> string list \<Rightarrow> sqlValue list list \<Rightarrow> ('d, unit) eff"
  pool_Query :: "string \<Rightarrow> sqlValue list \<Rightarrow> ('d, sqlValue list list \<times> unit result) eff"

subsection \<open>Tables (migrations/0002)\<close>

record projectionRow =
  pj_definition_id :: string
  pj_definition_version :: nat
  pj_instance_status :: string
  pj_initiator :: string
  pj_current_node_id :: string
  pj_started_at :: "time option"
  pj_last_audit_at :: "time option"
  pj_order_at :: time

record participationRow =
  pp_ordinal :: nat
  pp_task_id :: string
  pp_actor_id :: string
  pp_node_id :: string
  pp_task_status :: string
  pp_outcome :: string

record pgTables =
  pg_facts :: tables
  pg_instances :: "InstanceID \<rightharpoonup> projectionRow"
  pg_participation :: "InstanceID \<Rightarrow> participationRow list"

definition pgTime :: "time \<Rightarrow> time" where
  \<comment> \<open>what a \<open>TIMESTAMPTZ\<close> column keeps of an instant\<close>
  "pgTime t = t - t mod 1000"

definition timeArg :: "time option \<Rightarrow> sqlValue" where
  "timeArg t = (case t of None \<Rightarrow> SqlNull | Some x \<Rightarrow> SqlTime x)"

definition storedTimes :: "projectionRow \<Rightarrow> projectionRow" where
  "storedTimes r = r\<lparr>pj_started_at := map_option pgTime (pj_started_at r),
     pj_last_audit_at := map_option pgTime (pj_last_audit_at r), pj_order_at := pgTime (pj_order_at r)\<rparr>"

definition participationTable :: string where
  "participationTable = ''easy_workflow_participation_projection''"
definition participationColumns :: "string list" where
  "participationColumns = [''instance_id'', ''task_ordinal'', ''task_id'', ''actor_id'', ''node_id'',
     ''task_status'', ''outcome'']"

definition participationValues :: "InstanceID \<Rightarrow> participationRow \<Rightarrow> sqlValue list" where
  "participationValues ident r = [SqlText ident, SqlInt (int (pp_ordinal r)), SqlText (pp_task_id r),
     SqlText (pp_actor_id r), SqlText (pp_node_id r), SqlText (pp_task_status r), SqlText (pp_outcome r)]"

definition participationTexts :: "participationRow \<Rightarrow> string list" where
  "participationTexts r = [pp_task_id r, pp_actor_id r, pp_node_id r, pp_task_status r, pp_outcome r]"

subsection \<open>Statements of the store (postgres/store.go, postgres/projection_write.go)\<close>

definition pg_insertInstanceSQL :: string where
  "pg_insertInstanceSQL = ''INSERT INTO easy_workflow_instances (id, definition, status, initiator, current_node_id, data, node_state, tasks_is_nil, audit_is_nil, version) VALUES ($1, $2, $3, $4, $5, $6, $7, $8, $9, $10::numeric)''"
definition pg_loadInstanceSQL :: string where
  "pg_loadInstanceSQL = ''SELECT definition, status, initiator, current_node_id, data, node_state, tasks_is_nil, audit_is_nil, version::text FROM easy_workflow_instances WHERE id = $1''"
definition pg_updateInstanceSQL :: string where
  "pg_updateInstanceSQL = ''UPDATE easy_workflow_instances SET definition = $2, status = $3, initiator = $4, current_node_id = $5, data = $6, node_state = $7, tasks_is_nil = $8, audit_is_nil = $9, version = $10::numeric WHERE id = $1 AND version = $11::numeric''"
definition pg_instanceExistsSQL :: string where
  "pg_instanceExistsSQL = ''SELECT EXISTS (SELECT 1 FROM easy_workflow_instances WHERE id = $1)''"
definition pg_deleteTasksSQL :: string where
  "pg_deleteTasksSQL = ''DELETE FROM easy_workflow_tasks WHERE instance_id = $1''"
definition pg_loadTasksSQL :: string where
  "pg_loadTasksSQL = ''SELECT payload FROM easy_workflow_tasks WHERE instance_id = $1 ORDER BY ordinal''"
definition pg_loadAuditSQL :: string where
  "pg_loadAuditSQL = ''SELECT payload FROM easy_workflow_audit WHERE instance_id = $1 ORDER BY ordinal''"
definition upsertInstanceProjectionSQL :: string where
  "upsertInstanceProjectionSQL = ''INSERT INTO easy_workflow_instance_projection (instance_id, definition_id, definition_version, instance_status, initiator, current_node_id, started_at, last_audit_at, order_at) VALUES ($1, $2, $3::numeric, $4, $5, $6, $7, $8, $9) ON CONFLICT (instance_id) DO UPDATE SET definition_id = EXCLUDED.definition_id, definition_version = EXCLUDED.definition_version, instance_status = EXCLUDED.instance_status, initiator = EXCLUDED.initiator, current_node_id = EXCLUDED.current_node_id, started_at = EXCLUDED.started_at, last_audit_at = EXCLUDED.last_audit_at, order_at = EXCLUDED.order_at''"
definition deleteParticipationProjectionSQL :: string where
  "deleteParticipationProjectionSQL = ''DELETE FROM easy_workflow_participation_projection WHERE instance_id = $1''"

subsection \<open>Statements of the projection (postgres/projection_task.go, postgres/projection_instance.go)\<close>

definition sqlQuote :: "string \<Rightarrow> string" where
  "sqlQuote s = [CHR 0x27] @ s @ [CHR 0x27]"

definition worklistSQL :: string where
  "worklistSQL = ''SELECT i.definition_id, i.definition_version::text, i.instance_id, i.instance_status, i.initiator, p.node_id, p.task_id, p.actor_id, p.task_status, p.outcome, i.started_at, i.last_audit_at, i.order_at FROM easy_workflow_participation_projection AS p JOIN easy_workflow_instance_projection AS i ON i.instance_id = p.instance_id WHERE p.actor_id = $1 AND p.task_status = '' @ sqlQuote ''active'' @ '' AND i.instance_status = '' @ sqlQuote ''running'' @ '' AND ($2::text[] IS NULL OR i.instance_id = ANY($2::text[])) AND (NOT $3::boolean OR i.order_at < $4 OR (i.order_at = $4 AND i.instance_id > $5) OR (i.order_at = $4 AND i.instance_id = $5 AND p.task_id > $6)) ORDER BY i.order_at DESC, i.instance_id ASC, p.task_id ASC LIMIT $7''"
definition participatedSQL :: string where
  "participatedSQL = ''SELECT i.definition_id, i.definition_version::text, i.instance_id, i.instance_status, i.initiator, p.node_id, p.task_id, p.actor_id, p.task_status, p.outcome, i.started_at, i.last_audit_at, i.order_at FROM easy_workflow_participation_projection AS p JOIN easy_workflow_instance_projection AS i ON i.instance_id = p.instance_id WHERE p.actor_id = $1 AND p.task_status IN ('' @ sqlQuote ''completed'' @ '', '' @ sqlQuote ''closed'' @ '') AND ($2::text[] IS NULL OR i.instance_id = ANY($2::text[])) AND (NOT $3::boolean OR i.order_at < $4 OR (i.order_at = $4 AND i.instance_id > $5) OR (i.order_at = $4 AND i.instance_id = $5 AND p.task_id > $6)) ORDER BY i.order_at DESC, i.instance_id ASC, p.task_id ASC LIMIT $7''"
definition initiatedSQL :: string where
  "initiatedSQL = ''SELECT definition_id, definition_version::text, instance_id, instance_status, initiator, current_node_id, started_at, last_audit_at, order_at FROM easy_workflow_instance_projection WHERE initiator = $1 AND ($2::text[] IS NULL OR instance_id = ANY($2::text[])) AND (NOT $3::boolean OR order_at < $4 OR (order_at = $4 AND instance_id > $5)) ORDER BY order_at DESC, instance_id ASC LIMIT $6''"

subsection \<open>Joined rows and their order\<close>

definition scopeAllows :: "string list option \<Rightarrow> string \<Rightarrow> bool" where
  \<comment> \<open>\<open>$2::text[] IS NULL OR instance_id = ANY($2::text[])\<close>\<close>
  "scopeAllows scope ident \<longleftrightarrow> (case scope of None \<Rightarrow> True | Some ids \<Rightarrow> ident \<in> set ids)"

type_synonym taskJoin = "InstanceID \<times> projectionRow \<times> participationRow"
type_synonym instanceJoin = "InstanceID \<times> projectionRow"

definition taskColumnsOf :: "taskJoin \<Rightarrow> sqlValue list" where
  "taskColumnsOf = (\<lambda>(ident, r, p). [SqlText (pj_definition_id r), SqlText (FormatUint (pj_definition_version r)),
     SqlText ident, SqlText (pj_instance_status r), SqlText (pj_initiator r), SqlText (pp_node_id p),
     SqlText (pp_task_id p), SqlText (pp_actor_id p), SqlText (pp_task_status p), SqlText (pp_outcome p),
     timeArg (pj_started_at r), timeArg (pj_last_audit_at r), SqlTime (pj_order_at r)])"

definition instanceColumnsOf :: "instanceJoin \<Rightarrow> sqlValue list" where
  "instanceColumnsOf = (\<lambda>(ident, r). [SqlText (pj_definition_id r), SqlText (FormatUint (pj_definition_version r)),
     SqlText ident, SqlText (pj_instance_status r), SqlText (pj_initiator r), SqlText (pj_current_node_id r),
     timeArg (pj_started_at r), timeArg (pj_last_audit_at r), SqlTime (pj_order_at r)])"

definition taskJoins :: "pgTables \<Rightarrow> taskJoin set" where
  "taskJoins t = {(ident, r, p). pg_instances t ident = Some r \<and> p \<in> set (pg_participation t ident)}"

definition instanceJoins :: "pgTables \<Rightarrow> instanceJoin set" where
  "instanceJoins t = {(ident, r). pg_instances t ident = Some r}"

definition inWorklist :: "string \<Rightarrow> taskJoin \<Rightarrow> bool" where
  "inWorklist actor = (\<lambda>(ident, r, p). pp_actor_id p = actor \<and> pp_task_status p = ''active'' \<and>
     pj_instance_status r = ''running'')"

definition hasParticipated :: "string \<Rightarrow> taskJoin \<Rightarrow> bool" where
  "hasParticipated actor = (\<lambda>(ident, r, p). pp_actor_id p = actor \<and>
     (pp_task_status p = ''completed'' \<or> pp_task_status p = ''closed''))"

definition hasInitiated :: "string \<Rightarrow> instanceJoin \<Rightarrow> bool" where
  "hasInitiated actor = (\<lambda>(ident, r). pj_initiator r = actor)"

definition taskKey :: "taskJoin \<Rightarrow> time \<times> string \<times> string" where
  "taskKey = (\<lambda>(ident, r, p). (pj_order_at r, ident, pp_task_id p))"

definition instanceKey :: "instanceJoin \<Rightarrow> time \<times> string" where
  "instanceKey = (\<lambda>(ident, r). (pj_order_at r, ident))"

fun taskBefore :: "(string \<Rightarrow> string \<Rightarrow> bool) \<Rightarrow> time \<times> string \<times> string \<Rightarrow> time \<times> string \<times> string \<Rightarrow> bool" where
  \<comment> \<open>\<open>ORDER BY order_at DESC, instance_id ASC, task_id ASC\<close>\<close>
  "taskBefore lt (a, i, k) (a', i', k') \<longleftrightarrow> a > a' \<or> a = a' \<and> (lt i i' \<or> i = i' \<and> lt k k')"

fun instanceBefore :: "(string \<Rightarrow> string \<Rightarrow> bool) \<Rightarrow> time \<times> string \<Rightarrow> time \<times> string \<Rightarrow> bool" where
  "instanceBefore lt (a, i) (a', i') \<longleftrightarrow> a > a' \<or> a = a' \<and> lt i i'"

definition selects :: "('k \<Rightarrow> 'k \<Rightarrow> bool) \<Rightarrow> ('r \<Rightarrow> 'k) \<Rightarrow> 'r set \<Rightarrow> 'r list \<Rightarrow> bool" where
  \<comment> \<open>the rows of a set, in order\<close>
  "selects before key R rs \<longleftrightarrow> set rs = R \<and> sorted_wrt before (map key rs)"

definition textOrder :: "(string \<Rightarrow> string \<Rightarrow> bool) \<Rightarrow> bool" where
  \<comment> \<open>a deterministic collation is a strict total order\<close>
  "textOrder lt \<longleftrightarrow> (\<forall>a. \<not> lt a a) \<and> (\<forall>a b c. lt a b \<longrightarrow> lt b c \<longrightarrow> lt a c) \<and>
     (\<forall>a b. a \<noteq> b \<longrightarrow> lt a b \<or> lt b a)"

subsection \<open>What the adapter relies on\<close>

definition isDuplicateInstanceError :: "err \<Rightarrow> bool" where
  \<comment> \<open>\<open>errors.As\<close> finds the first \<open>PgError\<close> of the chain\<close>
  "isDuplicateInstanceError err \<longleftrightarrow>
     (case List.find (\<lambda>s. case s of PgError _ _ \<Rightarrow> True | _ \<Rightarrow> False) err of
        Some (PgError code constraint) \<Rightarrow> code = ''23505'' \<and> constraint = ''easy_workflow_instances_pkey''
      | _ \<Rightarrow> False)"

locale pg_database = sql_transactions db committed pending acked PgxErrTxClosed
  for db :: "'d pgxPool"
    and committed :: "'d \<Rightarrow> pgTables" and pending :: "'d \<Rightarrow> pgTables option" and acked :: bool +
  fixes text_less :: "string \<Rightarrow> string \<Rightarrow> bool"  \<comment> \<open>the collation of the database\<close>
  assumes text_order: "textOrder text_less"
    and insert_law: "pending d = Some t \<Longrightarrow> wpE True
      (\<lambda>_ d'. committed d' = committed d \<and> ident \<noteq> [] \<and> tb_instances (pg_facts t) ident = None \<and>
         pending d' = Some (t\<lparr>pg_facts := (pg_facts t)\<lparr>tb_instances := (tb_instances (pg_facts t))(ident \<mapsto> r)\<rparr>\<rparr>))
      (\<lambda>e d'. failed committed pending d t e d' \<and>
         (isDuplicateInstanceError e \<longrightarrow> tb_instances (pg_facts t) ident \<noteq> None))
      (tx_Exec db pg_insertInstanceSQL
        [SqlText ident, SqlBytes (Some (ir_definition r)), SqlText (ir_status r), SqlText (ir_initiator r),
         SqlText (ir_current_node_id r), SqlBytes (ir_data r), SqlBytes (ir_node_state r),
         SqlBool (ir_tasks_is_nil r), SqlBool (ir_audit_is_nil r), SqlText (FormatUint (ir_version r))]) d"
    and update_law: "pending d = Some t \<Longrightarrow> wpE True
      (\<lambda>n d'. committed d' = committed d \<and>
         (case tb_instances (pg_facts t) ident of
            Some old \<Rightarrow>
              if ir_version old = v
              then n = Inr 1 \<and>
                pending d' = Some (t\<lparr>pg_facts := (pg_facts t)\<lparr>tb_instances := (tb_instances (pg_facts t))(ident \<mapsto> r)\<rparr>\<rparr>)
              else n = Inr 0 \<and> pending d' = Some t
          | None \<Rightarrow> n = Inr 0 \<and> pending d' = Some t))
      (failed committed pending d t)
      (tx_Exec db pg_updateInstanceSQL
        [SqlText ident, SqlBytes (Some (ir_definition r)), SqlText (ir_status r), SqlText (ir_initiator r),
         SqlText (ir_current_node_id r), SqlBytes (ir_data r), SqlBytes (ir_node_state r),
         SqlBool (ir_tasks_is_nil r), SqlBool (ir_audit_is_nil r), SqlText (FormatUint (ir_version r)),
         SqlText (FormatUint v)]) d"
    and delete_law: "pending d = Some t \<Longrightarrow> wpE True
      (\<lambda>_ d'. committed d' = committed d \<and>
         pending d' = Some (t\<lparr>pg_facts := (pg_facts t)\<lparr>tb_tasks := (tb_tasks (pg_facts t))(ident := [])\<rparr>\<rparr>))
      (failed committed pending d t)
      (tx_Exec db pg_deleteTasksSQL [SqlText ident]) d"
    and copy_tasks_law: "pending d = Some t \<Longrightarrow> rs \<noteq> [] \<Longrightarrow>
      follow (map tr_ordinal (tb_tasks (pg_facts t) ident)) (map tr_ordinal rs) \<Longrightarrow> wpE True
      (\<lambda>_ d'. committed d' = committed d \<and>
         pending d' = Some (t\<lparr>pg_facts := (pg_facts t)\<lparr>tb_tasks :=
           (tb_tasks (pg_facts t))(ident := tb_tasks (pg_facts t) ident @ rs)\<rparr>\<rparr>))
      (failed committed pending d t)
      (tx_CopyFrom db taskTable taskColumns (map (taskValues ident) rs)) d"
    and copy_audit_law: "pending d = Some t \<Longrightarrow> as \<noteq> [] \<Longrightarrow>
      follow (map ar_ordinal (tb_audit (pg_facts t) ident)) (map ar_ordinal as) \<Longrightarrow> wpE True
      (\<lambda>_ d'. committed d' = committed d \<and>
         pending d' = Some (t\<lparr>pg_facts := (pg_facts t)\<lparr>tb_audit :=
           (tb_audit (pg_facts t))(ident := tb_audit (pg_facts t) ident @ as)\<rparr>\<rparr>))
      (failed committed pending d t)
      (tx_CopyFrom db auditTable auditColumns (map (auditValues ident) as)) d"
    and load_instance_law: "pending d = Some t \<Longrightarrow> wpE True
      (\<lambda>a d'. committed d' = committed d \<and> pending d' = Some t \<and>
         delivers (case tb_instances (pg_facts t) ident of None \<Rightarrow> [] | Some r \<Rightarrow> [instanceColumns r]) a)
      (failed committed pending d t)
      (tx_Query db pg_loadInstanceSQL [SqlText ident]) d"
    and exists_law: "pending d = Some t \<Longrightarrow> wpE True
      (\<lambda>a d'. committed d' = committed d \<and> pending d' = Some t \<and>
         delivers [[SqlBool (tb_instances (pg_facts t) ident \<noteq> None)]] a)
      (failed committed pending d t)
      (tx_Query db pg_instanceExistsSQL [SqlText ident]) d"
    and load_tasks_law: "pending d = Some t \<Longrightarrow> wpE True
      (\<lambda>a d'. committed d' = committed d \<and> pending d' = Some t \<and>
         delivers (map (\<lambda>r. [SqlBytes (Some (tr_payload r))]) (tb_tasks (pg_facts t) ident)) a)
      (failed committed pending d t)
      (tx_Query db pg_loadTasksSQL [SqlText ident]) d"
    and load_audit_law: "pending d = Some t \<Longrightarrow> wpE True
      (\<lambda>a d'. committed d' = committed d \<and> pending d' = Some t \<and>
         delivers (map (\<lambda>r. [SqlBytes (Some (ar_payload r))]) (tb_audit (pg_facts t) ident)) a)
      (failed committed pending d t)
      (tx_Query db pg_loadAuditSQL [SqlText ident]) d"
    and upsert_law: "pending d = Some t \<Longrightarrow> wpE True
      (\<lambda>_ d'. committed d' = committed d \<and>
         pending d' = Some (t\<lparr>pg_instances := (pg_instances t)(ident \<mapsto> storedTimes p)\<rparr>) \<and>
         list_all utf8_Valid [ident, pj_definition_id p, pj_instance_status p, pj_initiator p, pj_current_node_id p])
      (failed committed pending d t)
      (tx_Exec db upsertInstanceProjectionSQL
        [SqlText ident, SqlText (pj_definition_id p), SqlText (FormatUint (pj_definition_version p)),
         SqlText (pj_instance_status p), SqlText (pj_initiator p), SqlText (pj_current_node_id p),
         timeArg (pj_started_at p), timeArg (pj_last_audit_at p), SqlTime (pj_order_at p)]) d"
    and delete_participation_law: "pending d = Some t \<Longrightarrow> wpE True
      (\<lambda>_ d'. committed d' = committed d \<and>
         pending d' = Some (t\<lparr>pg_participation := (pg_participation t)(ident := [])\<rparr>))
      (failed committed pending d t)
      (tx_Exec db deleteParticipationProjectionSQL [SqlText ident]) d"
    and copy_participation_law: "pending d = Some t \<Longrightarrow> pg_participation t ident = [] \<Longrightarrow> ps \<noteq> [] \<Longrightarrow>
      sorted_wrt (<) (map pp_ordinal ps) \<Longrightarrow> wpE True
      (\<lambda>_ d'. committed d' = committed d \<and>
         pending d' = Some (t\<lparr>pg_participation := (pg_participation t)(ident := ps)\<rparr>) \<and>
         (\<forall>p\<in>set ps. list_all utf8_Valid (participationTexts p)))
      (failed committed pending d t)
      (tx_CopyFrom db participationTable participationColumns (map (participationValues ident) ps)) d"
    and worklist_law: "wpE True
      (\<lambda>a d'. committed d' = committed d \<and>
         (\<exists>rs. selects (taskBefore text_less) taskKey
            {x \<in> taskJoins (committed d). inWorklist actor x \<and> scopeAllows scope (fst x) \<and>
               (hasAfter \<longrightarrow> taskBefore text_less (pgTime at, ident, task) (taskKey x))} rs \<and>
            delivers (map taskColumnsOf (take (nat limit) rs)) a))
      (\<lambda>e d'. committed d' = committed d \<and> foreign e)
      (pool_Query db worklistSQL [SqlText actor, SqlTexts scope, SqlBool hasAfter, SqlTime at, SqlText ident,
         SqlText task, SqlInt limit]) d"
    and participated_law: "wpE True
      (\<lambda>a d'. committed d' = committed d \<and>
         (\<exists>rs. selects (taskBefore text_less) taskKey
            {x \<in> taskJoins (committed d). hasParticipated actor x \<and> scopeAllows scope (fst x) \<and>
               (hasAfter \<longrightarrow> taskBefore text_less (pgTime at, ident, task) (taskKey x))} rs \<and>
            delivers (map taskColumnsOf (take (nat limit) rs)) a))
      (\<lambda>e d'. committed d' = committed d \<and> foreign e)
      (pool_Query db participatedSQL [SqlText actor, SqlTexts scope, SqlBool hasAfter, SqlTime at, SqlText ident,
         SqlText task, SqlInt limit]) d"
    and initiated_law: "wpE True
      (\<lambda>a d'. committed d' = committed d \<and>
         (\<exists>rs. selects (instanceBefore text_less) instanceKey
            {x \<in> instanceJoins (committed d). hasInitiated actor x \<and> scopeAllows scope (fst x) \<and>
               (hasAfter \<longrightarrow> instanceBefore text_less (pgTime at, ident) (instanceKey x))} rs \<and>
            delivers (map instanceColumnsOf (take (nat limit) rs)) a))
      (\<lambda>e d'. committed d' = committed d \<and> foreign e)
      (pool_Query db initiatedSQL [SqlText actor, SqlTexts scope, SqlBool hasAfter, SqlTime at, SqlText ident,
         SqlInt limit]) d"

end
