(* ===== verification/Continuation.thy ===== *)
theory Continuation
  imports RowCodec
begin

text \<open>
  The opaque continuation tokens of the PostgreSQL projection (\<open>postgres/projection_continuation.go\<close>
  and the keyset parts of \<open>projection_task.go\<close> and \<open>projection_instance.go\<close>): a versioned JSON envelope
  in unpadded base64url text of at most 1024 bytes, whose family keeps task positions and
  instance positions apart.

  Main facts: \<open>rawURL_round_trip\<close>, \<open>decode_envelope\<close>, and what each family's decoder makes of a token:
  \<open>task_token\<close>, \<open>instance_token\<close> and \<open>decode_errors\<close>.
\<close>

subsection \<open>base64.RawURLEncoding\<close>

definition rawURLChar :: "char \<Rightarrow> char" where
  "rawURLChar c = (if c = CHR ''+'' then CHR ''-'' else if c = CHR ''/'' then CHR ''_'' else c)"

definition stdChar :: "char \<Rightarrow> char" where
  "stdChar c = (if c = CHR ''-'' then CHR ''+'' else if c = CHR ''_'' then CHR ''/'' else c)"

definition rawURLEncode :: "string \<Rightarrow> string" where
  "rawURLEncode s = map rawURLChar (takeWhile (\<lambda>c. c \<noteq> CHR ''='') (base64Encode s))"

definition rawURLDecode :: "string \<Rightarrow> string option" where
  \<comment> \<open>line breaks are skipped, the bits after the last byte are not checked\<close>
  "rawURLDecode t =
     (let u = filter (\<lambda>c. c \<noteq> CHR 0x0A \<and> c \<noteq> CHR 0x0D) t in
      if list_ex (\<lambda>c. c = CHR ''+'' \<or> c = CHR ''/'' \<or> c = CHR ''='') u then None
      else base64Quanta (map stdChar u @ replicate ((4 - length u mod 4) mod 4) (CHR ''='')))"

lemma base64Encode_split:
  "\<exists>e. base64Encode s = e @ replicate ((4 - length e mod 4) mod 4) (CHR ''='') \<and> (\<forall>c\<in>set e. base64Val c \<noteq> None)"
proof (induction s rule: base64Encode.induct)
  case 1
  show ?case by (intro exI[of _ "[]"]) simp
next
  case (2 a)
  show ?case
    by (intro exI[of _ "[base64Char (byte a div 4), base64Char (byte a mod 4 * 16)]"]) (simp add: numeral_2_eq_2)
next
  case (3 a b)
  show ?case
    by (intro exI[of _ "[base64Char (byte a div 4), base64Char (byte a mod 4 * 16 + byte b div 16),
        base64Char (byte b mod 16 * 4)]"]) simp
next
  case (4 a b c r)
  then obtain e where e: "base64Encode r = e @ replicate ((4 - length e mod 4) mod 4) (CHR ''='')"
    "\<forall>c\<in>set e. base64Val c \<noteq> None" by blast
  show ?case
    by (intro exI[of _ "[base64Char (byte a div 4), base64Char (byte a mod 4 * 16 + byte b div 16),
        base64Char (byte b mod 16 * 4 + byte c div 64), base64Char (byte c mod 64)] @ e"]) (use e in simp)
qed

lemma stdChar_rawURLChar:
  assumes "base64Val c \<noteq> None"
  shows "stdChar (rawURLChar c) = c" "rawURLChar c \<noteq> CHR ''+''" "rawURLChar c \<noteq> CHR ''/''"
    "rawURLChar c \<noteq> CHR ''=''" "rawURLChar c \<noteq> CHR 0x0A" "rawURLChar c \<noteq> CHR 0x0D" "c \<noteq> CHR ''=''"
proof -
  have "c \<noteq> CHR ''-'' \<and> c \<noteq> CHR ''_'' \<and> c \<noteq> CHR ''=''" using assms by (auto simp: base64Val_def)
  then show "stdChar (rawURLChar c) = c" "rawURLChar c \<noteq> CHR ''+''" "rawURLChar c \<noteq> CHR ''/''"
    "rawURLChar c \<noteq> CHR ''=''" "rawURLChar c \<noteq> CHR 0x0A" "rawURLChar c \<noteq> CHR 0x0D" "c \<noteq> CHR ''=''"
    using base64Val_range[OF assms] by (auto simp: stdChar_def rawURLChar_def)
qed

lemma rawURL_round_trip [simp]: "rawURLDecode (rawURLEncode s) = Some s"
proof -
  obtain e where e: "base64Encode s = e @ replicate ((4 - length e mod 4) mod 4) (CHR ''='')"
    "\<forall>c\<in>set e. base64Val c \<noteq> None" using base64Encode_split by blast
  note chars = stdChar_rawURLChar
  have "takeWhile (\<lambda>c. c \<noteq> CHR ''='') (base64Encode s) = e"
    unfolding e(1) using e(2) chars(7) by (subst takeWhile_append2) (auto simp: takeWhile_eq_Nil_iff split: nat.split)
  then have enc: "rawURLEncode s = map rawURLChar e" by (simp add: rawURLEncode_def)
  have f: "filter (\<lambda>c. c \<noteq> CHR 0x0A \<and> c \<noteq> CHR 0x0D) (map rawURLChar e) = map rawURLChar e"
    using e(2) chars(5,6) by (auto simp: filter_id_conv)
  have n: "\<not> list_ex (\<lambda>c. c = CHR ''+'' \<or> c = CHR ''/'' \<or> c = CHR ''='') (map rawURLChar e)"
    using e(2) chars(2-4) by (auto simp: list_ex_iff)
  have m: "map stdChar (map rawURLChar e) = e" using e(2) chars(1) by (auto intro!: map_idI)
  show ?thesis
    unfolding rawURLDecode_def enc Let_def f using n base64Quanta_Encode[of s]
    by (simp only: m length_map e(1)[symmetric] if_False)
qed

subsection \<open>Envelopes (projection_continuation.go)\<close>

type_synonym Continuation = string

definition continuationEncodingVersion :: int where "continuationEncodingVersion = 1"
definition maximumContinuationLength :: nat where "maximumContinuationLength = 1024"
definition taskContinuationFamily :: string where "taskContinuationFamily = ''task''"
definition instanceContinuationFamily :: string where "instanceContinuationFamily = ''instance''"

record continuationEnvelope =
  ce_Version :: int
  ce_Family :: string
  ce_At :: time
  ce_InstanceID :: InstanceID
  ce_TaskID :: TaskID

definition EnvelopeType :: gotype where
  "EnvelopeType = GStruct [stringField ''Version'' ''v'', stringField ''Family'' ''f'',
     GField True False ''At'' ''a'' GOpen, stringField ''InstanceID'' ''i'', stringField ''TaskID'' ''t,omitempty'']"

definition FormatInt :: "int \<Rightarrow> string" where
  "FormatInt n = (if n < 0 then CHR ''-'' # FormatUint (nat (- n)) else FormatUint (nat n))"

definition envelopeJSON :: "continuationEnvelope \<Rightarrow> jvalue result" where
  "envelopeJSON e = bindR (formatTime (ce_At e)) (\<lambda>at.
     Inr (structJSON [(''v'', False, JNumber (FormatInt (ce_Version e))), (''f'', False, JString (ce_Family e)),
       (''a'', False, JString at), (''i'', False, JString (ce_InstanceID e)), (''t'', True, JString (ce_TaskID e))]))"

definition ParseInt :: "string \<Rightarrow> int result" where
  \<comment> \<open>\<open>strconv.ParseInt(s, 10, 64)\<close> on a JSON number\<close>
  "ParseInt s =
     (let (neg, ds) = (case s of c # cs \<Rightarrow> if c = CHR ''-'' then (True, cs) else (False, s) | [] \<Rightarrow> (False, s)) in
      if \<not> digits ds then Inl []
      else let n = int (digitsValue ds) in
        if neg then (if n \<le> 2 ^ 63 then Inr (- n) else Inl [])
        else if n < 2 ^ 63 then Inr n else Inl [])"

definition decodeIntField :: "string \<Rightarrow> jvalue \<Rightarrow> int result" where
  "decodeIntField name v = (case jsonMember name v of
      None \<Rightarrow> Inr 0
    | Some JNull \<Rightarrow> Inr 0
    | Some (JNumber s) \<Rightarrow> ParseInt s
    | Some _ \<Rightarrow> Inl [])"

definition envelopeOf :: "jvalue \<Rightarrow> continuationEnvelope result" where
  "envelopeOf v =
     (if \<not> isStruct v then Inl []
      else bindR (decodeIntField ''v'' v) (\<lambda>version.
        bindR (decodeStringField ''f'' v) (\<lambda>family.
        bindR (decodeTimeField ''a'' v) (\<lambda>at.
        bindR (decodeStringField ''i'' v) (\<lambda>ident.
        bindR (decodeStringField ''t'' v) (\<lambda>task.
          Inr \<lparr>ce_Version = version, ce_Family = family, ce_At = at, ce_InstanceID = ident,
               ce_TaskID = task\<rparr>))))))"

definition encodeContinuationEnvelope :: "continuationEnvelope \<Rightarrow> Continuation result" where
  "encodeContinuationEnvelope envelope =
     bindR (envelopeJSON envelope) (\<lambda>v.
     let token = rawURLEncode (json_print v) in
     if length token > maximumContinuationLength then Inl [ErrInvalidProjectionQuery]
     else Inr token)"

definition decodeContinuationEnvelope :: "Continuation \<Rightarrow> continuationEnvelope result" where
  "decodeContinuationEnvelope token =
     (if token = [] \<or> length token > maximumContinuationLength then Inl [ErrInvalidProjectionQuery]
      else case rawURLDecode token of
        None \<Rightarrow> Inl [ErrInvalidProjectionQuery]
      | Some data \<Rightarrow> wrapR [ErrInvalidProjectionQuery] (Decode data EnvelopeType envelopeOf))"

subsection \<open>Keysets\<close>

record taskProjectionKeyset =
  tk_at :: time
  tk_instanceID :: InstanceID
  tk_taskID :: TaskID

record instanceProjectionKeyset =
  ik_at :: time
  ik_instanceID :: InstanceID

definition validateTaskProjectionKeyset :: "taskProjectionKeyset \<Rightarrow> unit result" where
  "validateTaskProjectionKeyset keyset =
     (if tk_at keyset = 0 \<or> tk_instanceID keyset = [] \<or> tk_taskID keyset = []
      then Inl [ErrInvalidProjectionQuery] else Inr ())"

definition encodeTaskContinuation :: "taskProjectionKeyset \<Rightarrow> Continuation result" where
  "encodeTaskContinuation keyset =
     bindR (validateTaskProjectionKeyset keyset) (\<lambda>_.
       encodeContinuationEnvelope \<lparr>ce_Version = continuationEncodingVersion, ce_Family = taskContinuationFamily,
         ce_At = tk_at keyset, ce_InstanceID = tk_instanceID keyset, ce_TaskID = tk_taskID keyset\<rparr>)"

definition decodeTaskContinuation :: "Continuation \<Rightarrow> taskProjectionKeyset result" where
  "decodeTaskContinuation token =
     bindR (decodeContinuationEnvelope token) (\<lambda>envelope.
     if ce_Version envelope \<noteq> continuationEncodingVersion \<or> ce_Family envelope \<noteq> taskContinuationFamily
     then Inl [ErrInvalidProjectionQuery]
     else
       let keyset = \<lparr>tk_at = ce_At envelope, tk_instanceID = ce_InstanceID envelope,
                     tk_taskID = ce_TaskID envelope\<rparr> in
       bindR (validateTaskProjectionKeyset keyset) (\<lambda>_. Inr keyset))"

definition validateInstanceProjectionKeyset :: "instanceProjectionKeyset \<Rightarrow> unit result" where
  "validateInstanceProjectionKeyset keyset =
     (if ik_at keyset = 0 \<or> ik_instanceID keyset = [] then Inl [ErrInvalidProjectionQuery] else Inr ())"

definition encodeInstanceContinuation :: "instanceProjectionKeyset \<Rightarrow> Continuation result" where
  "encodeInstanceContinuation keyset =
     bindR (validateInstanceProjectionKeyset keyset) (\<lambda>_.
       encodeContinuationEnvelope \<lparr>ce_Version = continuationEncodingVersion, ce_Family = instanceContinuationFamily,
         ce_At = ik_at keyset, ce_InstanceID = ik_instanceID keyset, ce_TaskID = []\<rparr>)"

definition decodeInstanceContinuation :: "Continuation \<Rightarrow> instanceProjectionKeyset result" where
  "decodeInstanceContinuation token =
     bindR (decodeContinuationEnvelope token) (\<lambda>envelope.
     if ce_Version envelope \<noteq> continuationEncodingVersion \<or> ce_Family envelope \<noteq> instanceContinuationFamily \<or>
        ce_TaskID envelope \<noteq> []
     then Inl [ErrInvalidProjectionQuery]
     else
       let keyset = \<lparr>ik_at = ce_At envelope, ik_instanceID = ce_InstanceID envelope\<rparr> in
       bindR (validateInstanceProjectionKeyset keyset) (\<lambda>_. Inr keyset))"

subsection \<open>Tokens are read back\<close>

lemma envelope_fields:
  "fieldsOf EnvelopeType = [(''t'', GScalar), (''i'', GScalar), (''a'', GOpen), (''f'', GScalar), (''v'', GScalar)]"
  by (simp add: fieldsOf_def EnvelopeType_def stringField_def tagNameOf_def Let_def)

lemma ParseInt_FormatInt: "- (2 ^ 63) \<le> n \<Longrightarrow> n < 2 ^ 63 \<Longrightarrow> ParseInt (FormatInt n) = Inr n"
proof -
  assume b: "- (2 ^ 63) \<le> n" "n < 2 ^ 63"
  show ?thesis
  proof (cases "n < 0")
    case True
    then show ?thesis using b by (simp add: ParseInt_def FormatInt_def)
  next
    case False
    obtain c cs where f: "FormatUint (nat n) = c # cs"
      using digits_FormatUint[of "nat n"] by (cases "FormatUint (nat n)") (auto simp: digits_def)
    moreover have "c \<noteq> CHR ''-''"
      using digits_FormatUint[of "nat n"] f by (auto simp: digits_def is_digit_def)
    ultimately show ?thesis
      using False b digits_FormatUint[of "nat n"] digitsValue_FormatUint[of "nat n"]
      by (simp add: ParseInt_def FormatInt_def)
  qed
qed

abbreviation envelopeFields :: "continuationEnvelope \<Rightarrow> string \<Rightarrow> (string \<times> bool \<times> jvalue) list" where
  "envelopeFields e at \<equiv> [(''v'', False, JNumber (FormatInt (ce_Version e))), (''f'', False, JString (ce_Family e)),
     (''a'', False, JString at), (''i'', False, JString (ce_InstanceID e)), (''t'', True, JString (ce_TaskID e))]"

definition cleanEnvelope :: "continuationEnvelope \<Rightarrow> continuationEnvelope" where
  "cleanEnvelope e = e\<lparr>ce_Family := toValidUTF8 (ce_Family e), ce_InstanceID := toValidUTF8 (ce_InstanceID e),
     ce_TaskID := toValidUTF8 (ce_TaskID e)\<rparr>"

lemma decode_envelope:
  assumes "encodeContinuationEnvelope e = Inr token" and "0 \<le> ce_Version e" and "ce_Version e < 2 ^ 63"
  shows "decodeContinuationEnvelope token = Inr (cleanEnvelope e)"
proof -
  obtain at where at: "formatTime (ce_At e) = Inr at"
    and token: "token = rawURLEncode (json_print (structJSON (envelopeFields e at)))" "length token \<le> 1024"
    using assms(1)
    by (auto simp: encodeContinuationEnvelope_def envelopeJSON_def bindR_Inr_iff Let_def
        maximumContinuationLength_def split: if_splits)
  have v: "FormatInt (ce_Version e) = FormatUint (nat (ce_Version e))" using assms(2) by (simp add: FormatInt_def)
  have fit: "fieldsFit (envelopeFields e at) EnvelopeType"
    by (simp add: fieldsFit_def wellKeyed_def envelope_fields v) blast
  have k: "wellKeyed (cleanFields (envelopeFields e at))" by (rule wellKeyed_clean) (simp add: wellKeyed_def)
  have utf8: "toValidUTF8 at = at" using formatTime_ascii[OF at] utf8_Valid_ascii_only by (simp add: toValidUTF8_valid)
  have time: "decodeTimeField ''a'' (structJSON (cleanFields (envelopeFields e at))) = Inr (ce_At e)"
    using parse_format[OF at] by (simp add: decodeTimeField_def jsonMember_struct[OF k]) (simp add: cleanFields_def utf8)
  have num: "decodeIntField ''v'' (structJSON (cleanFields (envelopeFields e at))) = Inr (ce_Version e)"
    using ParseInt_FormatInt[of "ce_Version e"] assms(2,3)
    by (simp add: decodeIntField_def jsonMember_struct[OF k]) (simp add: cleanFields_def)
  have "envelopeOf (structJSON (cleanFields (envelopeFields e at))) = Inr (cleanEnvelope e)"
    by (simp add: envelopeOf_def decodeStringField_struct[OF k] time num cleanEnvelope_def)
      (simp add: cleanFields_def)
  then have "Decode (json_print (structJSON (envelopeFields e at))) EnvelopeType envelopeOf = Inr (cleanEnvelope e)"
    using structJSON_printed[OF fit, of envelopeOf] by (simp add: decodeJSON_def)
  moreover have "token \<noteq> []"
  proof
    assume "token = []"
    then have "rawURLDecode token = Some []" by (simp add: rawURLDecode_def)
    then have "json_print (structJSON (envelopeFields e at)) = []" using token(1) by simp
    then show False by (simp add: structJSON_def)
  qed
  ultimately show ?thesis using token
    by (simp add: decodeContinuationEnvelope_def maximumContinuationLength_def)
qed

lemma families:
  "toValidUTF8 taskContinuationFamily = taskContinuationFamily"
  "toValidUTF8 instanceContinuationFamily = instanceContinuationFamily"
  "taskContinuationFamily \<noteq> instanceContinuationFamily"
  by (simp_all add: taskContinuationFamily_def instanceContinuationFamily_def toValidUTF8_valid)

lemma task_token:
  assumes "encodeTaskContinuation ks = Inr token"
  shows "decodeTaskContinuation token = Inr (ks\<lparr>tk_instanceID := toValidUTF8 (tk_instanceID ks),
      tk_taskID := toValidUTF8 (tk_taskID ks)\<rparr>)"
    and "decodeInstanceContinuation token = Inl [ErrInvalidProjectionQuery]"
proof -
  let ?e = "\<lparr>ce_Version = continuationEncodingVersion, ce_Family = taskContinuationFamily,
     ce_At = tk_at ks, ce_InstanceID = tk_instanceID ks, ce_TaskID = tk_taskID ks\<rparr>"
  have v: "validateTaskProjectionKeyset ks = Inr ()" and e: "encodeContinuationEnvelope ?e = Inr token"
    using assms by (auto simp: encodeTaskContinuation_def bindR_Inr_iff)
  note d = decode_envelope[OF e, simplified continuationEncodingVersion_def, simplified]
  show "decodeTaskContinuation token = Inr (ks\<lparr>tk_instanceID := toValidUTF8 (tk_instanceID ks),
      tk_taskID := toValidUTF8 (tk_taskID ks)\<rparr>)"
    using v by (cases ks) (simp add: decodeTaskContinuation_def d cleanEnvelope_def families
        continuationEncodingVersion_def validateTaskProjectionKeyset_def split: if_splits)
  show "decodeInstanceContinuation token = Inl [ErrInvalidProjectionQuery]"
    by (simp add: decodeInstanceContinuation_def d cleanEnvelope_def families)
qed

lemma instance_token:
  assumes "encodeInstanceContinuation ks = Inr token"
  shows "decodeInstanceContinuation token = Inr (ks\<lparr>ik_instanceID := toValidUTF8 (ik_instanceID ks)\<rparr>)"
    and "decodeTaskContinuation token = Inl [ErrInvalidProjectionQuery]"
proof -
  let ?e = "\<lparr>ce_Version = continuationEncodingVersion, ce_Family = instanceContinuationFamily,
     ce_At = ik_at ks, ce_InstanceID = ik_instanceID ks, ce_TaskID = []\<rparr>"
  have v: "validateInstanceProjectionKeyset ks = Inr ()" and e: "encodeContinuationEnvelope ?e = Inr token"
    using assms by (auto simp: encodeInstanceContinuation_def bindR_Inr_iff)
  note d = decode_envelope[OF e, simplified continuationEncodingVersion_def, simplified]
  show "decodeInstanceContinuation token = Inr (ks\<lparr>ik_instanceID := toValidUTF8 (ik_instanceID ks)\<rparr>)"
    using v by (cases ks) (simp add: decodeInstanceContinuation_def d cleanEnvelope_def families
        continuationEncodingVersion_def validateInstanceProjectionKeyset_def split: if_splits)
  show "decodeTaskContinuation token = Inl [ErrInvalidProjectionQuery]"
    by (simp add: decodeTaskContinuation_def d cleanEnvelope_def families families(3)[symmetric])
qed

lemma decode_errors:
  "decodeContinuationEnvelope token = Inl e \<Longrightarrow> errors_Is e ErrInvalidProjectionQuery"
  "decodeTaskContinuation token = Inl e \<Longrightarrow> errors_Is e ErrInvalidProjectionQuery"
  "decodeInstanceContinuation token = Inl e \<Longrightarrow> errors_Is e ErrInvalidProjectionQuery"
proof -
  show d: "decodeContinuationEnvelope token = Inl e \<Longrightarrow> errors_Is e ErrInvalidProjectionQuery" for e
    by (auto simp: decodeContinuationEnvelope_def wrapR_def split: if_splits option.splits sum.splits)
  show "decodeTaskContinuation token = Inl e \<Longrightarrow> errors_Is e ErrInvalidProjectionQuery"
    by (auto simp: decodeTaskContinuation_def bindR_Inl_iff validateTaskProjectionKeyset_def Let_def
        split: if_splits dest: d)
  show "decodeInstanceContinuation token = Inl e \<Longrightarrow> errors_Is e ErrInvalidProjectionQuery"
    by (auto simp: decodeInstanceContinuation_def bindR_Inl_iff validateInstanceProjectionKeyset_def Let_def
        split: if_splits dest: d)
qed

lemma token_length:
  assumes "encodeContinuationEnvelope e = Inr token"
  shows "length token \<le> maximumContinuationLength"
  using assms by (auto simp: encodeContinuationEnvelope_def bindR_Inr_iff Let_def split: if_splits)

end
