(* ===== verification/Postgres.thy ===== *)
theory Postgres
  imports Pgx Snapshot Continuation
begin

text \<open>
  The PostgreSQL command store (\<open>postgres/store.go\<close>, \<open>postgres/codec.go\<close>) and the read model it
  maintains in the same transactions (\<open>postgres/projection_write.go\<close>). Names shared with the MySQL adapter
  have the prefix \<open>pg\<close>.
\<close>

subsection \<open>Snapshots (codec.go)\<close>

definition pg_encodeSnapshot :: "Instance \<Rightarrow> nilSlices \<Rightarrow> encodedSnapshot result" where
  "pg_encodeSnapshot aggregate n =
     bindR (encodeDefinition (i_Definition aggregate) n) (\<lambda>definition0.
     bindR (encodeValues encodeTask (i_Tasks aggregate)) (\<lambda>tasks.
     bindR (encodeValues auditJSON (i_Audit aggregate)) (\<lambda>audit.
       Inr \<lparr>es_aggregate = aggregate, es_definition = definition0,
            es_status = instanceStatusText (i_Status aggregate), es_initiator = i_Initiator aggregate,
            es_currentNodeID = i_CurrentNodeID aggregate, es_data = i_Data aggregate,
            es_nodeState = i_NodeState aggregate, es_tasksNil = nil_Tasks n, es_auditNil = nil_Audit n,
            es_version = i_Version aggregate, es_tasks = tasks, es_audit = audit\<rparr>)))"

definition pg_parentArguments :: "encodedSnapshot \<Rightarrow> sqlValue list" where
  "pg_parentArguments s =
     [SqlText (i_ID (es_aggregate s)), SqlBytes (Some (es_definition s)), SqlText (es_status s),
      SqlText (es_initiator s), SqlText (es_currentNodeID s), SqlBytes (es_data s),
      SqlBytes (es_nodeState s), SqlBool (es_tasksNil s), SqlBool (es_auditNil s),
      SqlText (FormatUint (unat (es_version s)))]"

definition pg_updateArguments :: "encodedSnapshot \<Rightarrow> u64 \<Rightarrow> sqlValue list" where
  "pg_updateArguments s expectedVersion = pg_parentArguments s @ [SqlText (FormatUint (unat expectedVersion))]"

subsection \<open>Reading rows (codec.go)\<close>

definition pg_loadTasks :: "'d pgxPool \<Rightarrow> InstanceID \<Rightarrow> bool \<Rightarrow> ('h env \<times> 'd, Task list \<times> bool) eff" where
  "pg_loadTasks tx ident isNil = loadRows tx pg_loadTasksSQL ident (\<lambda>p. decodeJSON p TaskType taskOf) isNil"

definition pg_loadAudit :: "'d pgxPool \<Rightarrow> InstanceID \<Rightarrow> bool \<Rightarrow> ('h env \<times> 'd, AuditRecord list \<times> bool) eff" where
  "pg_loadAudit tx ident isNil = loadRows tx pg_loadAuditSQL ident (\<lambda>p. decodeJSON p AuditType auditOf) isNil"

definition pg_queryRow :: "'d pgxPool \<Rightarrow> string \<Rightarrow> sqlValue list \<Rightarrow> ('h env \<times> 'd, sqlValue list) eff" where
  \<comment> \<open>\<open>QueryRow\<close> and \<open>Scan\<close>: the first row if the answer was complete, else its error or \<open>pgx.ErrNoRows\<close>\<close>
  "pg_queryRow tx q args = bindE (onSnd (tx_Query tx q args)) (\<lambda>(rows, err).
     case err of
       Inl e \<Rightarrow> raise e
     | Inr _ \<Rightarrow> (case rows of row # _ \<Rightarrow> ret row | [] \<Rightarrow> raise [PgxErrNoRows]))"

definition pg_loadSnapshot :: "'d pgxPool \<Rightarrow> InstanceID \<Rightarrow> ('h env \<times> 'd, Instance \<times> nilSlices) eff" where
  "pg_loadSnapshot tx ident =
     bindE (tryE (pg_queryRow tx pg_loadInstanceSQL [SqlText ident])) (\<lambda>answer.
     case answer of
       Inl e \<Rightarrow> if errors_Is e PgxErrNoRows then raise [ErrInstanceNotFound] else raise e
     | Inr columns \<Rightarrow>
         readSnapshot (pg_loadTasks tx ident) (pg_loadAudit tx ident) ident columns)"

subsection \<open>Transactions (store.go)\<close>

definition pg_withTransaction :: "'d pgxPool \<Rightarrow> bool \<Rightarrow> ('h env \<times> 'd, 'a) eff \<Rightarrow> ('h env \<times> 'd, 'a) eff" where
  "pg_withTransaction pool options operation =
     bindE (onSnd (db_BeginTx pool options)) (\<lambda>_.
     deferCleanup PgxErrTxClosed (onSnd (tx_Rollback pool))
       (bindE operation (\<lambda>x.
        bindE (onSnd (tx_Commit pool)) (\<lambda>_. ret x))))"

definition copyTasks :: "'d pgxPool \<Rightarrow> InstanceID \<Rightarrow> string list \<Rightarrow> ('h env \<times> 'd, unit) eff" where
  "copyTasks tx ident tasks =
     (if tasks = [] then ret ()
      else bindE (liftR (taskRows ident 0 tasks)) (\<lambda>rows.
        onSnd (tx_CopyFrom tx taskTable taskColumns rows)))"

definition copyAudit :: "'d pgxPool \<Rightarrow> InstanceID \<Rightarrow> string list \<Rightarrow> nat \<Rightarrow> ('h env \<times> 'd, unit) eff" where
  "copyAudit tx ident audit ordinalOffset =
     (if audit = [] then ret ()
      else bindE (liftR (auditRows ident ordinalOffset audit)) (\<lambda>rows.
        onSnd (tx_CopyFrom tx auditTable auditColumns rows)))"

definition pg_replaceCollections :: "'d pgxPool \<Rightarrow> InstanceID \<Rightarrow> encodedSnapshot \<Rightarrow> nat \<Rightarrow> ('h env \<times> 'd, unit) eff" where
  "pg_replaceCollections tx ident snapshot auditOffset =
     bindE (onSnd (tx_Exec tx pg_deleteTasksSQL [SqlText ident])) (\<lambda>_.
     bindE (copyTasks tx ident (es_tasks snapshot)) (\<lambda>_.
     copyAudit tx ident (drop auditOffset (es_audit snapshot)) auditOffset))"

definition pg_validateAuditAppend :: "'d pgxPool \<Rightarrow> InstanceID \<Rightarrow> AuditRecord list \<Rightarrow> ('h env \<times> 'd, nat) eff" where
  "pg_validateAuditAppend tx ident candidate =
     bindE (pg_loadAudit tx ident False) (\<lambda>(durable, _).
       if length candidate < length durable \<or> take (length durable) candidate \<noteq> durable
       then raise [ErrInvalidStoreInput]
       else ret (length durable))"

definition pg_classifyFailedCAS :: "'d pgxPool \<Rightarrow> InstanceID \<Rightarrow> ('h env \<times> 'd, 'a) eff" where
  "pg_classifyFailedCAS tx ident =
     bindE (pg_queryRow tx pg_instanceExistsSQL [SqlText ident]) (\<lambda>row.
     bindE (liftR (case row of [v] \<Rightarrow> scanBool v | _ \<Rightarrow> Inl [])) (\<lambda>exists0.
       if \<not> exists0 then raise [ErrInstanceNotFound] else raise [ErrVersionConflict]))"

subsection \<open>The read model (projection_write.go)\<close>

definition unixEpoch :: time where
  \<comment> \<open>\<open>time.Unix(0, 0)\<close>: 1969 years after the zero time\<close>
  "unixEpoch = 62135596800 * 10 ^ 9"

fun scanAuditTimes :: "AuditRecord list \<Rightarrow> time option \<Rightarrow> time option \<Rightarrow> time option \<times> time option" where
  "scanAuditTimes [] startedAt lastAuditAt = (startedAt, lastAuditAt)"
| "scanAuditTimes (record0 # rs) startedAt lastAuditAt =
     scanAuditTimes rs
       (if a_Action record0 = ''instance.started'' \<and> startedAt = None \<and> a_At record0 \<noteq> 0
        then Some (a_At record0) else startedAt)
       (if a_At record0 \<noteq> 0 then Some (a_At record0) else lastAuditAt)"

definition projectionAuditTimes :: "AuditRecord list \<Rightarrow> time option \<times> time option \<times> time" where
  "projectionAuditTimes audit =
     (let (startedAt, lastAuditAt) = scanAuditTimes audit None None in
      case lastAuditAt of
        None \<Rightarrow> (startedAt, None, unixEpoch)
      | Some t \<Rightarrow> (startedAt, lastAuditAt, t))"

definition projected :: "Task \<Rightarrow> bool" where
  \<comment> \<open>a concrete assignment: it has an owner, a node and a state\<close>
  "projected task \<longleftrightarrow> \<not> (t_Assignee task = [] \<or> t_NodeID task = [] \<or> taskStatusText (t_Status task) = [])"

fun validateTaskKeys :: "InstanceID \<Rightarrow> time \<Rightarrow> Task list \<Rightarrow> unit result" where
  "validateTaskKeys ident orderAt [] = Inr ()"
| "validateTaskKeys ident orderAt (task # ts) =
     (if \<not> projected task then validateTaskKeys ident orderAt ts
      else bindR (wrapR [ErrInvalidStoreInput]
          (encodeTaskContinuation \<lparr>tk_at = orderAt, tk_instanceID = ident, tk_taskID = t_ID task\<rparr>)) (\<lambda>_.
        validateTaskKeys ident orderAt ts))"

definition validateProjectionContinuationKeys :: "Instance \<Rightarrow> time \<Rightarrow> unit result" where
  "validateProjectionContinuationKeys i orderAt =
     bindR (wrapR [ErrInvalidStoreInput]
       (encodeInstanceContinuation \<lparr>ik_at = orderAt, ik_instanceID = i_ID i\<rparr>)) (\<lambda>_.
     validateTaskKeys (i_ID i) orderAt (i_Tasks i))"

fun participationRows :: "nat \<Rightarrow> Task list \<Rightarrow> participationRow list" where
  "participationRows index [] = []"
| "participationRows index (task # ts) =
     (if \<not> projected task then participationRows (index + 1) ts
      else \<lparr>pp_ordinal = index, pp_task_id = t_ID task, pp_actor_id = t_Assignee task,
            pp_node_id = t_NodeID task, pp_task_status = taskStatusText (t_Status task),
            pp_outcome = t_Outcome task\<rparr> # participationRows (index + 1) ts)"

definition replaceQueryProjection :: "'d pgxPool \<Rightarrow> Instance \<Rightarrow> ('h env \<times> 'd, unit) eff" where
  "replaceQueryProjection tx i =
     (let (startedAt, lastAuditAt, orderAt) = projectionAuditTimes (i_Audit i);
          rows = participationRows 0 (i_Tasks i) in
      bindE (liftR (validateProjectionContinuationKeys i orderAt)) (\<lambda>_.
      bindE (onSnd (tx_Exec tx upsertInstanceProjectionSQL
        [SqlText (i_ID i), SqlText (d_ID (i_Definition i)), SqlText (FormatUint (unat (d_Version (i_Definition i)))),
         SqlText (instanceStatusText (i_Status i)), SqlText (i_Initiator i), SqlText (i_CurrentNodeID i),
         timeArg startedAt, timeArg lastAuditAt, SqlTime orderAt])) (\<lambda>_.
      bindE (onSnd (tx_Exec tx deleteParticipationProjectionSQL [SqlText (i_ID i)])) (\<lambda>_.
        if i_Tasks i = [] then ret ()
        else if rows = [] then ret ()
        else onSnd (tx_CopyFrom tx participationTable participationColumns
               (map (participationValues (i_ID i)) rows))))))"

subsection \<open>The store (store.go)\<close>

record 'd PostgresStore =
  ps_pool :: "'d pgxPool option"  \<comment> \<open>\<open>None\<close>: a nil pool\<close>

definition Postgres_New :: "'d pgxPool option \<Rightarrow> 'd PostgresStore" where
  "Postgres_New pool = \<lparr>ps_pool = pool\<rparr>"

definition Postgres_Create ::
  "'d PostgresStore option \<Rightarrow> (Instance \<times> nilSlices) option \<Rightarrow> ('h env \<times> 'd, unit) eff" where
  "Postgres_Create s instance0 =
     bindE (onFst ctxErr) (\<lambda>_.
     case (Option.bind s ps_pool, instance0) of
       (Some pool, Some (i, n)) \<Rightarrow>
         if i_ID i = [] then raise [ErrInvalidStoreInput]
         else
           bindE (liftR (pg_encodeSnapshot i n)) (\<lambda>snapshot.
           let ident = i_ID (es_aggregate snapshot) in
           pg_withTransaction pool False
             (bindE (tryE (onSnd (tx_Exec pool pg_insertInstanceSQL (pg_parentArguments snapshot)))) (\<lambda>inserted.
              case inserted of
                Inl execErr \<Rightarrow>
                  if isDuplicateInstanceError execErr then raise [ErrInstanceExists] else raise execErr
              | Inr _ \<Rightarrow>
                  bindE (copyTasks pool ident (es_tasks snapshot)) (\<lambda>_.
                  bindE (copyAudit pool ident (es_audit snapshot) 0) (\<lambda>_.
                  replaceQueryProjection pool (es_aggregate snapshot))))))
     | _ \<Rightarrow> raise [ErrInvalidStoreInput])"

definition Postgres_Load :: "'d PostgresStore option \<Rightarrow> InstanceID \<Rightarrow> ('h env \<times> 'd, Instance \<times> nilSlices) eff" where
  "Postgres_Load s ident =
     bindE (onFst ctxErr) (\<lambda>_.
     case Option.bind s ps_pool of
       None \<Rightarrow> raise [ErrInvalidStoreInput]
     | Some pool \<Rightarrow> pg_withTransaction pool True (pg_loadSnapshot pool ident))"

definition Postgres_Save ::
  "'d PostgresStore option \<Rightarrow> (Instance \<times> nilSlices) option \<Rightarrow> u64 \<Rightarrow> ('h env \<times> 'd, unit) eff" where
  "Postgres_Save s instance0 expectedVersion =
     bindE (onFst ctxErr) (\<lambda>_.
     case (Option.bind s ps_pool, instance0) of
       (Some pool, Some (i, n)) \<Rightarrow>
         bindE (liftR (pg_encodeSnapshot i n)) (\<lambda>snapshot.
         let ident = i_ID (es_aggregate snapshot) in
         pg_withTransaction pool False
           (bindE (onSnd (tx_Exec pool pg_updateInstanceSQL (pg_updateArguments snapshot expectedVersion))) (\<lambda>tag.
            bindE (liftR tag) (\<lambda>rowsAffected.
              if rowsAffected = 0 then pg_classifyFailedCAS pool ident
              else
                bindE (pg_validateAuditAppend pool ident (i_Audit (es_aggregate snapshot))) (\<lambda>auditOffset.
                bindE (pg_replaceCollections pool ident snapshot auditOffset) (\<lambda>_.
                replaceQueryProjection pool (es_aggregate snapshot)))))))
     | _ \<Rightarrow> raise [ErrInvalidStoreInput])"

end
