(* ===== verification/PostgresSpec.thy ===== *)
theory PostgresSpec
  imports Postgres Transactions
begin

text \<open>
  What the PostgreSQL store does to the tables: the lemmas of \<open>pg_request\<close> give each step of a
  transaction its effect and end in \<open>Postgres_Create_wp\<close>, \<open>Postgres_Load_wp\<close> and \<open>Postgres_Save_wp\<close>. A successful
  write files the facts and the read model of the aggregate together (\<open>pgCreated\<close>, \<open>pgSaved\<close>).
\<close>

subsection \<open>The read model of an aggregate\<close>

definition projectionOf :: "Instance \<Rightarrow> projectionRow" where
  "projectionOf i = (case projectionAuditTimes (i_Audit i) of (startedAt, lastAuditAt, orderAt) \<Rightarrow>
     \<lparr>pj_definition_id = d_ID (i_Definition i), pj_definition_version = unat (d_Version (i_Definition i)),
      pj_instance_status = instanceStatusText (i_Status i), pj_initiator = i_Initiator i,
      pj_current_node_id = i_CurrentNodeID i, pj_started_at = startedAt, pj_last_audit_at = lastAuditAt,
      pj_order_at = orderAt\<rparr>)"

definition withProjection :: "Instance \<Rightarrow> pgTables \<Rightarrow> pgTables" where
  "withProjection i t = t\<lparr>pg_instances := (pg_instances t)(i_ID i \<mapsto> storedTimes (projectionOf i)),
     pg_participation := (pg_participation t)(i_ID i := participationRows 0 (i_Tasks i))\<rparr>"

definition continuable :: "Instance \<Rightarrow> bool" where
  \<comment> \<open>the preflight accepted the keys of all its rows\<close>
  "continuable i \<longleftrightarrow> validateProjectionContinuationKeys i (pj_order_at (projectionOf i)) = Inr ()"

definition mirrored :: "InstanceID \<Rightarrow> Instance \<Rightarrow> pgTables \<Rightarrow> bool" where
  \<comment> \<open>the read model rows of an identity are those of the instance, and their keys can be turned into tokens\<close>
  "mirrored ident i t \<longleftrightarrow> pg_instances t ident = Some (storedTimes (projectionOf i)) \<and>
     pg_participation t ident = participationRows 0 (i_Tasks i) \<and> continuable i \<and> utf8_Valid ident \<and>
     (\<forall>p\<in>set (pg_participation t ident). utf8_Valid (pp_task_id p))"

definition readModel :: "pgTables \<Rightarrow> bool" where
  \<comment> \<open>every stored instance can be read, and the read model holds its rows and nothing else\<close>
  "readModel t \<longleftrightarrow> tablesOk (pg_facts t) \<and> (\<forall>ident. case tableView (pg_facts t) ident of
     None \<Rightarrow> pg_instances t ident = None \<and> pg_participation t ident = []
   | Some i \<Rightarrow> mirrored ident i t)"

definition sameRows :: "Instance \<Rightarrow> Instance \<Rightarrow> bool" where
  \<comment> \<open>two instances with the same read model\<close>
  "sameRows i j \<longleftrightarrow> projectionOf j = projectionOf i \<and>
     participationRows 0 (i_Tasks j) = participationRows 0 (i_Tasks i) \<and> (continuable j \<longleftrightarrow> continuable i)"

definition written :: "Instance \<Rightarrow> bool" where
  \<comment> \<open>the database took the rows of the instance\<close>
  "written i \<longleftrightarrow> continuable i \<and> utf8_Valid (i_ID i) \<and> utf8_Valid (d_ID (i_Definition i)) \<and>
     (\<forall>p\<in>set (participationRows 0 (i_Tasks i)). list_all utf8_Valid (participationTexts p))"

definition pgCreated :: "pgTables \<Rightarrow> Instance \<Rightarrow> nilSlices \<Rightarrow> pgTables \<Rightarrow> bool" where
  "pgCreated T i n T' \<longleftrightarrow> created (pg_facts T) i n (pg_facts T') \<and> written i \<and>
     T' = withProjection i (T\<lparr>pg_facts := pg_facts T'\<rparr>)"

definition pgSaved :: "pgTables \<Rightarrow> Instance \<Rightarrow> nilSlices \<Rightarrow> u64 \<Rightarrow> pgTables \<Rightarrow> bool" where
  "pgSaved T i n v T' \<longleftrightarrow> saved (pg_facts T) i n v (pg_facts T') \<and> written i \<and>
     T' = withProjection i (T\<lparr>pg_facts := pg_facts T'\<rparr>)"

lemma toValidUTF8_ascii_only: "list_all (\<lambda>c. byte c < 128) t \<Longrightarrow> toValidUTF8 s = t \<longleftrightarrow> s = t"
proof
  assume t: "list_all (\<lambda>c. byte c < 128) t"
  show "toValidUTF8 s = t \<Longrightarrow> s = t"
    using t
  proof (induction s arbitrary: t rule: toValidUTF8.induct)
    case (2 c cs)
    show ?case
    proof (cases "rune_size (c # cs) = 0")
      case True
      then have "list_all (\<lambda>c. byte c < 128) (replacement @ toValidUTF8 cs)" using 2 by simp
      moreover have "\<not> list_all (\<lambda>c. byte c < 128) replacement"
        by (simp add: replacement_def utf8_encode_def)
      ultimately show ?thesis by simp
    next
      case False
      let ?n = "rune_size (c # cs)"
      have "t = take ?n (c # cs) @ toValidUTF8 (drop ?n (c # cs))" using False 2(3) by simp
      moreover from this have "drop ?n (c # cs) = toValidUTF8 (drop ?n (c # cs))"
        using 2(2)[OF False refl] 2(4) by simp
      ultimately show ?thesis by (metis append_take_drop_id)
    qed
  qed simp
  show "s = t \<Longrightarrow> toValidUTF8 s = t"
    using t by (simp add: toValidUTF8_valid utf8_Valid_ascii_only list_all_iff)
qed

lemma scanAuditTimes_clean:
  "scanAuditTimes (map cleanAudit rs) st la = scanAuditTimes rs st la"
  by (induction rs arbitrary: st la) (auto simp: cleanAudit_def toValidUTF8_ascii_only)

lemma scanAuditTimes_append:
  "scanAuditTimes (xs @ ys) st la = (case scanAuditTimes xs st la of (st', la') \<Rightarrow> scanAuditTimes ys st' la')"
  by (induction xs arbitrary: st la) auto

lemma projected_clean: "projected (cleanTask t) = projected t"
  by (simp add: projected_def cleanTask_def)

lemma cleanTask_fields:
  "t_ID (cleanTask t) = toValidUTF8 (t_ID t)" "t_NodeID (cleanTask t) = toValidUTF8 (t_NodeID t)"
  "t_Assignee (cleanTask t) = toValidUTF8 (t_Assignee t)" "t_Outcome (cleanTask t) = toValidUTF8 (t_Outcome t)"
  "taskStatusText (t_Status (cleanTask t)) = toValidUTF8 (taskStatusText (t_Status t))"
  by (simp_all add: cleanTask_def)

lemma participation_clean:
  assumes "\<forall>p\<in>set (participationRows k ts). list_all utf8_Valid (participationTexts p)"
  shows "participationRows k (map cleanTask ts) = participationRows k ts"
    "validateTaskKeys ident at (map cleanTask ts) = validateTaskKeys ident at ts"
  using assms
  by (induction k ts rule: participationRows.induct)
    (auto simp: projected_clean cleanTask_fields participationTexts_def toValidUTF8_valid)

lemma written_rows:
  assumes "written i" and "i_Tasks j = map cleanTask (i_Tasks i)"
    and "scanAuditTimes (i_Audit j) None None = scanAuditTimes (i_Audit i) None None"
    and "i_ID j = i_ID i" "d_ID (i_Definition j) = toValidUTF8 (d_ID (i_Definition i))"
    "d_Version (i_Definition j) = d_Version (i_Definition i)"
    "instanceStatusText (i_Status j) = instanceStatusText (i_Status i)"
    "i_Initiator j = i_Initiator i" "i_CurrentNodeID j = i_CurrentNodeID i"
  shows "sameRows i j"
proof -
  have p: "projectionOf j = projectionOf i"
    using assms by (simp add: projectionOf_def projectionAuditTimes_def written_def toValidUTF8_valid)
  moreover have "continuable j = continuable i"
    using assms participation_clean(2)[of 0 "i_Tasks i"]
    by (simp add: continuable_def p written_def validateProjectionContinuationKeys_def)
  ultimately show ?thesis
    using assms participation_clean(1)[of 0 "i_Tasks i"] by (simp add: sameRows_def written_def)
qed

lemma sameRows_clean: "written i \<Longrightarrow> sameRows i (cleanInstance i)"
  by (rule written_rows) (auto simp: cleanInstance_def cleanDefinition_def scanAuditTimes_clean)

lemma sameRows_saved:
  assumes "written i" and "auditKept (i_Audit old) (i_Audit i)"
  shows "sameRows i (savedAs old i)"
proof (rule written_rows[OF assms(1)])
  have "scanAuditTimes (i_Audit old @ map cleanAudit (drop (length (i_Audit old)) (i_Audit i))) None None =
      scanAuditTimes (take (length (i_Audit old)) (i_Audit i) @ drop (length (i_Audit old)) (i_Audit i)) None None"
    using assms(2) unfolding scanAuditTimes_append scanAuditTimes_clean by (simp add: auditKept_def)
  then show "scanAuditTimes (i_Audit (savedAs old i)) None None = scanAuditTimes (i_Audit i) None None"
    by (simp add: savedAs_def)
qed (auto simp: savedAs_def cleanInstance_def cleanDefinition_def)

lemma readModel_written:
  assumes T: "readModel T" and i: "written i" and same: "sameRows i j"
    and T': "T' = withProjection i (T\<lparr>pg_facts := pg_facts T'\<rparr>)"
    and facts: "tablesOk (pg_facts T')" "tableView (pg_facts T') = (tableView (pg_facts T))(i_ID i \<mapsto> j)"
  shows "readModel T'"
proof -
  have rows: "pg_instances T' = (pg_instances T)(i_ID i \<mapsto> storedTimes (projectionOf i))"
    "pg_participation T' = (pg_participation T)(i_ID i := participationRows 0 (i_Tasks i))"
    by (subst T'; simp add: withProjection_def)+
  have "mirrored (i_ID i) j T'"
    using i same by (auto simp: mirrored_def rows written_def sameRows_def participationTexts_def)
  moreover have "mirrored k x T' = mirrored k x T" if "k \<noteq> i_ID i" for k x
    using that by (simp add: mirrored_def rows)
  ultimately have "case tableView (pg_facts T') k of
      None \<Rightarrow> pg_instances T' k = None \<and> pg_participation T' k = [] | Some x \<Rightarrow> mirrored k x T'" for k
    using T[unfolded readModel_def, THEN conjunct2, rule_format, of k]
    by (cases "k = i_ID i") (simp_all add: facts(2) rows split: option.splits)
  then show ?thesis by (simp add: readModel_def facts(1))
qed

lemma tableView_created: "created T i n T' \<Longrightarrow> tableView T' = (tableView T)(i_ID i \<mapsto> cleanInstance i)"
  by (auto simp: created_def tableView_def fun_eq_iff)

lemma pgCreated_readModel:
  assumes "readModel T" and "pgCreated T i n T'"
  shows "readModel T'"
  by (rule readModel_written[OF assms(1) _ sameRows_clean])
    (use assms(2) in \<open>auto simp: pgCreated_def tableView_created[of "pg_facts T" i n], auto simp: created_def\<close>)

lemma pgSaved_readModel:
  assumes "readModel T" and "pgSaved T i n v T'"
  shows "readModel T'"
proof -
  obtain old m where old: "auditKept (i_Audit old) (i_Audit i)" "tablesOk (pg_facts T')"
      "tableEntry (pg_facts T') = (tableEntry (pg_facts T))(i_ID i \<mapsto> (savedAs old i, n))"
    using assms(2) by (auto simp: pgSaved_def saved_def)
  have "tableView (pg_facts T') = (tableView (pg_facts T))(i_ID i \<mapsto> savedAs old i)"
    by (auto simp: tableView_def old(3) fun_eq_iff)
  then show ?thesis
    by (intro readModel_written[OF assms(1) _ sameRows_saved[OF _ old(1)] _ old(2)])
      (use assms(2) in \<open>auto simp: pgSaved_def\<close>)
qed

lemma participation_ordinals:
  "x \<in> set (participationRows k ts) \<Longrightarrow> k \<le> pp_ordinal x"
  "sorted_wrt (<) (map pp_ordinal (participationRows k ts))"
proof -
  show s: "x \<in> set (participationRows k ts) \<Longrightarrow> k \<le> pp_ordinal x" for x k ts
    by (induction k ts rule: participationRows.induct) (auto split: if_splits dest: Suc_leD)
  show "sorted_wrt (<) (map pp_ordinal (participationRows k ts))"
    by (induction k ts rule: participationRows.induct) (auto dest: s[THEN Suc_le_lessD])
qed

subsection \<open>Errors\<close>

lemma pg_foreign_errors:
  assumes "foreign e"
  shows "\<not> errors_Is e PgxErrNoRows" "\<not> errors_Is e ErrInvalidProjectionQuery"
  using assms by (auto simp: foreign_def errors_Is_def)

lemma encode_token_error:
  "encodeContinuationEnvelope x = Inl e \<Longrightarrow> set e \<subseteq> {ErrInvalidProjectionQuery}"
  "encodeTaskContinuation k = Inl e \<Longrightarrow> set e \<subseteq> {ErrInvalidProjectionQuery}"
  "encodeInstanceContinuation k' = Inl e \<Longrightarrow> set e \<subseteq> {ErrInvalidProjectionQuery}"
proof -
  show x: "encodeContinuationEnvelope x = Inl e \<Longrightarrow> set e \<subseteq> {ErrInvalidProjectionQuery}" for x e
    by (auto simp: encodeContinuationEnvelope_def envelopeJSON_def formatTime_def bindR_Inl_iff Let_def split: if_splits)
  show "encodeTaskContinuation k = Inl e \<Longrightarrow> set e \<subseteq> {ErrInvalidProjectionQuery}"
    by (auto simp: encodeTaskContinuation_def validateTaskProjectionKeyset_def bindR_Inl_iff split: if_splits dest: x)
  show "encodeInstanceContinuation k' = Inl e \<Longrightarrow> set e \<subseteq> {ErrInvalidProjectionQuery}"
    by (auto simp: encodeInstanceContinuation_def validateInstanceProjectionKeyset_def bindR_Inl_iff split: if_splits dest: x)
qed

lemma validate_keys_error:
  "validateProjectionContinuationKeys i at = Inl e \<Longrightarrow> set e \<subseteq> {ErrInvalidStoreInput, ErrInvalidProjectionQuery}"
proof -
  have t: "validateTaskKeys k at ts = Inl e \<Longrightarrow> set e \<subseteq> {ErrInvalidStoreInput, ErrInvalidProjectionQuery}" for k ts e
    by (induction ts)
      (auto simp: bindR_Inl_iff wrapR_def split: if_splits sum.splits dest!: encode_token_error(2))
  show "validateProjectionContinuationKeys i at = Inl e \<Longrightarrow> set e \<subseteq> {ErrInvalidStoreInput, ErrInvalidProjectionQuery}"
    by (auto simp: validateProjectionContinuationKeys_def bindR_Inl_iff wrapR_def split: sum.splits
        dest!: encode_token_error(3) t)
qed

lemma pg_encodeSnapshot_of: "pg_encodeSnapshot i n = Inr s \<Longrightarrow> snapshotOf i n s"
  by (auto simp: pg_encodeSnapshot_def bindR_Inr_iff snapshotRow_def snapshotOf_def)

lemmas pg_encodeSnapshot_fields = snapshotOf_fields[OF pg_encodeSnapshot_of]

lemma pg_encodeSnapshot_error: "pg_encodeSnapshot i n = Inl e \<Longrightarrow> e = []"
  by (auto simp: pg_encodeSnapshot_def bindR_Inl_iff encodeDefinition_def Let_def encodeValues_errors)

lemma pg_parentArguments_row:
  "pg_parentArguments s = [SqlText (i_ID (es_aggregate s)), SqlBytes (Some (ir_definition (snapshotRow s))),
     SqlText (ir_status (snapshotRow s)), SqlText (ir_initiator (snapshotRow s)),
     SqlText (ir_current_node_id (snapshotRow s)), SqlBytes (ir_data (snapshotRow s)),
     SqlBytes (ir_node_state (snapshotRow s)), SqlBool (ir_tasks_is_nil (snapshotRow s)),
     SqlBool (ir_audit_is_nil (snapshotRow s)), SqlText (FormatUint (ir_version (snapshotRow s)))]"
  by (simp add: pg_parentArguments_def snapshotRow_def)

subsection \<open>Steps of a transaction\<close>

locale pg_request = pg_database db committed pending acked text_less +
    sql_request db committed pending acked PgxErrTxClosed c
  for db :: "'d pgxPool" and committed pending acked text_less c
begin

abbreviation addTasks :: "InstanceID \<Rightarrow> pgTables \<Rightarrow> taskRow list \<Rightarrow> pgTables" where
  "addTasks ident t rs \<equiv> t\<lparr>pg_facts := (pg_facts t)\<lparr>tb_tasks :=
     (tb_tasks (pg_facts t))(ident := tb_tasks (pg_facts t) ident @ rs)\<rparr>\<rparr>"

abbreviation addAudit :: "InstanceID \<Rightarrow> pgTables \<Rightarrow> auditRow list \<Rightarrow> pgTables" where
  "addAudit ident t rs \<equiv> t\<lparr>pg_facts := (pg_facts t)\<lparr>tb_audit :=
     (tb_audit (pg_facts t))(ident := tb_audit (pg_facts t) ident @ rs)\<rparr>\<rparr>"

lemma pg_loadTasks_wp:
  assumes "inTx T t w"
  shows "wpE True (\<lambda>(ts, b) w'. inTx T t w' \<and> mapR decodeTask (map tr_payload (tb_tasks (pg_facts t) ident)) = Inr ts \<and>
      b = (isNil \<and> ts = [])) (aborted T) (pg_loadTasks db ident isNil) w"
  unfolding pg_loadTasks_def decodeTask_def[symmetric]
  by (rule loadRows_wp[OF assms]) (use load_tasks_law in \<open>auto simp: comp_def\<close>)

lemma pg_loadAudit_wp:
  assumes "inTx T t w"
  shows "wpE True (\<lambda>(rs, b) w'. inTx T t w' \<and>
      mapR decodeAuditRecord (map ar_payload (tb_audit (pg_facts t) ident)) = Inr rs \<and> b = (isNil \<and> rs = []))
    (aborted T) (pg_loadAudit db ident isNil) w"
  unfolding pg_loadAudit_def decodeAuditRecord_def[symmetric]
  by (rule loadRows_wp[OF assms]) (use load_audit_law in \<open>auto simp: comp_def\<close>)

lemma pg_queryRow_wp:
  assumes "inTx T t w"
    and law: "\<And>d. pending d = Some t \<Longrightarrow> wpE True
        (\<lambda>a d'. committed d' = committed d \<and> pending d' = Some t \<and> delivers full a)
        (failed committed pending d t) (tx_Query db q args) d"
    and ok: "\<And>row rest w'. inTx T t w' \<Longrightarrow> full = row # rest \<Longrightarrow> Q row w'"
    and none: "\<And>w'. inTx T t w' \<Longrightarrow> full = [] \<Longrightarrow> E [PgxErrNoRows] w'"
    and err: "\<And>e w'. aborted T e w' \<Longrightarrow> foreign e \<Longrightarrow> E e w'"
  shows "wpE True Q E (pg_queryRow db q args) w"
  unfolding pg_queryRow_def wpE_bindE
proof (rule query_wp[OF assms(1) law], goal_cases)
  case (2 a w')
  obtain rows er where a: "a = (rows, er)" by force
  from 2(2)[unfolded a] show ?case
  proof (rule delivers_cases)
    assume "er = Inr ()" "rows = full"
    then show ?thesis using 2 by (cases full) (auto simp: a wpE_ret wpE_raise intro: ok none)
  next
    fix e k assume "er = Inl e" "foreign e"
    moreover from this have "aborted T e w'" using 2(1) by (auto simp: aborted_def inTx_def)
    ultimately show ?thesis by (simp add: a wpE_raise err)
  qed
qed (auto intro: err)

lemma pg_loadSnapshot_wp:
  assumes "inTx T t w"
  shows "wpE True (\<lambda>x w'. inTx T t w' \<and> tableEntry (pg_facts t) ident = Some x)
    (\<lambda>e w'. aborted T e w' \<or> inTx T t w' \<and> e = [ErrInstanceNotFound] \<and> tb_instances (pg_facts t) ident = None)
    (pg_loadSnapshot db ident) w"
  unfolding pg_loadSnapshot_def wpE_bindE wpE_tryE
proof (rule pg_queryRow_wp[OF assms load_instance_law], goal_cases)
  case (1 d)
  then show ?case .
next
  case (2 columns rest w1)
  then obtain r where r: "tb_instances (pg_facts t) ident = Some r" "columns = instanceColumns r"
    by (auto split: option.splits)
  show ?case unfolding sum.case
    by (rule wpE_mono[OF readSnapshot_wp[OF 2(1) r pg_loadTasks_wp pg_loadAudit_wp]]) auto
next
  case (3 w')
  then show ?case by (auto simp: wp_simps split: option.splits)
next
  case (4 e w')
  then show ?case by (auto simp: wp_simps aborted_def pg_foreign_errors)
qed

lemma copyTasks_wp:
  assumes "inTx T t w" and "mapR decodeTask ps = Inr ts" and "tb_tasks (pg_facts t) ident = []"
  shows "wpE True (\<lambda>_. inTx T (addTasks ident t (taskRowsFrom 0 ps ts))) (aborted T) (copyTasks db ident ps) w"
proof (cases "ps = []")
  case True
  then show ?thesis using assms by (auto simp: copyTasks_def wpE_ret fun_upd_idem)
next
  case False
  have len: "length ps = length ts" using mapR_length[OF assms(2)] by simp
  have ne: "taskRowsFrom 0 ps ts \<noteq> []" using False len by (cases ps; cases ts) auto
  have "wpE True (\<lambda>_. inTx T (addTasks ident t (taskRowsFrom 0 ps ts))) (aborted T)
      (onSnd (tx_CopyFrom db taskTable taskColumns (map (taskValues ident) (taskRowsFrom 0 ps ts)))) w"
    by (rule exec_wp[OF assms(1) copy_tasks_law])
      (use assms ne len in \<open>auto simp: inTx_def follow_def taskRowsFrom_fields\<close>)
  then show ?thesis using False
    by (simp add: copyTasks_def wpE_bindE wpE_liftR taskRows_values[OF assms(2)])
qed

lemma copyAudit_wp:
  assumes "inTx T t w" and "mapR decodeAuditRecord ps = Inr rs"
    and "map ar_ordinal (tb_audit (pg_facts t) ident) = [0..<k]"
  shows "wpE True (\<lambda>_. inTx T (addAudit ident t (auditRowsFrom k ps rs))) (aborted T) (copyAudit db ident ps k) w"
proof (cases "ps = []")
  case True
  then show ?thesis using assms(1,2) by (auto simp: copyAudit_def wpE_ret)
next
  case False
  have len: "length ps = length rs" using mapR_length[OF assms(2)] by simp
  have ne: "auditRowsFrom k ps rs \<noteq> []" using False len by (cases ps; cases rs) auto
  have "wpE True (\<lambda>_. inTx T (addAudit ident t (auditRowsFrom k ps rs))) (aborted T)
      (onSnd (tx_CopyFrom db auditTable auditColumns (map (auditValues ident) (auditRowsFrom k ps rs)))) w"
    by (rule exec_wp[OF assms(1) copy_audit_law])
      (use assms ne len in \<open>auto simp: inTx_def follow_def auditRowsFrom_fields\<close>)
  then show ?thesis using False
    by (simp add: copyAudit_def wpE_bindE wpE_liftR auditRows_values[OF assms(2)])
qed

lemma replaceQueryProjection_wp:
  assumes tx: "inTx T t w"
  shows "wpE True (\<lambda>_ w'. inTx T (withProjection i t) w' \<and> written i)
    (\<lambda>e w'. aborted T e w' \<or> inTx T t w' \<and> set e \<subseteq> {ErrInvalidStoreInput, ErrInvalidProjectionQuery})
    (replaceQueryProjection db i) w"
proof -
  obtain st la oa where times: "projectionAuditTimes (i_Audit i) = (st, la, oa)" by (cases "projectionAuditTimes (i_Audit i)")
  let ?p = "projectionOf i" and ?rows = "participationRows 0 (i_Tasks i)"
  have p: "pj_started_at ?p = st" "pj_last_audit_at ?p = la" "pj_order_at ?p = oa"
    by (simp_all add: projectionOf_def times)
  let ?t1 = "t\<lparr>pg_instances := (pg_instances t)(i_ID i \<mapsto> storedTimes ?p)\<rparr>"
  let ?t2 = "?t1\<lparr>pg_participation := (pg_participation ?t1)(i_ID i := [])\<rparr>"
  have t2: "?t2\<lparr>pg_participation := (pg_participation ?t2)(i_ID i := ?rows)\<rparr> = withProjection i t"
    by (simp add: withProjection_def)
  have args: "[SqlText (i_ID i), SqlText (d_ID (i_Definition i)), SqlText (FormatUint (unat (d_Version (i_Definition i)))),
      SqlText (instanceStatusText (i_Status i)), SqlText (i_Initiator i), SqlText (i_CurrentNodeID i),
      timeArg st, timeArg la, SqlTime oa] =
     [SqlText (i_ID i), SqlText (pj_definition_id ?p), SqlText (FormatUint (pj_definition_version ?p)),
      SqlText (pj_instance_status ?p), SqlText (pj_initiator ?p), SqlText (pj_current_node_id ?p),
      timeArg (pj_started_at ?p), timeArg (pj_last_audit_at ?p), SqlTime (pj_order_at ?p)]"
    by (simp add: projectionOf_def times)
  have up: "wpE True (\<lambda>_ w'. inTx T ?t1 w' \<and> utf8_Valid (i_ID i) \<and> utf8_Valid (d_ID (i_Definition i)))
      (aborted T) (onSnd (tx_Exec db upsertInstanceProjectionSQL
      [SqlText (i_ID i), SqlText (d_ID (i_Definition i)), SqlText (FormatUint (unat (d_Version (i_Definition i)))),
      SqlText (instanceStatusText (i_Status i)), SqlText (i_Initiator i), SqlText (i_CurrentNodeID i),
      timeArg st, timeArg la, SqlTime oa])) w"
    unfolding args by (rule statement_wp[OF tx upsert_law])
      (use tx in \<open>auto simp: inTx_def aborted_def projectionOf_def times\<close>)
  have del: "wpE True (\<lambda>_. inTx T ?t2) (aborted T) (onSnd (tx_Exec db deleteParticipationProjectionSQL [SqlText (i_ID i)])) w'"
    if "inTx T ?t1 w'" for w'
    by (rule exec_wp[OF that delete_participation_law]) (use that in \<open>simp add: inTx_def\<close>)
  have copy: "wpE True (\<lambda>_ w'. inTx T (withProjection i t) w' \<and> (\<forall>p\<in>set ?rows. list_all utf8_Valid (participationTexts p)))
      (aborted T)
      (if i_Tasks i = [] then ret () else if ?rows = [] then ret ()
       else onSnd (tx_CopyFrom db participationTable participationColumns (map (participationValues (i_ID i)) ?rows))) w'"
    if w': "inTx T ?t2 w'" for w'
  proof (cases "?rows = []")
    case True
    then have "?t2 = withProjection i t" by (simp add: withProjection_def)
    then show ?thesis using w' True by (simp add: wpE_ret)
  next
    case False
    then have "i_Tasks i \<noteq> []" by auto
    moreover have "wpE True (\<lambda>_ w'. inTx T (?t2\<lparr>pg_participation := (pg_participation ?t2)(i_ID i := ?rows)\<rparr>) w' \<and>
          (\<forall>p\<in>set ?rows. list_all utf8_Valid (participationTexts p))) (aborted T)
      (onSnd (tx_CopyFrom db participationTable participationColumns (map (participationValues (i_ID i)) ?rows))) w'"
      by (rule statement_wp[OF w' copy_participation_law])
        (use w' False participation_ordinals(2) in \<open>simp_all add: inTx_def aborted_def\<close>)
    ultimately show ?thesis using False unfolding t2 by simp
  qed
  show ?thesis
  proof (cases "validateProjectionContinuationKeys i oa")
    case (Inl e)
    then show ?thesis using tx validate_keys_error[OF Inl]
      by (simp add: replaceQueryProjection_def times Let_def wpE_bindE wpE_liftR)
  next
    case (Inr u)
    then have "continuable i" by (simp add: continuable_def p)
    then show ?thesis
      unfolding replaceQueryProjection_def times Let_def prod.case wpE_bindE wpE_liftR Inr wpR_simps
      by (intro wpE_mono[OF up] wpE_mono[OF del] wpE_mono[OF copy]) (auto simp: written_def)
  qed
qed

lemma pg_validateAuditAppend_wp:
  assumes "inTx T t w"
  shows "wpE True
    (\<lambda>k w'. inTx T t w' \<and> (\<exists>rs. mapR decodeAuditRecord (map ar_payload (tb_audit (pg_facts t) ident)) = Inr rs \<and>
        auditKept rs candidate \<and> k = length rs))
    (\<lambda>e w'. aborted T e w' \<or> inTx T t w' \<and> e = [ErrInvalidStoreInput])
    (pg_validateAuditAppend db ident candidate) w"
  unfolding pg_validateAuditAppend_def wpE_bindE
  by (rule wpE_mono[OF pg_loadAudit_wp[OF assms]]) (auto simp: wp_simps auditKept_def)

lemma pg_classifyFailedCAS_wp:
  assumes "inTx T t w"
  shows "wpE True (\<lambda>_ _. False)
    (\<lambda>e w'. aborted T e w' \<or> inTx T t w' \<and>
       (e = [ErrInstanceNotFound] \<and> tb_instances (pg_facts t) ident = None \<or>
        e = [ErrVersionConflict] \<and> tb_instances (pg_facts t) ident \<noteq> None))
    (pg_classifyFailedCAS db ident) w"
  unfolding pg_classifyFailedCAS_def wpE_bindE
  by (rule pg_queryRow_wp[OF assms exists_law]) (auto simp: wp_simps)

lemma pg_withTransaction_wp:
  assumes q: "quietCtx c (fst w)" and T: "committed (snd w) = T"
    and op: "\<And>w. inTx T T w \<Longrightarrow> wpE True (\<lambda>x w'. \<exists>t'. inTx T t' w' \<and> R x t')
        (\<lambda>e w'. committed (snd w') = T \<and> quietCtx c (fst w') \<and> F e) m w"
    and F: "\<And>e. expected c e \<Longrightarrow> F e" "\<And>e e'. F e \<Longrightarrow> foreign e' \<Longrightarrow> F (e @ e')"
  shows "wpE True (\<lambda>x w'. quietCtx c (fst w') \<and> R x (committed (snd w')))
    (\<lambda>e w'. quietCtx c (fst w') \<and> ended T acked F R e (snd w')) (pg_withTransaction db ro m) w"
proof -
  have body: "wpE True (\<lambda>x w'. quietCtx c (fst w') \<and> R x (committed (snd w')) \<and> pending (snd w') = None)
      (\<lambda>e w'. quietCtx c (fst w') \<and> ended T acked F R e (snd w'))
      (bindE m (\<lambda>x. bindE (onSnd (tx_Commit db)) (\<lambda>_. ret x))) w1" if "inTx T T w1" for w1
    unfolding wpE_bindE
  proof (rule wpE_mono[OF op[OF that]], goal_cases)
    case (1 x w2)
    then obtain t' where t: "inTx T t' w2" "R x t'" by blast
    then have p: "pending (snd w2) = Some t'" and T2: "committed (snd w2) = T" "quietCtx c (fst w2)"
      by (simp_all add: inTx_def)
    show ?case
      unfolding wp_simps
      by (rule wpE_mono[OF commit_law[OF p]]) (use t T2 F(1) in \<open>auto simp: wpE_ret ended_def\<close>)
  qed (simp add: ended_def)
  have rollback: "wpE True
      (\<lambda>_ w'. quietCtx c (fst w') \<and> committed (snd w') = committed (snd w) \<and> pending (snd w) \<noteq> None)
      (\<lambda>e w'. quietCtx c (fst w') \<and> committed (snd w') = committed (snd w) \<and> foreign e \<and>
         (pending (snd w) = None \<longrightarrow> errors_Is e PgxErrTxClosed)) (onSnd (tx_Rollback db)) w"
    if "quietCtx c (fst w)" for w :: "'h env \<times> 'd"
    unfolding wp_simps by (rule wpE_mono[OF rollback_law]) (use that in auto)
  show ?thesis
    unfolding pg_withTransaction_def wpE_bindE[where m = "onSnd (db_BeginTx db ro)"] wpE_onSnd
  proof (rule wpE_mono[OF begin_law], goal_cases)
    case (1 u d)
    then show ?case by (intro deferCleanup_wp[OF body rollback F(2)]) (use q T in \<open>simp_all add: inTx_def\<close>)
  next
    case (2 e d)
    then show ?case using q T F(1) by (simp add: ended_def)
  qed
qed

definition rejected :: "pgTables \<Rightarrow> err \<Rightarrow> 'h env \<times> 'd \<Rightarrow> bool" where
  \<comment> \<open>a write gave up: the database failed, or the preflight refused a key\<close>
  "rejected T e w \<longleftrightarrow> aborted T e w \<or> (\<exists>t. inTx T t w) \<and> set e \<subseteq> {ErrInvalidStoreInput, ErrInvalidProjectionQuery}"

lemma rejected_errors:
  assumes "rejected T e w"
  shows "committed (snd w) = T" "quietCtx c (fst w)"
    "reports c e ErrInstanceExists P" "reports c e ErrInstanceNotFound P" "reports c e ErrVersionConflict P"
  using assms by (auto simp: rejected_def aborted_def inTx_def reports_def errors_Is_def expected_def foreign_def)

lemma write_wp:
  assumes "inTx T t1 w" and "mapR decodeTask ps = Inr ts" and "tb_tasks (pg_facts t1) (i_ID i) = []"
    and "mapR decodeAuditRecord as = Inr rs" and "map ar_ordinal (tb_audit (pg_facts t1) (i_ID i)) = [0..<k]"
    and "t2 = addTasks (i_ID i) t1 (taskRowsFrom 0 ps ts)" and "t3 = addAudit (i_ID i) t2 (auditRowsFrom k as rs)"
  shows "wpE True (\<lambda>_ w'. inTx T (withProjection i t3) w' \<and> written i) (rejected T)
    (bindE (copyTasks db (i_ID i) ps) (\<lambda>_. bindE (copyAudit db (i_ID i) as k) (\<lambda>_. replaceQueryProjection db i))) w"
proof -
  have k: "map ar_ordinal (tb_audit (pg_facts t2) (i_ID i)) = [0..<k]" using assms(5,6) by simp
  show ?thesis
    unfolding wpE_bindE
  proof (rule wpE_mono[OF copyTasks_wp[OF assms(1-3), folded assms(6)]], goal_cases)
    case (1 u w1)
    then show ?case
    proof (rule wpE_mono[OF copyAudit_wp[OF _ assms(4) k, folded assms(7)]], goal_cases)
      case (1 u w2)
      then show ?case
        by (rule wpE_mono[OF replaceQueryProjection_wp]) (auto simp: rejected_def)
    qed (simp add: rejected_def)
  qed (simp add: rejected_def)
qed

subsection \<open>The operations\<close>

lemma Postgres_Load_wp:
  assumes q: "quietCtx c (fst w)" and T: "committed (snd w) = T"
  shows "wpE True (\<lambda>x w'. quietCtx c (fst w') \<and> committed (snd w') = T \<and> tableEntry (pg_facts T) ident = Some x)
    (\<lambda>e w'. quietCtx c (fst w') \<and> committed (snd w') = T \<and>
       reports c e ErrInstanceNotFound (tb_instances (pg_facts T) ident = None))
    (Postgres_Load (Some (Postgres_New (Some db))) ident) w"
proof -
  let ?F = "\<lambda>e. reports c e ErrInstanceNotFound (tb_instances (pg_facts T) ident = None)"
  have op: "wpE True (\<lambda>x w'. \<exists>t'. inTx T t' w' \<and> t' = T \<and> tableEntry (pg_facts T) ident = Some x)
      (\<lambda>e w'. committed (snd w') = T \<and> quietCtx c (fst w') \<and> ?F e) (pg_loadSnapshot db ident) w1"
    if "inTx T T w1" for w1
    by (rule wpE_mono[OF pg_loadSnapshot_wp[OF that]]) (auto simp: aborted_def inTx_def foreign_errors expected_errors)
  have tx: "wpE True (\<lambda>x w'. quietCtx c (fst w') \<and> committed (snd w') = T \<and> tableEntry (pg_facts T) ident = Some x)
      (\<lambda>e w'. quietCtx c (fst w') \<and> committed (snd w') = T \<and> ?F e)
      (pg_withTransaction db True (pg_loadSnapshot db ident)) w1"
    if "quietCtx c (fst w1)" "committed (snd w1) = T" for w1
    by (rule wpE_mono[OF pg_withTransaction_wp[where F = ?F, OF that op]]) (auto simp: ended_def foreign_errors expected_errors)
  show ?thesis
    unfolding Postgres_Load_def Postgres_New_def wpE_bindE[where m = "onFst ctxErr"]
  proof (rule ctxErr_quiet[OF q], goal_cases)
    case (1 e)
    then show ?case by (simp add: tx T)
  qed (simp add: T foreign_errors expected_errors)
qed

lemma Postgres_Create_wp:
  assumes q: "quietCtx c (fst w)" and T: "committed (snd w) = T" "tablesOk (pg_facts T)" and n: "nilOk i n"
  shows "wpE True (\<lambda>_ w'. quietCtx c (fst w') \<and> pgCreated T i n (committed (snd w')))
    (\<lambda>e w'. quietCtx c (fst w') \<and> reports c e ErrInstanceExists (tb_instances (pg_facts T) (i_ID i) \<noteq> None) \<and>
       (committed (snd w') = T \<or> \<not> acked \<and> expected c e \<and> pgCreated T i n (committed (snd w'))))
    (Postgres_Create (Some (Postgres_New (Some db))) (Some (i, n))) w"
proof -
  let ?F = "\<lambda>e. reports c e ErrInstanceExists (tb_instances (pg_facts T) (i_ID i) \<noteq> None)"
  let ?op = "\<lambda>s. bindE (tryE (onSnd (tx_Exec db pg_insertInstanceSQL (pg_parentArguments s)))) (\<lambda>inserted.
      case inserted of
        Inl execErr \<Rightarrow> if isDuplicateInstanceError execErr then raise [ErrInstanceExists] else raise execErr
      | Inr _ \<Rightarrow> bindE (copyTasks db (i_ID i) (es_tasks s)) (\<lambda>_.
          bindE (copyAudit db (i_ID i) (es_audit s) 0) (\<lambda>_. replaceQueryProjection db i)))"
  have op: "wpE True (\<lambda>_ w'. \<exists>t'. inTx T t' w' \<and> pgCreated T i n t')
      (\<lambda>e w'. committed (snd w') = T \<and> quietCtx c (fst w') \<and> ?F e) (?op s) w1"
    if s: "pg_encodeSnapshot i n = Inr s" and id: "i_ID i \<noteq> []" and tx: "inTx T T w1" for s w1
  proof -
    note f = pg_encodeSnapshot_fields[OF s]
    have p: "pending (snd w1) = Some T" using tx by (simp add: inTx_def)
    let ?f1 = "(pg_facts T)\<lparr>tb_instances := (tb_instances (pg_facts T))(i_ID i \<mapsto> snapshotRow s)\<rparr>"
    let ?t2 = "addTasks (i_ID i) (T\<lparr>pg_facts := ?f1\<rparr>) (taskRowsFrom 0 (es_tasks s) (map cleanTask (i_Tasks i)))"
    let ?t3 = "addAudit (i_ID i) ?t2 (auditRowsFrom 0 (es_audit s) (map cleanAudit (i_Audit i)))"
    show ?thesis
      unfolding wpE_bindE[where m = "tryE (onSnd _)"] wpE_tryE pg_parentArguments_row f(1)
      unfolding wp_simps
    proof (rule wpE_mono[OF insert_law[OF p]], goal_cases)
      case (1 x d')
      then have new: "tb_instances (pg_facts T) (i_ID i) = None" and tx1: "inTx T (T\<lparr>pg_facts := ?f1\<rparr>) (fst w1, d')"
        using tx by (auto simp: inTx_def)
      from T(2) new have empty: "tb_tasks (pg_facts T) (i_ID i) = []" "tb_audit (pg_facts T) (i_ID i) = []"
        by (auto simp: tablesOk_def entryOk_def dest!: spec[of _ "i_ID i"])
      have "created (pg_facts T) i n (pg_facts ?t3)"
        by (rule created_tables[OF pg_encodeSnapshot_of[OF s] n T(2) new id]) (use empty in simp)
      then have filed: "written i \<Longrightarrow> pgCreated T i n (withProjection i ?t3)"
        by (simp add: pgCreated_def withProjection_def)
      show ?case
        unfolding sum.case
      proof (rule wpE_mono[OF write_wp[OF tx1 encodeValues_tasks[OF f(3)] _ encodeValues_audit[OF f(4)] _ refl refl]], goal_cases)
        case (3 u w2)
        then show ?case using filed by blast
      next
        case (4 e w2)
        then show ?case using rejected_errors[OF 4] by blast
      qed (simp_all add: empty)
    next
      case (2 e d')
      then show ?case using tx by (auto simp: wpE_raise inTx_def failed_def)
    qed
  qed
  show ?thesis
    unfolding Postgres_Create_def Postgres_New_def wpE_bindE[where m = "onFst ctxErr"]
  proof (rule ctxErr_quiet[OF q], goal_cases)
    case (1 e)
    have "wpE True (\<lambda>_ w'. quietCtx c (fst w') \<and> pgCreated T i n (committed (snd w')))
        (\<lambda>e w'. quietCtx c (fst w') \<and> ?F e \<and>
           (committed (snd w') = T \<or> \<not> acked \<and> expected c e \<and> pgCreated T i n (committed (snd w'))))
        (pg_withTransaction db False (?op s)) (e, snd w)" if "pg_encodeSnapshot i n = Inr s" "i_ID i \<noteq> []" for s
      by (rule wpE_mono[OF pg_withTransaction_wp[where T = T and F = ?F and R = "\<lambda>_. pgCreated T i n"]])
        (use 1 T op[OF that] in \<open>auto simp: ended_def foreign_errors expected_errors\<close>)
    note tx = this
    show ?case
    proof (cases "pg_encodeSnapshot i n")
      case (Inl e')
      then show ?thesis using 1 T pg_encodeSnapshot_error[OF Inl]
        by (simp add: wpE_raise wpE_bindE[where m = "liftR _"] wpE_liftR)
    next
      case (Inr s)
      show ?thesis
        using tx[OF Inr] 1 T
        by (simp add: Inr wpE_raise wpE_bindE[where m = "liftR _"] wpE_liftR Let_def pg_encodeSnapshot_fields(1)[OF Inr]
            del: One_nat_def cong: if_cong)
    qed
  qed (use T in \<open>auto simp: foreign_errors expected_errors\<close>)
qed

lemma Postgres_Save_wp:
  assumes q: "quietCtx c (fst w)" and T: "committed (snd w) = T" "tablesOk (pg_facts T)" and n: "nilOk i n"
  shows "wpE True (\<lambda>_ w'. quietCtx c (fst w') \<and> pgSaved T i n v (committed (snd w')))
    (\<lambda>e w'. quietCtx c (fst w') \<and>
       reports c e ErrInstanceNotFound (tb_instances (pg_facts T) (i_ID i) = None) \<and>
       reports c e ErrVersionConflict (\<exists>old m. tableEntry (pg_facts T) (i_ID i) = Some (old, m) \<and> i_Version old \<noteq> v) \<and>
       (committed (snd w') = T \<or> \<not> acked \<and> expected c e \<and> pgSaved T i n v (committed (snd w'))))
    (Postgres_Save (Some (Postgres_New (Some db))) (Some (i, n)) v) w"
proof -
  let ?F = "\<lambda>e. reports c e ErrInstanceNotFound (tb_instances (pg_facts T) (i_ID i) = None) \<and>
     reports c e ErrVersionConflict (\<exists>old m. tableEntry (pg_facts T) (i_ID i) = Some (old, m) \<and> i_Version old \<noteq> v)"
  let ?rest = "\<lambda>s. bindE (pg_validateAuditAppend db (i_ID i) (i_Audit i)) (\<lambda>auditOffset.
       bindE (pg_replaceCollections db (i_ID i) s auditOffset) (\<lambda>_. replaceQueryProjection db i))"
  let ?op = "\<lambda>s. bindE (onSnd (tx_Exec db pg_updateInstanceSQL (pg_updateArguments s v))) (\<lambda>tag.
       bindE (liftR tag) (\<lambda>rowsAffected.
         if rowsAffected = 0 then pg_classifyFailedCAS db (i_ID i) else ?rest s))"
  have rest: "wpE True (\<lambda>_ w'. \<exists>t'. inTx T t' w' \<and> pgSaved T i n v t')
      (\<lambda>e w'. committed (snd w') = T \<and> quietCtx c (fst w') \<and> ?F e) (?rest s) w1"
    if s: "pg_encodeSnapshot i n = Inr s"
      and row: "tb_instances (pg_facts T) (i_ID i) = Some row" "ir_version row = unat v"
      and tx1: "inTx T (T\<lparr>pg_facts := (pg_facts T)\<lparr>tb_instances := (tb_instances (pg_facts T))(i_ID i \<mapsto> snapshotRow s)\<rparr>\<rparr>) w1"
        (is "inTx T ?t1 w1") for s row w1
  proof -
    note f = pg_encodeSnapshot_fields[OF s]
    have num: "map ar_ordinal (tb_audit (pg_facts T) (i_ID i)) = [0..<length (tb_audit (pg_facts T) (i_ID i))]"
      using T(2) row(1) by (auto simp: tablesOk_def entryOk_def dest!: spec[of _ "i_ID i"])
    let ?t2 = "?t1\<lparr>pg_facts := (pg_facts ?t1)\<lparr>tb_tasks := (tb_tasks (pg_facts ?t1))(i_ID i := [])\<rparr>\<rparr>"
    let ?t3 = "addTasks (i_ID i) ?t2 (taskRowsFrom 0 (es_tasks s) (map cleanTask (i_Tasks i)))"
    show ?thesis
      unfolding wpE_bindE[where m = "pg_validateAuditAppend _ _ _"]
    proof (rule wpE_mono[OF pg_validateAuditAppend_wp[OF tx1]], goal_cases)
      case (1 k w3)
      then obtain rs where tx2: "inTx T ?t1 w3"
        and rs: "mapR decodeAuditRecord (map ar_payload (tb_audit (pg_facts T) (i_ID i))) = Inr rs"
        "auditKept rs (i_Audit i)" "k = length rs"
        by auto
      have k: "length (tb_audit (pg_facts T) (i_ID i)) = k" using mapR_length[OF rs(1)] rs(3) by simp
      let ?new = "auditRowsFrom k (drop k (es_audit s)) (drop k (map cleanAudit (i_Audit i)))"
      let ?t4 = "addAudit (i_ID i) ?t3 ?new"
      have del: "wpE True (\<lambda>_. inTx T ?t2) (aborted T) (onSnd (tx_Exec db pg_deleteTasksSQL [SqlText (i_ID i)])) w3"
        by (rule exec_wp[OF tx2 delete_law]) (use tx2 in \<open>simp add: inTx_def\<close>)
      have "saved (pg_facts T) i n v (pg_facts ?t4)"
        by (rule saved_tables[OF pg_encodeSnapshot_of[OF s] n T(2) row rs(1,2)]) (simp add: rs(3))
      then have filed: "written i \<Longrightarrow> pgSaved T i n v (withProjection i ?t4)"
        by (simp add: pgSaved_def withProjection_def)
      show ?case
        unfolding pg_replaceCollections_def bindE_assoc wpE_bindE[where m = "onSnd _"]
      proof (rule wpE_mono[OF del], goal_cases)
        case (1 u w4)
        show ?case
        proof (rule wpE_mono[OF write_wp[OF 1 encodeValues_tasks[OF f(3)] _ mapR_drop[OF encodeValues_audit[OF f(4)]] _ refl refl, where k = k]], goal_cases)
          case (3 u w5)
          then show ?case using filed by blast
        next
          case (4 e w5)
          then show ?case using rejected_errors[OF 4] by blast
        qed (simp_all add: num k)
      qed (auto simp: aborted_def foreign_errors expected_errors)
    next
      case (2 e w3)
      then show ?case by (auto simp: aborted_def inTx_def foreign_errors expected_errors)
    qed
  qed
  have op: "wpE True (\<lambda>_ w'. \<exists>t'. inTx T t' w' \<and> pgSaved T i n v t')
      (\<lambda>e w'. committed (snd w') = T \<and> quietCtx c (fst w') \<and> ?F e) (?op s) w1"
    if s: "pg_encodeSnapshot i n = Inr s" and tx: "inTx T T w1" for s w1
    unfolding wpE_bindE[where m = "onSnd _"] pg_updateArguments_def pg_parentArguments_row pg_encodeSnapshot_fields(1)[OF s]
      append_Cons append_Nil
  proof (rule statement_wp[OF tx update_law], goal_cases)
    case 1
    show ?case using tx by (simp add: inTx_def)
  next
    case (2 x d')
    have q: "committed d' = T" "quietCtx c (fst w1)" using 2 tx by (auto simp: inTx_def)
    show ?case
    proof (cases "\<exists>row. tb_instances (pg_facts T) (i_ID i) = Some row \<and> ir_version row = unat v")
      case True
      then obtain row where row: "tb_instances (pg_facts T) (i_ID i) = Some row" "ir_version row = unat v" by blast
      then have x: "x = Inr 1" and tx1: "inTx T (T\<lparr>pg_facts := (pg_facts T)
          \<lparr>tb_instances := (tb_instances (pg_facts T))(i_ID i \<mapsto> snapshotRow s)\<rparr>\<rparr>) (fst w1, d')"
        using 2 q by (auto simp: inTx_def)
      show ?thesis
        unfolding x wpE_bindE[where m = "liftR _"] wpE_liftR wpR_simps
        by (simp only: one_neq_zero if_False) (rule rest[OF s row tx1])
    next
      case False
      then have x: "x = Inr 0" and tx': "inTx T T (fst w1, d')"
        using 2 q by (auto simp: inTx_def split: option.splits if_splits)
      have stale: "\<exists>old m. tableEntry (pg_facts T) (i_ID i) = Some (old, m) \<and> i_Version old \<noteq> v"
        if ne: "tb_instances (pg_facts T) (i_ID i) \<noteq> None"
      proof -
        obtain row where row: "tb_instances (pg_facts T) (i_ID i) = Some row"
          using ne by auto
        from readEntry_version[OF row T(2)] False row show ?thesis by (metis prod.collapse)
      qed
      show ?thesis
        unfolding x wpE_bindE wpE_liftR wpR_simps
        by (simp only: refl if_True) (rule wpE_mono[OF pg_classifyFailedCAS_wp[OF tx']],
          use stale in \<open>auto simp: aborted_def inTx_def\<close>)
    qed
  next
    case (3 e d')
    then show ?case by (simp add: foreign_errors expected_errors)
  qed
  show ?thesis
    unfolding Postgres_Save_def Postgres_New_def wpE_bindE[where m = "onFst ctxErr"]
  proof (rule ctxErr_quiet[OF q], goal_cases)
    case (1 e)
    have "wpE True (\<lambda>_ w'. quietCtx c (fst w') \<and> pgSaved T i n v (committed (snd w')))
        (\<lambda>e w'. quietCtx c (fst w') \<and> ?F e \<and>
           (committed (snd w') = T \<or> \<not> acked \<and> expected c e \<and> pgSaved T i n v (committed (snd w'))))
        (pg_withTransaction db False (?op s)) (e, snd w)" if "pg_encodeSnapshot i n = Inr s" for s
      by (rule wpE_mono[OF pg_withTransaction_wp[where T = T and F = ?F and R = "\<lambda>_. pgSaved T i n v"]])
        (use 1 T op[OF that] in \<open>auto simp: ended_def foreign_errors expected_errors\<close>)
    note tx = this
    show ?case
    proof (cases "pg_encodeSnapshot i n")
      case (Inl e')
      then show ?thesis using 1 T pg_encodeSnapshot_error[OF Inl]
        by (simp add: wpE_bindE[where m = "liftR _"] wpE_liftR)
    next
      case (Inr s)
      show ?thesis
        using tx[OF Inr]
        by (simp add: Inr wpE_bindE[where m = "liftR _"] wpE_liftR Let_def pg_encodeSnapshot_fields(1)[OF Inr]
            cong: if_cong)
    qed
  qed (use T in \<open>auto simp: foreign_errors expected_errors\<close>)
qed

end

end
