(* ===== verification/PgReference.thy ===== *)
theory PgReference
  imports PostgresSpec SqlReference "HOL-Library.AList"
begin

text \<open>
  A database that the laws of \<open>pg_database\<close> describe: the fact tables of migration 0001, the read model
  of migration 0002 as a list of rows, texts compared byte by byte, and the queries of the projection by
  filtering and sorting. It discharges the laws (interpretation \<open>pg_ref\<close>), and it executes.
\<close>

record pgStore =
  st_facts :: tables
  st_rows :: "(InstanceID \<times> projectionRow \<times> participationRow list) list"

definition pgAbs :: "pgStore \<Rightarrow> pgTables" where
  "pgAbs s = \<lparr>pg_facts = st_facts s, pg_instances = (\<lambda>k. map_option fst (map_of (st_rows s) k)),
     pg_participation = (\<lambda>k. case map_of (st_rows s) k of None \<Rightarrow> [] | Some x \<Rightarrow> snd x)\<rparr>"

definition pgCommitted :: "pgStore server \<Rightarrow> pgTables" where
  "pgCommitted d = pgAbs (sv_committed d)"

definition pgPending :: "pgStore server \<Rightarrow> pgTables option" where
  "pgPending d = map_option pgAbs (sv_pending d)"

definition emptyStore :: pgStore where
  "emptyStore = \<lparr>st_facts = noTables, st_rows = []\<rparr>"

subsection \<open>Statements\<close>

definition onFacts :: "(tables \<Rightarrow> (tables \<times> 'a) result) \<Rightarrow> pgStore \<Rightarrow> (pgStore \<times> 'a) result" where
  "onFacts f s = bindR (f (st_facts s)) (\<lambda>(t, a). Inr (s\<lparr>st_facts := t\<rparr>, a))"

definition duplicateInstance :: err where
  "duplicateInstance = [PgError ''23505'' ''easy_workflow_instances_pkey'']"

definition pg_ref_update :: "sqlValue list \<Rightarrow> tables \<Rightarrow> (tables \<times> nat result) result" where
  "pg_ref_update args t = (case args of
     SqlText ident # columns \<Rightarrow>
       (case drop 9 columns of
          [SqlText v] \<Rightarrow>
            bindR (ref_row (take 9 columns)) (\<lambda>row. bindR (ParseUint v) (\<lambda>expected.
              case tb_instances t ident of
                Some old \<Rightarrow>
                  if ir_version old = unat expected
                  then Inr (t\<lparr>tb_instances := (tb_instances t)(ident \<mapsto> row)\<rparr>, Inr 1)
                  else Inr (t, Inr 0)
              | None \<Rightarrow> Inr (t, Inr 0)))
        | _ \<Rightarrow> Inl [])
   | _ \<Rightarrow> Inl [])"

fun timeOf :: "sqlValue \<Rightarrow> time option" where
  "timeOf (SqlTime t) = Some t"
| "timeOf _ = None"

definition rowsOf :: "pgStore \<Rightarrow> InstanceID \<Rightarrow> participationRow list" where
  "rowsOf s k = pg_participation (pgAbs s) k"

definition pg_ref_upsert :: "sqlValue list \<Rightarrow> pgStore \<Rightarrow> pgStore result" where
  "pg_ref_upsert args s = (case args of
     [SqlText ident, SqlText def, SqlText version, SqlText status, SqlText initiator, SqlText current, st, la, SqlTime at] \<Rightarrow>
       bindR (ParseUint version) (\<lambda>v.
         if tb_instances (st_facts s) ident = None then Inl []
         else Inr (s\<lparr>st_rows := AList.update ident
           (storedTimes \<lparr>pj_definition_id = def, pj_definition_version = unat v, pj_instance_status = status,
              pj_initiator = initiator, pj_current_node_id = current, pj_started_at = timeOf st,
              pj_last_audit_at = timeOf la, pj_order_at = at\<rparr>, rowsOf s ident) (st_rows s)\<rparr>))
   | _ \<Rightarrow> Inl [])"

definition pg_ref_clear :: "sqlValue list \<Rightarrow> pgStore \<Rightarrow> pgStore result" where
  "pg_ref_clear args s = (case args of
     [SqlText ident] \<Rightarrow> Inr (case map_of (st_rows s) ident of
         None \<Rightarrow> s | Some (r, _) \<Rightarrow> s\<lparr>st_rows := AList.update ident (r, []) (st_rows s)\<rparr>)
   | _ \<Rightarrow> Inl [])"

definition pg_ref_participate :: "sqlValue list \<Rightarrow> pgStore \<Rightarrow> pgStore result" where
  "pg_ref_participate args s = (case args of
     [SqlText ident, SqlInt k, SqlText task, SqlText actor, SqlText node, SqlText status, SqlText outcome] \<Rightarrow>
       (case map_of (st_rows s) ident of
          None \<Rightarrow> Inl []
        | Some (r, ps) \<Rightarrow>
            if k < 0 \<or> nat k \<in> set (map pp_ordinal ps) \<or> task \<in> set (map pp_task_id ps) \<or>
               [] \<in> {task, actor, node, status} then Inl []
            else Inr (s\<lparr>st_rows := AList.update ident (r, insort_key pp_ordinal
              \<lparr>pp_ordinal = nat k, pp_task_id = task, pp_actor_id = actor, pp_node_id = node,
               pp_task_status = status, pp_outcome = outcome\<rparr> ps) (st_rows s)\<rparr>))
   | _ \<Rightarrow> Inl [])"

fun utf8Arg :: "sqlValue \<Rightarrow> bool" where
  "utf8Arg (SqlText s) = utf8_Valid s"
| "utf8Arg _ = True"

definition pg_ref_exec :: "string \<Rightarrow> sqlValue list \<Rightarrow> pgStore \<Rightarrow> (pgStore \<times> nat result) result" where
  "pg_ref_exec q args s =
     (if \<not> list_all utf8Arg args then Inl []
      else if q = pg_insertInstanceSQL then
        onFacts (\<lambda>t. bindR (ref_insert duplicateInstance args t) (\<lambda>t'. Inr (t', Inr 1))) s
      else if q = pg_updateInstanceSQL then onFacts (pg_ref_update args) s
      else if q = pg_deleteTasksSQL then onFacts (\<lambda>t. bindR (ref_delete args t) (\<lambda>t'. Inr (t', Inr 0))) s
      else if q = upsertInstanceProjectionSQL then bindR (pg_ref_upsert args s) (\<lambda>s'. Inr (s', Inr 1))
      else if q = deleteParticipationProjectionSQL then bindR (pg_ref_clear args s) (\<lambda>s'. Inr (s', Inr 0))
      else Inl [])"

definition pg_ref_copy :: "string \<Rightarrow> string list \<Rightarrow> sqlValue list list \<Rightarrow> pgStore \<Rightarrow> (pgStore \<times> unit) result" where
  "pg_ref_copy table columns rows s =
     (if \<not> list_all (list_all utf8Arg) rows then Inl []
      else if (table, columns) = (taskTable, taskColumns) then
        onFacts (\<lambda>t. bindR (ref_rows ref_add_task rows t) (\<lambda>t'. Inr (t', ()))) s
      else if (table, columns) = (auditTable, auditColumns) then
        onFacts (\<lambda>t. bindR (ref_rows ref_add_audit rows t) (\<lambda>t'. Inr (t', ()))) s
      else if (table, columns) = (participationTable, participationColumns) then
        bindR (ref_rows pg_ref_participate rows s) (\<lambda>s'. Inr (s', ()))
      else Inl [])"

definition pg_ref_query :: "string \<Rightarrow> sqlValue list \<Rightarrow> tables \<Rightarrow> sqlValue list list result" where
  "pg_ref_query q args t = (case args of
     [SqlText ident] \<Rightarrow>
       if q = pg_loadTasksSQL then Inr (map (\<lambda>r. [SqlBytes (Some (tr_payload r))]) (tb_tasks t ident))
       else if q = pg_loadAuditSQL then Inr (map (\<lambda>r. [SqlBytes (Some (ar_payload r))]) (tb_audit t ident))
       else if q = pg_instanceExistsSQL then Inr [[SqlBool (tb_instances t ident \<noteq> None)]]
       else if q = pg_loadInstanceSQL then
         Inr (case tb_instances t ident of None \<Rightarrow> [] | Some r \<Rightarrow> [instanceColumns r])
       else Inl []
   | _ \<Rightarrow> Inl [])"

subsection \<open>Queries of the projection\<close>

fun textLess :: "string \<Rightarrow> string \<Rightarrow> bool" where
  \<comment> \<open>the collation \<open>C\<close>: byte by byte\<close>
  "textLess [] t = (t \<noteq> [])"
| "textLess (c # cs) [] = False"
| "textLess (c # cs) (d # ds) = (byte c < byte d \<or> c = d \<and> textLess cs ds)"

lemma textLess_order: "textOrder textLess"
proof -
  have "\<not> textLess a a" for a by (induction a) auto
  moreover have "textLess a b \<Longrightarrow> textLess b c \<Longrightarrow> textLess a c" for a b c
  proof (induction a b arbitrary: c rule: textLess.induct)
    case (1 t)
    then show ?case by (cases c; cases t) auto
  next
    case (3 x xs y ys)
    then show ?case by (cases c) auto
  qed simp
  moreover have "a \<noteq> b \<Longrightarrow> textLess a b \<or> textLess b a" for a b
  proof (induction a b rule: textLess.induct)
    case (2 c cs)
    then show ?case by simp
  next
    case (3 c cs d ds)
    have "byte c = byte d \<longleftrightarrow> c = d" by (simp add: inj_eq)
    then show ?case using 3 by auto
  qed auto
  ultimately show ?thesis unfolding textOrder_def by blast
qed

fun insertBefore :: "('r \<Rightarrow> 'r \<Rightarrow> bool) \<Rightarrow> 'r \<Rightarrow> 'r list \<Rightarrow> 'r list" where
  "insertBefore lt x [] = [x]"
| "insertBefore lt x (y # ys) = (if lt x y then x # y # ys else y # insertBefore lt x ys)"

definition ref_order :: "('k \<Rightarrow> 'k \<Rightarrow> bool) \<Rightarrow> ('r \<Rightarrow> 'k) \<Rightarrow> 'r list \<Rightarrow> 'r list result" where
  \<comment> \<open>the rows in order; two rows with one key are an error\<close>
  "ref_order before key rs =
     (let rs' = foldr (insertBefore (\<lambda>x y. before (key x) (key y))) rs [] in
      if sorted_wrt before (map key rs') then Inr rs' else Inl [])"

lemma set_insertBefore [simp]: "set (insertBefore lt x ys) = insert x (set ys)"
  by (induction ys) auto

lemma ref_order_selects: "ref_order before key rs = Inr rs' \<Longrightarrow> selects before key (set rs) rs'"
proof -
  have "set (foldr (insertBefore lt) rs []) = set rs" for lt :: "'a \<Rightarrow> 'a \<Rightarrow> bool"
    by (induction rs) auto
  then show "ref_order before key rs = Inr rs' \<Longrightarrow> selects before key (set rs) rs'"
    by (auto simp: ref_order_def selects_def Let_def split: if_splits)
qed

definition instanceJoinList :: "pgStore \<Rightarrow> instanceJoin list" where
  "instanceJoinList s = map (\<lambda>(k, r, _). (k, r)) (AList.clearjunk (st_rows s))"

definition taskJoinList :: "pgStore \<Rightarrow> taskJoin list" where
  "taskJoinList s = concat (map (\<lambda>(k, r, ps). map (\<lambda>p. (k, r, p)) ps) (AList.clearjunk (st_rows s)))"

lemma clearjunk_iff: "(k, v) \<in> set (AList.clearjunk xs) \<longleftrightarrow> map_of xs k = Some v"
  by (metis distinct_clearjunk map_of_clearjunk map_of_eq_Some_iff)

lemma joinLists:
  "set (instanceJoinList s) = instanceJoins (pgAbs s)" "set (taskJoinList s) = taskJoins (pgAbs s)"
proof -
  have rows: "map_of (st_rows s) k = Some (r, ps) \<longleftrightarrow> (k, r, ps) \<in> set (AList.clearjunk (st_rows s))" for k r ps
    by (simp add: clearjunk_iff)
  have i: "x \<in> set (instanceJoinList s) \<longleftrightarrow> x \<in> instanceJoins (pgAbs s)" for x
    by (cases x) (auto simp: instanceJoinList_def instanceJoins_def pgAbs_def rows image_iff split: prod.splits)
  then show "set (instanceJoinList s) = instanceJoins (pgAbs s)" by blast
  have "x \<in> set (taskJoinList s) \<longleftrightarrow>
      (\<exists>ps. (fst x, fst (snd x), ps) \<in> set (AList.clearjunk (st_rows s)) \<and> snd (snd x) \<in> set ps)" for x
  proof (cases x)
    case (fields k r p)
    have "(k, r, p) \<in> set (taskJoinList s) \<longleftrightarrow>
        (\<exists>y\<in>set (AList.clearjunk (st_rows s)). k = fst y \<and> r = fst (snd y) \<and> p \<in> set (snd (snd y)))"
      by (auto simp: taskJoinList_def split_beta)
    then show ?thesis by (simp add: fields Bex_def)
  qed
  then have "x \<in> set (taskJoinList s) \<longleftrightarrow> x \<in> taskJoins (pgAbs s)" for x
    by (cases x) (auto simp: taskJoins_def pgAbs_def clearjunk_iff split: option.splits)
  then show "set (taskJoinList s) = taskJoins (pgAbs s)" by blast
qed

definition ref_task_view :: "(string \<Rightarrow> taskJoin \<Rightarrow> bool) \<Rightarrow> sqlValue list \<Rightarrow> pgStore \<Rightarrow> sqlValue list list result" where
  "ref_task_view want args s = (case args of
     [SqlText actor, SqlTexts scope, SqlBool hasAfter, SqlTime at, SqlText ident, SqlText task, SqlInt limit] \<Rightarrow>
       bindR (ref_order (taskBefore textLess) taskKey (filter (\<lambda>x. want actor x \<and> scopeAllows scope (fst x) \<and>
           (hasAfter \<longrightarrow> taskBefore textLess (pgTime at, ident, task) (taskKey x))) (taskJoinList s)))
         (\<lambda>rs. Inr (map taskColumnsOf (take (nat limit) rs)))
   | _ \<Rightarrow> Inl [])"

definition ref_instance_view :: "sqlValue list \<Rightarrow> pgStore \<Rightarrow> sqlValue list list result" where
  "ref_instance_view args s = (case args of
     [SqlText actor, SqlTexts scope, SqlBool hasAfter, SqlTime at, SqlText ident, SqlInt limit] \<Rightarrow>
       bindR (ref_order (instanceBefore textLess) instanceKey (filter (\<lambda>x. hasInitiated actor x \<and> scopeAllows scope (fst x) \<and>
           (hasAfter \<longrightarrow> instanceBefore textLess (pgTime at, ident) (instanceKey x))) (instanceJoinList s)))
         (\<lambda>rs. Inr (map instanceColumnsOf (take (nat limit) rs)))
   | _ \<Rightarrow> Inl [])"

definition ref_pool_query :: "string \<Rightarrow> sqlValue list \<Rightarrow> pgStore \<Rightarrow> sqlValue list list result" where
  "ref_pool_query q args s =
     (if q = worklistSQL then ref_task_view inWorklist args s
      else if q = participatedSQL then ref_task_view hasParticipated args s
      else if q = initiatedSQL then ref_instance_view args s
      else Inl [])"

subsection \<open>The driver\<close>

definition refPool :: "bool \<Rightarrow> pgStore server pgxPool" where
  "refPool acked = \<lparr>
     db_BeginTx = (\<lambda>_. ref_begin),
     tx_Exec = (\<lambda>q args. ref_call PgxErrTxClosed (pg_ref_exec q args)),
     tx_Query = (\<lambda>q args. ref_call PgxErrTxClosed
       (\<lambda>s. bindR (pg_ref_query q args (st_facts s)) (\<lambda>rows. Inr (s, (rows, Inr ()))))),
     tx_Commit = ref_commit PgxErrTxClosed acked,
     tx_Rollback = ref_rollback PgxErrTxClosed,
     tx_CopyFrom = (\<lambda>table columns rows. ref_call PgxErrTxClosed (pg_ref_copy table columns rows)),
     pool_Query = (\<lambda>q args. bindE ref_fault (\<lambda>fault s.
       if fault then Some (Inl [], s)
       else Some (bindR (ref_pool_query q args (sv_committed s)) (\<lambda>rows. Inr (rows, Inr ())), s)))\<rparr>"

subsection \<open>It keeps the laws\<close>

lemma pg_statements_differ:
  "pg_updateInstanceSQL \<noteq> pg_insertInstanceSQL" "pg_deleteTasksSQL \<noteq> pg_insertInstanceSQL"
  "pg_deleteTasksSQL \<noteq> pg_updateInstanceSQL" "upsertInstanceProjectionSQL \<noteq> pg_insertInstanceSQL"
  "upsertInstanceProjectionSQL \<noteq> pg_updateInstanceSQL" "upsertInstanceProjectionSQL \<noteq> pg_deleteTasksSQL"
  "deleteParticipationProjectionSQL \<noteq> pg_insertInstanceSQL" "deleteParticipationProjectionSQL \<noteq> pg_updateInstanceSQL"
  "deleteParticipationProjectionSQL \<noteq> pg_deleteTasksSQL" "deleteParticipationProjectionSQL \<noteq> upsertInstanceProjectionSQL"
  "pg_loadAuditSQL \<noteq> pg_loadTasksSQL" "pg_instanceExistsSQL \<noteq> pg_loadTasksSQL" "pg_instanceExistsSQL \<noteq> pg_loadAuditSQL"
  "pg_loadInstanceSQL \<noteq> pg_loadTasksSQL" "pg_loadInstanceSQL \<noteq> pg_loadAuditSQL" "pg_loadInstanceSQL \<noteq> pg_instanceExistsSQL"
  "auditTable \<noteq> taskTable" "participationTable \<noteq> taskTable" "participationTable \<noteq> auditTable"
  "participatedSQL \<noteq> worklistSQL" "initiatedSQL \<noteq> worklistSQL" "initiatedSQL \<noteq> participatedSQL"
  by (simp_all add: pg_insertInstanceSQL_def pg_updateInstanceSQL_def pg_deleteTasksSQL_def upsertInstanceProjectionSQL_def
      deleteParticipationProjectionSQL_def pg_loadAuditSQL_def pg_loadTasksSQL_def pg_instanceExistsSQL_def pg_loadInstanceSQL_def
      auditTable_def taskTable_def participationTable_def worklistSQL_def participatedSQL_def initiatedSQL_def sqlQuote_def)

lemma pg_fault_wp:
  assumes "\<And>b d'. sv_committed d' = sv_committed d \<Longrightarrow> sv_pending d' = sv_pending d \<Longrightarrow> Q b d'"
  shows "wpE D Q E ref_fault d"
  by (rule wpE_ref_fault) (rule assms)

lemma pg_call_wp:
  assumes "pgPending d = Some t"
    and ok: "\<And>s s' a d'. t = pgAbs s \<Longrightarrow> f s = Inr (s', a) \<Longrightarrow> pgCommitted d' = pgCommitted d \<Longrightarrow>
        pgPending d' = Some (pgAbs s') \<Longrightarrow> Q a d'"
    and err: "\<And>s e d'. t = pgAbs s \<Longrightarrow> f s = Inl e \<or> e = [] \<Longrightarrow> pgCommitted d' = pgCommitted d \<Longrightarrow>
        pgPending d' = Some t \<Longrightarrow> E e d'"
  shows "wpE True Q E (ref_call PgxErrTxClosed f) d"
proof -
  obtain s where s: "sv_pending d = Some s" "t = pgAbs s" using assms(1) by (auto simp: pgPending_def)
  show ?thesis
    unfolding ref_call_def wpE_bindE
    by (rule wpE_ref_fault)
      (use s in \<open>auto simp: wpE_def pgCommitted_def pgPending_def split: sum.split intro: ok err\<close>)
qed

lemma foreign_duplicate: "foreign duplicateInstance" "isDuplicateInstanceError duplicateInstance"
  "\<not> isDuplicateInstanceError []"
  by (simp_all add: foreign_def duplicateInstance_def isDuplicateInstanceError_def)

lemma pgAbs_simps [simp]: "pg_facts (pgAbs s) = st_facts s" "pgAbs (s\<lparr>st_facts := t\<rparr>) = (pgAbs s)\<lparr>pg_facts := t\<rparr>"
  by (simp_all add: pgAbs_def)

lemma onFacts_cases:
  "onFacts f s = Inr (s', a) \<longleftrightarrow> (\<exists>t. f (st_facts s) = Inr (t, a) \<and> s' = s\<lparr>st_facts := t\<rparr>)"
  "onFacts f s = Inl e \<longleftrightarrow> f (st_facts s) = Inl e"
  by (auto simp: onFacts_def bindR_Inr_iff bindR_Inl_iff)

lemma timeOf_arg [simp]: "timeOf (timeArg t) = t"
  by (cases t) (simp_all add: timeArg_def)

lemma upsert_abs:
  assumes "pg_ref_upsert [SqlText ident, SqlText (pj_definition_id p), SqlText (FormatUint (pj_definition_version p)),
      SqlText (pj_instance_status p), SqlText (pj_initiator p), SqlText (pj_current_node_id p),
      timeArg (pj_started_at p), timeArg (pj_last_audit_at p), SqlTime (pj_order_at p)] s = Inr s'"
  shows "pgAbs s' = (pgAbs s)\<lparr>pg_instances := (pg_instances (pgAbs s))(ident \<mapsto> storedTimes p)\<rparr>"
  using assms
  by (cases p) (auto simp: pg_ref_upsert_def bindR_Inr_iff ParseUint_FormatUint_large unat_version pgAbs_def update_conv
      rowsOf_def fun_eq_iff split: if_splits)

lemma clear_abs:
  assumes "pg_ref_clear [SqlText ident] s = Inr s'"
  shows "pgAbs s' = (pgAbs s)\<lparr>pg_participation := (pg_participation (pgAbs s))(ident := [])\<rparr>"
  using assms by (auto simp: pg_ref_clear_def pgAbs_def update_conv fun_eq_iff split: option.splits)

lemma participate_abs:
  assumes "ref_rows pg_ref_participate (map (participationValues ident) ps) s = Inr s'"
    and "follow (map pp_ordinal (pg_participation (pgAbs s) ident)) (map pp_ordinal ps)"
  shows "pgAbs s' = (pgAbs s)\<lparr>pg_participation := (pg_participation (pgAbs s))(ident := pg_participation (pgAbs s) ident @ ps)\<rparr>"
  using assms
proof (induction ps arbitrary: s)
  case (Cons p ps)
  let ?old = "pg_participation (pgAbs s) ident"
  have last: "insort_key pp_ordinal p ?old = ?old @ [p]"
    by (rule insort_key_last) (use Cons.prems(2) in \<open>auto simp: follow_def\<close>)
  obtain s1 where s1: "pg_ref_participate (participationValues ident p) s = Inr s1"
    "ref_rows pg_ref_participate (map (participationValues ident) ps) s1 = Inr s'"
    using Cons.prems(1) by (auto simp: bindR_Inr_iff)
  then have abs: "pgAbs s1 = (pgAbs s)\<lparr>pg_participation := (pg_participation (pgAbs s))(ident := ?old @ [p])\<rparr>"
    using last
    by (cases p) (auto simp: pg_ref_participate_def participationValues_def pgAbs_def update_conv fun_eq_iff
        split: option.splits if_splits)
  show ?case using Cons.IH[OF s1(2)] Cons.prems(2) by (auto simp: abs follow_def cong: if_cong)
qed (cases "pgAbs s", simp)

lemma pg_ref_errors:
  "pg_ref_upsert args s = Inl e \<Longrightarrow> e = []" "pg_ref_clear args s = Inl e \<Longrightarrow> e = []"
  "ref_rows pg_ref_participate rows s = Inl e \<Longrightarrow> e = []" "pg_ref_update args t = Inl e \<Longrightarrow> e = []"
  "ref_insert dup args t = Inl e \<Longrightarrow> e = [] \<or> e = dup" "ref_delete args t = Inl e \<Longrightarrow> e = []"
proof -
  show "pg_ref_upsert args s = Inl e \<Longrightarrow> e = []"
    by (auto simp: pg_ref_upsert_def bindR_Inl_iff ref_errors split: list.splits sqlValue.splits if_splits)
  show "pg_ref_clear args s = Inl e \<Longrightarrow> e = []"
    by (auto simp: pg_ref_clear_def split: list.splits sqlValue.splits option.splits)
  have p: "pg_ref_participate row s = Inl e \<Longrightarrow> e = []" for row s e
    by (auto simp: pg_ref_participate_def split: list.splits sqlValue.splits option.splits if_splits)
  show "ref_rows pg_ref_participate rows s = Inl e \<Longrightarrow> e = []"
    by (induction rows arbitrary: s) (auto simp: bindR_Inl_iff dest: p)
  show "pg_ref_update args t = Inl e \<Longrightarrow> e = []"
    by (auto simp: pg_ref_update_def bindR_Inl_iff ref_errors split: list.splits sqlValue.splits option.splits if_splits)
  show "ref_insert dup args t = Inl e \<Longrightarrow> e = [] \<or> e = dup"
    by (induction dup args t rule: ref_insert.induct) (auto simp: bindR_Inl_iff ref_errors split: if_splits)
  show "ref_delete args t = Inl e \<Longrightarrow> e = []"
    by (auto simp: ref_delete_def split: list.splits sqlValue.splits)
qed

lemma pg_ref_row:
  "ref_row [SqlBytes (Some (ir_definition r)), SqlText (ir_status r), SqlText (ir_initiator r),
     SqlText (ir_current_node_id r), SqlBytes (ir_data r), SqlBytes (ir_node_state r),
     SqlBool (ir_tasks_is_nil r), SqlBool (ir_audit_is_nil r), SqlText (FormatUint (ir_version r))] =
   (if ir_version r < 2 ^ 64 then Inr r else Inl [])"
  by (rule ref_row_columns(2))

lemma ref_task_view_delivers:
  assumes "ref_task_view want [SqlText actor, SqlTexts scope, SqlBool hasAfter, SqlTime at, SqlText ident,
      SqlText task, SqlInt limit] s = Inr rows"
  shows "\<exists>rs. selects (taskBefore textLess) taskKey
      {x \<in> taskJoins (pgAbs s). want actor x \<and> scopeAllows scope (fst x) \<and>
         (hasAfter \<longrightarrow> taskBefore textLess (pgTime at, ident, task) (taskKey x))} rs \<and>
      rows = map taskColumnsOf (take (nat limit) rs)"
  using assms
  by (auto simp: ref_task_view_def bindR_Inr_iff joinLists dest!: ref_order_selects)

lemma ref_instance_view_delivers:
  assumes "ref_instance_view [SqlText actor, SqlTexts scope, SqlBool hasAfter, SqlTime at, SqlText ident,
      SqlInt limit] s = Inr rows"
  shows "\<exists>rs. selects (instanceBefore textLess) instanceKey
      {x \<in> instanceJoins (pgAbs s). hasInitiated actor x \<and> scopeAllows scope (fst x) \<and>
         (hasAfter \<longrightarrow> instanceBefore textLess (pgTime at, ident) (instanceKey x))} rs \<and>
      rows = map instanceColumnsOf (take (nat limit) rs)"
  using assms
  by (auto simp: ref_instance_view_def bindR_Inr_iff joinLists dest!: ref_order_selects)

lemma view_errors:
  "ref_task_view want args s = Inl e \<Longrightarrow> e = []" "ref_instance_view args s = Inl e \<Longrightarrow> e = []"
  by (auto simp: ref_task_view_def ref_instance_view_def ref_order_def Let_def bindR_Inl_iff
      split: list.splits sqlValue.splits if_splits)

lemma pool_query_wp:
  assumes "\<And>rows d'. ref_pool_query q args (sv_committed d) = Inr rows \<Longrightarrow> pgCommitted d' = pgCommitted d \<Longrightarrow> Q (rows, Inr ()) d'"
    and "\<And>e d'. ref_pool_query q args (sv_committed d) = Inl e \<or> e = [] \<Longrightarrow> pgCommitted d' = pgCommitted d \<Longrightarrow> E e d'"
  shows "wpE True Q E (pool_Query (refPool acked) q args) d"
  unfolding refPool_def pgxPool.simps wpE_bindE
  by (rule wpE_ref_fault)
    (use assms in \<open>auto simp: wpE_def pgCommitted_def bindR_def split: sum.split\<close>)

interpretation pg_ref: pg_database "refPool acked" pgCommitted pgPending acked textLess
proof (unfold_locales, goal_cases)
  case (1 ro d)
  show ?case unfolding refPool_def sqlDB.simps
    by (rule wpE_mono[OF ref_begin_law]) (auto simp: pgCommitted_def pgPending_def)
next
  case (2 d t)
  then obtain s where "sv_pending d = Some s" "t = pgAbs s" by (auto simp: pgPending_def)
  then show ?case unfolding refPool_def sqlDB.simps
    by (intro wpE_mono[OF ref_commit_law[where t = s]]) (auto simp: pgCommitted_def pgPending_def)
next
  case (3 d)
  have "foreign [PgxErrTxClosed]" by (simp add: foreign_def)
  then show ?case unfolding refPool_def sqlDB.simps
    by (intro wpE_mono[OF ref_rollback_law]) (auto simp: pgCommitted_def pgPending_def)
next
  case 4
  show ?case by (rule textLess_order)
next
  case (5 d t ident r)
  show ?case unfolding refPool_def sqlDB.simps
    by (rule pg_call_wp[OF 5])
      (auto simp: pg_ref_exec_def onFacts_cases pg_ref_row bindR_Inr_iff bindR_Inl_iff failed_def foreign_duplicate split: if_splits)
next
  case (6 d t ident v r)
  show ?case unfolding refPool_def sqlDB.simps
    by (rule pg_call_wp[OF 6])
      (auto simp: pg_ref_exec_def onFacts_cases pg_statements_differ pg_ref_update_def pg_ref_row bindR_Inr_iff bindR_Inl_iff
        failed_def ParseUint_FormatUint_large unat_version split: if_splits option.splits)
next
  case (7 d t ident)
  show ?case unfolding refPool_def sqlDB.simps
    by (rule pg_call_wp[OF 7])
      (auto simp: pg_ref_exec_def onFacts_cases pg_statements_differ ref_delete_def failed_def bindR_Inr_iff bindR_Inl_iff split: if_splits)
next
  case (8 d t rs ident)
  show ?case unfolding refPool_def pgxPool.simps
    by (rule pg_call_wp[OF 8(1)])
      (use 8(3) in \<open>auto simp: pg_ref_copy_def onFacts_cases failed_def bindR_Inr_iff bindR_Inl_iff
        dest: ref_tasks_follow ref_errors split: if_splits\<close>)
next
  case (9 d t as ident)
  show ?case unfolding refPool_def pgxPool.simps
    by (rule pg_call_wp[OF 9(1)])
      (use 9(3) in \<open>auto simp: pg_ref_copy_def onFacts_cases pg_statements_differ failed_def bindR_Inr_iff bindR_Inl_iff
        dest: ref_audit_follow ref_errors split: if_splits\<close>)
next
  case (10 d t ident)
  show ?case unfolding refPool_def sqlDB.simps
    by (rule pg_call_wp[OF 10]) (auto simp: pg_ref_query_def pg_statements_differ failed_def split: option.splits)
next
  case (11 d t ident)
  show ?case unfolding refPool_def sqlDB.simps
    by (rule pg_call_wp[OF 11]) (auto simp: pg_ref_query_def pg_statements_differ failed_def)
next
  case (12 d t ident)
  show ?case unfolding refPool_def sqlDB.simps
    by (rule pg_call_wp[OF 12]) (auto simp: pg_ref_query_def failed_def)
next
  case (13 d t ident)
  show ?case unfolding refPool_def sqlDB.simps
    by (rule pg_call_wp[OF 13]) (auto simp: pg_ref_query_def pg_statements_differ failed_def)
next
  case (14 d t ident p)
  show ?case unfolding refPool_def sqlDB.simps
    by (rule pg_call_wp[OF 14])
      (auto simp: pg_ref_exec_def pg_statements_differ failed_def bindR_Inr_iff bindR_Inl_iff upsert_abs
        dest: pg_ref_errors(1) split: if_splits)
next
  case (15 d t ident)
  show ?case unfolding refPool_def sqlDB.simps
    by (rule pg_call_wp[OF 15])
      (auto simp: pg_ref_exec_def pg_statements_differ failed_def bindR_Inr_iff bindR_Inl_iff clear_abs
        dest: pg_ref_errors(2) split: if_splits)
next
  case (16 d t ident ps)
  show ?case unfolding refPool_def pgxPool.simps
  proof (rule pg_call_wp[OF 16(1)], goal_cases)
    case (1 s s' a d')
    have "list_all (list_all utf8Arg) (map (participationValues ident) ps) \<Longrightarrow> \<forall>p\<in>set ps. list_all utf8_Valid (participationTexts p)"
      by (auto simp: list_all_iff participationValues_def participationTexts_def)
    with 1 16(2,4) show ?case
      by (auto simp: pg_ref_copy_def pg_statements_differ bindR_Inr_iff follow_def dest!: participate_abs split: if_splits)
  qed (auto simp: pg_ref_copy_def pg_statements_differ failed_def bindR_Inl_iff dest: pg_ref_errors(3) split: if_splits)
next
  case (17 d actor scope hasAfter at ident task limit)
  show ?case
    by (rule pool_query_wp)
      (auto simp: ref_pool_query_def pgCommitted_def
        dest: view_errors(1) dest!: ref_task_view_delivers)
next
  case (18 d actor scope hasAfter at ident task limit)
  show ?case
    by (rule pool_query_wp)
      (auto simp: ref_pool_query_def pg_statements_differ pgCommitted_def
        dest: view_errors(1) dest!: ref_task_view_delivers)
next
  case (19 d actor scope hasAfter at ident limit)
  show ?case
    by (rule pool_query_wp)
      (auto simp: ref_pool_query_def pg_statements_differ pgCommitted_def
        dest: view_errors(2) dest!: ref_instance_view_delivers)
qed

end
