(* ===== verification/PostgresEngine.thy ===== *)
theory PostgresEngine
  imports PgReference
begin

text \<open>
  The engine over the PostgreSQL store: \<open>pg_store\<close> gives every database whose failed commits are known not
  to have happened the contract \<open>store_contract\<close> of the engine. Its invariant is \<open>readModel\<close>: what the engine
  does keeps the read model equal to the stored facts.
\<close>

definition postgresCreate :: "'d pgxPool \<Rightarrow> ('h, 'd) nilChoice \<Rightarrow> Instance option \<Rightarrow> ('h env \<times> 'd, unit) eff" where
  "postgresCreate db ns i w = Postgres_Create (Some (Postgres_New (Some db))) (map_option (\<lambda>x. (x, ns w x)) i) w"

definition postgresLoad :: "'d pgxPool \<Rightarrow> InstanceID \<Rightarrow> ('h env \<times> 'd, Instance) eff" where
  "postgresLoad db k = bindE (Postgres_Load (Some (Postgres_New (Some db))) k) (\<lambda>x. ret (fst x))"

definition postgresSave :: "'d pgxPool \<Rightarrow> ('h, 'd) nilChoice \<Rightarrow> Instance option \<Rightarrow> u64 \<Rightarrow> ('h env \<times> 'd, unit) eff" where
  "postgresSave db ns i v w = Postgres_Save (Some (Postgres_New (Some db))) (map_option (\<lambda>x. (x, ns w x)) i) v w"

definition Postgres_ops :: "'d pgxPool \<Rightarrow> ('h, 'd) nilChoice \<Rightarrow> ('h, 'd) Store" where
  \<comment> \<open>the PostgreSQL store behind the interface \<open>Store\<close>\<close>
  "Postgres_ops db ns = storeOps (postgresCreate db ns) (postgresLoad db) (postgresSave db ns)"

locale pg_store = pg_database db tabs pending True text_less
  for db :: "'d pgxPool" and tabs pending text_less + fixes ns :: "('h, 'd) nilChoice"
  assumes nil_law: "nilOk i (ns w i)"

sublocale pg_store \<subseteq> request: pg_request db tabs pending True text_less False ..

lemma readModel_tablesOk: "readModel t \<Longrightarrow> tablesOk (pg_facts t)"
  by (simp add: readModel_def)

lemma pg_filed:
  "pgCreated T i n T' \<Longrightarrow> i_ID i \<noteq> [] \<and> tableView (pg_facts T) (i_ID i) = None \<and>
     filed storable (tableView (pg_facts T)) i (tableView (pg_facts T'))"
  "pgSaved T i n v T' \<Longrightarrow> (\<exists>old. tableView (pg_facts T) (i_ID i) = Some old \<and> i_Version old = v \<and>
       auditKept (i_Audit old) (i_Audit i)) \<and>
     filed storable (tableView (pg_facts T)) i (tableView (pg_facts T'))"
  using created_filed[of "pg_facts T" i n "pg_facts T'"] saved_filed[of "pg_facts T" i n v "pg_facts T'"]
  by (simp_all add: pgCreated_def pgSaved_def)

sublocale pg_store \<subseteq> store: store_contract "postgresCreate db ns" "postgresLoad db" "postgresSave db ns"
  "tableView \<circ> pg_facts \<circ> tabs" "readModel \<circ> tabs" storable
proof (unfold_locales, goal_cases)
  case (1 w i)
  have q: "quietCtx False (fst w)" by (simp add: quietCtx_def)
  have ok: "readModel (tabs (snd w))" using 1 by simp
  show ?case unfolding postgresCreate_def wpE_def
    using request.Postgres_Create_wp[OF q refl readModel_tablesOk[OF ok] nil_law[of i w]] ok
      pgCreated_readModel[OF ok] pg_filed(1)
    by (fastforce simp: wpE_def split: option.splits sum.splits)
next
  case (2 w k)
  have q: "quietCtx False (fst w)" by (simp add: quietCtx_def)
  show ?case unfolding postgresLoad_def wpE_bindE wpE_ret
    by (rule wpE_mono[OF request.Postgres_Load_wp[OF q refl]]) (use 2 in \<open>auto simp: tableView_def\<close>)
next
  case (3 w i v)
  have q: "quietCtx False (fst w)" by (simp add: quietCtx_def)
  have ok: "readModel (tabs (snd w))" using 3 by simp
  show ?case unfolding postgresSave_def wpE_def
    using request.Postgres_Save_wp[OF q refl readModel_tablesOk[OF ok] nil_law[of i w]] ok
      pgSaved_readModel[OF ok] pg_filed(2)
    by (fastforce simp: wpE_def split: option.splits sum.splits)
qed

context pg_store
begin

lemma postgres_engine_wp:
  assumes "readModel (tabs (snd w))" and "storeOk (tableView (pg_facts (tabs (snd w))))"
    and "Option.bind e e_store = Some (Postgres_ops db ns)" and "op \<in> engineOperations e"
  shows "wpE True
    (\<lambda>c w'. readModel (tabs (snd w')) \<and>
       replacedOne (tableView (pg_facts (tabs (snd w)))) c ((tableView (pg_facts (tabs (snd w))))(i_ID c \<mapsto> c)) \<and>
       filed storable (tableView (pg_facts (tabs (snd w)))) c (tableView (pg_facts (tabs (snd w')))))
    (\<lambda>_ w'. readModel (tabs (snd w')) \<and>
       tableView (pg_facts (tabs (snd w'))) = tableView (pg_facts (tabs (snd w)))) op w"
  by (rule wpE_mono[OF store.operation_wp[OF _ _ assms(3)[unfolded Postgres_ops_def] assms(4)]])
    (use assms(1,2) in auto)

end

interpretation pg_ref_request: pg_request "refPool acked" pgCommitted pgPending acked textLess c for acked c ..

interpretation pg_ref_store: pg_store "refPool True" pgCommitted pgPending textLess
  "\<lambda>_ _. \<lparr>nil_Nodes = False, nil_Edges = False, nil_Tasks = False, nil_Audit = False\<rparr>"
  by unfold_locales (simp add: nilOk_def)

end
