(* ===== verification/Projection.thy ===== *)
theory Projection
  imports Pgx Continuation Snapshot
begin

text \<open>
  The read side of the PostgreSQL adapter (\<open>postgres/projection.go\<close>, \<open>projection_query.go\<close>,
  \<open>projection_task.go\<close>, \<open>projection_instance.go\<close>): requests and pages, their validation before any
  database call, the keyset queries with one look-ahead row, and the two public forms of each query,
  with a cursor and with an opaque continuation.
\<close>

subsection \<open>Requests and pages (projection.go)\<close>

definition defaultPageLimit :: int where "defaultPageLimit = 50"
definition maximumPageLimit :: int where "maximumPageLimit = 200"

record 'd Projection =
  pr_pool :: "'d pgxPool option"

definition NewProjection :: "'d pgxPool option \<Rightarrow> 'd Projection" where
  "NewProjection pool = \<lparr>pr_pool = pool\<rparr>"

record QueryScope =
  sc_InstanceIDs :: "InstanceID list option"  \<comment> \<open>\<open>None\<close>: nil, no constraint\<close>

record ContinuationPageRequest =
  cr_Limit :: int
  cr_After :: Continuation

record ContinuationQuery =
  cq_ActorID :: ActorID
  cq_Scope :: QueryScope
  cq_Page :: ContinuationPageRequest

record 'a ContinuationPage =
  cp_Items :: "'a list"
  cp_Next :: Continuation

record Cursor =
  cu_At :: time
  cu_InstanceID :: InstanceID
  cu_TaskID :: TaskID

record PageRequest =
  pq_Limit :: int
  pq_After :: "Cursor option"

record ActorQuery =
  aq_ActorID :: ActorID
  aq_Scope :: QueryScope
  aq_Page :: PageRequest

record 'a Page =
  pa_Items :: "'a list"
  pa_Next :: "Cursor option"

type_synonym Relation = string
definition RelationCandidate :: Relation where "RelationCandidate = ''candidate''"
definition RelationParticipant :: Relation where "RelationParticipant = ''participant''"

record TaskProjection =
  tp_DefinitionID :: string
  tp_DefinitionVersion :: u64
  tp_InstanceID :: InstanceID
  tp_InstanceStatus :: InstanceStatus
  tp_Initiator :: ActorID
  tp_NodeID :: string
  tp_TaskID :: TaskID
  tp_ActorID :: ActorID
  tp_TaskStatus :: TaskStatus
  tp_Outcome :: string
  tp_Relation :: Relation
  tp_StartedAt :: "time option"
  tp_LastAuditAt :: "time option"

record InstanceProjection =
  ip_DefinitionID :: string
  ip_DefinitionVersion :: u64
  ip_InstanceID :: InstanceID
  ip_InstanceStatus :: InstanceStatus
  ip_Initiator :: ActorID
  ip_CurrentNodeID :: string
  ip_StartedAt :: "time option"
  ip_LastAuditAt :: "time option"

subsection \<open>Query boundary (projection_query.go)\<close>

record projectionQueryBoundary =
  qb_actorID :: ActorID
  qb_scope :: "string list option"
  qb_limit :: int

definition projectionScope :: "InstanceID list option \<Rightarrow> string list option" where
  "projectionScope ids = (case ids of None \<Rightarrow> None | Some xs \<Rightarrow> Some (map (\<lambda>x. x) xs))"

definition prepareProjectionQuery ::
  "'d Projection option \<Rightarrow> ActorID \<Rightarrow> InstanceID list option \<Rightarrow> int \<Rightarrow> ('h env \<times> 'd, projectionQueryBoundary) eff" where
  "prepareProjectionQuery p actorID scopeIDs requestedLimit =
     bindE (onFst ctxErr) (\<lambda>_.
     if Option.bind p pr_pool = None \<or> actorID = [] then raise [ErrInvalidProjectionQuery]
     else
       let limit = (if requestedLimit = 0 then defaultPageLimit else requestedLimit) in
       if limit < 1 \<or> limit > maximumPageLimit then raise [ErrInvalidProjectionQuery]
       else ret \<lparr>qb_actorID = actorID, qb_scope = projectionScope scopeIDs, qb_limit = limit\<rparr>)"

definition poolOf :: "'d Projection option \<Rightarrow> ('d pgxPool \<Rightarrow> ('w, 'a) eff) \<Rightarrow> ('w, 'a) eff" where
  \<comment> \<open>\<open>p.pool\<close>; dereferencing nil would panic, but only prepared queries get here\<close>
  "poolOf p k = (case Option.bind p pr_pool of None \<Rightarrow> (\<lambda>_. None) | Some pool \<Rightarrow> k pool)"

subsection \<open>Rows\<close>

fun scanTime :: "sqlValue \<Rightarrow> time result" where
  "scanTime (SqlTime t) = Inr t"
| "scanTime _ = Inl []"

fun scanTimePtr :: "sqlValue \<Rightarrow> time option result" where
  "scanTimePtr SqlNull = Inr None"
| "scanTimePtr (SqlTime t) = Inr (Some t)"
| "scanTimePtr _ = Inl []"

fun scanTaskProjection :: "Relation \<Rightarrow> sqlValue list \<Rightarrow> (TaskProjection \<times> time) result" where
  \<comment> \<open>one turn of the loop over the rows: \<open>Scan\<close>, the version, the relation\<close>
  "scanTaskProjection relation [def, version, ident, status, initiator, node, task, actor, taskStatus, outcome, startedAt, lastAuditAt, orderTime] =
     bindR (scanString def) (\<lambda>d. bindR (scanString version) (\<lambda>v. bindR (scanString ident) (\<lambda>k.
     bindR (scanString status) (\<lambda>st. bindR (scanString initiator) (\<lambda>ini. bindR (scanString node) (\<lambda>n.
     bindR (scanString task) (\<lambda>t. bindR (scanString actor) (\<lambda>a. bindR (scanString taskStatus) (\<lambda>ts.
     bindR (scanString outcome) (\<lambda>oc. bindR (scanTimePtr startedAt) (\<lambda>sa. bindR (scanTimePtr lastAuditAt) (\<lambda>la.
     bindR (scanTime orderTime) (\<lambda>orderAt.
     bindR (ParseUint v) (\<lambda>version.
       Inr (\<lparr>tp_DefinitionID = d, tp_DefinitionVersion = version, tp_InstanceID = k,
             tp_InstanceStatus = instanceStatusOf st, tp_Initiator = ini, tp_NodeID = n, tp_TaskID = t,
             tp_ActorID = a, tp_TaskStatus = taskStatusOf ts, tp_Outcome = oc, tp_Relation = relation,
             tp_StartedAt = sa, tp_LastAuditAt = la\<rparr>, orderAt)))))))))))))))"
| "scanTaskProjection relation _ = Inl []"

fun scanInstanceProjection :: "sqlValue list \<Rightarrow> (InstanceProjection \<times> time) result" where
  "scanInstanceProjection [def, version, ident, status, initiator, current, startedAt, lastAuditAt, orderTime] =
     bindR (scanString def) (\<lambda>d. bindR (scanString version) (\<lambda>v. bindR (scanString ident) (\<lambda>k.
     bindR (scanString status) (\<lambda>st. bindR (scanString initiator) (\<lambda>ini. bindR (scanString current) (\<lambda>cur.
     bindR (scanTimePtr startedAt) (\<lambda>sa. bindR (scanTimePtr lastAuditAt) (\<lambda>la. bindR (scanTime orderTime) (\<lambda>orderAt.
     bindR (ParseUint v) (\<lambda>version.
       Inr (\<lparr>ip_DefinitionID = d, ip_DefinitionVersion = version, ip_InstanceID = k,
             ip_InstanceStatus = instanceStatusOf st, ip_Initiator = ini, ip_CurrentNodeID = cur,
             ip_StartedAt = sa, ip_LastAuditAt = la\<rparr>, orderAt)))))))))))"
| "scanInstanceProjection _ = Inl []"

definition collectRows :: "(sqlValue list \<Rightarrow> ('a \<times> time) result) \<Rightarrow> sqlValue list list \<times> unit result \<Rightarrow> ('a \<times> time) list result" where
  \<comment> \<open>the loop over \<open>rows.Next()\<close> and the check of \<open>rows.Err()\<close>\<close>
  "collectRows scan answer = (case answer of (rows, err) \<Rightarrow>
     bindR (mapR scan rows) (\<lambda>xs. bindR err (\<lambda>_. Inr xs)))"

subsection \<open>Task queries (projection_task.go)\<close>

record taskProjectionQuery =
  tq_boundary :: projectionQueryBoundary
  tq_after :: "taskProjectionKeyset option"

record taskProjectionResult =
  tr_items :: "TaskProjection list"
  tr_next :: "taskProjectionKeyset option"

definition queryTaskProjection ::
  "'d Projection option \<Rightarrow> taskProjectionQuery \<Rightarrow> string \<Rightarrow> Relation \<Rightarrow> ('h env \<times> 'd, taskProjectionResult) eff" where
  "queryTaskProjection p query statement relation =
     (let boundary = tq_boundary query; limit = nat (qb_limit boundary) in
      if qb_scope boundary = Some [] then ret \<lparr>tr_items = [], tr_next = None\<rparr>
      else
        let hasAfter = (tq_after query \<noteq> None);
            after = (case tq_after query of
              None \<Rightarrow> \<lparr>tk_at = 0, tk_instanceID = [], tk_taskID = []\<rparr> | Some ks \<Rightarrow> ks);
            fetchLimit = qb_limit boundary + 1 in
        bindE (poolOf p (\<lambda>pool. onSnd (pool_Query pool statement
          [SqlText (qb_actorID boundary), SqlTexts (qb_scope boundary), SqlBool hasAfter, SqlTime (tk_at after),
           SqlText (tk_instanceID after), SqlText (tk_taskID after), SqlInt fetchLimit]))) (\<lambda>answer.
        bindE (liftR (collectRows (scanTaskProjection relation) answer)) (\<lambda>rows.
          let items = map fst rows; orderTimes = map snd rows in
          if length items > limit then
            let lastIndex = limit - 1; final = items ! lastIndex in
            ret \<lparr>tr_items = take limit items,
                 tr_next = Some \<lparr>tk_at = orderTimes ! lastIndex, tk_instanceID = tp_InstanceID final,
                                 tk_taskID = tp_TaskID final\<rparr>\<rparr>
          else ret \<lparr>tr_items = items, tr_next = None\<rparr>)))"

definition prepareLegacyTaskProjectionQuery ::
  "'d Projection option \<Rightarrow> ActorQuery \<Rightarrow> ('h env \<times> 'd, taskProjectionQuery) eff" where
  "prepareLegacyTaskProjectionQuery p query =
     bindE (prepareProjectionQuery p (aq_ActorID query) (sc_InstanceIDs (aq_Scope query)) (pq_Limit (aq_Page query))) (\<lambda>boundary.
     case pq_After (aq_Page query) of
       None \<Rightarrow> ret \<lparr>tq_boundary = boundary, tq_after = None\<rparr>
     | Some cursor \<Rightarrow>
         let keyset = \<lparr>tk_at = cu_At cursor, tk_instanceID = cu_InstanceID cursor, tk_taskID = cu_TaskID cursor\<rparr> in
         bindE (liftR (validateTaskProjectionKeyset keyset)) (\<lambda>_.
           ret \<lparr>tq_boundary = boundary, tq_after = Some keyset\<rparr>))"

definition prepareContinuedTaskProjectionQuery ::
  "'d Projection option \<Rightarrow> ContinuationQuery \<Rightarrow> ('h env \<times> 'd, taskProjectionQuery) eff" where
  "prepareContinuedTaskProjectionQuery p query =
     bindE (prepareProjectionQuery p (cq_ActorID query) (sc_InstanceIDs (cq_Scope query)) (cr_Limit (cq_Page query))) (\<lambda>boundary.
     if cr_After (cq_Page query) = [] then ret \<lparr>tq_boundary = boundary, tq_after = None\<rparr>
     else bindE (liftR (decodeTaskContinuation (cr_After (cq_Page query)))) (\<lambda>keyset.
       ret \<lparr>tq_boundary = boundary, tq_after = Some keyset\<rparr>))"

definition queryLegacyTaskProjection ::
  "'d Projection option \<Rightarrow> ActorQuery \<Rightarrow> string \<Rightarrow> Relation \<Rightarrow> ('h env \<times> 'd, TaskProjection Page) eff" where
  "queryLegacyTaskProjection p query statement relation =
     bindE (prepareLegacyTaskProjectionQuery p query) (\<lambda>prepared.
     bindE (queryTaskProjection p prepared statement relation) (\<lambda>result0.
       ret \<lparr>pa_Items = tr_items result0,
            pa_Next = map_option (\<lambda>ks. \<lparr>cu_At = tk_at ks, cu_InstanceID = tk_instanceID ks, cu_TaskID = tk_taskID ks\<rparr>)
              (tr_next result0)\<rparr>))"

definition queryContinuedTaskProjection ::
  "'d Projection option \<Rightarrow> ContinuationQuery \<Rightarrow> string \<Rightarrow> Relation \<Rightarrow> ('h env \<times> 'd, TaskProjection ContinuationPage) eff" where
  "queryContinuedTaskProjection p query statement relation =
     bindE (prepareContinuedTaskProjectionQuery p query) (\<lambda>prepared.
     bindE (queryTaskProjection p prepared statement relation) (\<lambda>result0.
     case tr_next result0 of
       None \<Rightarrow> ret \<lparr>cp_Items = tr_items result0, cp_Next = []\<rparr>
     | Some ks \<Rightarrow> bindE (liftR (encodeTaskContinuation ks)) (\<lambda>next.
         ret \<lparr>cp_Items = tr_items result0, cp_Next = next\<rparr>)))"

definition Worklist :: "'d Projection option \<Rightarrow> ActorQuery \<Rightarrow> ('h env \<times> 'd, TaskProjection Page) eff" where
  "Worklist p query = queryLegacyTaskProjection p query worklistSQL RelationCandidate"

definition WorklistPage :: "'d Projection option \<Rightarrow> ContinuationQuery \<Rightarrow> ('h env \<times> 'd, TaskProjection ContinuationPage) eff" where
  "WorklistPage p query = queryContinuedTaskProjection p query worklistSQL RelationCandidate"

definition Participated :: "'d Projection option \<Rightarrow> ActorQuery \<Rightarrow> ('h env \<times> 'd, TaskProjection Page) eff" where
  "Participated p query = queryLegacyTaskProjection p query participatedSQL RelationParticipant"

definition ParticipatedPage :: "'d Projection option \<Rightarrow> ContinuationQuery \<Rightarrow> ('h env \<times> 'd, TaskProjection ContinuationPage) eff" where
  "ParticipatedPage p query = queryContinuedTaskProjection p query participatedSQL RelationParticipant"

subsection \<open>Instance queries (projection_instance.go)\<close>

record instanceProjectionQuery =
  iq_boundary :: projectionQueryBoundary
  iq_after :: "instanceProjectionKeyset option"

record instanceProjectionResult =
  ir_items :: "InstanceProjection list"
  ir_next :: "instanceProjectionKeyset option"

definition queryInstanceProjection ::
  "'d Projection option \<Rightarrow> instanceProjectionQuery \<Rightarrow> ('h env \<times> 'd, instanceProjectionResult) eff" where
  "queryInstanceProjection p query =
     (let boundary = iq_boundary query; limit = nat (qb_limit boundary) in
      if qb_scope boundary = Some [] then ret \<lparr>ir_items = [], ir_next = None\<rparr>
      else
        let hasAfter = (iq_after query \<noteq> None);
            after = (case iq_after query of None \<Rightarrow> \<lparr>ik_at = 0, ik_instanceID = []\<rparr> | Some ks \<Rightarrow> ks);
            fetchLimit = qb_limit boundary + 1 in
        bindE (poolOf p (\<lambda>pool. onSnd (pool_Query pool initiatedSQL
          [SqlText (qb_actorID boundary), SqlTexts (qb_scope boundary), SqlBool hasAfter, SqlTime (ik_at after),
           SqlText (ik_instanceID after), SqlInt fetchLimit]))) (\<lambda>answer.
        bindE (liftR (collectRows scanInstanceProjection answer)) (\<lambda>rows.
          let items = map fst rows; orderTimes = map snd rows in
          if length items > limit then
            let lastIndex = limit - 1; final = items ! lastIndex in
            ret \<lparr>ir_items = take limit items,
                 ir_next = Some \<lparr>ik_at = orderTimes ! lastIndex, ik_instanceID = ip_InstanceID final\<rparr>\<rparr>
          else ret \<lparr>ir_items = items, ir_next = None\<rparr>)))"

definition prepareLegacyInstanceProjectionQuery ::
  "'d Projection option \<Rightarrow> ActorQuery \<Rightarrow> ('h env \<times> 'd, instanceProjectionQuery) eff" where
  "prepareLegacyInstanceProjectionQuery p query =
     bindE (prepareProjectionQuery p (aq_ActorID query) (sc_InstanceIDs (aq_Scope query)) (pq_Limit (aq_Page query))) (\<lambda>boundary.
     case pq_After (aq_Page query) of
       None \<Rightarrow> ret \<lparr>iq_boundary = boundary, iq_after = None\<rparr>
     | Some cursor \<Rightarrow>
         if cu_TaskID cursor \<noteq> [] then raise [ErrInvalidProjectionQuery]
         else
           let keyset = \<lparr>ik_at = cu_At cursor, ik_instanceID = cu_InstanceID cursor\<rparr> in
           bindE (liftR (validateInstanceProjectionKeyset keyset)) (\<lambda>_.
             ret \<lparr>iq_boundary = boundary, iq_after = Some keyset\<rparr>))"

definition prepareContinuedInstanceProjectionQuery ::
  "'d Projection option \<Rightarrow> ContinuationQuery \<Rightarrow> ('h env \<times> 'd, instanceProjectionQuery) eff" where
  "prepareContinuedInstanceProjectionQuery p query =
     bindE (prepareProjectionQuery p (cq_ActorID query) (sc_InstanceIDs (cq_Scope query)) (cr_Limit (cq_Page query))) (\<lambda>boundary.
     if cr_After (cq_Page query) = [] then ret \<lparr>iq_boundary = boundary, iq_after = None\<rparr>
     else bindE (liftR (decodeInstanceContinuation (cr_After (cq_Page query)))) (\<lambda>keyset.
       ret \<lparr>iq_boundary = boundary, iq_after = Some keyset\<rparr>))"

definition Initiated :: "'d Projection option \<Rightarrow> ActorQuery \<Rightarrow> ('h env \<times> 'd, InstanceProjection Page) eff" where
  "Initiated p query =
     bindE (prepareLegacyInstanceProjectionQuery p query) (\<lambda>prepared.
     bindE (queryInstanceProjection p prepared) (\<lambda>result0.
       ret \<lparr>pa_Items = ir_items result0,
            pa_Next = map_option (\<lambda>ks. \<lparr>cu_At = ik_at ks, cu_InstanceID = ik_instanceID ks, cu_TaskID = []\<rparr>)
              (ir_next result0)\<rparr>))"

definition InitiatedPage :: "'d Projection option \<Rightarrow> ContinuationQuery \<Rightarrow> ('h env \<times> 'd, InstanceProjection ContinuationPage) eff" where
  "InitiatedPage p query =
     bindE (prepareContinuedInstanceProjectionQuery p query) (\<lambda>prepared.
     bindE (queryInstanceProjection p prepared) (\<lambda>result0.
     case ir_next result0 of
       None \<Rightarrow> ret \<lparr>cp_Items = ir_items result0, cp_Next = []\<rparr>
     | Some ks \<Rightarrow> bindE (liftR (encodeInstanceContinuation ks)) (\<lambda>next.
         ret \<lparr>cp_Items = ir_items result0, cp_Next = next\<rparr>)))"

end
