(* ===== verification/Paging.thy ===== *)
theory Paging
  imports Projection
begin

text \<open>
  Keyset paging over a strictly ordered set of rows: the locale \<open>keyset_order\<close> shows that a client who
  follows the continuations of pages sees every row once and in order (\<open>following\<close>), whatever
  the query is, if each page shows the rows after its position.
\<close>

definition resume :: "ContinuationQuery \<Rightarrow> Continuation \<Rightarrow> ContinuationQuery" where
  "resume q token = q\<lparr>cq_Page := (cq_Page q)\<lparr>cr_After := token\<rparr>\<rparr>"

lemma resume_simps [simp]:
  "cr_After (cq_Page (resume q token)) = token" "resume (resume q t) t' = resume q t'"
  "cq_ActorID (resume q token) = cq_ActorID q" "cq_Scope (resume q token) = cq_Scope q"
  "cr_Limit (cq_Page (resume q token)) = cr_Limit (cq_Page q)"
  by (simp_all add: resume_def)

inductive pagedBy :: "(ContinuationQuery \<Rightarrow> ('w, 'a ContinuationPage) eff) \<Rightarrow> ('w \<Rightarrow> bool) \<Rightarrow>
    ContinuationQuery \<Rightarrow> 'a list list \<Rightarrow> bool" for call same where
  \<comment> \<open>a client asks for page after page, in any worlds that are \<open>same\<close>, until there is no continuation\<close>
  final: "same w \<Longrightarrow> call q w = Some (Inr page, w') \<Longrightarrow> cp_Next page = [] \<Longrightarrow> pagedBy call same q [cp_Items page]"
| further: "same w \<Longrightarrow> call q w = Some (Inr page, w') \<Longrightarrow> cp_Next page \<noteq> [] \<Longrightarrow>
    pagedBy call same (resume q (cp_Next page)) pages \<Longrightarrow> pagedBy call same q (cp_Items page # pages)"

lemma pagedBy_first:
  assumes "pagedBy call same q pages"
  obtains w page w' where "same w" "call q w = Some (Inr page, w')"
  using assms by (cases rule: pagedBy.cases) auto

definition after :: "('k \<Rightarrow> 'k \<Rightarrow> bool) \<Rightarrow> ('r \<Rightarrow> 'k) \<Rightarrow> 'r set \<Rightarrow> 'k option \<Rightarrow> 'r set" where
  \<comment> \<open>the rows behind a position\<close>
  "after before key R pos = {x \<in> R. \<forall>k. pos = Some k \<longrightarrow> before k (key x)}"

definition showsPage :: "('r \<Rightarrow> 'a) \<Rightarrow> ('r \<Rightarrow> 'k) \<Rightarrow> nat \<Rightarrow> 'r list \<Rightarrow> 'a list \<Rightarrow> 'k option \<Rightarrow> bool" where
  \<comment> \<open>the first rows, and the position of the last of them if there are more\<close>
  "showsPage view key L rs items next \<longleftrightarrow> items = map view (take L rs) \<and>
     next = (if length rs > L then Some (key (rs ! (L - 1))) else None)"

locale keyset_order =
  fixes before :: "'k \<Rightarrow> 'k \<Rightarrow> bool"
  assumes irreflexive: "\<not> before k k"
    and transitive: "before a b \<Longrightarrow> before b c \<Longrightarrow> before a c"
begin

lemma selects_distinct:
  assumes "selects before key R rs"
  shows "distinct (map key rs)"
proof -
  have "sorted_wrt before ks \<Longrightarrow> distinct ks" for ks
    by (induction ks) (auto simp: irreflexive)
  then show ?thesis using assms by (simp add: selects_def)
qed

lemma selects_unique:
  assumes "selects before key R rs" and "selects before key R rs'"
  shows "rs = rs'"
proof -
  have "sorted_wrt before (map key xs) \<Longrightarrow> sorted_wrt before (map key ys) \<Longrightarrow> set xs = set ys \<Longrightarrow> xs = ys" for xs ys
  proof (induction xs arbitrary: ys)
    case (Cons x xs)
    then obtain y zs where ys: "ys = y # zs" by (cases ys) auto
    have "x = y"
    proof (rule ccontr)
      assume "x \<noteq> y"
      then have "before (key x) (key y)" "before (key y) (key x)"
        using Cons.prems ys by auto
      then show False using transitive irreflexive by blast
    qed
    moreover have "x \<notin> set xs" "y \<notin> set zs" using Cons.prems(1,2) ys irreflexive by auto
    then have "set xs = set zs" using Cons.prems(3) ys \<open>x = y\<close> by auto
    ultimately show ?case using Cons ys by auto
  qed simp
  then show ?thesis using assms by (simp add: selects_def)
qed

lemma selects_after:
  assumes rs: "selects before key (after before key R pos) rs" and L: "0 < L" "L < length rs"
  shows "selects before key (after before key R (Some (key (rs ! (L - 1))))) (drop L rs)"
proof -
  let ?m = "rs ! (L - 1)"
  have split: "rs = take (L - 1) rs @ ?m # drop L rs"
    using L by (metis One_nat_def Suc_pred id_take_nth_drop less_imp_diff_less)
  have sorted: "sorted_wrt before (map key (take (L - 1) rs) @ key ?m # map key (drop L rs))"
    using rs split unfolding selects_def by (metis map_append list.simps(9))
  have "?m \<in> set rs" using L by simp
  then have m: "?m \<in> after before key R pos" using rs by (simp add: selects_def)
  have "x \<in> set (drop L rs)" if x: "x \<in> R" "before (key ?m) (key x)" for x
  proof -
    have "x \<in> after before key R pos" using x m transitive by (auto simp: after_def)
    then have "x \<in> set rs" using rs by (simp add: selects_def)
    then have "x \<in> set (take (L - 1) rs) \<or> x = ?m \<or> x \<in> set (drop L rs)"
      by (subst (asm) split) auto
    moreover have "x \<notin> set (take (L - 1) rs)"
    proof
      assume "x \<in> set (take (L - 1) rs)"
      then have "before (key x) (key ?m)" using sorted by (auto simp: sorted_wrt_append)
      then show False using transitive[OF x(2)] irreflexive by blast
    qed
    ultimately show ?thesis using x(2) irreflexive by auto
  qed
  moreover have "x \<in> R \<and> before (key ?m) (key x)" if x: "x \<in> set (drop L rs)" for x
  proof
    show "before (key ?m) (key x)" using sorted x by (simp add: sorted_wrt_append)
    show "x \<in> R" using rs in_set_dropD[OF x] by (simp add: selects_def after_def)
  qed
  ultimately have "set (drop L rs) = after before key R (Some (key ?m))"
    by (simp add: after_def set_eq_iff) blast
  moreover have "sorted_wrt before (map key (drop L rs))"
    using sorted by (simp add: sorted_wrt_append)
  ultimately show ?thesis by (simp add: selects_def)
qed

lemma following:
  assumes pages: "pagedBy call same q pages"
    and L: "0 < L"
    and step: "\<And>token w page w'. same w \<Longrightarrow> call (resume q token) w = Some (Inr page, w') \<Longrightarrow>
      \<exists>rs next. selects before key (after before key R (pos token)) rs \<and>
        showsPage view key L rs (cp_Items page) next \<and>
        (case next of None \<Rightarrow> cp_Next page = [] | Some k \<Rightarrow> cp_Next page \<noteq> [] \<and> pos (cp_Next page) = Some k)"
  shows "\<exists>rs. selects before key (after before key R (pos (cr_After (cq_Page q)))) rs \<and>
    concat pages = map view rs \<and> (\<forall>p\<in>set (butlast pages). length p = L)"
  using pages step
proof (induction rule: pagedBy.induct)
  case (final w q page w')
  have q: "resume q (cr_After (cq_Page q)) = q" by (simp add: resume_def)
  from final(4)[of w "cr_After (cq_Page q)" page w', unfolded q, OF final(1,2)] final(3)
  show ?case by (fastforce simp: showsPage_def split: option.splits if_splits)
next
  case (further w q page w' pages)
  have q: "resume q (cr_After (cq_Page q)) = q" by (simp add: resume_def)
  obtain rs k where rs: "selects before key (after before key R (pos (cr_After (cq_Page q)))) rs"
    and page: "showsPage view key L rs (cp_Items page) (Some k)" and pn: "pos (cp_Next page) = Some k"
    using further(6)[of w "cr_After (cq_Page q)" page w', unfolded q, OF further(1,2)] further(3)
    by (fastforce split: option.splits)
  have k: "L < length rs" "k = key (rs ! (L - 1))" and items: "cp_Items page = map view (take L rs)"
    using page by (auto simp: showsPage_def split: if_splits)
  have "\<exists>rs. selects before key (after before key R (pos (cr_After (cq_Page (resume q (cp_Next page)))))) rs \<and>
      concat pages = map view rs \<and> (\<forall>p\<in>set (butlast pages). length p = L)"
    by (rule further(5)) (use further(6) in simp)
  then obtain rs' where rs': "selects before key (after before key R (pos (cp_Next page))) rs'"
    "concat pages = map view rs'" "\<forall>p\<in>set (butlast pages). length p = L"
    by auto
  have "rs' = drop L rs"
    using selects_unique[OF rs'(1)] selects_after[OF rs L k(1)] by (simp add: pn k(2))
  then have "concat (cp_Items page # pages) = map view rs"
    by (simp add: items rs'(2) flip: map_append)
  moreover have "length (cp_Items page) = L" using k(1) by (simp add: items)
  ultimately show ?case using rs rs'(3) by auto
qed

end

lemma textOrder_rules:
  assumes "textOrder lt"
  shows "\<not> lt a a" "lt a b \<Longrightarrow> lt b c \<Longrightarrow> lt a c"
  using assms unfolding textOrder_def by blast+

lemma task_keyset_order:
  assumes "textOrder lt"
  shows "keyset_order (taskBefore lt)"
proof
  show "\<not> taskBefore lt k k" for k
    using textOrder_rules(1)[OF assms] by (cases k) simp
  show "taskBefore lt a b \<Longrightarrow> taskBefore lt b c \<Longrightarrow> taskBefore lt a c" for a b c
    using textOrder_rules(2)[OF assms] by (cases a; cases b; cases c; simp) (metis order.strict_trans)
qed

lemma instance_keyset_order:
  assumes "textOrder lt"
  shows "keyset_order (instanceBefore lt)"
proof
  show "\<not> instanceBefore lt k k" for k
    using textOrder_rules(1)[OF assms] by (cases k) simp
  show "instanceBefore lt a b \<Longrightarrow> instanceBefore lt b c \<Longrightarrow> instanceBefore lt a c" for a b c
    using textOrder_rules(2)[OF assms] by (cases a; cases b; cases c; simp) (metis order.strict_trans)
qed

end
