(* ===== verification/ProjectionSpec.thy ===== *)
theory ProjectionSpec
  imports Paging PostgresSpec
begin

text \<open>
  What the queries of the projection answer: a page shows the first rows, in order, that the request
  selects behind its position (\<open>task_page_wp\<close>, \<open>instance_page_wp\<close>), so that following continuations shows
  each row once (\<open>task_pages\<close>, \<open>instance_pages\<close>).
\<close>

subsection \<open>Rows as values\<close>

definition taskView :: "Relation \<Rightarrow> taskJoin \<Rightarrow> TaskProjection" where
  "taskView relation = (\<lambda>(ident, r, p).
     \<lparr>tp_DefinitionID = pj_definition_id r, tp_DefinitionVersion = word_of_nat (pj_definition_version r),
      tp_InstanceID = ident, tp_InstanceStatus = instanceStatusOf (pj_instance_status r),
      tp_Initiator = pj_initiator r, tp_NodeID = pp_node_id p, tp_TaskID = pp_task_id p,
      tp_ActorID = pp_actor_id p, tp_TaskStatus = taskStatusOf (pp_task_status p), tp_Outcome = pp_outcome p,
      tp_Relation = relation, tp_StartedAt = pj_started_at r, tp_LastAuditAt = pj_last_audit_at r\<rparr>)"

definition instanceView :: "instanceJoin \<Rightarrow> InstanceProjection" where
  "instanceView = (\<lambda>(ident, r).
     \<lparr>ip_DefinitionID = pj_definition_id r, ip_DefinitionVersion = word_of_nat (pj_definition_version r),
      ip_InstanceID = ident, ip_InstanceStatus = instanceStatusOf (pj_instance_status r),
      ip_Initiator = pj_initiator r, ip_CurrentNodeID = pj_current_node_id r,
      ip_StartedAt = pj_started_at r, ip_LastAuditAt = pj_last_audit_at r\<rparr>)"

definition readable :: "pgTables \<Rightarrow> bool" where
  \<comment> \<open>the rows can be scanned and their keys survive a token\<close>
  "readable t \<longleftrightarrow> (\<forall>ident r. pg_instances t ident = Some r \<longrightarrow>
     pj_definition_version r < 2 ^ 64 \<and> pgTime (pj_order_at r) = pj_order_at r \<and> utf8_Valid ident \<and>
     (\<forall>p\<in>set (pg_participation t ident). utf8_Valid (pp_task_id p)))"

lemma pgTime_idem [simp]: "pgTime (pgTime t) = pgTime t"
  by (simp add: pgTime_def)

lemma readModel_row:
  assumes "readModel t" and "pg_instances t ident = Some r"
  obtains i where "tableView (pg_facts t) ident = Some i" "r = storedTimes (projectionOf i)" "mirrored ident i t"
  using assms unfolding readModel_def
  by (auto simp: mirrored_def split: option.splits dest!: spec[of _ ident])

lemma unat_less: "unat (x :: u64) < 18446744073709551616"
  using unsigned_less[of x, where ?'a = nat] by simp

lemma readModel_readable: "readModel t \<Longrightarrow> readable t"
  unfolding readable_def
proof (intro allI impI)
  fix ident r assume "readModel t" "pg_instances t ident = Some r"
  then obtain i where i: "r = storedTimes (projectionOf i)" "mirrored ident i t" by (rule readModel_row)
  have "pj_definition_version r < 2 ^ 64"
    by (simp add: unat_less i(1) storedTimes_def projectionOf_def split: prod.split)
  then show "pj_definition_version r < 2 ^ 64 \<and> pgTime (pj_order_at r) = pj_order_at r \<and> utf8_Valid ident \<and>
      (\<forall>p\<in>set (pg_participation t ident). utf8_Valid (pp_task_id p))"
    using i by (auto simp: mirrored_def storedTimes_def)
qed

lemma poolOf_New [simp]: "poolOf (Some (NewProjection (Some pool))) k = k pool"
  by (simp add: poolOf_def NewProjection_def)

lemma scanTimePtr_arg [simp]: "scanTimePtr (timeArg t) = Inr t"
  by (cases t) (simp_all add: timeArg_def)

lemma scan_task:
  assumes "readable t" and "x \<in> taskJoins t"
  shows "scanTaskProjection relation (taskColumnsOf x) = Inr (taskView relation x, fst (taskKey x))"
  using assms
  by (auto simp: taskJoins_def taskColumnsOf_def taskView_def taskKey_def readable_def ParseUint_FormatUint_large)

lemma scan_instance:
  assumes "readable t" and "x \<in> instanceJoins t"
  shows "scanInstanceProjection (instanceColumnsOf x) = Inr (instanceView x, fst (instanceKey x))"
  using assms
  by (auto simp: instanceJoins_def instanceColumnsOf_def instanceView_def instanceKey_def readable_def ParseUint_FormatUint_large)

lemma collectRows_delivered:
  assumes "delivers (map cols rs) a" and "\<And>x. x \<in> set rs \<Longrightarrow> scan (cols x) = Inr (f x)"
  shows "wpR (\<lambda>xs. xs = map f rs) foreign (collectRows scan a)"
proof -
  have m: "mapR scan (map cols xs) = Inr (map f xs)" if "set xs \<subseteq> set rs" for xs
    using that by (induction xs) (auto simp: assms(2))
  obtain rows err where a: "a = (rows, err)" by force
  from assms(1)[unfolded a] show ?thesis
  proof (rule delivers_cases)
    fix e k assume e: "err = Inl e" "rows = take k (map cols rs)" "foreign e"
    have "mapR scan rows = Inr (map f (take k rs))"
      unfolding e(2) take_map by (rule m) (rule set_take_subset)
    then show ?thesis by (simp add: collectRows_def a e)
  qed (simp add: collectRows_def a m)
qed

subsection \<open>Positions and selections\<close>

definition pageLimit :: "int \<Rightarrow> nat" where
  "pageLimit requested = nat (if requested = 0 then defaultPageLimit else requested)"

definition taskPosition :: "Continuation \<Rightarrow> (time \<times> string \<times> string) option" where
  "taskPosition token = (case decodeTaskContinuation token of
     Inl _ \<Rightarrow> None | Inr ks \<Rightarrow> Some (pgTime (tk_at ks), tk_instanceID ks, tk_taskID ks))"

definition instancePosition :: "Continuation \<Rightarrow> (time \<times> string) option" where
  "instancePosition token = (case decodeInstanceContinuation token of
     Inl _ \<Rightarrow> None | Inr ks \<Rightarrow> Some (pgTime (ik_at ks), ik_instanceID ks))"

lemma no_token [simp]:
  "decodeTaskContinuation [] = Inl [ErrInvalidProjectionQuery]"
  "decodeInstanceContinuation [] = Inl [ErrInvalidProjectionQuery]"
  by (simp_all add: decodeTaskContinuation_def decodeInstanceContinuation_def decodeContinuationEnvelope_def)

lemma no_position [simp]: "taskPosition [] = None" "instancePosition [] = None"
  by (simp_all add: taskPosition_def instancePosition_def)

lemma task_position:
  assumes "encodeTaskContinuation \<lparr>tk_at = a, tk_instanceID = k, tk_taskID = t\<rparr> = Inr token"
    and "pgTime a = a" "utf8_Valid k" "utf8_Valid t"
  shows "token \<noteq> []" "taskPosition token = Some (a, k, t)"
  using task_token(1)[OF assms(1)] assms(2-)
  by (auto simp: taskPosition_def toValidUTF8_valid decodeTaskContinuation_def decodeContinuationEnvelope_def)

lemma instance_position:
  assumes "encodeInstanceContinuation \<lparr>ik_at = a, ik_instanceID = k\<rparr> = Inr token"
    and "pgTime a = a" "utf8_Valid k"
  shows "token \<noteq> []" "instancePosition token = Some (a, k)"
  using instance_token(1)[OF assms(1)] assms(2-)
  by (auto simp: instancePosition_def toValidUTF8_valid decodeInstanceContinuation_def decodeContinuationEnvelope_def)

definition taskRowsOf :: "pgTables \<Rightarrow> (string \<Rightarrow> taskJoin \<Rightarrow> bool) \<Rightarrow> ContinuationQuery \<Rightarrow> taskJoin set" where
  \<comment> \<open>the rows of a view that an actor may see\<close>
  "taskRowsOf t want q = {x \<in> taskJoins t. want (cq_ActorID q) x \<and> scopeAllows (sc_InstanceIDs (cq_Scope q)) (fst x)}"

definition instanceRowsOf :: "pgTables \<Rightarrow> ContinuationQuery \<Rightarrow> instanceJoin set" where
  "instanceRowsOf t q =
     {x \<in> instanceJoins t. hasInitiated (cq_ActorID q) x \<and> scopeAllows (sc_InstanceIDs (cq_Scope q)) (fst x)}"

lemma taskRowsOf_resume [simp]: "taskRowsOf t want (resume q token) = taskRowsOf t want q"
  "instanceRowsOf t (resume q token) = instanceRowsOf t q"
  by (simp_all add: taskRowsOf_def instanceRowsOf_def)

subsection \<open>Pages\<close>

definition servesTasks :: "'d pgxPool \<Rightarrow> ('d \<Rightarrow> pgTables) \<Rightarrow> (string \<Rightarrow> string \<Rightarrow> bool) \<Rightarrow> string \<Rightarrow>
    (string \<Rightarrow> taskJoin \<Rightarrow> bool) \<Rightarrow> bool" where
  \<comment> \<open>the statement selects the rows of a task view\<close>
  "servesTasks db tabs text_less statement want \<longleftrightarrow>
     (\<forall>actor scope hasAfter at ident task limit d. wpE True
      (\<lambda>a d'. tabs d' = tabs d \<and>
         (\<exists>rs. selects (taskBefore text_less) taskKey
            {x \<in> taskJoins (tabs d). want actor x \<and> scopeAllows scope (fst x) \<and>
               (hasAfter \<longrightarrow> taskBefore text_less (pgTime at, ident, task) (taskKey x))} rs \<and>
            delivers (map taskColumnsOf (take (nat limit) rs)) a))
      (\<lambda>e d'. tabs d' = tabs d \<and> foreign e)
      (pool_Query db statement [SqlText actor, SqlTexts scope, SqlBool hasAfter, SqlTime at, SqlText ident,
         SqlText task, SqlInt limit]) d)"

lemma projectionScope_id [simp]: "projectionScope s = s"
  by (cases s) (simp_all add: projectionScope_def)

lemma delivered_page:
  \<comment> \<open>one row more than the limit tells whether there is a next page\<close>
  assumes "delivers (map cols (take (Suc L) rs)) a" and "\<And>x. x \<in> set rs \<Longrightarrow> scan (cols x) = Inr (view x, at x)" and "0 < L"
  shows "wpR (\<lambda>xs. if length xs > L
      then showsPage view key L rs (take L (map fst xs)) (Some (key (rs ! (L - 1)))) \<and>
        map fst xs ! (L - 1) = view (rs ! (L - 1)) \<and> map snd xs ! (L - 1) = at (rs ! (L - 1))
      else showsPage view key L rs (map fst xs) None) foreign (collectRows scan a)"
proof -
  have "wpR (\<lambda>xs. xs = map (\<lambda>x. (view x, at x)) (take (Suc L) rs)) foreign (collectRows scan a)"
    by (rule collectRows_delivered[OF assms(1)]) (use assms(2) in_set_takeD in fastforce)
  then show ?thesis using assms(3)
    by (auto simp: wpR_def showsPage_def comp_def take_map min_def split: sum.splits)
qed

context pg_request
begin

lemma worklist_served: "servesTasks db committed text_less worklistSQL inWorklist"
  using worklist_law by (simp add: servesTasks_def)

lemma participated_served: "servesTasks db committed text_less participatedSQL hasParticipated"
  using participated_law by (simp add: servesTasks_def)

lemma prepare_wp:
  assumes "quietCtx c (fst w)"
  shows "wpE True
    (\<lambda>b w'. quietCtx c (fst w') \<and> snd w' = snd w \<and> actor \<noteq> [] \<and> qb_actorID b = actor \<and> qb_scope b = scope \<and>
       nat (qb_limit b) = pageLimit requested \<and> 0 < pageLimit requested \<and> qb_limit b = int (pageLimit requested))
    (\<lambda>e w'. quietCtx c (fst w') \<and> snd w' = snd w)
    (prepareProjectionQuery (Some (NewProjection (Some db))) actor scope requested) w"
  unfolding prepareProjectionQuery_def wpE_bindE
  by (rule ctxErr_quiet[OF assms]) (auto simp: NewProjection_def Let_def wp_simps pageLimit_def defaultPageLimit_def)

lemma task_query_wp:
  assumes law: "servesTasks db committed text_less statement want"
    and q: "quietCtx c (fst w)" and T: "committed (snd w) = T" "readable T"
    and b: "qb_limit b = int L" "0 < L"
    and R: "R = {x \<in> taskJoins T. want (qb_actorID b) x \<and> scopeAllows (qb_scope b) (fst x)}"
    and pos: "pos = map_option (\<lambda>ks. (pgTime (tk_at ks), tk_instanceID ks, tk_taskID ks)) ks0"
  shows "wpE True
    (\<lambda>res w'. quietCtx c (fst w') \<and> committed (snd w') = T \<and>
       (\<exists>rs next. selects (taskBefore text_less) taskKey (after (taskBefore text_less) taskKey R pos) rs \<and>
          showsPage (taskView relation) taskKey L rs (tr_items res) next \<and>
          tr_next res = map_option (\<lambda>(a, k, t). \<lparr>tk_at = a, tk_instanceID = k, tk_taskID = t\<rparr>) next))
    (\<lambda>e w'. quietCtx c (fst w') \<and> committed (snd w') = T \<and> foreign e)
    (queryTaskProjection (Some (NewProjection (Some db))) \<lparr>tq_boundary = b, tq_after = ks0\<rparr> statement relation) w"
proof (cases "qb_scope b = Some []")
  case True
  then have "R = {}" by (simp add: R scopeAllows_def)
  then have "selects (taskBefore text_less) taskKey (after (taskBefore text_less) taskKey R pos) []"
    by (simp add: selects_def after_def)
  then show ?thesis using True q T
    by (auto simp: queryTaskProjection_def wpE_ret showsPage_def intro!: exI[of _ "[]"] exI[of _ None])
next
  case False
  let ?after = "case ks0 of None \<Rightarrow> \<lparr>tk_at = 0, tk_instanceID = [], tk_taskID = []\<rparr> | Some ks \<Rightarrow> ks"
  have sel: "{x \<in> taskJoins T. want (qb_actorID b) x \<and> scopeAllows (qb_scope b) (fst x) \<and>
      (ks0 \<noteq> None \<longrightarrow> taskBefore text_less (pgTime (tk_at ?after), tk_instanceID ?after, tk_taskID ?after) (taskKey x))}
      = after (taskBefore text_less) taskKey R pos"
    by (cases ks0) (auto simp: after_def R pos)
  note law' = law[unfolded servesTasks_def, rule_format, of "snd w" "qb_actorID b" "qb_scope b" "ks0 \<noteq> None"
      "tk_at ?after" "tk_instanceID ?after" "tk_taskID ?after" "qb_limit b + 1", unfolded T(1) sel]
  show ?thesis
    unfolding queryTaskProjection_def Let_def taskProjectionQuery.simps if_not_P[OF False] wpE_bindE poolOf_New
      wpE_onSnd
  proof (rule wpE_mono[OF law'], goal_cases)
    case (1 a d')
    then obtain rs where rs: "selects (taskBefore text_less) taskKey (after (taskBefore text_less) taskKey R pos) rs"
      and del: "delivers (map taskColumnsOf (take (Suc L) rs)) a" and d': "committed d' = T"
      by (auto simp: b nat_add_distrib)
    have "wpR (\<lambda>xs. if length xs > L
        then showsPage (taskView relation) taskKey L rs (take L (map fst xs)) (Some (taskKey (rs ! (L - 1)))) \<and>
          map fst xs ! (L - 1) = taskView relation (rs ! (L - 1)) \<and> map snd xs ! (L - 1) = fst (taskKey (rs ! (L - 1)))
        else showsPage (taskView relation) taskKey L rs (map fst xs) None) foreign (collectRows (scanTaskProjection relation) a)"
    proof (rule delivered_page[OF del _ b(2)])
      fix x assume "x \<in> set rs"
      then have "x \<in> taskJoins T" using rs by (simp add: selects_def after_def R)
      then show "scanTaskProjection relation (taskColumnsOf x) = Inr (taskView relation x, fst (taskKey x))" by (rule scan_task[OF T(2)])
    qed
    note page = this
    have k: "(fst (taskKey x), tp_InstanceID (taskView relation x), tp_TaskID (taskView relation x)) = taskKey x" for x
      by (auto simp: taskKey_def taskView_def split: prod.splits)
    show ?case
    proof (cases "collectRows (scanTaskProjection relation) a")
      case (Inr xs)
      then show ?thesis
      proof (cases "length xs > L")
        case True
        then show ?thesis using q d' rs page k[of "rs ! (L - 1)", symmetric]
          by (auto simp: Inr wp_simps b split: prod.split intro!: exI[of _ rs] exI[of _ "Some (taskKey (rs ! (L - 1)))"])
      next
        case False
        then show ?thesis using q d' rs page by (auto simp: Inr wp_simps b intro!: exI[of _ rs] exI[of _ None])
      qed
    qed (use q d' page in \<open>simp add: wpE_liftR\<close>)
  qed (use q T in auto)
qed

lemma instance_query_wp:
  assumes q: "quietCtx c (fst w)" and T: "committed (snd w) = T" "readable T"
    and b: "qb_limit b = int L" "0 < L"
    and R: "R = {x \<in> instanceJoins T. hasInitiated (qb_actorID b) x \<and> scopeAllows (qb_scope b) (fst x)}"
    and pos: "pos = map_option (\<lambda>ks. (pgTime (ik_at ks), ik_instanceID ks)) ks0"
  shows "wpE True
    (\<lambda>res w'. quietCtx c (fst w') \<and> committed (snd w') = T \<and>
       (\<exists>rs next. selects (instanceBefore text_less) instanceKey (after (instanceBefore text_less) instanceKey R pos) rs \<and>
          showsPage instanceView instanceKey L rs (ir_items res) next \<and>
          ir_next res = map_option (\<lambda>(a, k). \<lparr>ik_at = a, ik_instanceID = k\<rparr>) next))
    (\<lambda>e w'. quietCtx c (fst w') \<and> committed (snd w') = T \<and> foreign e)
    (queryInstanceProjection (Some (NewProjection (Some db))) \<lparr>iq_boundary = b, iq_after = ks0\<rparr>) w"
proof (cases "qb_scope b = Some []")
  case True
  then have "R = {}" by (simp add: R scopeAllows_def)
  then have "selects (instanceBefore text_less) instanceKey (after (instanceBefore text_less) instanceKey R pos) []"
    by (simp add: selects_def after_def)
  then show ?thesis using True q T
    by (auto simp: queryInstanceProjection_def wpE_ret showsPage_def intro!: exI[of _ "[]"] exI[of _ None])
next
  case False
  let ?after = "case ks0 of None \<Rightarrow> \<lparr>ik_at = 0, ik_instanceID = []\<rparr> | Some ks \<Rightarrow> ks"
  have sel: "{x \<in> instanceJoins T. hasInitiated (qb_actorID b) x \<and> scopeAllows (qb_scope b) (fst x) \<and>
      (ks0 \<noteq> None \<longrightarrow> instanceBefore text_less (pgTime (ik_at ?after), ik_instanceID ?after) (instanceKey x))}
      = after (instanceBefore text_less) instanceKey R pos"
    by (cases ks0) (auto simp: after_def R pos)
  note law' = initiated_law[of "snd w" "qb_actorID b" "qb_scope b" "ks0 \<noteq> None"
      "ik_at ?after" "ik_instanceID ?after" "qb_limit b + 1", unfolded T(1) sel]
  show ?thesis
    unfolding queryInstanceProjection_def Let_def instanceProjectionQuery.simps if_not_P[OF False] wpE_bindE poolOf_New
      wpE_onSnd
  proof (rule wpE_mono[OF law'], goal_cases)
    case (1 a d')
    then obtain rs where rs: "selects (instanceBefore text_less) instanceKey (after (instanceBefore text_less) instanceKey R pos) rs"
      and del: "delivers (map instanceColumnsOf (take (Suc L) rs)) a" and d': "committed d' = T"
      by (auto simp: b nat_add_distrib)
    have "wpR (\<lambda>xs. if length xs > L
        then showsPage instanceView instanceKey L rs (take L (map fst xs)) (Some (instanceKey (rs ! (L - 1)))) \<and>
          map fst xs ! (L - 1) = instanceView (rs ! (L - 1)) \<and> map snd xs ! (L - 1) = fst (instanceKey (rs ! (L - 1)))
        else showsPage instanceView instanceKey L rs (map fst xs) None) foreign (collectRows scanInstanceProjection a)"
    proof (rule delivered_page[OF del _ b(2)])
      fix x assume "x \<in> set rs"
      then have "x \<in> instanceJoins T" using rs by (simp add: selects_def after_def R)
      then show "scanInstanceProjection (instanceColumnsOf x) = Inr (instanceView x, fst (instanceKey x))" by (rule scan_instance[OF T(2)])
    qed
    note page = this
    have k: "(fst (instanceKey x), ip_InstanceID (instanceView x)) = instanceKey x" for x
      by (auto simp: instanceKey_def instanceView_def split: prod.splits)
    show ?case
    proof (cases "collectRows scanInstanceProjection a")
      case (Inr xs)
      then show ?thesis
      proof (cases "length xs > L")
        case True
        then show ?thesis using q d' rs page k[of "rs ! (L - 1)", symmetric]
          by (auto simp: Inr wp_simps b split: prod.split intro!: exI[of _ rs] exI[of _ "Some (instanceKey (rs ! (L - 1)))"])
      next
        case False
        then show ?thesis using q d' rs page by (auto simp: Inr wp_simps b intro!: exI[of _ rs] exI[of _ None])
      qed
    qed (use q d' page in \<open>simp add: wpE_liftR\<close>)
  qed (use q T in auto)
qed


lemma task_page_wp:
  assumes law: "servesTasks db committed text_less statement want"
    and q: "quietCtx c (fst w)" and T: "committed (snd w) = T" "readable T"
  shows "wpE True
    (\<lambda>page w'. quietCtx c (fst w') \<and> committed (snd w') = T \<and> 0 < pageLimit (cr_Limit (cq_Page query)) \<and>
       (\<exists>rs next. selects (taskBefore text_less) taskKey
          (after (taskBefore text_less) taskKey (taskRowsOf T want query) (taskPosition (cr_After (cq_Page query)))) rs \<and>
        showsPage (taskView relation) taskKey (pageLimit (cr_Limit (cq_Page query))) rs (cp_Items page) next \<and>
        (case next of None \<Rightarrow> cp_Next page = [] | Some k \<Rightarrow> cp_Next page \<noteq> [] \<and> taskPosition (cp_Next page) = Some k)))
    (\<lambda>e w'. quietCtx c (fst w') \<and> committed (snd w') = T)
    (queryContinuedTaskProjection (Some (NewProjection (Some db))) query statement relation) w"
proof -
  let ?L = "pageLimit (cr_Limit (cq_Page query))" and ?p = "Some (NewProjection (Some db))"
  let ?pos = "taskPosition (cr_After (cq_Page query))"
  have prepared: "wpE True (\<lambda>x w'. quietCtx c (fst w') \<and> committed (snd w') = T \<and> 0 < ?L \<and> (\<exists>b ks0. x = \<lparr>tq_boundary = b, tq_after = ks0\<rparr> \<and>
        qb_actorID b = cq_ActorID query \<and> qb_scope b = sc_InstanceIDs (cq_Scope query) \<and> qb_limit b = int ?L \<and>
        ?pos = map_option (\<lambda>ks. (pgTime (tk_at ks), tk_instanceID ks, tk_taskID ks)) ks0))
      (\<lambda>e w'. quietCtx c (fst w') \<and> committed (snd w') = T)
      (prepareContinuedTaskProjectionQuery ?p query) w"
    unfolding prepareContinuedTaskProjectionQuery_def wpE_bindE
    by (rule wpE_mono[OF prepare_wp[OF q]])
      (use T(1) in \<open>auto simp: wp_simps taskPosition_def[of "cr_After (cq_Page query)"] wpR_def split: sum.splits\<close>)
  show ?thesis
    unfolding queryContinuedTaskProjection_def wpE_bindE
  proof (rule wpE_mono[OF prepared], goal_cases)
    case (1 x w1)
    then obtain b ks0 where x: "x = \<lparr>tq_boundary = b, tq_after = ks0\<rparr>" and w1: "quietCtx c (fst w1)" "committed (snd w1) = T"
      and b: "qb_actorID b = cq_ActorID query" "qb_scope b = sc_InstanceIDs (cq_Scope query)" "qb_limit b = int ?L" "0 < ?L"
      and pos: "?pos = map_option (\<lambda>ks. (pgTime (tk_at ks), tk_instanceID ks, tk_taskID ks)) ks0"
      by blast
    have R: "taskRowsOf T want query = {x \<in> taskJoins T. want (qb_actorID b) x \<and> scopeAllows (qb_scope b) (fst x)}"
      by (simp add: taskRowsOf_def b)
    show ?case
      unfolding x
    proof (rule wpE_mono[OF task_query_wp[OF law w1 T(2) b(3,4) R pos]], goal_cases)
      case (1 res w2)
      then obtain rs nx where rs: "selects (taskBefore text_less) taskKey (after (taskBefore text_less) taskKey (taskRowsOf T want query) ?pos) rs"
        and page: "showsPage (taskView relation) taskKey ?L rs (tr_items res) nx"
        and nx: "tr_next res = map_option (\<lambda>(a, k, t). \<lparr>tk_at = a, tk_instanceID = k, tk_taskID = t\<rparr>) nx"
        and w2: "quietCtx c (fst w2)" "committed (snd w2) = T"
        by blast
      show ?case
      proof (cases nx)
        case None
        then show ?thesis using rs page nx w2 b(4) by (auto simp: wpE_ret intro!: exI[of _ rs] exI[of _ None])
      next
        case (Some key)
        then have key: "key = taskKey (rs ! (?L - 1))" "?L < length rs"
          using page by (auto simp: showsPage_def split: if_splits)
        have "rs ! (?L - 1) \<in> set rs" using key(2) by simp
        then have "rs ! (?L - 1) \<in> taskJoins T" using rs by (auto simp: selects_def after_def R)
        then obtain a k t where k: "key = (a, k, t)" "pgTime a = a" "utf8_Valid k" "utf8_Valid t"
          using T(2) by (auto simp: key(1) taskJoins_def taskKey_def readable_def)
        show ?thesis
        proof (cases "encodeTaskContinuation \<lparr>tk_at = a, tk_instanceID = k, tk_taskID = t\<rparr>")
          case (Inr token)
          from task_position[OF Inr k(2-)] show ?thesis
            using rs page w2 b(4) by (auto simp: nx Some k(1) wp_simps Inr intro!: exI[of _ rs] exI[of _ nx])
        qed (use w2 in \<open>simp add: nx Some k(1) wp_simps\<close>)
      qed
    qed auto
  qed auto
qed

lemma task_pages:
  assumes law: "servesTasks db committed text_less statement want"
    and T: "readable T"
    and pages: "pagedBy (\<lambda>q. queryContinuedTaskProjection (Some (NewProjection (Some db))) q statement relation) (\<lambda>w :: 'h env \<times> 'd. committed (snd w) = T \<and> quietCtx c (fst w)) q pages"
  shows "\<exists>rs. selects (taskBefore text_less) taskKey
      (after (taskBefore text_less) taskKey (taskRowsOf T want q) (taskPosition (cr_After (cq_Page q)))) rs \<and>
    concat pages = map (taskView relation) rs \<and> (\<forall>p\<in>set (butlast pages). length p = pageLimit (cr_Limit (cq_Page q)))"
proof -
  note page = task_page_wp[OF law, OF _ _ T]
  obtain w :: "'h env \<times> 'd" and page w' where first: "committed (snd w) = T" "quietCtx c (fst w)"
    "queryContinuedTaskProjection (Some (NewProjection (Some db))) q statement relation w = Some (Inr page, w')"
    by (rule pagedBy_first[OF pages]) (use that in blast)
  have L: "0 < pageLimit (cr_Limit (cq_Page q))"
    by (rule wpE_InrD[OF page first(3), OF first(2,1), THEN conjunct2, THEN conjunct2, THEN conjunct1])
  show ?thesis
  proof (rule keyset_order.following[OF task_keyset_order[OF text_order] pages L], goal_cases)
    case (1 token w page w')
    have "queryContinuedTaskProjection (Some (NewProjection (Some db))) (resume q token) statement relation w = Some (Inr page, w')"
      using 1(2) .
    from wpE_InrD[OF page this] 1(1) show ?case by simp
  qed
qed

lemma instance_page_wp:
  assumes q: "quietCtx c (fst w)" and T: "committed (snd w) = T" "readable T"
  shows "wpE True
    (\<lambda>page w'. quietCtx c (fst w') \<and> committed (snd w') = T \<and> 0 < pageLimit (cr_Limit (cq_Page query)) \<and>
       (\<exists>rs next. selects (instanceBefore text_less) instanceKey
          (after (instanceBefore text_less) instanceKey (instanceRowsOf T query) (instancePosition (cr_After (cq_Page query)))) rs \<and>
        showsPage instanceView instanceKey (pageLimit (cr_Limit (cq_Page query))) rs (cp_Items page) next \<and>
        (case next of None \<Rightarrow> cp_Next page = [] | Some k \<Rightarrow> cp_Next page \<noteq> [] \<and> instancePosition (cp_Next page) = Some k)))
    (\<lambda>e w'. quietCtx c (fst w') \<and> committed (snd w') = T)
    (InitiatedPage (Some (NewProjection (Some db))) query) w"
proof -
  let ?L = "pageLimit (cr_Limit (cq_Page query))" and ?p = "Some (NewProjection (Some db))"
  let ?pos = "instancePosition (cr_After (cq_Page query))"
  have prepared: "wpE True (\<lambda>x w'. quietCtx c (fst w') \<and> committed (snd w') = T \<and> 0 < ?L \<and> (\<exists>b ks0. x = \<lparr>iq_boundary = b, iq_after = ks0\<rparr> \<and>
        qb_actorID b = cq_ActorID query \<and> qb_scope b = sc_InstanceIDs (cq_Scope query) \<and> qb_limit b = int ?L \<and>
        ?pos = map_option (\<lambda>ks. (pgTime (ik_at ks), ik_instanceID ks)) ks0))
      (\<lambda>e w'. quietCtx c (fst w') \<and> committed (snd w') = T)
      (prepareContinuedInstanceProjectionQuery ?p query) w"
    unfolding prepareContinuedInstanceProjectionQuery_def wpE_bindE
    by (rule wpE_mono[OF prepare_wp[OF q]])
      (use T(1) in \<open>auto simp: wp_simps instancePosition_def[of "cr_After (cq_Page query)"] wpR_def split: sum.splits\<close>)
  show ?thesis
    unfolding InitiatedPage_def wpE_bindE
  proof (rule wpE_mono[OF prepared], goal_cases)
    case (1 x w1)
    then obtain b ks0 where x: "x = \<lparr>iq_boundary = b, iq_after = ks0\<rparr>" and w1: "quietCtx c (fst w1)" "committed (snd w1) = T"
      and b: "qb_actorID b = cq_ActorID query" "qb_scope b = sc_InstanceIDs (cq_Scope query)" "qb_limit b = int ?L" "0 < ?L"
      and pos: "?pos = map_option (\<lambda>ks. (pgTime (ik_at ks), ik_instanceID ks)) ks0"
      by blast
    have R: "instanceRowsOf T query = {x \<in> instanceJoins T. hasInitiated (qb_actorID b) x \<and> scopeAllows (qb_scope b) (fst x)}"
      by (simp add: instanceRowsOf_def b)
    show ?case
      unfolding x
    proof (rule wpE_mono[OF instance_query_wp[OF w1 T(2) b(3,4) R pos]], goal_cases)
      case (1 res w2)
      then obtain rs nx where rs: "selects (instanceBefore text_less) instanceKey (after (instanceBefore text_less) instanceKey (instanceRowsOf T query) ?pos) rs"
        and page: "showsPage instanceView instanceKey ?L rs (ir_items res) nx"
        and nx: "ir_next res = map_option (\<lambda>(a, k). \<lparr>ik_at = a, ik_instanceID = k\<rparr>) nx"
        and w2: "quietCtx c (fst w2)" "committed (snd w2) = T"
        by blast
      show ?case
      proof (cases nx)
        case None
        then show ?thesis using rs page nx w2 b(4) by (auto simp: wpE_ret intro!: exI[of _ rs] exI[of _ None])
      next
        case (Some key)
        then have key: "key = instanceKey (rs ! (?L - 1))" "?L < length rs"
          using page by (auto simp: showsPage_def split: if_splits)
        have "rs ! (?L - 1) \<in> set rs" using key(2) by simp
        then have "rs ! (?L - 1) \<in> instanceJoins T" using rs by (auto simp: selects_def after_def R)
        then obtain a k where k: "key = (a, k)" "pgTime a = a" "utf8_Valid k"
          using T(2) by (auto simp: key(1) instanceJoins_def instanceKey_def readable_def)
        show ?thesis
        proof (cases "encodeInstanceContinuation \<lparr>ik_at = a, ik_instanceID = k\<rparr>")
          case (Inr token)
          from instance_position[OF Inr k(2-)] show ?thesis
            using rs page w2 b(4) by (auto simp: nx Some k(1) wp_simps Inr intro!: exI[of _ rs] exI[of _ nx])
        qed (use w2 in \<open>simp add: nx Some k(1) wp_simps\<close>)
      qed
    qed auto
  qed auto
qed

lemma instance_pages:
  assumes T: "readable T"
    and pages: "pagedBy (InitiatedPage (Some (NewProjection (Some db)))) (\<lambda>w :: 'h env \<times> 'd. committed (snd w) = T \<and> quietCtx c (fst w)) q pages"
  shows "\<exists>rs. selects (instanceBefore text_less) instanceKey
      (after (instanceBefore text_less) instanceKey (instanceRowsOf T q) (instancePosition (cr_After (cq_Page q)))) rs \<and>
    concat pages = map instanceView rs \<and> (\<forall>p\<in>set (butlast pages). length p = pageLimit (cr_Limit (cq_Page q)))"
proof -
  note page = instance_page_wp[OF _ _ T]
  obtain w :: "'h env \<times> 'd" and page w' where first: "committed (snd w) = T" "quietCtx c (fst w)"
    "InitiatedPage (Some (NewProjection (Some db))) q w = Some (Inr page, w')"
    by (rule pagedBy_first[OF pages]) (use that in blast)
  have L: "0 < pageLimit (cr_Limit (cq_Page q))"
    by (rule wpE_InrD[OF page first(3), OF first(2,1), THEN conjunct2, THEN conjunct2, THEN conjunct1])
  show ?thesis
  proof (rule keyset_order.following[OF instance_keyset_order[OF text_order] pages L], goal_cases)
    case (1 token w page w')
    have "InitiatedPage (Some (NewProjection (Some db))) (resume q token) w = Some (Inr page, w')"
      using 1(2) .
    from wpE_InrD[OF page this] 1(1) show ?case by simp
  qed
qed

end

end
