(* ===== verification/PostgresExamples.thy ===== *)
theory PostgresExamples
  imports PostgresEngine ProjectionSpec MySQLExamples
begin

text \<open>
  Runs of the PostgreSQL adapter on the database of \<open>PgReference\<close>, for the witnesses: an instance with two
  active tasks of one actor is created, a later snapshot of it is saved, and its worklist is read in
  pages of one task.
\<close>

definition inboxTask :: "string \<Rightarrow> Task" where
  "inboxTask k = \<lparr>t_ID = k, t_NodeID = ''a'', t_Assignee = ''u'', t_Status = TaskStatusActive, t_Outcome = []\<rparr>"

definition inboxInstance :: Instance where
  "inboxInstance = \<lparr>i_ID = ''i'', i_Definition = tinyDefinition, i_Status = InstanceStatusRunning, i_Initiator = ''j'',
     i_CurrentNodeID = ''a'', i_Data = None, i_NodeState = None, i_Tasks = [inboxTask ''1'', inboxTask ''2''],
     i_Audit = [emptyAudit\<lparr>a_Action := auditInstanceStarted, a_At := 4000\<rparr>], i_Version = 1\<rparr>"

definition inboxDone :: Instance where
  "inboxDone = inboxInstance\<lparr>i_Tasks := [inboxTask ''1'', (inboxTask ''2'')\<lparr>t_Status := TaskStatusCompleted\<rparr>], i_Version := 2\<rparr>"

definition pgStoreOf :: "pgStore server PostgresStore option" where
  "pgStoreOf = Some (Postgres_New (Some (refPool True)))"

definition pgProjection :: "pgStore server Projection option" where
  "pgProjection = Some (NewProjection (Some (refPool True)))"

definition inboxQuery :: "Continuation \<Rightarrow> ContinuationQuery" where
  "inboxQuery token = \<lparr>cq_ActorID = ''u'', cq_Scope = \<lparr>sc_InstanceIDs = None\<rparr>,
     cq_Page = \<lparr>cr_Limit = 1, cr_After = token\<rparr>\<rparr>"

lemma inbox_runs:
  "endsIn (\<lambda>_ d1.
      endsIn (\<lambda>x _. x = (inboxInstance, noNil)) (Postgres_Load pgStoreOf ''i'' (demoEnv, d1)) \<and>
      endsIn (\<lambda>_ _. True) (Postgres_Save pgStoreOf (Some (inboxDone, noNil)) 1 (demoEnv, d1)))
    (Postgres_Create pgStoreOf (Some (inboxInstance, noNil)) (demoEnv, ref_server emptyStore []))"
  by code_simp

lemma inbox_pages_run:
  "endsIn (\<lambda>_ d1.
      endsIn (\<lambda>page _. map tp_TaskID (cp_Items page) = [''1''] \<and> cp_Next page \<noteq> [] \<and>
          endsIn (\<lambda>page' _. map tp_TaskID (cp_Items page') = [''2''] \<and> cp_Next page' = [])
            (WorklistPage pgProjection (inboxQuery (cp_Next page)) (demoEnv, d1)))
        (WorklistPage pgProjection (inboxQuery []) (demoEnv, d1)))
    (Postgres_Create pgStoreOf (Some (inboxInstance, noNil)) (demoEnv, ref_server emptyStore []))"
  by code_simp

end
