(* ===== verification/Inbox.thy ===== *)
theory Inbox
  imports ProjectionSpec
begin

text \<open>
  What the task and instance views show in terms of the stored instances: over tables whose read
  model mirrors the facts, the selected rows are the tasks, or the instances, that the facts hold
  (\<open>task_rows_are_items\<close>, \<open>instance_rows_are_items\<close>).
\<close>

subsection \<open>Items\<close>

definition taskItem :: "Relation \<Rightarrow> Instance \<Rightarrow> Task \<Rightarrow> TaskProjection" where
  \<comment> \<open>how a task of a stored instance is shown\<close>
  "taskItem relation i t = (case projectionAuditTimes (i_Audit i) of (startedAt, lastAuditAt, _) \<Rightarrow>
     \<lparr>tp_DefinitionID = d_ID (i_Definition i), tp_DefinitionVersion = d_Version (i_Definition i),
      tp_InstanceID = i_ID i, tp_InstanceStatus = i_Status i, tp_Initiator = i_Initiator i,
      tp_NodeID = t_NodeID t, tp_TaskID = t_ID t, tp_ActorID = t_Assignee t, tp_TaskStatus = t_Status t,
      tp_Outcome = t_Outcome t, tp_Relation = relation, tp_StartedAt = map_option pgTime startedAt,
      tp_LastAuditAt = map_option pgTime lastAuditAt\<rparr>)"

definition instanceItem :: "Instance \<Rightarrow> InstanceProjection" where
  "instanceItem i = (case projectionAuditTimes (i_Audit i) of (startedAt, lastAuditAt, _) \<Rightarrow>
     \<lparr>ip_DefinitionID = d_ID (i_Definition i), ip_DefinitionVersion = d_Version (i_Definition i),
      ip_InstanceID = i_ID i, ip_InstanceStatus = i_Status i, ip_Initiator = i_Initiator i,
      ip_CurrentNodeID = i_CurrentNodeID i, ip_StartedAt = map_option pgTime startedAt,
      ip_LastAuditAt = map_option pgTime lastAuditAt\<rparr>)"

definition orderTime :: "time option \<Rightarrow> time" where
  "orderTime lastAuditAt = (case lastAuditAt of None \<Rightarrow> unixEpoch | Some t \<Rightarrow> t)"

definition taskItemKey :: "TaskProjection \<Rightarrow> time \<times> string \<times> string" where
  "taskItemKey x = (orderTime (tp_LastAuditAt x), tp_InstanceID x, tp_TaskID x)"

definition instanceItemKey :: "InstanceProjection \<Rightarrow> time \<times> string" where
  "instanceItemKey x = (orderTime (ip_LastAuditAt x), ip_InstanceID x)"

subsection \<open>Stored instances\<close>

lemma participation_fields:
  "(\<exists>p\<in>set (participationRows k ts). P (pp_task_id p) (pp_actor_id p) (pp_node_id p) (pp_task_status p) (pp_outcome p)) \<longleftrightarrow>
   (\<exists>t\<in>set ts. projected t \<and> P (t_ID t) (t_Assignee t) (t_NodeID t) (taskStatusText (t_Status t)) (t_Outcome t))"
  by (induction k ts rule: participationRows.induct) auto

lemma decodeTask_canonical:
  assumes "decodeTask p = Inr t"
  shows "canonicalTaskStatus (t_Status t)"
  using assms
  by (auto simp: decodeTask_def decodeJSON_def Decode_def taskOf_def bindR_Inr_iff wrapR_def canonicalTaskStatus_def
      split: if_splits sum.splits option.splits)

lemma mapR_set: "mapR f xs = Inr ys \<Longrightarrow> y \<in> set ys \<Longrightarrow> \<exists>x\<in>set xs. f x = Inr y"
  by (induction xs arbitrary: ys) (auto simp: bindR_Inr_iff)

lemma stored_canonical:
  assumes "tableView T k = Some i"
  shows "i_ID i = k" "canonicalStatus (i_Status i)" "t \<in> set (i_Tasks i) \<Longrightarrow> canonicalTaskStatus (t_Status t)"
  using assms
  by (auto simp: tableView_entry tableEntry_def readEntry_def bindR_Inr_iff canonicalStatus_def
      split: option.splits sum.splits prod.splits dest!: mapR_set decodeTask_canonical)

lemma canonical_text:
  "canonicalStatus s \<Longrightarrow> instanceStatusText s = ''running'' \<longleftrightarrow> s = InstanceStatusRunning"
  "canonicalTaskStatus u \<Longrightarrow> taskStatusText u = ''active'' \<longleftrightarrow> u = TaskStatusActive"
  "canonicalTaskStatus u \<Longrightarrow> taskStatusText u = ''completed'' \<longleftrightarrow> u = TaskStatusCompleted"
  "canonicalTaskStatus u \<Longrightarrow> taskStatusText u = ''closed'' \<longleftrightarrow> u = TaskStatusClosed"
  "canonicalTaskStatus u \<Longrightarrow> taskStatusText u = [] \<longleftrightarrow> u = TaskStatusUnknown"
  by (auto simp: canonicalStatus_def canonicalTaskStatus_def instanceStatusOf_def taskStatusOf_def)

lemma unixEpoch_stored [simp]: "pgTime unixEpoch = unixEpoch"
  by (simp add: pgTime_def unixEpoch_def)

lemma view_of_mirrored:
  assumes "tableView (pg_facts T) k = Some i"
  shows "instanceView (k, storedTimes (projectionOf i)) = instanceItem i"
    "instanceItemKey (instanceItem i) = instanceKey (k, storedTimes (projectionOf i))"
    "t \<in> set (i_Tasks i) \<Longrightarrow> taskView relation (k, storedTimes (projectionOf i), \<lparr>pp_ordinal = m, pp_task_id = t_ID t,
        pp_actor_id = t_Assignee t, pp_node_id = t_NodeID t, pp_task_status = taskStatusText (t_Status t),
        pp_outcome = t_Outcome t\<rparr>) = taskItem relation i t"
    "taskItemKey (taskView relation (k, storedTimes (projectionOf i), p)) = taskKey (k, storedTimes (projectionOf i), p)"
  using stored_canonical[OF assms]
  by (auto simp: instanceView_def instanceItem_def taskView_def taskItem_def storedTimes_def projectionOf_def
      instanceItemKey_def taskItemKey_def instanceKey_def taskKey_def orderTime_def projectionAuditTimes_def
      canonicalStatus_def canonicalTaskStatus_def Let_def split: prod.splits option.splits)

subsection \<open>The views\<close>

lemma selects_image:
  assumes "selects before key R rs" and "\<And>x. x \<in> R \<Longrightarrow> key' (view x) = key x"
  shows "selects before key' (view ` R) (map view rs)"
proof -
  have "map (key' \<circ> view) rs = map key rs"
    using assms by (auto simp: selects_def)
  moreover have "sorted_wrt before (map key rs)" "set rs = R" using assms(1) by (simp_all add: selects_def)
  ultimately have "sorted_wrt before (map (key' \<circ> view) rs)" by (simp only:)
  then show ?thesis using \<open>set rs = R\<close> by (simp add: selects_def)
qed

definition taskItems :: "(InstanceID \<rightharpoonup> Instance) \<Rightarrow> (Instance \<Rightarrow> Task \<Rightarrow> bool) \<Rightarrow> Relation \<Rightarrow> QueryScope \<Rightarrow> TaskProjection set" where
  \<comment> \<open>the tasks of the stored instances that a view is about\<close>
  "taskItems stored want relation scope = {taskItem relation i t | k i t.
     stored k = Some i \<and> scopeAllows (sc_InstanceIDs scope) k \<and> t \<in> set (i_Tasks i) \<and> projected t \<and> want i t}"

definition instanceItems :: "(InstanceID \<rightharpoonup> Instance) \<Rightarrow> ActorID \<Rightarrow> QueryScope \<Rightarrow> InstanceProjection set" where
  "instanceItems stored actor scope = {instanceItem i | k i.
     stored k = Some i \<and> scopeAllows (sc_InstanceIDs scope) k \<and> i_Initiator i = actor}"

definition waitsFor :: "ActorID \<Rightarrow> Instance \<Rightarrow> Task \<Rightarrow> bool" where
  "waitsFor actor i t \<longleftrightarrow> i_Status i = InstanceStatusRunning \<and> t_Assignee t = actor \<and> t_Status t = TaskStatusActive"

definition wasHandledBy :: "ActorID \<Rightarrow> Instance \<Rightarrow> Task \<Rightarrow> bool" where
  "wasHandledBy actor i t \<longleftrightarrow> t_Assignee t = actor \<and> (t_Status t = TaskStatusCompleted \<or> t_Status t = TaskStatusClosed)"

lemma participation_row:
  "p \<in> set (participationRows k ts) \<longleftrightarrow> (\<exists>t\<in>set ts. projected t \<and> p = \<lparr>pp_ordinal = pp_ordinal p, pp_task_id = t_ID t,
     pp_actor_id = t_Assignee t, pp_node_id = t_NodeID t, pp_task_status = taskStatusText (t_Status t),
     pp_outcome = t_Outcome t\<rparr>) \<and> p \<in> set (participationRows k ts)"
  by (induction k ts rule: participationRows.induct) auto

lemma participation_of_task:
  "t \<in> set ts \<Longrightarrow> projected t \<Longrightarrow> \<exists>m. \<lparr>pp_ordinal = m, pp_task_id = t_ID t,
     pp_actor_id = t_Assignee t, pp_node_id = t_NodeID t, pp_task_status = taskStatusText (t_Status t),
     pp_outcome = t_Outcome t\<rparr> \<in> set (participationRows k ts)"
  by (induction k ts rule: participationRows.induct) auto

lemma mirrored_rows:
  assumes "readModel T"
  shows "pg_instances T k = Some r \<longleftrightarrow> (\<exists>i. tableView (pg_facts T) k = Some i \<and> r = storedTimes (projectionOf i))"
    "tableView (pg_facts T) k = Some i \<Longrightarrow> pg_participation T k = participationRows 0 (i_Tasks i)"
  using assms unfolding readModel_def by (auto simp: mirrored_def split: option.splits dest!: spec[of _ k])

lemma task_rows_are_items:
  assumes T: "readModel T"
    and want: "\<And>k i t m. tableView (pg_facts T) k = Some i \<Longrightarrow> t \<in> set (i_Tasks i) \<Longrightarrow>
      want (cq_ActorID q) (k, storedTimes (projectionOf i), \<lparr>pp_ordinal = m, pp_task_id = t_ID t,
        pp_actor_id = t_Assignee t, pp_node_id = t_NodeID t, pp_task_status = taskStatusText (t_Status t),
        pp_outcome = t_Outcome t\<rparr>) \<longleftrightarrow> wanted i t"
  shows "taskView relation ` taskRowsOf T want q = taskItems (tableView (pg_facts T)) wanted relation (cq_Scope q)"
    (is "_ ` ?R = ?I")
proof (intro set_eqI iffI)
  fix x assume "x \<in> taskView relation ` ?R"
  then obtain k r p where x: "x = taskView relation (k, r, p)" and row: "pg_instances T k = Some r"
      "p \<in> set (pg_participation T k)" "want (cq_ActorID q) (k, r, p)" "scopeAllows (sc_InstanceIDs (cq_Scope q)) k"
    by (auto simp: taskRowsOf_def taskJoins_def)
  obtain i where i: "tableView (pg_facts T) k = Some i" "r = storedTimes (projectionOf i)"
    using mirrored_rows(1)[OF T] row(1) by blast
  have "p \<in> set (participationRows 0 (i_Tasks i))" using row(2) mirrored_rows(2)[OF T i(1)] by simp
  then obtain t m where t: "t \<in> set (i_Tasks i)" "projected t" "p = \<lparr>pp_ordinal = m, pp_task_id = t_ID t,
     pp_actor_id = t_Assignee t, pp_node_id = t_NodeID t, pp_task_status = taskStatusText (t_Status t),
     pp_outcome = t_Outcome t\<rparr>"
    by (subst (asm) participation_row) blast
  have "wanted i t" using want[OF i(1) t(1)] row(3) by (simp add: i(2) t(3))
  then show "x \<in> ?I"
    unfolding taskItems_def x i(2) t(3) view_of_mirrored(3)[OF i(1) t(1)] using i(1) t(1,2) row(4) by blast
next
  fix x assume "x \<in> ?I"
  then obtain k i t where x: "x = taskItem relation i t" and i: "tableView (pg_facts T) k = Some i"
      and t: "t \<in> set (i_Tasks i)" "projected t" "wanted i t" and scope: "scopeAllows (sc_InstanceIDs (cq_Scope q)) k"
    by (auto simp: taskItems_def)
  obtain m where m: "\<lparr>pp_ordinal = m, pp_task_id = t_ID t, pp_actor_id = t_Assignee t, pp_node_id = t_NodeID t,
      pp_task_status = taskStatusText (t_Status t), pp_outcome = t_Outcome t\<rparr> \<in> set (participationRows 0 (i_Tasks i))"
    using participation_of_task[OF t(1,2)] by blast
  have "(k, storedTimes (projectionOf i), \<lparr>pp_ordinal = m, pp_task_id = t_ID t, pp_actor_id = t_Assignee t,
      pp_node_id = t_NodeID t, pp_task_status = taskStatusText (t_Status t), pp_outcome = t_Outcome t\<rparr>) \<in> ?R"
    using m mirrored_rows[OF T] i t scope want[OF i t(1)] by (auto simp: taskRowsOf_def taskJoins_def)
  from imageI[OF this, of "taskView relation"] show "x \<in> taskView relation ` ?R"
    by (simp add: view_of_mirrored(3)[OF i t(1)] x)
qed

lemma instance_rows_are_items:
  assumes T: "readModel T"
  shows "instanceView ` instanceRowsOf T q = instanceItems (tableView (pg_facts T)) (cq_ActorID q) (cq_Scope q)"
proof -
  have ini: "hasInitiated a (k, storedTimes (projectionOf i)) \<longleftrightarrow> i_Initiator i = a" for a k i
    by (simp add: hasInitiated_def storedTimes_def projectionOf_def split: prod.split)
  have "instanceRowsOf T q = {(k, storedTimes (projectionOf i)) | k i. tableView (pg_facts T) k = Some i \<and>
      i_Initiator i = cq_ActorID q \<and> scopeAllows (sc_InstanceIDs (cq_Scope q)) k}"
    by (auto simp: instanceRowsOf_def instanceJoins_def mirrored_rows(1)[OF T] ini)
  also have "instanceView ` \<dots> = instanceItems (tableView (pg_facts T)) (cq_ActorID q) (cq_Scope q)"
    by (fastforce simp: instanceItems_def view_of_mirrored(1) image_iff)
  finally show ?thesis .
qed

lemma waitsFor_rows:
  assumes "tableView T k = Some i" and "t \<in> set (i_Tasks i)"
  shows "inWorklist actor (k, storedTimes (projectionOf i), \<lparr>pp_ordinal = m, pp_task_id = t_ID t,
        pp_actor_id = t_Assignee t, pp_node_id = t_NodeID t, pp_task_status = taskStatusText (t_Status t),
        pp_outcome = t_Outcome t\<rparr>) \<longleftrightarrow> waitsFor actor i t"
    "hasParticipated actor (k, storedTimes (projectionOf i), \<lparr>pp_ordinal = m, pp_task_id = t_ID t,
        pp_actor_id = t_Assignee t, pp_node_id = t_NodeID t, pp_task_status = taskStatusText (t_Status t),
        pp_outcome = t_Outcome t\<rparr>) \<longleftrightarrow> wasHandledBy actor i t"
  using stored_canonical[OF assms(1)] assms(2)
  by (auto simp: inWorklist_def hasParticipated_def waitsFor_def wasHandledBy_def canonical_text storedTimes_def
      projectionOf_def split: prod.split)

lemma task_item_keys:
  assumes "readModel T" and "x \<in> taskRowsOf T want q"
  shows "taskItemKey (taskView relation x) = taskKey x"
proof -
  obtain k r p where x: "x = (k, r, p)" "pg_instances T k = Some r"
    using assms(2) by (auto simp: taskRowsOf_def taskJoins_def)
  obtain i where "tableView (pg_facts T) k = Some i" "r = storedTimes (projectionOf i)"
    using mirrored_rows(1)[OF assms(1)] x(2) by blast
  then show ?thesis by (simp add: x(1) view_of_mirrored(4))
qed

lemma instance_item_keys:
  assumes "readModel T" and "x \<in> instanceRowsOf T q"
  shows "instanceItemKey (instanceView x) = instanceKey x"
proof -
  obtain k r where x: "x = (k, r)" "pg_instances T k = Some r"
    using assms(2) by (auto simp: instanceRowsOf_def instanceJoins_def)
  obtain i where i: "tableView (pg_facts T) k = Some i" "r = storedTimes (projectionOf i)"
    using mirrored_rows(1)[OF assms(1)] x(2) by blast
  show ?thesis unfolding x(1) i(2) by (simp add: view_of_mirrored(1,2)[OF i(1)])
qed

lemma after_start [simp]: "after before key R None = R"
  by (simp add: after_def)

context pg_request
begin

lemma task_items:
  assumes law: "servesTasks db committed text_less statement want" and T: "readModel T"
    and wanted: "\<And>k i t m. tableView (pg_facts T) k = Some i \<Longrightarrow> t \<in> set (i_Tasks i) \<Longrightarrow>
      want (cq_ActorID q) (k, storedTimes (projectionOf i), \<lparr>pp_ordinal = m, pp_task_id = t_ID t,
        pp_actor_id = t_Assignee t, pp_node_id = t_NodeID t, pp_task_status = taskStatusText (t_Status t),
        pp_outcome = t_Outcome t\<rparr>) \<longleftrightarrow> wanted i t"
    and pages: "pagedBy (\<lambda>q. queryContinuedTaskProjection (Some (NewProjection (Some db))) q statement relation)
      (\<lambda>w :: 'h env \<times> 'd. committed (snd w) = T \<and> quietCtx c (fst w)) q pages"
    and first: "cr_After (cq_Page q) = []"
  shows "selects (taskBefore text_less) taskItemKey
      (taskItems (tableView (pg_facts T)) wanted relation (cq_Scope q)) (concat pages) \<and>
    (\<forall>p\<in>set (butlast pages). length p = pageLimit (cr_Limit (cq_Page q)))"
proof -
  obtain rs where rs: "selects (taskBefore text_less) taskKey (taskRowsOf T want q) rs"
    "concat pages = map (taskView relation) rs" "\<forall>p\<in>set (butlast pages). length p = pageLimit (cr_Limit (cq_Page q))"
    using task_pages[OF law readModel_readable[OF T] pages] first by auto
  have "selects (taskBefore text_less) taskItemKey (taskView relation ` taskRowsOf T want q) (map (taskView relation) rs)"
    by (rule selects_image[OF rs(1)]) (rule task_item_keys[OF T])
  moreover have "taskView relation ` taskRowsOf T want q = taskItems (tableView (pg_facts T)) wanted relation (cq_Scope q)"
    by (rule task_rows_are_items[OF T]) (rule wanted)
  ultimately show ?thesis using rs(2,3) by simp
qed

lemma instance_items:
  assumes T: "readModel T"
    and pages: "pagedBy (InitiatedPage (Some (NewProjection (Some db))))
      (\<lambda>w :: 'h env \<times> 'd. committed (snd w) = T \<and> quietCtx c (fst w)) q pages"
    and first: "cr_After (cq_Page q) = []"
  shows "selects (instanceBefore text_less) instanceItemKey
      (instanceItems (tableView (pg_facts T)) (cq_ActorID q) (cq_Scope q)) (concat pages) \<and>
    (\<forall>p\<in>set (butlast pages). length p = pageLimit (cr_Limit (cq_Page q)))"
proof -
  obtain rs where rs: "selects (instanceBefore text_less) instanceKey (instanceRowsOf T q) rs"
    "concat pages = map instanceView rs" "\<forall>p\<in>set (butlast pages). length p = pageLimit (cr_Limit (cq_Page q))"
    using instance_pages[OF readModel_readable[OF T] pages] first by auto
  have "selects (instanceBefore text_less) instanceItemKey (instanceView ` instanceRowsOf T q) (map instanceView rs)"
    by (rule selects_image[OF rs(1)]) (rule instance_item_keys[OF T])
  then show ?thesis using rs(2,3) by (simp add: instance_rows_are_items[OF T])
qed

lemma legacy_tasks_wp:
  assumes law: "servesTasks db committed text_less statement want"
    and q: "quietCtx c (fst w)" and T: "committed (snd w) = T" "readable T"
  shows "wpE True (\<lambda>_ w'. committed (snd w') = T) (\<lambda>_ w'. committed (snd w') = T)
    (queryLegacyTaskProjection (Some (NewProjection (Some db))) query statement relation) w"
  unfolding queryLegacyTaskProjection_def prepareLegacyTaskProjectionQuery_def bindE_assoc wpE_bindE[where m = "prepareProjectionQuery _ _ _ _"]
proof (rule wpE_mono[OF prepare_wp[OF q]], goal_cases)
  case (1 b w1)
  then have w1: "quietCtx c (fst w1)" "committed (snd w1) = T" using T(1) by auto
  have b: "qb_limit b = int (pageLimit (pq_Limit (aq_Page query)))" "0 < pageLimit (pq_Limit (aq_Page query))"
    using 1 by auto
  have page: "wpE True (\<lambda>res w'. committed (snd w') = T) (\<lambda>e w'. committed (snd w') = T)
      (queryTaskProjection (Some (NewProjection (Some db))) \<lparr>tq_boundary = b, tq_after = ks0\<rparr> statement relation) w1" for ks0
    by (rule wpE_mono[OF task_query_wp[OF law w1 T(2) b refl refl]]) auto
  then show ?case using w1
    by (auto simp: wp_simps Let_def wpE_bindE[where m = "queryTaskProjection _ _ _ _"] validateTaskProjectionKeyset_def
        split: option.split)
qed (use T(1) in auto)

lemma legacy_instances_wp:
  assumes q: "quietCtx c (fst w)" and T: "committed (snd w) = T" "readable T"
  shows "wpE True (\<lambda>_ w'. committed (snd w') = T) (\<lambda>_ w'. committed (snd w') = T)
    (Initiated (Some (NewProjection (Some db))) query) w"
  unfolding Initiated_def prepareLegacyInstanceProjectionQuery_def bindE_assoc wpE_bindE[where m = "prepareProjectionQuery _ _ _ _"]
proof (rule wpE_mono[OF prepare_wp[OF q]], goal_cases)
  case (1 b w1)
  then have w1: "quietCtx c (fst w1)" "committed (snd w1) = T" using T(1) by auto
  have b: "qb_limit b = int (pageLimit (pq_Limit (aq_Page query)))" "0 < pageLimit (pq_Limit (aq_Page query))"
    using 1 by auto
  have page: "wpE True (\<lambda>res w'. committed (snd w') = T) (\<lambda>e w'. committed (snd w') = T)
      (queryInstanceProjection (Some (NewProjection (Some db))) \<lparr>iq_boundary = b, iq_after = ks0\<rparr>) w1" for ks0
    by (rule wpE_mono[OF instance_query_wp[OF w1 T(2) b refl refl]]) auto
  then show ?case using w1
    by (auto simp: wp_simps Let_def wpE_bindE[where m = "queryInstanceProjection _ _"] validateInstanceProjectionKeyset_def
        split: option.split)
qed (use T(1) in auto)

end

end
