(* ===== verification/PostgresStore.thy ===== *)
theory PostgresStore
  imports PostgresExamples Inbox
begin

text \<open>
  The properties of the PostgreSQL store, over any database that behaves as \<open>pg_database\<close> says, and
  their instances on the database of \<open>PgReference\<close>.
\<close>

lemma pg_requests: "pg_database db tabs opened acked text_less \<Longrightarrow> pg_request db tabs opened acked text_less"
  by (simp add: pg_request_def sql_request_def pg_database_def)

lemma emptyStore_facts:
  "readModel (pgAbs emptyStore)" "tableView (st_facts emptyStore) = Map.empty"
  "pgCommitted (ref_server s faults) = pgAbs s"
  by (simp_all add: pgAbs_def emptyStore_def readModel_def pgCommitted_def ref_server_def)

lemma inbox_facts: "nilOk inboxInstance noNil" "nilOk inboxDone noNil"
  by (simp_all add: tiny_facts)

subsection \<open>Create, Load and Save\<close>

text \<open>
  C32. \<open>Create\<close> is atomic and files the read model with the facts: if it succeeds, the identity was unused
  and not empty, and one transaction has filed every row of the aggregate together with its row of the
  instance projection and its rows of the participation projection (\<open>pgCreated\<close>), and nothing else
  changed. If it fails, facts and projections are as before, unless the database lost the answer of a
  commit that happened; and it reports \<open>ErrInstanceExists\<close> only for an identity that exists.
\<close>

theorem postgres_Create_atomic:
  assumes "pg_database db tabs opened acked text_less" and "tablesOk (pg_facts (tabs d))" and "nilOk i n"
    and "quietCtx True w"
    and "Postgres_Create (Some (Postgres_New (Some db))) (Some (i, n)) (w, d) = Some (r, (w', d'))"
  shows "case r of
      Inr _ \<Rightarrow> pgCreated (tabs d) i n (tabs d')
    | Inl e \<Rightarrow> (errors_Is e ErrInstanceExists \<longrightarrow> tb_instances (pg_facts (tabs d)) (i_ID i) \<noteq> None) \<and>
        (tabs d' = tabs d \<or> \<not> acked \<and> foreign e \<and> pgCreated (tabs d) i n (tabs d'))"
  using pg_request.Postgres_Create_wp[OF pg_requests[OF assms(1)], of True "(w, d)", OF _ refl _ assms(3)] assms(2,4,5)
  by (auto simp: wpE_def reports_def expected_def split: sum.split)

theorem postgres_Create_atomic_witness:
  "\<exists>w' d'. Postgres_Create pgStoreOf (Some (inboxInstance, noNil)) (demoEnv, ref_server emptyStore []) = Some (Inr (), (w', d')) \<and>
     pgCreated (pgAbs emptyStore) inboxInstance noNil (pgCommitted d')"
proof -
  obtain w1 d1 where run: "Postgres_Create pgStoreOf (Some (inboxInstance, noNil)) (demoEnv, ref_server emptyStore []) =
      Some (Inr (), (w1, d1))"
    using inbox_runs by (auto simp: endsIn_iff)
  have ok: "tablesOk (pg_facts (pgCommitted (ref_server emptyStore [])))"
    using emptyStore_facts by (simp add: readModel_def)
  from postgres_Create_atomic[OF pg_ref.pg_database_axioms ok inbox_facts(1) tiny_facts(3) run[unfolded pgStoreOf_def]] run
  show ?thesis by (auto simp: emptyStore_facts)
qed

text \<open>
  C33. \<open>Save\<close> is an atomic compare-and-swap that moves facts and read model together: if it succeeds, the
  stored version was the expected one and the stored audit a prefix of the new one, and one transaction
  has replaced the aggregate and its projection rows (\<open>pgSaved\<close>); if it fails, both are as before, unless
  the answer of a commit that happened was lost. It reports \<open>ErrInstanceNotFound\<close> only without such a
  row, and \<open>ErrVersionConflict\<close> only if the stored version is another one.
\<close>

theorem postgres_Save_atomic:
  assumes "pg_database db tabs opened acked text_less" and "tablesOk (pg_facts (tabs d))" and "nilOk i n"
    and "quietCtx True w"
    and "Postgres_Save (Some (Postgres_New (Some db))) (Some (i, n)) v (w, d) = Some (r, (w', d'))"
  shows "case r of
      Inr _ \<Rightarrow> pgSaved (tabs d) i n v (tabs d')
    | Inl e \<Rightarrow> (errors_Is e ErrInstanceNotFound \<longrightarrow> tb_instances (pg_facts (tabs d)) (i_ID i) = None) \<and>
        (errors_Is e ErrVersionConflict \<longrightarrow>
          (\<exists>old m. tableEntry (pg_facts (tabs d)) (i_ID i) = Some (old, m) \<and> i_Version old \<noteq> v)) \<and>
        (tabs d' = tabs d \<or> \<not> acked \<and> foreign e \<and> pgSaved (tabs d) i n v (tabs d'))"
  using pg_request.Postgres_Save_wp[OF pg_requests[OF assms(1)], of True "(w, d)", OF _ refl _ assms(3), where v = v] assms(2,4,5)
  by (auto simp: wpE_def reports_def expected_def split: sum.split)

lemma inbox_create:
  obtains w1 d1 w2 d2 w3 d3 where
    "Postgres_Create pgStoreOf (Some (inboxInstance, noNil)) (demoEnv, ref_server emptyStore []) = Some (Inr (), (w1, d1))"
    "Postgres_Load pgStoreOf ''i'' (demoEnv, d1) = Some (Inr (inboxInstance, noNil), (w2, d2))"
    "Postgres_Save pgStoreOf (Some (inboxDone, noNil)) 1 (demoEnv, d1) = Some (Inr (), (w3, d3))"
    "pgCreated (pgAbs emptyStore) inboxInstance noNil (pgCommitted d1)" "readModel (pgCommitted d1)"
proof -
  obtain w1 d1 w2 d2 w3 d3 where
    run: "Postgres_Create pgStoreOf (Some (inboxInstance, noNil)) (demoEnv, ref_server emptyStore []) = Some (Inr (), (w1, d1))"
    "Postgres_Load pgStoreOf ''i'' (demoEnv, d1) = Some (Inr (inboxInstance, noNil), (w2, d2))"
    "Postgres_Save pgStoreOf (Some (inboxDone, noNil)) 1 (demoEnv, d1) = Some (Inr (), (w3, d3))"
    using inbox_runs by (auto simp: endsIn_iff)
  have c: "pgCreated (pgAbs emptyStore) inboxInstance noNil (pgCommitted d1)"
    using pg_ref_request.Postgres_Create_wp[of False "(demoEnv, ref_server emptyStore [])", OF _ refl _ inbox_facts(1), of True] run(1)
      emptyStore_facts
    by (auto simp: wpE_def pgStoreOf_def tiny_facts readModel_def)
  show thesis
    by (rule that[OF run c pgCreated_readModel[OF emptyStore_facts(1) c]])
qed

theorem postgres_Save_atomic_witness:
  "\<exists>d w' d'. Postgres_Save pgStoreOf (Some (inboxDone, noNil)) 1 (demoEnv, d) = Some (Inr (), (w', d')) \<and>
     pgSaved (pgCommitted d) inboxDone noNil 1 (pgCommitted d')"
proof -
  obtain d1 w3 d3 where run: "Postgres_Save pgStoreOf (Some (inboxDone, noNil)) 1 (demoEnv, d1) = Some (Inr (), (w3, d3))"
    and ok: "tablesOk (pg_facts (pgCommitted d1))"
    by (rule inbox_create) (simp add: readModel_def)
  from postgres_Save_atomic[OF pg_ref.pg_database_axioms ok inbox_facts(2) tiny_facts(3) run[unfolded pgStoreOf_def]] run
  show ?thesis by auto
qed

subsection \<open>The read model never drifts\<close>

inductive pgCall :: "'d pgxPool \<Rightarrow> 'd \<Rightarrow> 'd \<Rightarrow> bool" for db where
  \<comment> \<open>a call of the adapter by some request, whatever it answers\<close>
  create: "nilOk i n \<Longrightarrow> Postgres_Create (Some (Postgres_New (Some db))) (Some (i, n)) (w :: unit env, d) = Some (r, (w', d')) \<Longrightarrow>
    pgCall db d d'"
| save: "nilOk i n \<Longrightarrow> Postgres_Save (Some (Postgres_New (Some db))) (Some (i, n)) v (w :: unit env, d) = Some (r', (w', d')) \<Longrightarrow>
    pgCall db d d'"
| load: "Postgres_Load (Some (Postgres_New (Some db))) k (w :: unit env, d) = Some (x, (w', d')) \<Longrightarrow> pgCall db d d'"
| worklist: "WorklistPage (Some (NewProjection (Some db))) q (w :: unit env, d) = Some (p, (w', d')) \<Longrightarrow> pgCall db d d'"
| participated: "ParticipatedPage (Some (NewProjection (Some db))) q (w :: unit env, d) = Some (p, (w', d')) \<Longrightarrow> pgCall db d d'"
| initiated: "InitiatedPage (Some (NewProjection (Some db))) q (w :: unit env, d) = Some (p', (w', d')) \<Longrightarrow> pgCall db d d'"
| worklist_cursor: "Worklist (Some (NewProjection (Some db))) lq (w :: unit env, d) = Some (lp, (w', d')) \<Longrightarrow> pgCall db d d'"
| participated_cursor: "Participated (Some (NewProjection (Some db))) lq (w :: unit env, d) = Some (lp, (w', d')) \<Longrightarrow> pgCall db d d'"
| initiated_cursor: "Initiated (Some (NewProjection (Some db))) lq (w :: unit env, d) = Some (lp', (w', d')) \<Longrightarrow> pgCall db d d'"

lemma wpE_keeps:
  assumes "wpE True Q E m w" and "m w = Some (r, w')" and "\<And>x w'. Q x w' \<Longrightarrow> P w'" and "\<And>e w'. E e w' \<Longrightarrow> P w'"
  shows "P w'"
  using assms by (auto simp: wpE_def split: sum.splits)

lemma pgCall_readModel:
  assumes db: "pg_database db tabs opened acked text_less" and call: "pgCall db d d'" and ok: "readModel (tabs d)"
  shows "readModel (tabs d')"
proof -
  note request = pg_requests[OF db]
  have q: "quietCtx False (fst (w, d))" for w :: "unit env" by (simp add: quietCtx_def)
  have T: "tabs (snd (w, d)) = tabs d" for w :: "unit env" by simp
  note T' = readModel_readable[OF ok] and facts = readModel_tablesOk[OF ok]
  from call show ?thesis
  proof cases
    case (create i n w r w')
    show ?thesis
      by (rule wpE_keeps[OF pg_request.Postgres_Create_wp[OF request q T facts create(1)] create(2),
            where P = "\<lambda>w. readModel (tabs (snd w))", simplified])
        (use pgCreated_readModel[OF ok] ok in auto)
  next
    case (save i n v w r w')
    show ?thesis
      by (rule wpE_keeps[OF pg_request.Postgres_Save_wp[OF request q T facts save(1)] save(2),
            where P = "\<lambda>w. readModel (tabs (snd w))", simplified])
        (use pgSaved_readModel[OF ok] ok in auto)
  next
    case (load k w x w')
    show ?thesis
      by (rule wpE_keeps[OF pg_request.Postgres_Load_wp[OF request q T] load,
            where P = "\<lambda>w. readModel (tabs (snd w))", simplified]) (use ok in auto)
  next
    case (worklist q w p w')
    show ?thesis
      by (rule wpE_keeps[OF pg_request.task_page_wp[OF request pg_request.worklist_served[OF request] q T T']
            worklist[unfolded WorklistPage_def], where P = "\<lambda>w. readModel (tabs (snd w))", simplified]) (use ok in auto)
  next
    case (participated q w p w')
    show ?thesis
      by (rule wpE_keeps[OF pg_request.task_page_wp[OF request pg_request.participated_served[OF request] q T T']
            participated[unfolded ParticipatedPage_def], where P = "\<lambda>w. readModel (tabs (snd w))", simplified]) (use ok in auto)
  next
    case (initiated q w p w')
    show ?thesis
      by (rule wpE_keeps[OF pg_request.instance_page_wp[OF request q T T'] initiated,
            where P = "\<lambda>w. readModel (tabs (snd w))", simplified]) (use ok in auto)
  next
    case (worklist_cursor q w p w')
    show ?thesis
      by (rule wpE_keeps[OF pg_request.legacy_tasks_wp[OF request pg_request.worklist_served[OF request] q T T']
            worklist_cursor[unfolded Worklist_def], where P = "\<lambda>w. readModel (tabs (snd w))", simplified]) (use ok in auto)
  next
    case (participated_cursor q w p w')
    show ?thesis
      by (rule wpE_keeps[OF pg_request.legacy_tasks_wp[OF request pg_request.participated_served[OF request] q T T']
            participated_cursor[unfolded Participated_def], where P = "\<lambda>w. readModel (tabs (snd w))", simplified]) (use ok in auto)
  next
    case (initiated_cursor q w p w')
    show ?thesis
      by (rule wpE_keeps[OF pg_request.legacy_instances_wp[OF request q T T'] initiated_cursor,
            where P = "\<lambda>w. readModel (tabs (snd w))", simplified]) (use ok in auto)
  qed
qed

text \<open>
  C34. The read model never drifts from the facts: in every state that calls of the adapter reach from one
  where it holds (an empty database, for one), by any number of requests and whatever each call
  answered, lost commit answers included, the tables are well formed, and the rows of the two
  projections are exactly those of the stored instances; an identity without an instance has none.
\<close>

theorem read_model_invariant:
  assumes "pg_database db tabs opened acked text_less" and "readModel (tabs d)" and "(pgCall db)\<^sup>*\<^sup>* d d'"
  shows "readModel (tabs d')"
  using assms(3)
  by (induction rule: rtranclp_induct) (use assms(2) pgCall_readModel[OF assms(1)] in blast)+

theorem read_model_invariant_witness:
  "\<exists>d. (pgCall (refPool True))\<^sup>*\<^sup>* (ref_server emptyStore []) d \<and> readModel (pgCommitted d) \<and>
     pg_participation (pgCommitted d) ''i'' = participationRows 0 (i_Tasks inboxDone)"
proof -
  obtain w1 d1 w3 d3 where run: "Postgres_Create pgStoreOf (Some (inboxInstance, noNil)) (demoEnv, ref_server emptyStore []) =
        Some (Inr (), (w1, d1))"
      "Postgres_Save pgStoreOf (Some (inboxDone, noNil)) 1 (demoEnv, d1) = Some (Inr (), (w3, d3))"
      "readModel (pgCommitted d1)"
    by (rule inbox_create)
  have calls: "pgCall (refPool True) (ref_server emptyStore []) d1" "pgCall (refPool True) d1 d3"
    using pgCall.create[OF inbox_facts(1) run(1)[unfolded pgStoreOf_def]]
      pgCall.save[OF inbox_facts(2) run(2)[unfolded pgStoreOf_def]] by simp_all
  then have reach: "(pgCall (refPool True))\<^sup>*\<^sup>* (ref_server emptyStore []) d3" by simp
  have "pgSaved (pgCommitted d1) inboxDone noNil 1 (pgCommitted d3)"
    using pg_ref_request.Postgres_Save_wp[of False "(demoEnv, d1)", OF _ refl _ inbox_facts(2), of 1 True] run
    by (auto simp: wpE_def pgStoreOf_def tiny_facts readModel_def)
  then have "pgCommitted d3 = withProjection inboxDone ((pgCommitted d1)\<lparr>pg_facts := pg_facts (pgCommitted d3)\<rparr>)"
    by (simp add: pgSaved_def)
  from arg_cong[OF this, of pg_participation]
  have "pg_participation (pgCommitted d3) ''i'' = participationRows 0 (i_Tasks inboxDone)"
    by (simp add: withProjection_def inboxDone_def inboxInstance_def)
  with read_model_invariant[OF pg_ref.pg_database_axioms _ reach] reach show ?thesis
    by (auto simp: emptyStore_facts)
qed

subsection \<open>The engine over the store\<close>

text \<open>
  C35. The engine keeps its promises over PostgreSQL, read model included: over any database whose failed
  commits did not happen, a successful operation of the engine computes the successor it promises
  (\<open>replacedOne\<close>), files nothing but the answered snapshot under its identity, exactly if its texts are
  valid UTF-8, and keeps the projections equal to the facts; a failed operation leaves the
  stored instances as they were.
\<close>

theorem engine_over_postgres:
  assumes "pg_database db tabs opened True text_less" and "\<forall>w i. nilOk i (ns w i)"
    and "readModel (tabs d)" and "storeOk (tableView (pg_facts (tabs d)))"
    and "Option.bind e e_store = Some (Postgres_ops db ns)" and "op \<in> engineOperations e"
    and "op (w, d) = Some (r, (w', d'))"
  shows "readModel (tabs d') \<and> (case r of
      Inl _ \<Rightarrow> tableView (pg_facts (tabs d')) = tableView (pg_facts (tabs d))
    | Inr c \<Rightarrow> replacedOne (tableView (pg_facts (tabs d))) c ((tableView (pg_facts (tabs d)))(i_ID c \<mapsto> c)) \<and>
        filed storable (tableView (pg_facts (tabs d))) c (tableView (pg_facts (tabs d'))))"
proof -
  have "pg_store db tabs opened text_less ns"
    using assms(1,2) by (simp add: pg_store_def pg_store_axioms_def)
  from pg_store.postgres_engine_wp[OF this, of "(w, d)", OF _ _ assms(5,6)] show ?thesis
    using assms(3,4,7) by (auto simp: wpE_def split: sum.split)
qed

definition pgEngine :: "(unit, pgStore server) Engine option" where
  "pgEngine = Some (NewEngine (Some (Postgres_ops (refPool True) (\<lambda>_ _. noNil))) (Some demoRegistry))"

lemma pg_engine_runs:
  "endsIn (\<lambda>c _. c = tinyDone) (Start pgEngine (Some tinyDefinition) tinyStart (demoEnv, ref_server emptyStore []))"
  by code_simp

theorem engine_over_postgres_witness:
  "\<exists>w' d'. Start pgEngine (Some tinyDefinition) tinyStart (demoEnv, ref_server emptyStore []) =
     Some (Inr tinyDone, (w', d')) \<and> readModel (pgCommitted d') \<and>
     filed storable Map.empty tinyDone (tableView (pg_facts (pgCommitted d')))"
proof -
  obtain w' d' where run: "Start pgEngine (Some tinyDefinition) tinyStart (demoEnv, ref_server emptyStore []) =
      Some (Inr tinyDone, (w', d'))"
    using pg_engine_runs by (auto simp: endsIn_iff)
  have op: "Start pgEngine (Some tinyDefinition) tinyStart \<in> engineOperations pgEngine"
    unfolding engineOperations_def by blast
  have store: "Option.bind pgEngine e_store = Some (Postgres_ops (refPool True) (\<lambda>_ _. noNil))"
    by (simp add: pgEngine_def NewEngine_def)
  have nil: "\<forall>w i. nilOk i noNil" by (simp add: tiny_facts)
  from engine_over_postgres[OF pg_ref.pg_database_axioms nil _ _ store op run] run show ?thesis
    by (auto simp: emptyStore_facts storeOk_def)
qed

end
