(* ===== verification/ProjectionStore.thy ===== *)
theory ProjectionStore
  imports PostgresStore
begin

text \<open>
  The properties of the projection queries: what their pages show, which requests are refused
  before the database is asked, and how the two public forms of a query relate.
\<close>

subsection \<open>Continuations\<close>

text \<open>
  C40. A continuation is read back: a token that a page was given decodes to the position it was made of
  (with every byte that is not UTF-8 in an identity replaced), it is not empty and at most 1024 bytes
  long, and a query of the other family refuses it with \<open>ErrInvalidProjectionQuery\<close>.
\<close>

theorem continuation_round_trip:
  "(encodeTaskContinuation tk = Inr token \<longrightarrow>
      decodeTaskContinuation token = Inr (tk\<lparr>tk_instanceID := toValidUTF8 (tk_instanceID tk), tk_taskID := toValidUTF8 (tk_taskID tk)\<rparr>) \<and>
      decodeInstanceContinuation token = Inl [ErrInvalidProjectionQuery] \<and> token \<noteq> [] \<and> length token \<le> 1024) \<and>
   (encodeInstanceContinuation ik = Inr token \<longrightarrow>
      decodeInstanceContinuation token = Inr (ik\<lparr>ik_instanceID := toValidUTF8 (ik_instanceID ik)\<rparr>) \<and>
      decodeTaskContinuation token = Inl [ErrInvalidProjectionQuery] \<and> token \<noteq> [] \<and> length token \<le> 1024)"
proof (intro conjI impI)
  have nonempty: "token \<noteq> []" if "decodeTaskContinuation token = Inr x \<or> decodeInstanceContinuation token = Inr y" for x y
    using that by auto
  show "token \<noteq> []" if "encodeTaskContinuation tk = Inr token"
    using task_token(1)[OF that] nonempty by blast
  show "token \<noteq> []" if "encodeInstanceContinuation ik = Inr token"
    using instance_token(1)[OF that] nonempty by blast
  show "length token \<le> 1024" if "encodeTaskContinuation tk = Inr token"
    using that token_length by (auto simp: encodeTaskContinuation_def bindR_Inr_iff maximumContinuationLength_def)
  show "length token \<le> 1024" if "encodeInstanceContinuation ik = Inr token"
    using that token_length by (auto simp: encodeInstanceContinuation_def bindR_Inr_iff maximumContinuationLength_def)
qed (simp_all add: task_token instance_token)

lemma token_example:
  "encodeTaskContinuation \<lparr>tk_at = 1000000000, tk_instanceID = ''i'', tk_taskID = ''t''\<rparr> =
     Inr (rawURLEncode (json_print (structJSON [(''v'', False, JNumber ''1''), (''f'', False, JString ''task''),
       (''a'', False, JString ''0001-01-01T00:00:01Z''), (''i'', False, JString ''i''), (''t'', True, JString ''t'')])))"
  by code_simp

theorem continuation_round_trip_witness:
  "\<exists>token. encodeTaskContinuation \<lparr>tk_at = 1000000000, tk_instanceID = ''i'', tk_taskID = ''t''\<rparr> = Inr token \<and>
     decodeTaskContinuation token = Inr \<lparr>tk_at = 1000000000, tk_instanceID = ''i'', tk_taskID = ''t''\<rparr> \<and>
     decodeInstanceContinuation token = Inl [ErrInvalidProjectionQuery]"
  using continuation_round_trip token_example by (fastforce simp: toValidUTF8_valid)

subsection \<open>Requests that are refused\<close>

definition invalidPage :: "(Continuation \<Rightarrow> 'k result) \<Rightarrow> ContinuationQuery \<Rightarrow> bool" where
  \<comment> \<open>no actor, a limit outside 1 to 200 (0 stands for 50), or a continuation that does not decode\<close>
  "invalidPage decode q \<longleftrightarrow> cq_ActorID q = [] \<or> cr_Limit (cq_Page q) < 0 \<or> 200 < cr_Limit (cq_Page q) \<or>
     cr_After (cq_Page q) \<noteq> [] \<and> (case decode (cr_After (cq_Page q)) of Inl _ \<Rightarrow> True | Inr _ \<Rightarrow> False)"

lemma prepare_refuses:
  assumes "Option.bind p pr_pool = None \<or> actor = [] \<or> limit < 0 \<or> 200 < limit"
  shows "wpE False (\<lambda>_ _. False) (\<lambda>e w'. snd w' = snd w \<and>
      (ctx_obs (fst w) (ctx_pos (fst w)) = None \<longrightarrow> errors_Is e ErrInvalidProjectionQuery))
    (prepareProjectionQuery p actor scope limit) w"
  using assms
  by (auto simp: prepareProjectionQuery_def wp_simps Let_def maximumPageLimit_def defaultPageLimit_def split: option.split)

lemma prepare_accepts:
  "wpE False (\<lambda>_ w'. snd w' = snd w) (\<lambda>e w'. snd w' = snd w \<and>
      (ctx_obs (fst w) (ctx_pos (fst w)) = None \<longrightarrow> errors_Is e ErrInvalidProjectionQuery))
    (prepareProjectionQuery p actor scope limit) w"
  by (auto simp: prepareProjectionQuery_def wp_simps Let_def split: option.split)

lemma invalid_task_query:
  assumes "Option.bind p pr_pool = None \<or> invalidPage decodeTaskContinuation q"
  shows "wpE False (\<lambda>_ _. False) (\<lambda>e w'. snd w' = snd w \<and>
      (ctx_obs (fst w) (ctx_pos (fst w)) = None \<longrightarrow> errors_Is e ErrInvalidProjectionQuery))
    (queryContinuedTaskProjection p q statement relation) w"
proof (cases "Option.bind p pr_pool = None \<or> cq_ActorID q = [] \<or> cr_Limit (cq_Page q) < 0 \<or> 200 < cr_Limit (cq_Page q)")
  case True
  show ?thesis
    unfolding queryContinuedTaskProjection_def prepareContinuedTaskProjectionQuery_def bindE_assoc wpE_bindE[where m = "prepareProjectionQuery _ _ _ _"]
    by (rule wpE_mono[OF prepare_refuses[OF True]]) auto
next
  case False
  then obtain e where e: "cr_After (cq_Page q) \<noteq> []" "decodeTaskContinuation (cr_After (cq_Page q)) = Inl e"
    using assms by (auto simp: invalidPage_def split: sum.splits)
  show ?thesis
    unfolding queryContinuedTaskProjection_def prepareContinuedTaskProjectionQuery_def bindE_assoc wpE_bindE[where m = "prepareProjectionQuery _ _ _ _"]
    by (rule wpE_mono[OF prepare_accepts]) (use e decode_errors(2)[OF e(2)] in \<open>auto simp: wp_simps\<close>)
qed

lemma invalid_instance_query:
  assumes "Option.bind p pr_pool = None \<or> invalidPage decodeInstanceContinuation q"
  shows "wpE False (\<lambda>_ _. False) (\<lambda>e w'. snd w' = snd w \<and>
      (ctx_obs (fst w) (ctx_pos (fst w)) = None \<longrightarrow> errors_Is e ErrInvalidProjectionQuery))
    (InitiatedPage p q) w"
proof (cases "Option.bind p pr_pool = None \<or> cq_ActorID q = [] \<or> cr_Limit (cq_Page q) < 0 \<or> 200 < cr_Limit (cq_Page q)")
  case True
  show ?thesis
    unfolding InitiatedPage_def prepareContinuedInstanceProjectionQuery_def bindE_assoc wpE_bindE[where m = "prepareProjectionQuery _ _ _ _"]
    by (rule wpE_mono[OF prepare_refuses[OF True]]) auto
next
  case False
  then obtain e where e: "cr_After (cq_Page q) \<noteq> []" "decodeInstanceContinuation (cr_After (cq_Page q)) = Inl e"
    using assms by (auto simp: invalidPage_def split: sum.splits)
  show ?thesis
    unfolding InitiatedPage_def prepareContinuedInstanceProjectionQuery_def bindE_assoc wpE_bindE[where m = "prepareProjectionQuery _ _ _ _"]
    by (rule wpE_mono[OF prepare_accepts]) (use e decode_errors(3)[OF e(2)] in \<open>auto simp: wp_simps\<close>)
qed

lemma refused:
  assumes "wpE False (\<lambda>_ _. False) E m w"
  shows "\<exists>e w'. m w = Some (Inl e, w') \<and> E e w'"
proof -
  obtain r w' where m: "m w = Some (r, w')" using assms by (cases "m w") (auto simp: wpE_def)
  then show ?thesis using assms by (cases r) (auto simp: wpE_def)
qed

text \<open>
  C38. An invalid request never reaches the database: a query of a projection without a pool, for no actor,
  with a limit outside 1 to 200 (0 stands for 50), or with a continuation that does not decode in its family,
  returns an error, and the state of the database is untouched, whatever the database would
  have done; unless the context is already done, the error is \<open>ErrInvalidProjectionQuery\<close>.
\<close>

theorem invalid_query_refused:
  fixes p :: "'d Projection option" and w :: "'h env"
  assumes "Option.bind p pr_pool = None \<or> invalidPage decodeTaskContinuation q"
    and "Option.bind p pr_pool = None \<or> invalidPage decodeInstanceContinuation q'"
  shows "(\<exists>e w'. WorklistPage p q (w, d) = Some (Inl e, (w', d)) \<and>
      (ctx_obs w (ctx_pos w) = None \<longrightarrow> errors_Is e ErrInvalidProjectionQuery)) \<and>
    (\<exists>e w'. ParticipatedPage p q (w, d) = Some (Inl e, (w', d)) \<and>
      (ctx_obs w (ctx_pos w) = None \<longrightarrow> errors_Is e ErrInvalidProjectionQuery)) \<and>
    (\<exists>e w'. InitiatedPage p q' (w, d) = Some (Inl e, (w', d)) \<and>
      (ctx_obs w (ctx_pos w) = None \<longrightarrow> errors_Is e ErrInvalidProjectionQuery))"
  using refused[OF invalid_task_query[OF assms(1), of "(w, d)"]] refused[OF invalid_instance_query[OF assms(2), of "(w, d)"]]
  unfolding WorklistPage_def ParticipatedPage_def by fastforce

theorem invalid_query_refused_witness:
  "\<exists>e w'. WorklistPage pgProjection (inboxQuery ''!'') (demoEnv, ref_server emptyStore []) =
     Some (Inl e, (w', ref_server emptyStore [])) \<and> errors_Is e ErrInvalidProjectionQuery"
proof -
  have "invalidPage decodeTaskContinuation (inboxQuery ''!'')" "invalidPage decodeInstanceContinuation (inboxQuery ''!'')"
    by code_simp+
  from invalid_query_refused[of pgProjection, OF disjI2[OF this(1)] disjI2[OF this(2)], of demoEnv "ref_server emptyStore []"]
  show ?thesis by (auto simp: demoEnv_def quietEnv_def)
qed

subsection \<open>The two forms of a query\<close>

definition cursorQuery :: "ContinuationQuery \<Rightarrow> Cursor option \<Rightarrow> ActorQuery" where
  \<comment> \<open>the request with a decoded cursor in place of the continuation\<close>
  "cursorQuery q cursor = \<lparr>aq_ActorID = cq_ActorID q, aq_Scope = cq_Scope q,
     aq_Page = \<lparr>pq_Limit = cr_Limit (cq_Page q), pq_After = cursor\<rparr>\<rparr>"

definition taskCursor :: "taskProjectionKeyset \<Rightarrow> Cursor" where
  "taskCursor ks = \<lparr>cu_At = tk_at ks, cu_InstanceID = tk_instanceID ks, cu_TaskID = tk_taskID ks\<rparr>"

definition instanceCursor :: "instanceProjectionKeyset \<Rightarrow> Cursor" where
  "instanceCursor ks = \<lparr>cu_At = ik_at ks, cu_InstanceID = ik_instanceID ks, cu_TaskID = []\<rparr>"

definition continued :: "(Cursor \<Rightarrow> Continuation result) \<Rightarrow> ('w, 'a Page) eff \<Rightarrow> ('w, 'a ContinuationPage) eff" where
  \<comment> \<open>a page of the legacy form with its cursor made opaque\<close>
  "continued encode m = bindE m (\<lambda>page. case pa_Next page of
       None \<Rightarrow> ret \<lparr>cp_Items = pa_Items page, cp_Next = []\<rparr>
     | Some c \<Rightarrow> bindE (liftR (encode c)) (\<lambda>next. ret \<lparr>cp_Items = pa_Items page, cp_Next = next\<rparr>))"

definition encodeTaskCursor :: "Cursor \<Rightarrow> Continuation result" where
  "encodeTaskCursor c = encodeTaskContinuation \<lparr>tk_at = cu_At c, tk_instanceID = cu_InstanceID c, tk_taskID = cu_TaskID c\<rparr>"

definition encodeInstanceCursor :: "Cursor \<Rightarrow> Continuation result" where
  "encodeInstanceCursor c = encodeInstanceContinuation \<lparr>ik_at = cu_At c, ik_instanceID = cu_InstanceID c\<rparr>"

definition positionOf :: "(Continuation \<Rightarrow> 'k result) \<Rightarrow> Continuation \<Rightarrow> 'k option result" where
  "positionOf decode token = (if token = [] then Inr None else bindR (decode token) (\<lambda>ks. Inr (Some ks)))"

lemma decoded_valid:
  "decodeTaskContinuation token = Inr ks \<Longrightarrow> validateTaskProjectionKeyset ks = Inr ()"
  "decodeInstanceContinuation token = Inr ks' \<Longrightarrow> validateInstanceProjectionKeyset ks' = Inr ()"
  by (auto simp: decodeTaskContinuation_def decodeInstanceContinuation_def bindR_Inr_iff Let_def split: if_splits)

lemma bind_simps [simp]: "bindE (ret x) k = k x" "bindE (raise e) k = raise e" "liftR (Inr x) = ret x"
  by (simp_all add: fun_eq_iff bindE_def ret_def raise_def liftR_def)

lemma bindE_cong_right: "(\<And>x. k x = k' x) \<Longrightarrow> bindE m k = bindE m k'"
  by (rule arg_cong[where f = "bindE m"]) (rule ext)

lemma keyset_eta [simp]:
  "\<lparr>tk_at = tk_at ks, tk_instanceID = tk_instanceID ks, tk_taskID = tk_taskID ks\<rparr> = ks"
  "\<lparr>ik_at = ik_at ks', ik_instanceID = ik_instanceID ks'\<rparr> = ks'"
  by simp_all

lemma continued_page:
  "bindE m (\<lambda>res. case f res of None \<Rightarrow> ret \<lparr>cp_Items = g res, cp_Next = []\<rparr>
     | Some ks \<Rightarrow> bindE (liftR (encode ks)) (\<lambda>next. ret \<lparr>cp_Items = g res, cp_Next = next\<rparr>)) =
   continued encode' (bindE m (\<lambda>res. ret \<lparr>pa_Items = g res, pa_Next = map_option cursor (f res)\<rparr>))"
  if "\<And>ks. encode' (cursor ks) = encode ks"
  by (auto simp: continued_def bindE_assoc that intro!: bindE_cong_right split: option.split)

lemma continued_bind: "continued encode (bindE m k) = bindE m (\<lambda>x. continued encode (k x))"
  by (simp add: continued_def bindE_assoc)

lemma continued_tasks:
  fixes p :: "'d Projection option"
  assumes "positionOf decodeTaskContinuation (cr_After (cq_Page q)) = Inr pos"
  shows "(queryContinuedTaskProjection p q statement relation :: ('h env \<times> 'd, _) eff) =
    continued encodeTaskCursor (queryLegacyTaskProjection p (cursorQuery q (map_option taskCursor pos)) statement relation)"
proof -
  have page: "bindE m (\<lambda>res. case tr_next res of None \<Rightarrow> ret \<lparr>cp_Items = tr_items res, cp_Next = []\<rparr>
      | Some ks \<Rightarrow> bindE (liftR (encodeTaskContinuation ks)) (\<lambda>next. ret \<lparr>cp_Items = tr_items res, cp_Next = next\<rparr>)) =
    continued encodeTaskCursor (bindE m (\<lambda>res. ret \<lparr>pa_Items = tr_items res, pa_Next = map_option taskCursor (tr_next res)\<rparr>))"
    for m :: "('a, taskProjectionResult) eff"
    by (rule continued_page) (simp add: encodeTaskCursor_def taskCursor_def)
  have "(prepareContinuedTaskProjectionQuery p q :: ('h env \<times> 'd, _) eff) = prepareLegacyTaskProjectionQuery p (cursorQuery q (map_option taskCursor pos))"
    using assms
    by (auto simp: prepareContinuedTaskProjectionQuery_def prepareLegacyTaskProjectionQuery_def cursorQuery_def positionOf_def
        bindR_Inr_iff taskCursor_def Let_def decoded_valid split: if_splits)
  then show ?thesis
    unfolding queryContinuedTaskProjection_def queryLegacyTaskProjection_def continued_bind
    by (auto simp: page taskCursor_def[abs_def] continued_bind intro!: bindE_cong_right)
qed

lemma continued_instances:
  fixes p :: "'d Projection option"
  assumes "positionOf decodeInstanceContinuation (cr_After (cq_Page q)) = Inr pos"
  shows "(InitiatedPage p q :: ('h env \<times> 'd, _) eff) =
    continued encodeInstanceCursor (Initiated p (cursorQuery q (map_option instanceCursor pos)))"
proof -
  have page: "bindE m (\<lambda>res. case ir_next res of None \<Rightarrow> ret \<lparr>cp_Items = ir_items res, cp_Next = []\<rparr>
      | Some ks \<Rightarrow> bindE (liftR (encodeInstanceContinuation ks)) (\<lambda>next. ret \<lparr>cp_Items = ir_items res, cp_Next = next\<rparr>)) =
    continued encodeInstanceCursor (bindE m (\<lambda>res. ret \<lparr>pa_Items = ir_items res, pa_Next = map_option instanceCursor (ir_next res)\<rparr>))"
    for m :: "('a, instanceProjectionResult) eff"
    by (rule continued_page) (simp add: encodeInstanceCursor_def instanceCursor_def)
  have "(prepareContinuedInstanceProjectionQuery p q :: ('h env \<times> 'd, _) eff) = prepareLegacyInstanceProjectionQuery p (cursorQuery q (map_option instanceCursor pos))"
    using assms
    by (auto simp: prepareContinuedInstanceProjectionQuery_def prepareLegacyInstanceProjectionQuery_def cursorQuery_def positionOf_def
        bindR_Inr_iff instanceCursor_def Let_def decoded_valid split: if_splits)
  then show ?thesis
    unfolding InitiatedPage_def Initiated_def continued_bind
    by (auto simp: page instanceCursor_def[abs_def] continued_bind intro!: bindE_cong_right)
qed

text \<open>
  C39. Both public forms of a query agree: a page with a continuation is the page of the legacy form for
  the decoded cursor, with its own cursor encoded as the next continuation; for \<open>WorklistPage\<close>,
  \<open>ParticipatedPage\<close> and \<open>InitiatedPage\<close>, in every state, on every answer of the database, errors included.
\<close>

theorem legacy_equals_continued:
  assumes "positionOf decodeTaskContinuation (cr_After (cq_Page q)) = Inr pos"
    and "positionOf decodeInstanceContinuation (cr_After (cq_Page q')) = Inr pos'"
  shows "WorklistPage p q = continued encodeTaskCursor (Worklist p (cursorQuery q (map_option taskCursor pos))) \<and>
    ParticipatedPage p q = continued encodeTaskCursor (Participated p (cursorQuery q (map_option taskCursor pos))) \<and>
    InitiatedPage p' q' = continued encodeInstanceCursor (Initiated p' (cursorQuery q' (map_option instanceCursor pos')))"
  unfolding WorklistPage_def Worklist_def ParticipatedPage_def Participated_def
  by (intro conjI continued_tasks[OF assms(1)] continued_instances[OF assms(2)])

theorem legacy_equals_continued_witness:
  "WorklistPage pgProjection (inboxQuery []) (demoEnv, ref_server emptyStore []) =
     continued encodeTaskCursor (Worklist pgProjection (cursorQuery (inboxQuery []) None)) (demoEnv, ref_server emptyStore [])"
proof -
  have "positionOf decodeTaskContinuation (cr_After (cq_Page (inboxQuery []))) = Inr None"
    "positionOf decodeInstanceContinuation (cr_After (cq_Page (inboxQuery []))) = Inr None"
    by (simp_all add: positionOf_def inboxQuery_def)
  then have "WorklistPage pgProjection (inboxQuery []) =
      (continued encodeTaskCursor (Worklist pgProjection (cursorQuery (inboxQuery []) (map_option taskCursor None))) ::
        (unit env \<times> pgStore server, _) eff)"
    by (rule legacy_equals_continued[THEN conjunct1])
  then show ?thesis by simp
qed

subsection \<open>What a client sees\<close>

interpretation task_keys: keyset_order "taskBefore textLess"
  by (rule task_keyset_order[OF pg_ref.text_order])

interpretation instance_keys: keyset_order "instanceBefore textLess"
  by (rule instance_keyset_order[OF pg_ref.text_order])

lemma inbox_views_run:
  "endsIn (\<lambda>_ d1.
      endsIn (\<lambda>_ d4.
        endsIn (\<lambda>page _. map tp_TaskID (cp_Items page) = [''2''] \<and> cp_Next page = [])
          (ParticipatedPage pgProjection (inboxQuery []) (demoEnv, d4)) \<and>
        endsIn (\<lambda>page _. map ip_InstanceID (cp_Items page) = [''i''] \<and> cp_Next page = [])
          (InitiatedPage pgProjection (inboxQuery []\<lparr>cq_ActorID := ''j''\<rparr>) (demoEnv, d4)))
      (Postgres_Save pgStoreOf (Some (inboxDone, noNil)) 1 (demoEnv, d1)))
    (Postgres_Create pgStoreOf (Some (inboxInstance, noNil)) (demoEnv, ref_server emptyStore []))"
  by code_simp

lemma task_view_pages:
  assumes "pg_database db tabs opened acked text_less" and "readModel T"
    and "servesTasks db tabs text_less statement want"
    and "\<And>k i t m. tableView (pg_facts T) k = Some i \<Longrightarrow> t \<in> set (i_Tasks i) \<Longrightarrow>
      want (cq_ActorID q) (k, storedTimes (projectionOf i), \<lparr>pp_ordinal = m, pp_task_id = t_ID t,
        pp_actor_id = t_Assignee t, pp_node_id = t_NodeID t, pp_task_status = taskStatusText (t_Status t),
        pp_outcome = t_Outcome t\<rparr>) \<longleftrightarrow> wanted i t"
    and "pagedBy (\<lambda>q. queryContinuedTaskProjection (Some (NewProjection (Some db))) q statement relation)
      (\<lambda>w :: 'h env \<times> 'd. tabs (snd w) = T) q pages"
    and "cr_After (cq_Page q) = []"
  shows "set (concat pages) = taskItems (tableView (pg_facts T)) wanted relation (cq_Scope q) \<and>
    sorted_wrt (taskBefore text_less) (map taskItemKey (concat pages)) \<and> distinct (map taskItemKey (concat pages)) \<and>
    (\<forall>p\<in>set (butlast pages). length p = pageLimit (cr_Limit (cq_Page q)))"
proof -
  note request = pg_requests[OF assms(1)]
  have quiet: "(\<lambda>w :: 'h env \<times> 'd. tabs (snd w) = T) = (\<lambda>w. tabs (snd w) = T \<and> quietCtx False (fst w))"
    by (simp add: quietCtx_def)
  have lt: "keyset_order (taskBefore text_less)"
    by (rule task_keyset_order[OF pg_database.text_order[OF assms(1)]])
  from pg_request.task_items[OF request assms(3,2,4) assms(5)[unfolded quiet] assms(6)]
    keyset_order.selects_distinct[OF lt]
  show ?thesis unfolding selects_def by blast
qed

lemma inbox_shows:
  obtains d d' where
    "readModel (pgCommitted d)" "\<exists>pages. pagedBy (WorklistPage pgProjection) (\<lambda>w :: unit env \<times> pgStore server. pgCommitted (snd w) = pgCommitted d)
      (inboxQuery []) pages \<and> map (map tp_TaskID) pages = [[''1''], [''2'']]"
    "readModel (pgCommitted d')" "\<exists>pages. pagedBy (ParticipatedPage pgProjection) (\<lambda>w :: unit env \<times> pgStore server. pgCommitted (snd w) = pgCommitted d')
      (inboxQuery []) pages \<and> map (map tp_TaskID) pages = [[''2'']]"
    "\<exists>pages. pagedBy (InitiatedPage pgProjection) (\<lambda>w :: unit env \<times> pgStore server. pgCommitted (snd w) = pgCommitted d')
      (inboxQuery []\<lparr>cq_ActorID := ''j''\<rparr>) pages \<and> map (map ip_InstanceID) pages = [[''i'']]"
proof -
  have r: "resume (inboxQuery []) token = inboxQuery token" for token
    by (simp add: resume_def inboxQuery_def)
  obtain w1 d1 where
    create: "Postgres_Create pgStoreOf (Some (inboxInstance, noNil)) (demoEnv, ref_server emptyStore []) = Some (Inr (), (w1, d1))"
    and ok: "readModel (pgCommitted d1)"
    by (rule inbox_create)
  have pages: "endsIn (\<lambda>page _. map tp_TaskID (cp_Items page) = [''1''] \<and> cp_Next page \<noteq> [] \<and>
          endsIn (\<lambda>page' _. map tp_TaskID (cp_Items page') = [''2''] \<and> cp_Next page' = [])
            (WorklistPage pgProjection (inboxQuery (cp_Next page)) (demoEnv, d1)))
        (WorklistPage pgProjection (inboxQuery []) (demoEnv, d1))"
    using inbox_pages_run by (simp add: create endsIn_def)
  then obtain p w2 d2 p' w3 d3 where page: "WorklistPage pgProjection (inboxQuery []) (demoEnv, d1) = Some (Inr p, (w2, d2))"
      "WorklistPage pgProjection (inboxQuery (cp_Next p)) (demoEnv, d1) = Some (Inr p', (w3, d3))"
      "map tp_TaskID (cp_Items p) = [''1'']" "cp_Next p \<noteq> []" "map tp_TaskID (cp_Items p') = [''2'']" "cp_Next p' = []"
    unfolding endsIn_iff by (elim exE conjE) (rule that)
  have f: "pagedBy (WorklistPage pgProjection) (\<lambda>w :: unit env \<times> pgStore server. pgCommitted (snd w) = pgCommitted d1) (inboxQuery []) [cp_Items p, cp_Items p']"
    by (rule pagedBy.further[where w = "(demoEnv, d1)" and page = p], simp, rule page(1), rule page(4),
        unfold r, rule pagedBy.final[where w = "(demoEnv, d1)" and page = p'], simp, rule page(2), rule page(6))
  have save: "endsIn (\<lambda>_ d4. 
      endsIn (\<lambda>page _. map tp_TaskID (cp_Items page) = [''2''] \<and> cp_Next page = []) (ParticipatedPage pgProjection (inboxQuery []) (demoEnv, d4)) \<and>
      endsIn (\<lambda>page _. map ip_InstanceID (cp_Items page) = [''i''] \<and> cp_Next page = [])
        (InitiatedPage pgProjection (inboxQuery []\<lparr>cq_ActorID := ''j''\<rparr>) (demoEnv, d4)))
    (Postgres_Save pgStoreOf (Some (inboxDone, noNil)) 1 (demoEnv, d1))"
    using inbox_views_run by (simp add: create endsIn_def)
  then obtain w5 d5 p5 w6 d6 p6 w7 d7 where run: "Postgres_Save pgStoreOf (Some (inboxDone, noNil)) 1 (demoEnv, d1) = Some (Inr (), (w5, d5))"
    and views: "ParticipatedPage pgProjection (inboxQuery []) (demoEnv, d5) = Some (Inr p5, (w6, d6))"
      "map tp_TaskID (cp_Items p5) = [''2'']" "cp_Next p5 = []"
      "InitiatedPage pgProjection (inboxQuery []\<lparr>cq_ActorID := ''j''\<rparr>) (demoEnv, d5) = Some (Inr p6, (w7, d7))"
      "map ip_InstanceID (cp_Items p6) = [''i'']" "cp_Next p6 = []"
    unfolding endsIn_iff by (elim exE conjE) (rule that, simp)
  have "pgCall (refPool True) d1 d5"
    using pgCall.save[OF inbox_facts(2) run[unfolded pgStoreOf_def]] .
  then have ok': "readModel (pgCommitted d5)" by (rule pgCall_readModel[OF pg_ref.pg_database_axioms _ ok])
  have f5: "pagedBy (ParticipatedPage pgProjection) (\<lambda>w :: unit env \<times> pgStore server. pgCommitted (snd w) = pgCommitted d5) (inboxQuery []) [cp_Items p5]"
    by (rule pagedBy.final[where w = "(demoEnv, d5)" and page = p5], simp, rule views(1), rule views(3))
  have f6: "pagedBy (InitiatedPage pgProjection) (\<lambda>w :: unit env \<times> pgStore server. pgCommitted (snd w) = pgCommitted d5) (inboxQuery []\<lparr>cq_ActorID := ''j''\<rparr>) [cp_Items p6]"
    by (rule pagedBy.final[where w = "(demoEnv, d5)" and page = p6], simp, rule views(4), rule views(6))
  show thesis
  proof (rule that[OF ok _ ok'], goal_cases)
    case 1
    show ?case using f page(3,5) by (intro exI[of _ "[cp_Items p, cp_Items p']"]) simp
  next
    case 2
    show ?case using f5 views(2) by (intro exI[of _ "[cp_Items p5]"]) simp
  next
    case 3
    show ?case using f6 views(5) by (intro exI[of _ "[cp_Items p6]"]) simp
  qed
qed

text \<open>
  C36. The worklist is the inbox: a client who follows \<open>WorklistPage\<close> from its first page to the last, while
  the store stays as it is, has seen exactly the active tasks of running instances that are assigned
  to the actor (within the scope of the request, and at a node), each once, newest audit time first, then by
  identity in the collation of the database; every page but the last is full.
\<close>

theorem worklist_is_inbox:
  assumes "pg_database db tabs opened acked text_less" and "readModel T"
    and "pagedBy (WorklistPage (Some (NewProjection (Some db)))) (\<lambda>w :: 'h env \<times> 'd. tabs (snd w) = T) q pages"
    and "cr_After (cq_Page q) = []"
  shows "set (concat pages) = taskItems (tableView (pg_facts T)) (waitsFor (cq_ActorID q)) RelationCandidate (cq_Scope q) \<and>
    sorted_wrt (taskBefore text_less) (map taskItemKey (concat pages)) \<and> distinct (map taskItemKey (concat pages)) \<and>
    (\<forall>p\<in>set (butlast pages). length p = pageLimit (cr_Limit (cq_Page q)))"
proof (rule task_view_pages[OF assms(1,2), where statement = worklistSQL and want = inWorklist])
  show "servesTasks db tabs text_less worklistSQL inWorklist"
    by (rule pg_request.worklist_served[OF pg_requests[OF assms(1)]])
qed (fact waitsFor_rows(1) assms(3)[unfolded WorklistPage_def] assms(4))+

theorem worklist_is_inbox_witness:
  "\<exists>pages d. pagedBy (WorklistPage pgProjection) (\<lambda>w :: unit env \<times> pgStore server. pgCommitted (snd w) = pgCommitted d) (inboxQuery []) pages \<and>
     map (map tp_TaskID) pages = [[''1''], [''2'']] \<and>
     set (concat pages) = taskItems (tableView (pg_facts (pgCommitted d))) (waitsFor ''u'') RelationCandidate \<lparr>sc_InstanceIDs = None\<rparr>"
proof -
  obtain d pages where ok: "readModel (pgCommitted d)" and pages: "pagedBy (WorklistPage pgProjection)
      (\<lambda>w :: unit env \<times> pgStore server. pgCommitted (snd w) = pgCommitted d) (inboxQuery []) pages"
    "map (map tp_TaskID) pages = [[''1''], [''2'']]"
    by (rule inbox_shows) (elim exE conjE, rule that[rotated], assumption, assumption, assumption)
  from worklist_is_inbox[OF pg_ref.pg_database_axioms ok pages(1)[unfolded pgProjection_def]]
  have "set (concat pages) = taskItems (tableView (pg_facts (pgCommitted d))) (waitsFor ''u'') RelationCandidate \<lparr>sc_InstanceIDs = None\<rparr>"
    by (simp add: inboxQuery_def)
  with pages show ?thesis by (intro exI[of _ pages] exI[of _ d] conjI)
qed

text \<open>
  The history is what was handled: following \<open>ParticipatedPage\<close> to the end shows exactly the
  completed and closed tasks assigned to the actor, of instances in any state, each once and in the
  same order.
\<close>

theorem participated_is_history:
  assumes "pg_database db tabs opened acked text_less" and "readModel T"
    and "pagedBy (ParticipatedPage (Some (NewProjection (Some db)))) (\<lambda>w :: 'h env \<times> 'd. tabs (snd w) = T) q pages"
    and "cr_After (cq_Page q) = []"
  shows "set (concat pages) = taskItems (tableView (pg_facts T)) (wasHandledBy (cq_ActorID q)) RelationParticipant (cq_Scope q) \<and>
    sorted_wrt (taskBefore text_less) (map taskItemKey (concat pages)) \<and> distinct (map taskItemKey (concat pages)) \<and>
    (\<forall>p\<in>set (butlast pages). length p = pageLimit (cr_Limit (cq_Page q)))"
proof (rule task_view_pages[OF assms(1,2), where statement = participatedSQL and want = hasParticipated])
  show "servesTasks db tabs text_less participatedSQL hasParticipated"
    by (rule pg_request.participated_served[OF pg_requests[OF assms(1)]])
qed (fact waitsFor_rows(2) assms(3)[unfolded ParticipatedPage_def] assms(4))+

theorem participated_is_history_witness:
  "\<exists>pages d. pagedBy (ParticipatedPage pgProjection) (\<lambda>w :: unit env \<times> pgStore server. pgCommitted (snd w) = pgCommitted d) (inboxQuery []) pages \<and>
     map (map tp_TaskID) pages = [[''2'']] \<and>
     set (concat pages) = taskItems (tableView (pg_facts (pgCommitted d))) (wasHandledBy ''u'') RelationParticipant \<lparr>sc_InstanceIDs = None\<rparr>"
proof -
  obtain d pages where ok: "readModel (pgCommitted d)" and pages: "pagedBy (ParticipatedPage pgProjection)
      (\<lambda>w :: unit env \<times> pgStore server. pgCommitted (snd w) = pgCommitted d) (inboxQuery []) pages"
    "map (map tp_TaskID) pages = [[''2'']]"
    by (rule inbox_shows) (elim exE conjE, rule that[rotated], assumption, assumption, assumption)
  from participated_is_history[OF pg_ref.pg_database_axioms ok pages(1)[unfolded pgProjection_def]]
  have "set (concat pages) = taskItems (tableView (pg_facts (pgCommitted d))) (wasHandledBy ''u'') RelationParticipant \<lparr>sc_InstanceIDs = None\<rparr>"
    by (simp add: inboxQuery_def)
  with pages show ?thesis by (intro exI[of _ pages] exI[of _ d] conjI)
qed

text \<open>
  C37. Following \<open>InitiatedPage\<close> to the end shows exactly the stored instances the actor initiated, each
  once, newest audit time first; every page but the last is full.
\<close>

theorem initiated_is_own:
  assumes "pg_database db tabs opened acked text_less" and "readModel T"
    and "pagedBy (InitiatedPage (Some (NewProjection (Some db)))) (\<lambda>w :: 'h env \<times> 'd. tabs (snd w) = T) q pages"
    and "cr_After (cq_Page q) = []"
  shows "set (concat pages) = instanceItems (tableView (pg_facts T)) (cq_ActorID q) (cq_Scope q) \<and>
    sorted_wrt (instanceBefore text_less) (map instanceItemKey (concat pages)) \<and> distinct (map instanceItemKey (concat pages)) \<and>
    (\<forall>p\<in>set (butlast pages). length p = pageLimit (cr_Limit (cq_Page q)))"
proof -
  note request = pg_requests[OF assms(1)]
  have quiet: "(\<lambda>w :: 'h env \<times> 'd. tabs (snd w) = T) = (\<lambda>w. tabs (snd w) = T \<and> quietCtx False (fst w))"
    by (simp add: quietCtx_def)
  have lt: "keyset_order (instanceBefore text_less)"
    by (rule instance_keyset_order[OF pg_database.text_order[OF assms(1)]])
  from pg_request.instance_items[OF request assms(2) assms(3)[unfolded quiet] assms(4)]
    keyset_order.selects_distinct[OF lt]
  show ?thesis unfolding selects_def by blast
qed

theorem initiated_is_own_witness:
  "\<exists>pages d. pagedBy (InitiatedPage pgProjection) (\<lambda>w :: unit env \<times> pgStore server. pgCommitted (snd w) = pgCommitted d)
       (inboxQuery []\<lparr>cq_ActorID := ''j''\<rparr>) pages \<and> map (map ip_InstanceID) pages = [[''i'']] \<and>
     set (concat pages) = instanceItems (tableView (pg_facts (pgCommitted d))) ''j'' \<lparr>sc_InstanceIDs = None\<rparr>"
proof -
  obtain d pages where ok: "readModel (pgCommitted d)" and pages: "pagedBy (InitiatedPage pgProjection)
      (\<lambda>w :: unit env \<times> pgStore server. pgCommitted (snd w) = pgCommitted d) (inboxQuery []\<lparr>cq_ActorID := ''j''\<rparr>) pages"
    "map (map ip_InstanceID) pages = [[''i'']]"
    by (rule inbox_shows) (elim exE conjE, rule that[rotated], assumption, assumption, assumption)
  from initiated_is_own[OF pg_ref.pg_database_axioms ok pages(1)[unfolded pgProjection_def]]
  have "set (concat pages) = instanceItems (tableView (pg_facts (pgCommitted d))) ''j'' \<lparr>sc_InstanceIDs = None\<rparr>"
    by (simp add: inboxQuery_def)
  with pages show ?thesis by (intro exI[of _ pages] exI[of _ d] conjI)
qed

subsection \<open>A key that the preflight accepts and no page can use\<close>

text \<open>
  \<open>validateProjectionContinuationKeys\<close> encodes the keys with the nanoseconds of the last audit record, but
  the column keeps microseconds: an audit time in the first microsecond of year 1 passes the preflight
  and is stored as the zero time, which no continuation can carry.
\<close>

theorem preflight_misses_rounding:
  "continuable (inboxInstance\<lparr>i_Audit := [emptyAudit\<lparr>a_At := 500\<rparr>]\<rparr>) \<and>
   (let key = instanceKey (''i'', storedTimes (projectionOf (inboxInstance\<lparr>i_Audit := [emptyAudit\<lparr>a_At := 500\<rparr>]\<rparr>))) in
    encodeInstanceContinuation \<lparr>ik_at = fst key, ik_instanceID = snd key\<rparr> = Inl [ErrInvalidProjectionQuery])"
  by code_simp

end
