(* ===== verification/Spec2Isabelle.thy ===== *)
theory Spec2Isabelle
  imports ConditionExamples DefinitionJson JsonText MySQLStore ProjectionStore
begin

text \<open>
  A model of the workflow engine (the Go packages under \<open>src/\<close>) and the theorems that make it
  correct.

  \<^bold>\<open>The program.\<close> A workflow definition is a directed graph of nodes and outcome-labelled edges
  (\<open>definition.go\<close>). The compiler (\<open>compiler.go\<close>) validates the graph and prepares, through a
  registry of node handlers (\<open>handler.go\<close>, \<open>handler_preparation.go\<close>), an executor for each
  business node. The engine (\<open>engine.go\<close>) starts instances of a definition and executes task
  commands, withdrawals, returns and transfers: each operation loads one snapshot from a store,
  computes a candidate on a private copy and saves it by compare-and-swap on its version
  (\<open>store.go\<close>). What a handler answers is a proposal that is validated and applied by
  \<open>node_result_application.go\<close>; the only code that changes an instance is
  \<open>instance_facts.go\<close>. \<open>publication.go\<close> keeps immutable numbered versions of definitions.
  \<open>approval/approval.go\<close> is the built-in handler of human approvals and
  \<open>condition/condition.go\<close> that of data-driven routing; their configuration is
  decoded by the strict JSON decoder \<open>internal/jsonstrict/jsonstrict.go\<close>. Beside the in-memory
  store, \<open>mysql/store.go\<close> and \<open>mysql/codec.go\<close> keep instances in the tables of a MySQL database, and
  \<open>postgres/store.go\<close> and \<open>postgres/codec.go\<close> in those of PostgreSQL. The PostgreSQL adapter also keeps, in the
  same transactions, a read model of instances and task assignments (\<open>postgres/projection_write.go\<close>), which
  \<open>postgres/projection.go\<close>, \<open>projection_query.go\<close>, \<open>projection_task.go\<close> and \<open>projection_instance.go\<close>
  query in pages; a page is continued by an opaque token (\<open>postgres/projection_continuation.go\<close>).

  \<^bold>\<open>The theories\<close>, in the order in which they build on each other:
  \<^item> \<open>Prelude\<close>: error sentinels and chains, the effect type of an operation (not returning, an
    error, or a value, with the next world), its weakest preconditions \<open>wpE\<close>, and the environment
    \<open>'h env\<close> a request observes (context errors by poll, entropy, clock, lock polls, host state).
  \<^item> \<open>Json\<close>: the part of \<open>encoding/json\<close> and \<open>unicode/utf8\<close> that the source uses, from
    bytes to tokens to values.
  \<^item> \<open>JsonStrict\<close> and \<open>JsonText\<close>: \<open>jsonstrict.Validate\<close> and \<open>Decode\<close>; the grammar of texts with paired surrogates.
  \<^item> \<open>Model\<close>: the data of \<open>definition.go\<close>, \<open>runtime.go\<close> and \<open>handler.go\<close>, and the builder.
  \<^item> \<open>Graph\<close>: the queue loops of the compiler and their graph-theoretic meaning.
  \<^item> \<open>Handler\<close>: the registry and the preparation of handlers.
  \<^item> \<open>Compiler\<close> and \<open>CompilerSpec\<close>: \<open>compiler.go\<close>, and what it decides and builds.
  \<^item> \<open>Facts\<close>: \<open>instance_facts.go\<close>; every operation of it lets an instance evolve
    (\<open>evolves\<close>: the audit is extended, decided tasks stay decided).
  \<^item> \<open>NodeResult\<close>: \<open>node_result_application.go\<close>.
  \<^item> \<open>Store\<close>: \<open>MemoryStore\<close>, and the locale \<open>store_contract\<close> of what the engine relies on.
  \<^item> \<open>Engine\<close> and \<open>EngineSpec\<close>: \<open>engine.go\<close>, the abstract meaning of each operation
    (\<open>handled\<close>, \<open>withdrawn\<close>, \<open>returned\<close>, \<open>transferred\<close>, \<open>started\<close>), and the
    proof, over any store that keeps the contract, that the operations implement it.
  \<^item> \<open>Clients\<close>: any number of clients that interleave loads, creations and saves on one store.
  \<^item> \<open>Publication\<close>: the publisher, \<open>MemoryDefinitionStore\<close> and the locale
    \<open>definition_repository\<close>.
  \<^item> \<open>Approval\<close>: the approval handler.
  \<^item> \<open>Condition\<close> and \<open>ConditionSpec\<close>: the condition handler, and the declarative meaning of its
    pointers, fields, expressions and rules.
  \<^item> \<open>Builtin\<close>: what both built-in handlers guarantee to the engine.
  \<^item> \<open>Decimal\<close>, \<open>Marshal\<close> and \<open>TimeText\<close>: the printers of the standard library that row payloads need
    (decimals, \<open>json.Marshal\<close>, base64, RFC 3339 times), each with its round trip.
  \<^item> \<open>RowCodec\<close>: the payloads of tasks, audit records and definitions.
  \<^item> \<open>RawText\<close>: documents built from the texts of their parts, whatever form these have.
  \<^item> \<open>DefinitionJson\<close>: \<open>ParseDefinition\<close> and \<open>PublishJSON\<close>, with the raw text of node configurations.
  \<^item> \<open>Sql\<close>: a database handle as a record of driver calls, the tables of migration 0001 and the locale
    \<open>sql_transactions\<close> of what begin, commit and rollback do, for any driver.
  \<^item> \<open>Snapshot\<close>: what both adapters share: encoded snapshots, the reading of rows, the deferred
    rollback, and the meaning of the tables (\<open>tableEntry\<close>, \<open>created\<close>, \<open>saved\<close>).
  \<^item> \<open>Transactions\<close>: the steps of a transaction over \<open>sql_transactions\<close>, as lemmas of the locale \<open>sql_request\<close>.
  \<^item> \<open>MySQLDatabase\<close>: the statements of the MySQL adapter and the locale \<open>mysql_database\<close> of the documented
    behaviour it relies on.
  \<^item> \<open>MySQL\<close> and \<open>MySQLSpec\<close>: \<open>mysql/codec.go\<close> and \<open>mysql/store.go\<close>, and what each step of a transaction
    does to the tables.
  \<^item> \<open>SqlReference\<close> and \<open>MySQLReference\<close>: an executable server with faults, and the database over it that keeps
    the laws of \<open>mysql_database\<close>.
  \<^item> \<open>MySQLEngine\<close>, \<open>MySQLExamples\<close> and \<open>MySQLStore\<close>: the MySQL store under the contract \<open>store_contract\<close>, runs on the
    reference database, and the properties of the store.
  \<^item> \<open>Continuation\<close>: \<open>postgres/projection_continuation.go\<close> and the keysets of the two query families.
  \<^item> \<open>Pgx\<close>: the PostgreSQL pool, the read model tables of migration 0002, the statements of the adapter, and
    the locale \<open>pg_database\<close> of the documented behaviour it relies on.
  \<^item> \<open>Postgres\<close> and \<open>PostgresSpec\<close>: \<open>postgres/store.go\<close>, \<open>codec.go\<close> and \<open>projection_write.go\<close>, and what they do
    to the tables (\<open>pgCreated\<close>, \<open>pgSaved\<close>); \<open>readModel\<close> says that the projection rows are those of the facts.
  \<^item> \<open>PgReference\<close> and \<open>PostgresEngine\<close>: an executable database that keeps the laws of \<open>pg_database\<close>, and the
    engine over the PostgreSQL store.
  \<^item> \<open>Projection\<close>, \<open>Paging\<close> and \<open>ProjectionSpec\<close>: the queries of \<open>postgres/projection*.go\<close>, keyset paging over any
    strictly ordered set of rows (locale \<open>keyset_order\<close>), and what a page shows.
  \<^item> \<open>Inbox\<close>: the rows of the views in terms of the stored instances.
  \<^item> \<open>PostgresExamples\<close>, \<open>PostgresStore\<close> and \<open>ProjectionStore\<close>: runs on the reference database, and the
    properties of the store, the read model and the queries.
  \<^item> \<open>Examples\<close>, \<open>ConditionExamples\<close>: one concrete workflow and one
    condition node, executed, at which the theorems below are applied.

  \<^bold>\<open>Correspondence.\<close> Definitions have the names of the Go functions, methods and types; a
  receiver prefixes the name where a bare name would be ambiguous (\<open>MemoryStore_Save\<close>), and a
  loop or a closure inside a function has a name of its own (\<open>indexEdgesLoop\<close>,
  \<open>prepareHandle\<close>). Record fields have a short prefix and the source's field name. A nilable
  pointer or interface is an option. An error is the list of the sentinels of its \<open>%w\<close> chain.
  Values are immutable, so the defensive clones of the source are the identity; what the
  clones protect against, a caller writing to memory it shares with the engine, has no
  counterpart in the model.

  \<^bold>\<open>Shape of the statements.\<close> The properties are numbered C1 to C40 in the order of their theories.
  They are, first, about the engine over \<open>MemoryStore\<close>: what each operation commits, that it
  commits one instance or nothing, that no interleaving of clients loses an update or shrinks a
  history, and that navigation returns; then about the compiler (the checks decide the declarative
  notion of a well-formed graph), the proposals of handlers, the stores, publication, approvals,
  strict JSON, task identities and conditions. The properties of the SQL stores and of the queries are in \<open>MySQLStore\<close>,
  \<open>PostgresStore\<close> and \<open>ProjectionStore\<close>: they hold over every database that keeps the laws of
  \<open>mysql_database\<close> or \<open>pg_database\<close>, whichever calls fail; a failed commit is allowed to have happened
  unless the database is \<open>acked\<close>. What a client of the queries sees is stated for a client who
  follows continuations (\<open>pagedBy\<close>) while the stored facts stay the same.

  \<^bold>\<open>Termination and bounds.\<close> Loops over slices are structural recursions. The queue loops of
  the graph checks (\<open>kahn\<close>, \<open>bfs\<close>) are \<open>function\<close>s with a termination proof: the counters that
  are still positive, or the targets not yet visited, decrease. The JSON parser's fuel is twice the
  number of tokens plus two, one unit per value and one per list position; every value parses
  back from its tokens with it. Navigation (\<open>advance\<close>) and the lock wait may not return and are
  \<open>partial_function (option)\<close>; \<open>advance_total\<close> and \<open>lock_wait_ends_iff\<close> say when they do. The batch loop of the SQL inserts
  terminates because a batch is not empty; driver calls may fail to return, and \<open>mysql_operations_return\<close> (in \<open>MySQLStore\<close>) says
  that the store returns if they do. Versions are 64-bit words and
  UTF-16 units 16-bit words, with wrap-around.

  \<^bold>\<open>Not modelled.\<close> The contract test suites (\<open>storetest\<close>, \<open>definitiontest\<close>), the reflection in
  \<open>internal/nilguard\<close>, the migration files (their tables and constraints are those of \<open>Sql\<close>, \<open>Pgx\<close> and
  the reference databases), error message texts, and data races on memory shared with a caller. SQL texts are
  modelled up to white space; what a statement does is a law of the database, not derived from its text.
  The payload functions of \<open>postgres/codec.go\<close> are those of \<open>mysql/codec.go\<close> and share their definitions.
  The collation that orders identities in PostgreSQL is a parameter, a strict total order.
  The laws of the SQL databases describe one session at a time: the tables a transaction reads are those it
  commits to, so interleavings of transactions, lock waits and isolation levels are outside the theorems about the SQL
  stores (those about concurrent clients are over \<open>MemoryStore\<close>). The versions that a \<open>DECIMAL\<close> column holds are
  compared as numbers, which the laws state as equality of the texts the adapter writes. A published definition
  is loaded by a reader that does not touch the store of the instances (\<open>onlyReads\<close>).
\<close>

section \<open>The engine over MemoryStore\<close>

abbreviation overMemoryStore :: "('h, MemoryStore) Engine option \<Rightarrow> bool" where
  "overMemoryStore e \<equiv> Option.bind e e_store = Some MemoryStore_ops"

lemma MemoryStore_storeOps:
  "overMemoryStore e \<Longrightarrow> Option.bind e e_store =
     Some (storeOps (MemoryStore_Create (Some ())) (MemoryStore_Load (Some ())) (MemoryStore_Save (Some ())))"
  by (simp add: storeOps_def MemoryStore_ops_def)

lemmas engine_wps = mem.Start_wp[OF TrueI _ MemoryStore_storeOps] mem.Handle_wp[OF TrueI _ MemoryStore_storeOps]
  mem.Withdraw_wp[OF TrueI _ MemoryStore_storeOps] mem.Return_wp[OF TrueI _ MemoryStore_storeOps]
  mem.Transfer_wp[OF TrueI _ MemoryStore_storeOps] mem.operation_wp[OF TrueI _ MemoryStore_storeOps]

lemmas filed_exactly = filed_storable[where storable = "\<lambda>_. True", OF TrueI]
  committed_filed[where storable = "\<lambda>_. True", OF _ _ _ TrueI]

text \<open>
  C1. An accepted task command replaces exactly one stored running instance. The
  actor owned an active task of the current node; the new snapshot extends the audit by the
  command record and what navigation added, moves along a path of the definition graph,
  keeps history, is settled (waiting on active tasks of its node, or terminal without any)
  and carries the next version.
\<close>

theorem Handle_commits:
  assumes "storeOk m" and "overMemoryStore e" and "Handle e cmd (w, m) = Some (Inr c, (w', m'))"
  shows "committed (handled cmd) m (c_InstanceID cmd) c m'"
  using wpE_InrD[OF engine_wps(2) assms(3)] assms(1,2) by (auto intro: filed_exactly(2) outcome_commits)

theorem Handle_commits_witness:
  "\<exists>w' m'. Handle demoEngine (demoCommand ''ann'') (laterEnv, demoStoreA) = Some (Inr demoAtB, (w', m')) \<and>
     committed (handled (demoCommand ''ann'')) demoStoreA ''i1'' demoAtB m'"
  using demo_handle Handle_commits[OF demo_storeOk(2) demo_engine(1)]
  by (force simp: ranTo_iff demoCommand_def)

text \<open>
  C2. A failed operation of the engine (\<open>Start\<close>, \<open>StartPublished\<close>, \<open>Handle\<close>, \<open>Withdraw\<close>, \<open>Return\<close> or
  \<open>Transfer\<close>), whichever of its steps failed, leaves the store as it was.
\<close>

theorem failed_operation_keeps_store:
  assumes "storeOk m" and "overMemoryStore e" and "op \<in> engineOperations e"
    and "op (w, m) = Some (Inl err, (w', m'))"
  shows "m' = m"
  using wpE_InlD[OF engine_wps(6)[where op = op and w = "(w, m)"] assms(4)] assms(1-3) by simp

theorem failed_operation_keeps_store_witness:
  "\<exists>w' m'. Handle demoEngine (demoCommand ''bob'') (laterEnv, demoStoreA) =
     Some (Inl [ErrInvalidCommand], (w', m')) \<and> m' = demoStoreA"
proof -
  obtain w' m' where run: "Handle demoEngine (demoCommand ''bob'') (laterEnv, demoStoreA) =
      Some (Inl [ErrInvalidCommand], (w', m'))"
    using demo_handle_other by (auto simp: failedWith_iff)
  have "Handle demoEngine (demoCommand ''bob'') \<in> engineOperations demoEngine"
    unfolding engineOperations_def by blast
  from failed_operation_keeps_store[OF demo_storeOk(2) demo_engine(1) this run] run show ?thesis by blast
qed

text \<open>
  C3. A successful operation of the engine changes the store at one key only: it files the
  snapshot it answers, which is settled, and which carries on from the snapshot stored before,
  if there was one (identity, definition, initiator and data unchanged, audit and tasks
  extended, version increased by one without wrapping). The store invariant is preserved.
\<close>

theorem operation_replaces_one:
  assumes "storeOk m" and "overMemoryStore e" and "op \<in> engineOperations e"
    and "op (w, m) = Some (Inr c, (w', m'))"
  shows "replacedOne m c m' \<and> storeOk m'"
proof -
  have "replacedOne m c m'"
    using wpE_InrD[OF engine_wps(6)[where op = op and w = "(w, m)"] assms(4)] assms(1-3)
    by (simp add: filed_exactly(1))
  with storeOk_replaced[OF assms(1) this] show ?thesis by blast
qed

theorem operation_replaces_one_witness:
  "\<exists>w' m'. Withdraw demoEngine demoWithdraw (Some (\<lambda>_ _. ret ())) (laterEnv, demoStoreA) =
     Some (Inr demoWithdrawn, (w', m')) \<and> replacedOne demoStoreA demoWithdrawn m' \<and> storeOk m'"
proof -
  obtain w' m' where run: "Withdraw demoEngine demoWithdraw (Some (\<lambda>_ _. ret ())) (laterEnv, demoStoreA) =
      Some (Inr demoWithdrawn, (w', m'))"
    using demo_withdraw by (auto simp: ranTo_iff)
  have "Withdraw demoEngine demoWithdraw (Some (\<lambda>_ _. ret ())) \<in> engineOperations demoEngine"
    unfolding engineOperations_def by blast
  from operation_replaces_one[OF demo_storeOk(2) demo_engine(1) this run] run show ?thesis by blast
qed

section \<open>Concurrent clients\<close>

text \<open>
  C4. No update is lost: in every interleaving of clients, a save that succeeds finds in the
  store exactly the snapshot its client had loaded, and replaces it by the candidate computed
  from it.
\<close>

theorem no_lost_update:
  assumes "(sysStep registry)\<^sup>*\<^sup>* initSystem (m, p)" and "p client = Some (i, c)"
    and "MemoryStore_Save (Some ()) (Some c) (i_Version i) (w, m) = Some (Inr (), (w', m'))"
  shows "m (i_ID c) = Some i \<and> commits i c \<and> m' = m(i_ID c \<mapsto> c)"
proof -
  have "sysInv (m, p)" by (rule conjunct1[OF sysSteps_inv[OF assms(1) initSystem_inv]])
  from save_replaces[OF this assms(2,3)] show ?thesis .
qed

theorem no_lost_update_witness:
  "\<exists>w'. MemoryStore_Save (Some ()) (Some demoAtB) (i_Version demoAtA) (laterEnv, demoStoreA) =
      Some (Inr (), (w', demoStoreB)) \<and>
    demoStoreA ''i1'' = Some demoAtA \<and> commits demoAtA demoAtB \<and> demoStoreB = demoStoreA(''i1'' \<mapsto> demoAtB)"
proof -
  obtain w' where save: "MemoryStore_Save (Some ()) (Some demoAtB) (i_Version demoAtA) (laterEnv, demoStoreA) =
      Some (Inr (), (w', demoStoreB))"
    using demo_save by blast
  from no_lost_update[OF demo_in_flight[unfolded demoInFlight_def] _ this, of 0] save
  show ?thesis by (simp add: demo_ids)
qed

text \<open>
  C5. In every interleaving of clients the history of an instance only grows: what was
  stored under an identity is still there later, or has been replaced by a successor with a
  larger version that keeps identity, definition, initiator, data, every audit record and
  every decided task. All stored instances stay settled.
\<close>

theorem history_grows:
  assumes "(sysStep registry)\<^sup>*\<^sup>* initSystem (m, p)" and "(sysStep registry)\<^sup>*\<^sup>* (m, p) (m', p')"
  shows "storeGrows m m' \<and> storeOk m'"
proof -
  have "sysInv (m, p)" by (rule conjunct1[OF sysSteps_inv[OF assms(1) initSystem_inv]])
  from sysSteps_inv[OF assms(2) this] show ?thesis by (simp add: sysInv_def)
qed

theorem history_grows_witness:
  "storeGrows demoStoreA demoStoreB \<and> storeOk demoStoreB"
proof -
  obtain w' where "MemoryStore_Save (Some ()) (Some demoAtB) (i_Version demoAtA) (laterEnv, demoStoreA) =
      Some (Inr (), (w', demoStoreB))"
    using demo_save by blast
  from sysStep.save[OF _ this, of "snd demoInFlight" 0 "Some demoRegistry"]
  have "sysStep (Some demoRegistry) (demoStoreA, snd demoInFlight) (demoStoreB, (snd demoInFlight)(0 := None))"
    by (simp add: demoInFlight_def)
  from history_grows[OF _ r_into_rtranclp[of "sysStep (Some demoRegistry)", OF this]] demo_in_flight show ?thesis
    by (simp add: demoInFlight_def)
qed

section \<open>Lifecycle operations\<close>

text \<open>
  C6. A started instance is created only under an identity the store did not hold, only from
  a compilable definition, with exactly the request's identity, initiator and data, version
  1, an audit that begins with the start record, and a position reached from the start node
  along edges of the graph; it is settled.
\<close>

theorem Start_creates:
  assumes "storeOk m" and "overMemoryStore e" and "Start e (Some d) r (w, m) = Some (Inr c, (w', m'))"
  shows "m (sr_ID r) = None \<and> m' = m(sr_ID r \<mapsto> c) \<and> started (Option.bind e e_registry) d r c"
  using wpE_InrD[OF engine_wps(1) assms(3)] assms(1,2) by (auto simp: filed_exactly(1))

theorem Start_creates_witness:
  "\<exists>w' m'. Start demoEngine (Some demoDefinition) demoStart (demoEnv, NewMemoryStore) =
     Some (Inr demoAtA, (w', m')) \<and> m' = NewMemoryStore(''i1'' \<mapsto> demoAtA) \<and>
     started (Some demoRegistry) demoDefinition demoStart demoAtA"
proof -
  obtain w' m' where run: "Start demoEngine (Some demoDefinition) demoStart (demoEnv, NewMemoryStore) =
      Some (Inr demoAtA, (w', m'))"
    using demo_start by (auto simp: ranTo_iff)
  from Start_creates[OF demo_storeOk(1) demo_engine(1) run] run show ?thesis
    by (simp add: demo_engine(2) demoStart_def)
qed

text \<open>
  C7. An accepted withdrawal replaces the stored running instance by the same instance,
  withdrawn: the policy approved it for the actor and the loaded snapshot, every active task
  of any node is closed and no other task changes, one withdrawal record is appended and the version
  increases by one; every other field, position and node state included, is as before.
\<close>

theorem Withdraw_commits:
  assumes "storeOk m" and "overMemoryStore e"
    and "Withdraw e r policy (w, m) = Some (Inr c, (w', m'))"
  shows "\<exists>p. policy = Some p \<and> committed (withdrawn r p) m (wr_InstanceID r) c m'"
  using wpE_InrD[OF engine_wps(3) assms(3)] assms(1,2) by (auto intro: filed_exactly(2) outcome_commits)

theorem Withdraw_commits_witness:
  "\<exists>w' m'. Withdraw demoEngine demoWithdraw (Some (\<lambda>_ _. ret ())) (laterEnv, demoStoreA) =
     Some (Inr demoWithdrawn, (w', m')) \<and>
     committed (withdrawn demoWithdraw (\<lambda>_ _. ret () :: (unit env, unit) eff)) demoStoreA ''i1'' demoWithdrawn m'"
proof -
  obtain w' m' where run: "Withdraw demoEngine demoWithdraw (Some (\<lambda>_ _. ret ())) (laterEnv, demoStoreA) =
      Some (Inr demoWithdrawn, (w', m'))"
    using demo_withdraw by (auto simp: ranTo_iff)
  from Withdraw_commits[OF demo_storeOk(2) demo_engine(1) run] run show ?thesis
    by (simp add: demoWithdraw_def)
qed

text \<open>
  C8. An accepted return moves a waiting instance back to a business node of its definition
  that differs from the current one and was entered before; the policy approved it, the reason
  is not blank, the audit gains the return record and the entry of the target (node state of
  the abandoned node included), and the instance waits on active tasks of the target only.
\<close>

theorem Return_commits:
  assumes "storeOk m" and "overMemoryStore e"
    and "Return e r policy (w, m) = Some (Inr c, (w', m'))"
  shows "\<exists>p. policy = Some p \<and> \<not> isBlank (rr_Reason r) \<and>
    committed (returned r p) m (rr_InstanceID r) c m'"
  using wpE_InrD[OF engine_wps(4) assms(3)] assms(1,2) by (auto intro: filed_exactly(2) outcome_commits)

theorem Return_commits_witness:
  "\<exists>w' m'. Return demoEngine demoReturn (Some (\<lambda>_ _. ret ())) (latestEnv, demoStoreB) =
     Some (Inr demoReturned, (w', m')) \<and>
     committed (returned demoReturn (\<lambda>_ _. ret () :: (unit env, unit) eff)) demoStoreB ''i1'' demoReturned m'"
proof -
  obtain w' m' where run: "Return demoEngine demoReturn (Some (\<lambda>_ _. ret ())) (latestEnv, demoStoreB) =
      Some (Inr demoReturned, (w', m'))"
    using demo_return by (auto simp: ranTo_iff)
  from Return_commits[OF demo_storeOk(3) demo_engine(1) run] run show ?thesis
    by (simp add: demoReturn_def)
qed

text \<open>
  C9. An accepted transfer closes the first task with the requested identity, which was an
  active task of the current node, and appends one active successor with the new assignee on
  the same node; every other task is untouched, one transfer record naming both assignees is appended
  and the version increases by one. Every other field is as before.
\<close>

theorem Transfer_commits:
  assumes "storeOk m" and "overMemoryStore e"
    and "Transfer e r policy (w, m) = Some (Inr c, (w', m'))"
  shows "\<exists>p. policy = Some p \<and> \<not> isBlank (tr_Reason r) \<and>
    committed (transferred r p) m (tr_InstanceID r) c m'"
  using wpE_InrD[OF engine_wps(5) assms(3)] assms(1,2) by (auto intro: filed_exactly(2) outcome_commits)

theorem Transfer_commits_witness:
  "\<exists>w' m'. Transfer demoEngine demoTransfer (Some (\<lambda>_ _ _. ret ())) (laterEnv, demoStoreA) =
     Some (Inr demoTransferred, (w', m')) \<and>
     committed (transferred demoTransfer (\<lambda>_ _ _. ret () :: (unit env, unit) eff)) demoStoreA ''i1'' demoTransferred m'"
proof -
  obtain w' m' where run: "Transfer demoEngine demoTransfer (Some (\<lambda>_ _ _. ret ())) (laterEnv, demoStoreA) =
      Some (Inr demoTransferred, (w', m'))"
    using demo_transfer by (auto simp: ranTo_iff)
  from Transfer_commits[OF demo_storeOk(2) demo_engine(1) run] run show ?thesis
    by (simp add: demoTransfer_def)
qed

section \<open>Navigation\<close>

text \<open>
  C10. On a compiled plan whose executors return, navigation returns from every running
  instance without active tasks. When it succeeds, the nodes it entered are a path of the
  definition graph from the old to the new position, and the instance is settled.
\<close>

theorem advance_total:
  assumes "compileDefinition (Some d) registry = Inr plan" and "handlersReturnFor registry d"
    and "routed f"
  shows "\<exists>r w'. advance plan outcome f w = Some (r, w') \<and> (\<forall>f'. r = Inr f' \<longrightarrow> advanced plan f f')"
proof -
  have "handlersReturn plan"
    using assms(1,2) unfolding handlersReturnFor_def handlersReturn_def by blast
  then have wp: "wpE False (\<lambda>f' w'. advanced plan f f') (\<lambda>_ _. True) (advance plan outcome f) w"
    using advance_wp[OF compile_planWf(1)[OF assms(1)] assms(3)] by simp
  from wpE_returns[OF this] wpE_InrD[OF wp] show ?thesis by blast
qed

theorem advance_total_witness:
  "\<exists>plan r w'. compileDefinition (Some demoDefinition) (Some demoRegistry) = Inr plan \<and>
     advance plan [] (demoAtA\<lparr>i_CurrentNodeID := ''s'', i_Tasks := []\<rparr>) demoEnv = Some (r, w') \<and>
     (\<forall>f'. r = Inr f' \<longrightarrow> advanced plan (demoAtA\<lparr>i_CurrentNodeID := ''s'', i_Tasks := []\<rparr>) f')"
proof -
  obtain plan where plan: "compileDefinition (Some demoDefinition) (Some demoRegistry) = Inr plan"
    using demo_compiles by (auto simp: isOk_iff)
  have "routed (demoAtA\<lparr>i_CurrentNodeID := ''s'', i_Tasks := []\<rparr>)"
    by (simp add: routed_def quiet_def demoAtA_def)
  from advance_total[OF plan demo_returns this] plan show ?thesis by blast
qed

section \<open>Definitions and compilation\<close>

text \<open>
  C11. \<open>Definition.Validate\<close> accepts exactly the well-formed graphs: non-empty identities and
  kinds, unique node identities, one start node, some end node, edges between existing nodes
  that do not leave an end node, one edge per node and outcome, no cycle, every node
  reachable from the start, and from every node some end reachable. Every refusal is
  an \<open>ErrInvalidDefinition\<close>.
\<close>

theorem Validate_decides_wfGraph:
  "(Definition_Validate d = Inr () \<longleftrightarrow> wfGraph d) \<and>
   (\<forall>e. Definition_Validate d = Inl e \<longrightarrow> errors_Is e ErrInvalidDefinition)"
  by (auto simp: Definition_Validate_def bindR_Inr_iff bindR_Inl_iff analyzeDefinition_Inr_iff
      dest: analyzeDefinition_error)

theorem Validate_decides_wfGraph_witness:
  "wfGraph demoDefinition \<and> Definition_Validate demoDefinition = Inr ()"
proof -
  have "Definition_Validate demoDefinition = Inr ()" by code_simp
  then show ?thesis using Validate_decides_wfGraph[of demoDefinition] by simp
qed

text \<open>
  C12. Compilation succeeds exactly when the graph is well formed, every node configuration
  is empty or valid JSON, the start node has one edge with the empty outcome, and every
  business node's kind is registered with a handler that accepts its configuration. Every
  refusal is an \<open>ErrInvalidDefinition\<close>.
\<close>

theorem Compile_decides_compilable:
  "(CompileDefinition (Some d) registry = Inr () \<longleftrightarrow> compilable registry d) \<and>
   (\<forall>e. CompileDefinition definition registry = Inl e \<longrightarrow> errors_Is e ErrInvalidDefinition)"
  using compileDefinition_total[of d registry]
  by (auto simp: CompileDefinition_def bindR_Inr_iff bindR_Inl_iff dest: compileDefinition_error)

theorem Compile_decides_compilable_witness:
  "compilable (Some demoRegistry) demoDefinition \<and>
   errors_Is [ErrInvalidDefinition] ErrInvalidDefinition \<and>
   CompileDefinition None (Some demoRegistry) = Inl [ErrInvalidDefinition]"
proof -
  have ok: "CompileDefinition (Some demoDefinition) (Some demoRegistry) = Inr ()" by code_simp
  have none: "CompileDefinition None (Some demoRegistry) = Inl [ErrInvalidDefinition]"
    by (simp add: CompileDefinition_def compileDefinition_def analyzeDefinition_def)
  show ?thesis
    using Compile_decides_compilable[of demoDefinition "Some demoRegistry" None] ok none by blast
qed

text \<open>
  C13. A compiled plan is faithful to its definition: it finds exactly the nodes of the
  definition, routes exactly along its edges, starts at the start node and executes every
  business node with the executor that its registered handler prepared from its configuration.
\<close>

theorem compiled_plan_faithful:
  assumes "compileDefinition (Some d) registry = Inr p"
  shows "(\<forall>k n. plan_node p k = Inr n \<longleftrightarrow> n \<in> set (d_Nodes d) \<and> nd_ID n = k) \<and>
    (\<forall>k outcome n. plan_nextNode p k outcome = Inr n \<longleftrightarrow> n \<in> set (d_Nodes d) \<and>
       (\<exists>e\<in>set (d_Edges d). e_From e = k \<and> e_Outcome e = outcome \<and> e_To e = nd_ID n)) \<and>
    (\<exists>n. plan_startNode p = Inr n \<and> n \<in> set (d_Nodes d) \<and> nd_Kind n = KindStart) \<and>
    (\<forall>n\<in>set (d_Nodes d). business n \<longrightarrow>
       (\<exists>h. plan_preparedHandler p (nd_ID n) = Inr h \<and> nodeExecutor registry n = Inr h))"
proof -
  note wf = compile_planWf[OF assms]
  note node = plan_node_iff[OF wf(1), unfolded wf(2)]
  obtain n where n: "plan_startNode p = Inr n" "nd_Kind n = KindStart"
    using plan_startNode_ok[OF wf(1)] by blast
  then have "n \<in> set (d_Nodes d)" using node by (simp add: plan_startNode_def)
  moreover have "\<exists>h. plan_preparedHandler p (nd_ID n) = Inr h \<and> nodeExecutor registry n = Inr h"
    if "n \<in> set (d_Nodes d)" "business n" for n
    using plan_preparedHandler_business[OF wf(1)] node that by blast
  ultimately show ?thesis using node plan_nextNode_iff[OF wf(1), unfolded wf(2)] n by blast
qed

theorem compiled_plan_faithful_witness:
  "\<exists>p. compileDefinition (Some demoDefinition) (Some demoRegistry) = Inr p \<and>
     plan_nextNode p ''a'' OutcomeApproved = Inr \<lparr>nd_ID = ''b'', nd_Kind = approvalKind, nd_Config = Some demoConfig\<rparr>"
proof -
  obtain p where p: "compileDefinition (Some demoDefinition) (Some demoRegistry) = Inr p"
    using demo_compiles by (auto simp: isOk_iff)
  show ?thesis using compiled_plan_faithful[OF p] p by (auto simp: demoDefinition_def)
qed

text \<open>
  The verdict of the counting scan for cycles is independent of the order in which a Go
  map is iterated: whatever order the counters are visited in, an indexed graph is
  accepted exactly when its edges form no cycle.
\<close>

theorem acyclic_check_order_independent:
  assumes "wfNodes d" and "wfEdges d" and "distinct order" and "set order = set (nodeIDs d)"
  shows "validateAcyclicIn order (indexed d) = Inr () \<longleftrightarrow> acyclic (edgeRel d)"
  by (rule validateAcyclicIn_iff[OF assms])

theorem acyclic_check_order_independent_witness:
  "validateAcyclicIn [''e'', ''b'', ''s'', ''a''] (indexed demoDefinition) = Inr () \<longleftrightarrow>
   acyclic (edgeRel demoDefinition)"
proof (rule acyclic_check_order_independent)
  show "wfNodes demoDefinition" "wfEdges demoDefinition" "distinct [''e'', ''b'', ''s'', ''a'']"
    "set [''e'', ''b'', ''s'', ''a''] = set (nodeIDs demoDefinition)"
    by code_simp+
qed

section \<open>Handler results\<close>

text \<open>
  C14. A proposed task view of a command is accepted exactly when every proposal has an
  identity and the current node, the node's stored tasks have distinct identities, exactly those
  identities are proposed, and each stored task takes a legal step to the last proposal
  with its identity: unchanged, or, from active, completed with an outcome or closed.
\<close>

theorem task_view_accepted_iff:
  "isOk (prepareNodeTaskReplacements (Some f) nodeID us) \<longleftrightarrow>
     (\<forall>u\<in>set us. t_ID u \<noteq> [] \<and> t_NodeID u = nodeID) \<and>
     distinct (map t_ID (nodeTasks (i_Tasks f) nodeID)) \<and>
     t_ID ` set us = t_ID ` set (nodeTasks (i_Tasks f) nodeID) \<and>
     (\<forall>t\<in>set (nodeTasks (i_Tasks f) nodeID). forwardStep t (the (lastByID us (t_ID t))))"
  by (rule replacements_ok_iff)

theorem task_view_accepted_iff_witness:
  "isOk (prepareNodeTaskReplacements (Some demoAtA) ''a''
     [demoTask 0 ''a'' ''ann'' TaskStatusCompleted OutcomeApproved]) \<and>
   forwardStep (demoTask 0 ''a'' ''ann'' TaskStatusActive [])
     (demoTask 0 ''a'' ''ann'' TaskStatusCompleted OutcomeApproved)"
proof -
  let ?u = "demoTask 0 ''a'' ''ann'' TaskStatusCompleted OutcomeApproved"
  have ok: "isOk (prepareNodeTaskReplacements (Some demoAtA) ''a'' [?u])" by code_simp
  with task_view_accepted_iff[of demoAtA "''a''" "[?u]"] show ?thesis
    by (simp add: demoAtA_def nodeTasks_def demoTask_def)
qed

text \<open>
  C15. Applying an accepted command proposal rewrites exactly the tasks of its node, each by a
  legal step, to what was proposed; tasks of other nodes are untouched, and some task of the
  node stays active exactly when the handler keeps waiting.
\<close>

theorem command_proposal_applied:
  assumes "prepareCommandNodeResult (Some f) nodeID res = Inr a"
  shows "\<exists>ts. applyNodeTaskReplacements (ra_replacements a) f = f\<lparr>i_Tasks := ts\<rparr> \<and>
    tasksStep nodeID (i_Tasks f) ts \<and>
    nodeTasks ts nodeID = map (\<lambda>t. the (lastByID (nr_Tasks res) (t_ID t))) (nodeTasks (i_Tasks f) nodeID) \<and>
    (nr_Disposition res = DispositionWaiting \<longleftrightarrow> (\<exists>t\<in>set (nodeTasks ts nodeID). active t))"
proof -
  obtain rs where rs: "prepareNodeTaskReplacements (Some f) nodeID (nr_Tasks res) = Inr rs"
    "nr_Disposition res = DispositionWaiting \<longleftrightarrow> (\<exists>t\<in>set (map snd rs). active t)" "ra_replacements a = rs"
    using assms unfolding prepareCommand_iff by (elim conjE exE, intro that) (assumption | simp)+
  obtain ts where "applyNodeTaskReplacements rs f = f\<lparr>i_Tasks := ts\<rparr>" "tasksStep nodeID (i_Tasks f) ts"
    "map snd rs = nodeTasks ts nodeID"
    using replacements_apply[OF rs(1)] by (auto simp: nodeTasks_def)
  then show ?thesis using rs(2,3) replacements_view(3)[OF rs(1)] by auto
qed

theorem command_proposal_applied_witness:
  "\<exists>a ts. prepareCommandNodeResult (Some demoAtA) ''a''
      \<lparr>nr_Disposition = DispositionContinue, nr_Outcome = OutcomeApproved, nr_State = None,
       nr_Tasks = [demoTask 0 ''a'' ''ann'' TaskStatusCompleted OutcomeApproved]\<rparr> = Inr a \<and>
    applyNodeTaskReplacements (ra_replacements a) demoAtA = demoAtA\<lparr>i_Tasks := ts\<rparr> \<and>
    tasksStep ''a'' (i_Tasks demoAtA) ts"
proof -
  let ?res = "\<lparr>nr_Disposition = DispositionContinue, nr_Outcome = OutcomeApproved, nr_State = None,
       nr_Tasks = [demoTask 0 ''a'' ''ann'' TaskStatusCompleted OutcomeApproved]\<rparr>"
  have "isOk (prepareCommandNodeResult (Some demoAtA) ''a'' ?res)" by code_simp
  then obtain a where a: "prepareCommandNodeResult (Some demoAtA) ''a'' ?res = Inr a" by (auto simp: isOk_iff)
  from command_proposal_applied[OF a] a show ?thesis by blast
qed

text \<open>
  C16. Activation accepts exactly the proposals with a node identity, empty or valid state, a
  known disposition, no outcome while waiting, and drafts (no identity, an assignee, active,
  no outcome) that are present exactly when the node waits; a return accepts exactly
  those of them that wait. Every refusal is the node-result error of its stage.
\<close>

theorem drafts_accepted_iff:
  "(isOk (prepareActivationNodeResult nodeID res) \<longleftrightarrow> nodeID \<noteq> [] \<and> acceptable res \<and>
      (\<forall>t\<in>set (nr_Tasks res). draftOk t) \<and> (nr_Tasks res \<noteq> [] \<longleftrightarrow> nr_Disposition res = DispositionWaiting)) \<and>
   (isOk (prepareReturnNodeResult nodeID res) \<longleftrightarrow>
      isOk (prepareActivationNodeResult nodeID res) \<and> nr_Disposition res = DispositionWaiting) \<and>
   (\<forall>stage e. prepareNodeResultApplication stage f nodeID res = Inl e \<longrightarrow> e = invalidNodeResult stage)"
  by (auto simp: isOk_iff prepareActivation_iff prepareReturn_iff dest: prepare_error)

theorem drafts_accepted_iff_witness:
  "isOk (prepareActivationNodeResult ''a'' \<lparr>nr_Disposition = DispositionWaiting, nr_Outcome = [],
     nr_State = None, nr_Tasks = [draftFor ''ann'']\<rparr>) \<and> draftOk (draftFor ''ann'')"
proof -
  let ?res = "\<lparr>nr_Disposition = DispositionWaiting, nr_Outcome = [], nr_State = None,
    nr_Tasks = [draftFor ''ann'']\<rparr>"
  have "isOk (prepareActivationNodeResult ''a'' ?res)" by code_simp
  with drafts_accepted_iff[of "''a''" ?res None] show ?thesis by simp
qed

section \<open>Stores\<close>

text \<open>
  C17. The exact answers of \<open>MemoryStore\<close> to a request that is never cancelled and
  eventually gets the lock: creation is insert-only, load is exact, save is a
  compare-and-swap on the version that refuses to rewrite the stored audit, and every
  operation returns.
\<close>

theorem MemoryStore_answers:
  assumes "uncancelled e"
  shows "(\<exists>e'. MemoryStore_Create (Some ()) (Some i) (e, m) = Some
      (if i_ID i = [] then (Inl [ErrInvalidStoreInput], (e', m))
       else if m (i_ID i) \<noteq> None then (Inl [ErrInstanceExists], (e', m))
       else (Inr (), (e', m(i_ID i \<mapsto> i))))) \<and>
    (\<exists>e'. MemoryStore_Load (Some ()) k (e, m) = Some
      (case m k of None \<Rightarrow> Inl [ErrInstanceNotFound] | Some i \<Rightarrow> Inr i, (e', m))) \<and>
    (\<exists>e'. MemoryStore_Save (Some ()) (Some i) v (e, m) = Some
      (case m (i_ID i) of
         None \<Rightarrow> (Inl [ErrInstanceNotFound], (e', m))
       | Some old \<Rightarrow>
           if i_Version old \<noteq> v then (Inl [ErrVersionConflict], (e', m))
           else if \<not> (\<exists>suffix. i_Audit i = i_Audit old @ suffix) then (Inl [ErrInvalidStoreInput], (e', m))
           else (Inr (), (e', m(i_ID i \<mapsto> i)))))"
  using store_uncancelled[OF assms] unfolding auditKept_iff by blast

theorem MemoryStore_answers_witness:
  "\<exists>e'. MemoryStore_Save (Some ()) (Some demoAtB) 7 (demoEnv, demoStoreA) =
     Some (Inl [ErrVersionConflict], (e', demoStoreA))"
proof -
  have v: "i_Version demoAtA \<noteq> 7" by (simp add: demo_ids)
  have m: "demoStoreA (i_ID demoAtB) = Some demoAtA" by (simp add: demo_ids demoStoreA_def)
  show ?thesis
    using MemoryStore_answers[OF demo_uncancelled(1), where i = demoAtB and m = demoStoreA and v = 7 and k = "[]"]
    unfolding m using v by auto
qed

text \<open>
  Waiting for the lock ends exactly when at some poll the context reports an error or the
  lock is free.
\<close>

theorem lock_wait_ends_iff:
  "(\<exists>r. acquireMemoryStoreLock w = Some r) \<longleftrightarrow>
     (\<exists>k. ctx_obs w (ctx_pos w + k) \<noteq> None \<or> try_lock w (lock_pos w + k))"
  by (rule acquire_returns_iff)

theorem lock_wait_ends_iff_witness:
  "(\<exists>r. acquireMemoryStoreLock (demoEnv\<lparr>try_lock := \<lambda>k. k = 2\<rparr>) = Some r) \<and>
   (\<nexists>r. acquireMemoryStoreLock (demoEnv\<lparr>try_lock := \<lambda>k. False\<rparr>) = Some r)"
  using lock_wait_ends_iff[of "demoEnv\<lparr>try_lock := \<lambda>k. k = 2\<rparr>"]
    lock_wait_ends_iff[of "demoEnv\<lparr>try_lock := \<lambda>k. False\<rparr>"]
  by (simp add: demoEnv_def quietEnv_def)

text \<open>
  After a save, a second writer that still holds the version of an older snapshot is
  refused, whatever it wants to write.
\<close>

theorem stale_writer_refused:
  fixes w w2 :: "'h env"
  assumes "MemoryStore_Save (Some ()) (Some i) v (w, m) = Some (Inr (), (w1, m1))"
    and "i_Version i \<noteq> v" and "i_ID j = i_ID i"
  shows "MemoryStore_Save (Some ()) (Some j) v (w2, m1) \<noteq> Some (Inr u, w3)"
  using mem.stale_save_rejected[OF TrueI assms(1) TrueI assms(2), where ?w2.0 = "(w2, m1)" and j = j] assms(3)
  by simp

theorem stale_writer_refused_witness:
  "\<nexists>w3. MemoryStore_Save (Some ()) (Some demoAtB) (i_Version demoAtA) (laterEnv, demoStoreB) = Some (Inr (), w3)"
proof -
  obtain w' where "MemoryStore_Save (Some ()) (Some demoAtB) (i_Version demoAtA) (laterEnv, demoStoreA) =
      Some (Inr (), (w', demoStoreB))"
    using demo_save by blast
  from stale_writer_refused[OF this, of demoAtB laterEnv] show ?thesis by (auto simp: demo_ids)
qed

section \<open>Publication\<close>

abbreviation overMemoryDefinitions ::
  "('h, MemoryDefinitionStore) DefinitionPublisher option \<Rightarrow> bool" where
  "overMemoryDefinitions p \<equiv>
     Option.bind p dp_writer = Some (MemoryDefinitionStore_CreateVersion (Some ()))"

text \<open>
  C18. A published definition compiled, is the submitted one up to its version, and got a
  version greater than every version stored under its identity; the other versions and
  identities are untouched. A failed publication changes nothing.
\<close>

theorem Publish_assigns_next_version:
  assumes "defsRoom m" and "overMemoryDefinitions p" and "Publish p (Some d) (w, m) = Some (r, (w', m'))"
  shows "case r of
     Inl _ \<Rightarrow> versionsOf m' = versionsOf m
   | Inr q \<Rightarrow> \<exists>registry v. Option.bind p dp_registry = Some registry \<and> compilable (Some registry) d \<and>
       q = Some (d\<lparr>d_Version := v\<rparr>) \<and> v \<noteq> 0 \<and> (\<forall>u. versionsOf m (d_ID d) u \<noteq> None \<longrightarrow> u < v) \<and>
       versionsOf m' = (versionsOf m)(d_ID d := (versionsOf m (d_ID d))(v \<mapsto> d\<lparr>d_Version := v\<rparr>))"
proof -
  have room: "defsRoom (snd (w, m))" using assms(1) by simp
  note wp = memdefs.publish_wp[where d = d and w = "(w, m)", OF room assms(2)]
  show ?thesis
    using wpE_InrD[OF wp] wpE_InlD[OF wp] assms(3) by (auto split: sum.split)
qed

theorem Publish_assigns_next_version_witness:
  "\<exists>w' m'. Publish demoPublisher (Some demoDefinition) (demoEnv, NewMemoryDefinitionStore) =
      Some (Inr (Some demoDefinition), (w', m')) \<and>
    versionsOf m' ''leave'' 1 = Some demoDefinition"
proof -
  obtain w' m' where run: "Publish demoPublisher (Some demoDefinition) (demoEnv, NewMemoryDefinitionStore) =
      Some (Inr (Some demoDefinition), (w', m'))"
    using demo_publish by (auto simp: ranTo_iff)
  have "overMemoryDefinitions demoPublisher" by (simp add: demoPublisher_def NewDefinitionPublisher_def)
  from Publish_assigns_next_version[OF demo_room(1) this run] obtain v where
    v: "demoDefinition = demoDefinition\<lparr>d_Version := v\<rparr>"
      "versionsOf m' = (versionsOf NewMemoryDefinitionStore)(d_ID demoDefinition :=
         (versionsOf NewMemoryDefinitionStore (d_ID demoDefinition))(v \<mapsto> demoDefinition\<lparr>d_Version := v\<rparr>))"
    by auto
  have "v = d_Version demoDefinition" using v(1) by (metis Definition.select_convs(2) Definition.surjective Definition.update_convs(2))
  then have "versionsOf m' ''leave'' 1 = Some demoDefinition" using v by (simp add: demoDefinition_def)
  with run show ?thesis by blast
qed

text \<open>
  C19. A published version never changes: no call of the store's writer, successful or not,
  alters or removes a stored version.
\<close>

theorem published_versions_immutable:
  assumes "defsRoom m" and "versionsOf m k v = Some x"
    and "MemoryDefinitionStore_CreateVersion (Some ()) (Some d) (w, m) = Some (r, (w', m'))"
  shows "versionsOf m' k v = Some x"
  using memdefs.create_immutable[OF assms(3)] assms(1,2) by simp

theorem published_versions_immutable_witness:
  "\<exists>r w' m'. MemoryDefinitionStore_CreateVersion (Some ()) (Some demoDefinition) (demoEnv, demoPublished) =
      Some (r, (w', m')) \<and> versionsOf m' ''leave'' 1 = Some demoDefinition"
proof -
  have "\<exists>r w' m'. MemoryDefinitionStore_CreateVersion (Some ()) (Some demoDefinition) (demoEnv, demoPublished) =
      Some (r, (w', m'))"
    by (auto simp: MemoryDefinitionStore_CreateVersion_def bindE_def onFst_def ctxErr_uncancelled
        demo_uncancelled getSnd_def putSnd_def ret_def raise_def Let_def)
  then obtain r w' m' where run: "MemoryDefinitionStore_CreateVersion (Some ()) (Some demoDefinition) (demoEnv, demoPublished) =
      Some (r, (w', m'))" by blast
  have "versionsOf demoPublished ''leave'' 1 = Some demoDefinition"
    by (simp add: versionsOf_def demoPublished_def)
  from published_versions_immutable[OF demo_room(2) this run] run show ?thesis by blast
qed

text \<open>
  An exact load answers precisely the version asked for, never another one, and the latest
  load answers the greatest stored version.
\<close>

theorem loads_are_exact:
  assumes "defsRoom m"
  shows "(MemoryDefinitionStore_Load (Some ()) k v (w, m) = Some (Inr p, (w', m')) \<longrightarrow>
      p \<noteq> None \<and> versionsOf m k v = p \<and> versionsOf m' = versionsOf m) \<and>
    (MemoryDefinitionStore_LoadLatest (Some ()) k (w, m) = Some (Inr p, (w', m')) \<longrightarrow>
      (\<exists>u. p \<noteq> None \<and> versionsOf m k u = p \<and> (\<forall>u'. versionsOf m k u' \<noteq> None \<longrightarrow> u' \<le> u)) \<and>
      versionsOf m' = versionsOf m)"
proof -
  have room: "defsRoom (snd (w, m))" using assms by simp
  note wps = memdefs.load_law[where k = k and v = v and w = "(w, m)", OF room]
    memdefs.latest_law[where k = k and w = "(w, m)", OF room]
  show ?thesis using wpE_InrD[OF wps(1)] wpE_InrD[OF wps(2)] by auto
qed

theorem loads_are_exact_witness:
  "\<exists>w' m'. MemoryDefinitionStore_Load (Some ()) ''leave'' 1 (demoEnv, demoPublished) =
     Some (Inr (Some demoDefinition), (w', m')) \<and> versionsOf demoPublished ''leave'' 1 = Some demoDefinition"
proof -
  obtain w' m' where run: "MemoryDefinitionStore_Load (Some ()) ''leave'' 1 (demoEnv, demoPublished) =
      Some (Inr (Some demoDefinition), (w', m'))"
    using demo_load by (auto simp: ranTo_iff)
  with loads_are_exact[OF demo_room(2), of "''leave''" 1 demoEnv "Some demoDefinition" w' m'] show ?thesis by simp
qed

section \<open>The approval node\<close>

text \<open>
  C21. An approval configuration is accepted exactly when strict decoding against the closed
  schema yields it, its mode is any or all, its rejected outcome is empty or
  \<open>rejected\<close>, and it names either a non-empty list of distinct non-empty assignees or a
  policy with a role, not both. Every refusal is an \<open>ErrInvalidConfig\<close>.
\<close>

theorem approval_config_accepted_iff:
  "(parseConfig data = Inr c \<longleftrightarrow>
      Decode (raw_bytes data) ConfigType decodeConfig = Inr c \<and> configOk c) \<and>
   (\<forall>e. parseConfig data = Inl e \<longrightarrow> errors_Is e ApprovalErrInvalidConfig)"
  by (auto dest: parseConfig_ok parseConfig_error)
    (auto simp: parseConfig_def bindR_Inr_iff configOk_def validateAssignees_iff
      split: if_splits option.splits)

theorem approval_config_accepted_iff_witness:
  "configOk \<lparr>cf_Mode = ModeAny, cf_Assignees = [''ann''], cf_Policy = None, cf_RejectedOutcome = []\<rparr> \<and>
   parseConfig None = Inl [ApprovalErrInvalidConfig, JsonErrInvalid] \<and>
   errors_Is [ApprovalErrInvalidConfig, JsonErrInvalid] ApprovalErrInvalidConfig"
proof -
  have none: "parseConfig None = Inl [ApprovalErrInvalidConfig, JsonErrInvalid]" by code_simp
  show ?thesis
    using approval_config_accepted_iff[of "Some demoConfig"] approval_config_accepted_iff[of None]
      demo_config none by blast
qed

text \<open>
  C22. What an approval node makes of a command. If no task has the requested identity, the command is
  refused. Otherwise the first such task counts: it must be active and assigned to the
  actor, else the command is refused. An approval completes it with the approved outcome; in mode all
  with another active task left the node keeps waiting and no other task changes, otherwise it continues
  with the approved outcome and every other active task is closed. A rejection completes it with the
  rejected outcome, closes every other active task and rejects with the configured outcome. Any
  other command name is refused. Tasks that were not active stay as they were.
\<close>

theorem approval_decision:
  "((\<forall>t\<in>set ts. t_ID t \<noteq> c_TaskID cmd) \<longrightarrow> handleConfig config cmd ts = Inl [ApprovalErrTaskNotActive]) \<and>
   (\<forall>i<length ts. t_ID (ts ! i) = c_TaskID cmd \<and> (\<forall>j<i. t_ID (ts ! j) \<noteq> c_TaskID cmd) \<longrightarrow>
     (if t_Status (ts ! i) \<noteq> TaskStatusActive \<or> t_Assignee (ts ! i) \<noteq> c_ActorID cmd then
        handleConfig config cmd ts = Inl [ApprovalErrTaskNotActive]
      else if c_Name cmd = CommandApprove then
        if cf_Mode config = ModeAll \<and> (\<exists>j<length ts. j \<noteq> i \<and> t_Status (ts ! j) = TaskStatusActive)
        then \<exists>us. decidedTasks OutcomeApproved False i ts us \<and> handleConfig config cmd ts =
          Inr \<lparr>nr_Disposition = DispositionWaiting, nr_Outcome = [], nr_State = None, nr_Tasks = us\<rparr>
        else \<exists>us. decidedTasks OutcomeApproved True i ts us \<and> handleConfig config cmd ts =
          Inr \<lparr>nr_Disposition = DispositionContinue, nr_Outcome = OutcomeApproved, nr_State = None, nr_Tasks = us\<rparr>
      else if c_Name cmd = CommandReject then
        \<exists>us. decidedTasks OutcomeRejected True i ts us \<and> handleConfig config cmd ts =
          Inr \<lparr>nr_Disposition = DispositionReject, nr_Outcome = cf_RejectedOutcome config, nr_State = None, nr_Tasks = us\<rparr>
      else handleConfig config cmd ts = Inl [ApprovalErrInvalidCommand]))"
proof (intro conjI impI allI, goal_cases)
  case 1
  then show ?case by (simp add: handleConfig_def taskIndexOf_None[THEN iffD2])
next
  case (2 i)
  then have "taskIndexOf (c_TaskID cmd) ts = Some i" by (simp add: taskIndexOf_iff)
  then show ?case
    using decided_open[OF 2(1)] decided_final[OF 2(1)] otherActive[OF 2(1)]
    by (auto simp: handleConfig_def Let_def decideTask_def[symmetric])
qed

theorem approval_decision_witness:
  "\<exists>us. handleConfig \<lparr>cf_Mode = ModeAny, cf_Assignees = [''ann'', ''bob''], cf_Policy = None, cf_RejectedOutcome = []\<rparr>
     (demoCommand ''ann'') [demoTask 0 ''a'' ''ann'' TaskStatusActive [], demoTask 1 ''a'' ''bob'' TaskStatusActive []] =
   Inr \<lparr>nr_Disposition = DispositionContinue, nr_Outcome = OutcomeApproved, nr_State = None, nr_Tasks = us\<rparr> \<and>
   us ! 0 = demoTask 0 ''a'' ''ann'' TaskStatusCompleted OutcomeApproved \<and>
   us ! 1 = demoTask 1 ''a'' ''bob'' TaskStatusClosed []"
proof -
  let ?ts = "[demoTask 0 ''a'' ''ann'' TaskStatusActive [], demoTask 1 ''a'' ''bob'' TaskStatusActive []]"
  let ?c = "\<lparr>cf_Mode = ModeAny, cf_Assignees = [''ann'', ''bob''], cf_Policy = None, cf_RejectedOutcome = []\<rparr>"
  from approval_decision[of ?ts "demoCommand ''ann''" ?c, THEN conjunct2, rule_format, of 0]
  obtain us where "decidedTasks OutcomeApproved True 0 ?ts us" "handleConfig ?c (demoCommand ''ann'') ?ts =
      Inr \<lparr>nr_Disposition = DispositionContinue, nr_Outcome = OutcomeApproved, nr_State = None, nr_Tasks = us\<rparr>"
    by (auto simp: demoCommand_def demoTask_def ModeAny_def ModeAll_def)
  then show ?thesis
    by (intro exI[of _ us]) (auto simp: decidedTasks_def demoTask_def)
qed

text \<open>
  C23. The engine accepts every proposal of the built-in nodes: decisions of an approval node on
  a task view with distinct identities, the rounds of drafts it activates or re-activates a
  node with, and the outcome a condition node selects. A return to a condition node, which never
  waits, is refused.
\<close>

theorem builtin_proposals_accepted:
  assumes "nodeID \<noteq> []"
  shows "(handleConfig config cmd (nodeTasks (i_Tasks f) nodeID) = Inr res \<and>
      distinct (map t_ID (nodeTasks (i_Tasks f) nodeID)) \<and>
      (\<forall>t\<in>set (nodeTasks (i_Tasks f) nodeID). t_ID t \<noteq> []) \<longrightarrow>
        isOk (prepareCommandNodeResult (Some f) nodeID res)) \<and>
    (parseConfig data = Inr config' \<and> activateConfig organization config' input w = Some (Inr drafts, w') \<longrightarrow>
        isOk (prepareActivationNodeResult nodeID drafts) \<and> isOk (prepareReturnNodeResult nodeID drafts)) \<and>
    (Condition_parseConfig data = Inr rules \<and> Condition_activateConfig rules input w = Some (Inr out, w') \<longrightarrow>
        isOk (prepareActivationNodeResult nodeID out) \<and> \<not> isOk (prepareReturnNodeResult nodeID out))"
proof (intro conjI impI)
  assume "parseConfig data = Inr config' \<and> activateConfig organization config' input w = Some (Inr drafts, w')"
  then obtain as where "roundOf as drafts"
    using wpE_InrD[OF activateConfig_wp[OF parseConfig_ok]] by blast
  from round_acceptable[OF this assms]
  show "isOk (prepareActivationNodeResult nodeID drafts)" "isOk (prepareReturnNodeResult nodeID drafts)" .
next
  assume "handleConfig config cmd (nodeTasks (i_Tasks f) nodeID) = Inr res \<and>
      distinct (map t_ID (nodeTasks (i_Tasks f) nodeID)) \<and>
      (\<forall>t\<in>set (nodeTasks (i_Tasks f) nodeID). t_ID t \<noteq> [])"
  then show "isOk (prepareCommandNodeResult (Some f) nodeID res)"
    using handleConfig_acceptable[OF _ assms] by blast
next
  assume "Condition_parseConfig data = Inr rules \<and> Condition_activateConfig rules input w = Some (Inr out, w')"
  then obtain name where "name \<noteq> []" "out = continueWith name" using condition_success by blast
  then show "isOk (prepareActivationNodeResult nodeID out)" "\<not> isOk (prepareReturnNodeResult nodeID out)"
    using continue_proposal[OF _ assms] by blast+
qed

theorem builtin_proposals_accepted_witness:
  "\<exists>res. handleConfig \<lparr>cf_Mode = ModeAny, cf_Assignees = [''ann''], cf_Policy = None, cf_RejectedOutcome = []\<rparr>
      (demoCommand ''ann'') (nodeTasks (i_Tasks demoAtA) ''a'') = Inr res \<and>
    isOk (prepareCommandNodeResult (Some demoAtA) ''a'' res)"
proof -
  let ?c = "\<lparr>cf_Mode = ModeAny, cf_Assignees = [''ann''], cf_Policy = None, cf_RejectedOutcome = []\<rparr>"
  have "isOk (handleConfig ?c (demoCommand ''ann'') (nodeTasks (i_Tasks demoAtA) ''a''))" by code_simp
  then obtain res where "handleConfig ?c (demoCommand ''ann'') (nodeTasks (i_Tasks demoAtA) ''a'') = Inr res"
    by (auto simp: isOk_iff)
  then show ?thesis
    using builtin_proposals_accepted[THEN conjunct1, of "''a''" ?c "demoCommand ''ann''" demoAtA res]
    by (simp add: nodeTasks_def demoAtA_def demoTask_def demoTaskID_def)
qed

text \<open>
  The executor that a built-in node prepares from a configuration behaves, on every
  input and in every environment, as the original methods given that configuration.
\<close>

theorem builtin_prepared_equals_legacy:
  assumes "g = NewHandlerWithOrganization organization \<or> g = NewConditionHandler"
    and "prepareRegisteredNodeHandler (Some g) config = Inr h"
  shows "ActivatePrepared h input = nh_Activate g \<lparr>ai_Config = config, ai_Data = pai_Data input\<rparr> \<and>
    HandlePrepared h command = nh_Handle g \<lparr>ci_Command = pci_Command command, ci_Config = config,
      ci_Data = pci_Data command, ci_State = pci_State command, ci_Tasks = pci_Tasks command\<rparr>"
  using assms(1)
proof
  assume g: "g = NewHandlerWithOrganization organization"
  obtain c where c: "parseConfig config = Inr c" "ActivatePrepared h = Approval_ActivatePrepared organization c"
    "HandlePrepared h = Approval_HandlePrepared c"
    using prepared_executor[OF assms(2)[unfolded g]] by blast
  show ?thesis unfolding g NewHandlerWithOrganization_def NodeHandler.simps c(2,3)
      legacy_Activate[OF c(1)] legacy_Handle[OF c(1)]
    by (cases input, cases command, simp)
next
  assume g: "g = NewConditionHandler"
  obtain c where c: "Condition_parseConfig config = Inr c" "ActivatePrepared h = Condition_ActivatePrepared c"
    "HandlePrepared h = Condition_HandlePrepared"
    using condition_executor[OF assms(2)[unfolded g]] by blast
  show ?thesis unfolding g NewConditionHandler_def NodeHandler.simps c(2,3) condition_legacy_Activate[OF c(1)]
    by (cases input, simp add: Condition_HandlePrepared_def Condition_Handle_def)
qed

theorem builtin_prepared_equals_legacy_witness:
  "\<exists>h. prepareRegisteredNodeHandler (Some NewHandler) (Some demoConfig) = Inr (h :: unit PreparedNodeHandler) \<and>
     ActivatePrepared h \<lparr>pai_Data = None\<rparr> =
       nh_Activate NewHandler \<lparr>ai_Config = Some demoConfig, ai_Data = None\<rparr>"
proof -
  have "isOk (prepareRegisteredNodeHandler (Some (NewHandler :: unit NodeHandler)) (Some demoConfig))" by code_simp
  then obtain h :: "unit PreparedNodeHandler" where
    h: "prepareRegisteredNodeHandler (Some NewHandler) (Some demoConfig) = Inr h"
    by (auto simp: isOk_iff)
  from builtin_prepared_equals_legacy[OF disjI1[OF NewHandler_def] h, where input = "\<lparr>pai_Data = None\<rparr>"] h
  show ?thesis by auto
qed

section \<open>Strict JSON\<close>

text \<open>
  C24. \<open>jsonstrict.Validate\<close> accepts exactly the byte strings that are valid UTF-8, lex to the tokens of one
  JSON value in which no object, at any depth, has two members of one name, and whose string literals
  obey the grammar \<open>pairedText\<close>: a high-surrogate escape is followed at once by a low-surrogate
  escape, and no low-surrogate escape stands anywhere else. Every refusal is the invalid-JSON error.
\<close>

theorem strict_Validate_iff:
  "(Validate data = Inr () \<longleftrightarrow> utf8_Valid data \<and> pairedText data \<and>
      (\<exists>v. lex data = Some (toks v) \<and> unique_members v)) \<and>
   (\<forall>e. Validate data = Inl e \<longrightarrow> e = [JsonErrInvalid])"
  using Validate_iff Validate_error json_parse_iff paired_iff by auto

theorem strict_Validate_iff_witness:
  "Validate (CHR 0x22 # CHR 0x5C # ''uDC00'' @ [CHR 0x22]) = Inl [JsonErrInvalid] \<and>
   Validate demoConfig = Inr () \<and> pairedText demoConfig"
proof -
  let ?lone = "CHR 0x22 # CHR 0x5C # ''uDC00'' @ [CHR 0x22]"
  have "hex_digits_value ''DC00'' = Some 0xDC00" by (simp add: hex_digits_value_def hexAcc_def hex_val_def)
  then obtain w where "decodeHexEscape ''DC00'' = Some w" "unat w = 0xDC00"
    using hex_word(2)[of "''DC00''" "0xDC00"] by auto
  then have "\<not> pairedText ?lone" using paired_accepted[of ?lone] by (auto simp: surrogate_ranges)
  moreover have "Validate demoConfig = Inr ()" by code_simp
  ultimately show ?thesis
    using strict_Validate_iff[of ?lone] strict_Validate_iff[of demoConfig] by (cases "Validate ?lone") auto
qed

text \<open>
  \<open>jsonstrict.Decode\<close> answers exactly what the typed decoder answers on documents that
  pass \<open>Validate\<close> and whose member names match the field names of the target exactly, at
  every depth; it refuses all others.
\<close>

theorem strict_Decode_iff:
  "Decode data T typed = Inr x \<longleftrightarrow> Validate data = Inr () \<and>
     (\<exists>v. json_parse data = Some v \<and> unique_members v \<and> validateExactValue v T = Inr () \<and> typed v = Inr x)"
  by (rule Decode_Inr_iff)

text \<open>
  The 16-bit accumulator that decodes a \<open>\\u\<close> escape computes the value of its four
  hexadecimal digits, without losing a bit, and refuses exactly the strings with another
  character.
\<close>

theorem hex_escape_exact:
  assumes "length data = 4"
  shows "map_option unat (decodeHexEscape data) = hex_digits_value data"
  by (rule decodeHexEscape_value[OF assms])

theorem hex_escape_exact_witness:
  "map_option unat (decodeHexEscape ''D83d'') = Some 0xD83D"
proof -
  have "hex_digits_value ''D83d'' = Some 0xD83D"
    by (simp add: hex_digits_value_def hexAcc_def hex_val_def)
  moreover have "length ''D83d'' = 4" by simp
  ultimately show ?thesis using hex_escape_exact by metis
qed

section \<open>Registry, versions and identities\<close>

text \<open>
  Registration is insert-only: a failed call changes nothing, a successful one binds
  exactly its kind, which was free, and no handler registered before is ever replaced.
\<close>

theorem Register_is_insert_only:
  assumes "Register r kind h = (res, r')"
  shows "(\<forall>e. res = Inl e \<longrightarrow> r' = r) \<and>
    (res = Inr () \<longrightarrow> Registry_handler r kind = Inl [ErrHandlerNotFound] \<and>
       Registry_handler r' kind = Inr (the h) \<and>
       (\<forall>k. k \<noteq> kind \<longrightarrow> Registry_handler r' k = Registry_handler r k)) \<and>
    (\<forall>k g. Registry_handler r k = Inr g \<longrightarrow> Registry_handler r' k = Inr g)"
proof (cases res)
  case (Inl e)
  then have "r' = r" using assms Register_error_unchanged by blast
  then show ?thesis using Inl by simp
next
  case (Inr u)
  then have run: "Register r kind h = (Inr (), r')" using assms by simp
  note reg = Register_handler[OF run]
  have "Registry_handler r' k = Inr g" if "Registry_handler r k = Inr g" for k g
    using that reg(2,3) by (cases "k = kind") auto
  then show ?thesis using Inr reg by auto
qed

theorem Register_is_insert_only_witness:
  "fst (Register (Some demoRegistry) approvalKind (Some NewHandler)) = Inl [ErrHandlerExists] \<and>
   snd (Register (Some demoRegistry) approvalKind (Some NewHandler)) = Some demoRegistry"
proof -
  let ?r = "Register (Some demoRegistry) approvalKind (Some NewHandler)"
  have err: "fst ?r = Inl [ErrHandlerExists]" by (simp add: Register_def demoRegistry_def approvalKind_def)
  have "?r = (fst ?r, snd ?r)" by simp
  from Register_is_insert_only[OF this] err show ?thesis by blast
qed

text \<open>
  The version of a candidate increases by exactly one or, at the greatest 64-bit value,
  the step is refused; it never wraps, and nothing else of the candidate changes.
\<close>

theorem advanceVersion_never_wraps:
  "case advanceVersion (Some i) of
     Inl e \<Rightarrow> unat (i_Version i) = 2 ^ 64 - 1 \<and> e = [ErrVersionOverflow]
   | Inr c \<Rightarrow> unat (i_Version c) = unat (i_Version i) + 1 \<and> c = i\<lparr>i_Version := i_Version c\<rparr>"
proof (cases "i_Version i = - 1")
  case True
  then show ?thesis by (simp add: advanceVersion_def unsigned_minus_1_eq_mask mask_eq_exp_minus_1)
next
  case False
  then have "1 + i_Version i \<noteq> 0" by (metis add.commute eq_neg_iff_add_eq_0)
  from unatSuc[OF this] False show ?thesis by (simp add: advanceVersion_def add.commute)
qed

text \<open>
  Task identities are as distinct as the entropy they are drawn from: two identities are
  equal exactly when the same bytes were read, and 16 bytes give 32 digits after the prefix.
\<close>

theorem task_identities_distinct:
  assumes "newTaskID w = Some (Inr a, w')" and "newTaskID v = Some (Inr b, v')"
  shows "(a = b \<longleftrightarrow> entropy w (entropy_pos w) = entropy v (entropy_pos v)) \<and>
    (\<forall>bytes. entropy w (entropy_pos w) = Inr bytes \<longrightarrow> length a = 5 + 2 * length bytes)"
  using assms hexEncode_inj hexEncode_length
  by (auto simp: newTaskID_def bindE_Inr_iff randRead_def ret_def)

theorem task_identities_distinct_witness:
  "\<exists>a b w' v'. newTaskID demoEnv = Some (Inr a, w') \<and> newTaskID laterEnv = Some (Inr b, v') \<and> a \<noteq> b"
proof -
  obtain a b w' v' where "newTaskID demoEnv = Some (Inr a, w')" "newTaskID laterEnv = Some (Inr b, v')"
    by (auto simp: newTaskID_def bindE_def randRead_def ret_def demoEnv_def laterEnv_def quietEnv_def)
  moreover have "entropy demoEnv (entropy_pos demoEnv) \<noteq> entropy laterEnv (entropy_pos laterEnv)"
    by code_simp
  ultimately show ?thesis using task_identities_distinct by blast
qed

section \<open>Conditions\<close>

text \<open>
  A condition configuration is accepted exactly when strict decoding against the closed
  schema yields it, it has a rule, and every rule has a known match mode, an outcome and
  conditions whose fields are pointers and whose operator and literal fit their type.
  Every refusal is the invalid-configuration error.
\<close>

theorem condition_config_accepted_iff:
  "(Condition_parseConfig raw = Inr c \<longleftrightarrow>
     Condition_decodeConfig (raw_bytes raw) = Inr c \<and> cc_Rules c \<noteq> [] \<and> (\<forall>rule\<in>set (cc_Rules c). ruleOk rule)) \<and>
   (Condition_parseConfig raw = Inl e \<longrightarrow> errors_Is e ConditionErrInvalidConfig)"
  using Condition_parseConfig_iff Condition_parseConfig_error by blast

theorem condition_config_accepted_iff_witness:
  "errors_Is (projl (Condition_parseConfig (Some ''{}''))) ConditionErrInvalidConfig \<and> ruleOk smallRuleOf"
proof -
  have "\<not> isOk (Condition_parseConfig (Some ''{}''))" by code_simp
  then obtain e where "Condition_parseConfig (Some ''{}'') = Inl e"
    by (cases "Condition_parseConfig (Some ''{}'')") auto
  then show ?thesis
    using condition_config_accepted_iff[of "Some ''{}''" _ e] route_config
      condition_config_accepted_iff[of "Some routeConfig" "\<lparr>cc_Rules = [bigRuleOf, smallRuleOf], cc_DefaultOutcome = []\<rparr>"]
    by simp
qed

text \<open>
  C25. Pointers and fields. Parsing inverts printing: the pointers that parse are exactly the printed
  non-empty lists of names (each name after a slash, with \<open>~0\<close> for a tilde and \<open>~1\<close> for a slash), and each
  parses to the names it was printed from; every other text is refused as an invalid pointer. The
  field of a pointer in business data is the value its names lead to through nested objects; there is
  none if the text is no pointer, a name is missing, or a value on the way is not an object.
\<close>

theorem pointer_fields:
  "(parsePointer p = Inr names \<longleftrightarrow> names \<noteq> [] \<and> p = pointerOf names) \<and>
   (\<forall>e. parsePointer p = Inl e \<longrightarrow> e = [ConditionErrInvalidPointer]) \<and>
   (lookupField data p = Some v \<longleftrightarrow> fieldAt data p v)"
  by (simp only: parsePointer_iff lookupField_iff) (simp add: parsePointer_error)

theorem pointer_fields_witness:
  "parsePointer ''/a~1b'' = Inr [''a/b''] \<and> parsePointer ''a'' = Inl [ConditionErrInvalidPointer] \<and>
   lookupField [(''a/b'', JNull)] ''/a~1b'' = Some JNull"
proof -
  have p: "''/a~1b'' = pointerOf [''a/b'']" by (simp add: pointerOf_def)
  moreover have "reaches (JObject [(''a/b'', JNull)]) [''a/b''] JNull" by (simp add: reaches_simps)
  ultimately have "fieldAt [(''a/b'', JNull)] ''/a~1b'' JNull" unfolding fieldAt_def by blast
  moreover have "\<not> isOk (parsePointer ''a'')" by (simp add: parsePointer_def)
  then obtain e where "parsePointer ''a'' = Inl e" by (cases "parsePointer ''a''") auto
  ultimately show ?thesis
    using p pointer_fields[of "''/a~1b''" "[''a/b'']" "[(''a/b'', JNull)]" JNull] pointer_fields[of "''a''"] by simp
qed

text \<open>
  C26. What a validated condition node does when it is not cancelled. If every expression of
  every rule finds its field with the declared type, it selects the outcome of the
  one rule that holds, the default outcome (or the no-match error) when none holds, and the multiple-match error
  otherwise. If some does not, it reports that; if the data are no object, that. It
  always answers.
\<close>

theorem condition_selects:
  assumes "Condition_parseConfig raw = Inr config" and "\<forall>k. ctx_obs w k = None"
  shows "\<exists>r w'. Condition_activateConfig config d w = Some (r, w') \<and>
    (case Decode (raw_bytes d) (GMap GOpen) decodeObject of
       Inr (Some data) \<Rightarrow>
         if applicable config data then r = selected config data else \<exists>e. r = Inl e \<and> dataError e
     | _ \<Rightarrow> \<exists>e. r = Inl e \<and> errors_Is e ConditionErrInvalidData)"
proof (cases "\<exists>data. Decode (raw_bytes d) (GMap GOpen) decodeObject = Inr (Some data)")
  case True
  then obtain data where data: "Decode (raw_bytes d) (GMap GOpen) decodeObject = Inr (Some data)" by blast
  have ok: "\<forall>rule\<in>set (cc_Rules config). ruleOk rule" using assms(1) by (simp add: Condition_parseConfig_iff)
  note wp = Condition_activate_wp[OF ok data, of w]
  obtain r w' where run: "Condition_activateConfig config d w = Some (r, w')" using wpE_returns[OF wp] by blast
  show ?thesis
  proof (cases r)
    case (Inl e)
    then show ?thesis using wpE_InlD[OF wp] run data assms(2) by (auto simp: ctxCause_def)
  next
    case (Inr x)
    then show ?thesis using wpE_InrD[OF wp] run data by auto
  qed
next
  case False
  note wp = Condition_activate_no_object[OF False, where config = config and w = w]
  obtain r w' where run: "Condition_activateConfig config d w = Some (r, w')" using wpE_returns[OF wp] by blast
  then obtain e where "r = Inl e" "errors_Is e ConditionErrInvalidData"
    using wpE_InlD[OF wp] wpE_InrD[OF wp] assms(2) by (cases r) (auto simp: ctxCause_def)
  with run False show ?thesis by (auto split: sum.split option.split)
qed

theorem condition_selects_witness:
  "\<exists>w'. Condition_activateConfig \<lparr>cc_Rules = [bigRuleOf, smallRuleOf], cc_DefaultOutcome = []\<rparr> (Some orderData) demoEnv =
     Some (Inr (continueWith ''big''), w') \<and>
   selected \<lparr>cc_Rules = [bigRuleOf, smallRuleOf], cc_DefaultOutcome = []\<rparr> orderMembers = Inr (continueWith ''big'')"
proof -
  have live: "\<forall>k. ctx_obs demoEnv k = None" by (simp add: demoEnv_def quietEnv_def)
  obtain w' where run: "Condition_activateConfig \<lparr>cc_Rules = [bigRuleOf, smallRuleOf], cc_DefaultOutcome = []\<rparr>
      (Some orderData) demoEnv = Some (Inr (continueWith ''big''), w')"
    using order_evaluates by (auto simp: ranTo_iff)
  with condition_selects[OF route_config live, of "Some orderData"] order_data show ?thesis
    by (auto split: if_splits simp: raw_bytes_def)
qed

text \<open>
  The outcome of a condition node does not depend on the order in which its rules, or the
  conditions of a rule, are written.
\<close>

theorem condition_order_irrelevant:
  assumes "Condition_parseConfig raw = Inr c" and "Condition_parseConfig raw' = Inr c'" and "sameRules c c'"
    and "\<forall>k. ctx_obs w2 k = None"
    and "Condition_activateConfig c d w = Some (Inr res, w1)"
  shows "\<exists>w3. Condition_activateConfig c' d w2 = Some (Inr res, w3)"
proof (cases "\<exists>data. Decode (raw_bytes d) (GMap GOpen) decodeObject = Inr (Some data)")
  case True
  then obtain data where data: "Decode (raw_bytes d) (GMap GOpen) decodeObject = Inr (Some data)" by blast
  have ok: "\<forall>rule\<in>set (cc_Rules c). ruleOk rule" "\<forall>rule\<in>set (cc_Rules c'). ruleOk rule"
    using assms(1,2) by (simp_all add: Condition_parseConfig_iff)
  have sel: "applicable c data" "selected c data = Inr res"
    using wpE_InrD[OF Condition_activate_wp[OF ok(1) data] assms(5)] by simp_all
  note wp = Condition_activate_wp[OF ok(2) data, of w2]
  obtain r w3 where run: "Condition_activateConfig c' d w2 = Some (r, w3)" using wpE_returns[OF wp] by blast
  moreover have "r = Inr res"
    using wpE_InrD[OF wp] wpE_InlD[OF wp] run assms(4) sel sameRules_selected[OF assms(3), of data]
    by (cases r) (auto simp: ctxCause_def)
  ultimately show ?thesis by blast
next
  case False
  show ?thesis using wpE_InrD[OF Condition_activate_no_object[OF False] assms(5)] by simp
qed

theorem condition_order_irrelevant_witness:
  "\<exists>w3. Condition_activateConfig \<lparr>cc_Rules = [smallRuleOf, bigRuleOf], cc_DefaultOutcome = []\<rparr>
     (Some orderData) demoEnv = Some (Inr (continueWith ''big''), w3)"
proof -
  have "sameRules \<lparr>cc_Rules = [bigRuleOf, smallRuleOf], cc_DefaultOutcome = []\<rparr>
      \<lparr>cc_Rules = [smallRuleOf, bigRuleOf], cc_DefaultOutcome = []\<rparr>"
    by (simp add: sameRules_def add_mset_commute)
  moreover have "\<forall>k. ctx_obs demoEnv k = None" by (simp add: demoEnv_def quietEnv_def)
  moreover obtain w1 where "Condition_activateConfig \<lparr>cc_Rules = [bigRuleOf, smallRuleOf], cc_DefaultOutcome = []\<rparr>
      (Some orderData) demoEnv = Some (Inr (continueWith ''big''), w1)"
    using order_evaluates by (auto simp: ranTo_iff)
  ultimately show ?thesis by (rule condition_order_irrelevant[OF route_config route_config_swapped])
qed

text \<open>
  C27. With a registry of built-in handlers whose organization adapters answer, and policies that
  answer, every operation's computation between load and save returns from every waiting instance, and
  so does the computation of a new instance: no definition, configuration, data or
  command makes the engine run forever.
\<close>

theorem builtin_operations_return:
  assumes "builtin registry" and "waiting i" and "\<forall>a w. leave a i w \<noteq> None"
    and "\<forall>r w. rewind r i w \<noteq> None" and "\<forall>r t w. move r t i w \<noteq> None"
  shows "(\<exists>x. startCandidate (Some registry) (Some d) sr w = Some x) \<and>
    (\<exists>x. commandCandidate (handleCommand (Some registry) cmd) i w = Some x) \<and>
    (\<exists>x. commandCandidate (withdrawCommand wr leave) i w = Some x) \<and>
    (\<exists>x. commandCandidate (returnCommand (Some registry) rr rewind) i w = Some x) \<and>
    (\<exists>x. commandCandidate (transferCommand tr move) i w = Some x)"
proof -
  have h: "False \<or> handlersReturnFor (Some registry) d" for d by (simp add: builtin_returns[OF assms(1)])
  have "\<exists>x. startCandidate (Some registry) (Some d) sr w = Some x"
    using wpE_returns[OF start_candidate[OF h]] by blast
  moreover have "\<exists>x. commandCandidate (handleCommand (Some registry) cmd) i w = Some x"
    using wpE_returns[OF handle_candidate[OF assms(2) h]] by blast
  moreover have "\<exists>x. commandCandidate (withdrawCommand wr leave) i w = Some x"
    using wpE_returns[OF withdraw_candidate[where D = False and policy = leave and r = wr]] assms(3) by blast
  moreover have "\<exists>x. commandCandidate (returnCommand (Some registry) rr rewind) i w = Some x"
    using wpE_returns[OF return_candidate[OF assms(2), where D = False and policy = rewind and r = rr]] h assms(4)
    by blast
  moreover have "\<exists>x. commandCandidate (transferCommand tr move) i w = Some x"
    using wpE_returns[OF transfer_candidate[OF assms(2), where D = False and policy = move and r = tr]] assms(5)
    by blast
  ultimately show ?thesis by blast
qed

theorem builtin_operations_return_witness:
  "\<exists>x. commandCandidate (handleCommand (Some demoRegistry) (demoCommand ''ann'')) demoAtA laterEnv = Some x"
proof -
  have "builtin demoRegistry"
    by (auto simp: builtin_def demoRegistry_def NewHandler_def organizationReturns_def split: if_splits)
  then show ?thesis
    using demo_settled(2) builtin_operations_return[of demoRegistry demoAtA "\<lambda>_ _. ret ()" "\<lambda>_ _. ret ()" "\<lambda>_ _ _. ret ()"]
    by (simp add: ret_def)
qed

end
